(* ===== verification/Prelude.thy ===== *)
theory Prelude
  imports Main "HOL-Library.Sublist" "HOL-Library.List_Lexorder" "HOL-Library.Char_ord"
begin

section \<open>Prelude: strings, errors, effects and list lemmas shared by every component\<close>

text \<open>
  Go strings and byte slices are sequences of bytes, so both are \<^typ>\<open>string\<close> here
  (a list of 8-bit characters).  The functions of Go's \<open>strings\<close> package that the
  program uses are given below with their Go meaning on ASCII text; a byte outside ASCII is
  neither white space nor a letter with a case, so case folding leaves it alone.

  A Go error is a value of \<open>error\<close>: it either wraps a sentinel (what \<open>errors.Is\<close>
  can see), or is a plain message, or joins several errors.  Message texts are reduced to a
  tag, the numbers and names a message states are kept as details.

  An operation with an effect takes the world and returns its result with the new world:
  \<open>'w \<Rightarrow> (error + 'a) \<times> 'w\<close>.
\<close>

type_synonym bytes = string
type_synonym ids = "string list"

subsection \<open>Collections of facts\<close>

named_theorems go_string "definitions of the Go string functions, for evaluation"
named_theorems check_simps "when a check of the domain accepts"

subsection \<open>Go's string functions\<close>

definition is_space :: "char \<Rightarrow> bool" where
  "is_space c \<longleftrightarrow> c \<in> {CHR 0x09, CHR 0x0A, CHR 0x0B, CHR 0x0C, CHR 0x0D, CHR '' ''}"

definition trim_left :: "string \<Rightarrow> string" where
  "trim_left s = dropWhile is_space s"

definition trim_right :: "string \<Rightarrow> string" where
  "trim_right s = rev (dropWhile is_space (rev s))"

definition trim_space :: "string \<Rightarrow> string" where
  "trim_space s = trim_right (trim_left s)"

definition lower_char :: "char \<Rightarrow> char" where
  "lower_char c =
     (if 65 \<le> (of_char c :: nat) \<and> (of_char c :: nat) \<le> 90
      then char_of ((of_char c :: nat) + 32) else c)"

definition to_lower :: "string \<Rightarrow> string" where
  "to_lower s = map lower_char s"

definition equal_fold :: "string \<Rightarrow> string \<Rightarrow> bool" where
  "equal_fold s t \<longleftrightarrow> to_lower s = to_lower t"

definition has_prefix :: "string \<Rightarrow> string \<Rightarrow> bool" where
  "has_prefix s p \<longleftrightarrow> take (length p) s = p"

definition has_suffix :: "string \<Rightarrow> string \<Rightarrow> bool" where
  "has_suffix s p \<longleftrightarrow> has_prefix (rev s) (rev p)"

fun str_contains :: "string \<Rightarrow> string \<Rightarrow> bool" where
  "str_contains [] sub \<longleftrightarrow> sub = []"
| "str_contains (c # s) sub \<longleftrightarrow> has_prefix (c # s) sub \<or> str_contains s sub"

definition contains_any :: "string \<Rightarrow> string \<Rightarrow> bool" where
  "contains_any s cs \<longleftrightarrow> list_ex (\<lambda>c. c \<in> set cs) s"

fun join :: "string \<Rightarrow> string list \<Rightarrow> string" where
  "join sep [] = []"
| "join sep [x] = x"
| "join sep (x # y # xs) = x @ sep @ join sep (y # xs)"

fun split_char :: "char \<Rightarrow> string \<Rightarrow> string list" where
  "split_char sep [] = [[]]"
| "split_char sep (c # s) =
     (if c = sep then [] # split_char sep s
      else (case split_char sep s of [] \<Rightarrow> [[c]] | p # ps \<Rightarrow> (c # p) # ps))"

declare is_space_def [go_string] trim_left_def [go_string] trim_right_def [go_string]
  trim_space_def [go_string] lower_char_def [go_string] to_lower_def [go_string]
  equal_fold_def [go_string] has_prefix_def [go_string] has_suffix_def [go_string]
  contains_any_def [go_string]

lemma has_prefix_iff: "has_prefix s p \<longleftrightarrow> (\<exists>r. s = p @ r)"
  unfolding has_prefix_def by (metis append_eq_conv_conj append_take_drop_id)

lemma has_prefix_append [simp]: "has_prefix (p @ r) p"
  by (simp add: has_prefix_def)

lemma has_prefix_Nil [simp]: "has_prefix s []"
  by (simp add: has_prefix_def)

lemma str_contains_iff: "str_contains s sub \<longleftrightarrow> (\<exists>a b. s = a @ sub @ b)"
proof (induction s)
  case Nil
  then show ?case by auto
next
  case (Cons c s)
  have "(\<exists>a b. c # s = a @ sub @ b) \<longleftrightarrow>
        (\<exists>b. c # s = sub @ b) \<or> (\<exists>a b. s = a @ sub @ b)"
    by (metis append_Cons append_Nil list.exhaust list.inject)
  then show ?case using Cons by (simp add: has_prefix_iff)
qed

lemma contains_any_iff: "contains_any s cs \<longleftrightarrow> set s \<inter> set cs \<noteq> {}"
  by (auto simp: contains_any_def list_ex_iff)

lemma lower_char_idem [simp]: "lower_char (lower_char c) = lower_char c"
proof (cases "65 \<le> (of_char c :: nat) \<and> (of_char c :: nat) \<le> 90")
  case True
  then have "(of_char (char_of ((of_char c :: nat) + 32)) :: nat) = of_char c + 32"
    by simp
  with True show ?thesis by (simp add: lower_char_def)
next
  case False
  then have "lower_char c = c" by (auto simp: lower_char_def)
  then show ?thesis by simp
qed

lemma to_lower_idem [simp]: "to_lower (to_lower s) = to_lower s"
  by (simp add: to_lower_def)

lemma to_lower_eq_Nil [simp]: "to_lower s = [] \<longleftrightarrow> s = []"
  by (simp add: to_lower_def)

lemma equal_fold_refl [simp]: "equal_fold s s"
  by (simp add: equal_fold_def)

lemma equal_fold_sym: "equal_fold s t \<Longrightarrow> equal_fold t s"
  by (simp add: equal_fold_def)

lemma set_trim_space: "set (trim_space s) \<subseteq> set s"
proof
  fix x assume "x \<in> set (trim_space s)"
  then have "x \<in> set (dropWhile is_space (rev (dropWhile is_space s)))"
    by (simp add: trim_space_def trim_right_def trim_left_def)
  then show "x \<in> set s" by (metis set_dropWhileD set_rev)
qed

lemma dropWhile_dropWhile_rev:
  assumes "xs = dropWhile P xs"
  shows "dropWhile P (rev (dropWhile P (rev xs))) = rev (dropWhile P (rev xs))"
proof (cases xs)
  case (Cons y ys)
  with assms have y: "\<not> P y"
    by (metis dropWhile.simps(2) dropWhile_eq_self_iff list.sel(1) list.simps(3))
  have "dropWhile P (rev xs) = dropWhile P (rev ys) @ [y]"
    using y Cons by (induction "rev ys" rule: rev_induct) (auto simp: dropWhile_append)
  then have "rev (dropWhile P (rev xs)) = y # rev (dropWhile P (rev ys))" by simp
  with y show ?thesis by simp
qed simp

lemma trim_space_idem [simp]: "trim_space (trim_space s) = trim_space s"
proof -
  let ?l = "dropWhile is_space s"
  have l: "?l = dropWhile is_space ?l" by simp
  show ?thesis
    unfolding trim_space_def trim_left_def trim_right_def
    using dropWhile_dropWhile_rev [OF l] by simp
qed

lemma join_map_single: "join sep [x] = x"
  by simp

lemma split_char_nonempty [simp]: "split_char sep s \<noteq> []"
  by (cases s) (auto split: list.splits)

lemma split_char_join: "join [sep] (split_char sep s) = s"
proof (induction s)
  case (Cons c s)
  obtain p ps where ps: "split_char sep s = p # ps"
    by (cases "split_char sep s") auto
  show ?case
  proof (cases "c = sep")
    case True
    with Cons ps show ?thesis by simp
  next
    case False
    then show ?thesis using Cons ps by (cases ps) auto
  qed
qed simp

subsection \<open>Errors\<close>

text \<open>
  The sentinel errors of the program and of \<open>context\<close> and \<open>os\<close>: the values
  \<open>errors.Is\<close> is asked about.
\<close>

datatype sentinel =
    ErrBadID | ErrBadScope | ErrBadFolder | ErrFolderNotEmpty | ErrFolderProtected
  | ErrBulkSize | ErrFetchTooLarge | ErrScanTooLarge | ErrNoReplyTarget | ErrForwardTooLarge
  | ErrOutboxBusy | ErrPermanent | Canceled | DeadlineExceeded | ErrNotExist

datatype detail = Str string | Num int

datatype error =
    Wraps sentinel "detail list"
  | Failure string
  | Joined "error list"

fun errors_is :: "error \<Rightarrow> sentinel \<Rightarrow> bool" where
  "errors_is (Wraps s ds) k \<longleftrightarrow> s = k"
| "errors_is (Failure m) k \<longleftrightarrow> False"
| "errors_is (Joined es) k \<longleftrightarrow> (\<exists>e \<in> set es. errors_is e k)"

text \<open>\<open>errors.Join\<close>: nil for no error at all.\<close>

definition join_errors :: "error list \<Rightarrow> error option" where
  "join_errors es = (if es = [] then None else Some (Joined es))"

lemma join_errors_None [simp]: "join_errors es = None \<longleftrightarrow> es = []"
  by (simp add: join_errors_def)

text \<open>A check of the domain: \<open>None\<close> accepts, \<open>Some e\<close> refuses.\<close>

type_synonym check = "error option"

type_synonym ('w, 'a) effect = "'w \<Rightarrow> (error + 'a) \<times> 'w"

subsection \<open>Lists and maps\<close>

lemma distinct_append_filter:
  "distinct xs \<Longrightarrow> distinct (filter P xs @ filter (\<lambda>x. \<not> P x) xs)"
  by auto

lemma map_filter_fst_dom: "map_of ps k = Some v \<Longrightarrow> k \<in> fst ` set ps"
  by (metis fst_conv image_eqI map_of_SomeD)

end
