(* ===== verification/Mail_Domain.thy ===== *)
theory Mail_Domain
  imports Prelude "HOL-Library.Word" "HOL-Library.Multiset"
begin

section \<open>Domain: scopes, batches, budgets and folder rules (domain/mailbox.go)\<close>

text \<open>
  The value types and the checks every layer shares: listing scopes, the folder-name and
  folder-deletion rules, the batch cap, the byte and scan budgets, and the per-id results of
  bulk operations.  A Go \<open>int\<close> that is only compared is an \<^typ>\<open>int\<close>; the byte
  totals are \<open>int64\<close> and are summed, so they keep their width as signed 64-bit words.
\<close>

type_synonym int64 = "64 word"

subsection \<open>Envelopes and pages\<close>

record message_headers =
  From :: string
  To :: string
  Subject :: string
  Date :: string
  MessageID :: string

record message_summary =
  sum_id :: string
  sum_headers :: message_headers

type_synonym scope = string

definition ScopeUnread :: scope where "ScopeUnread = ''unread''"
definition ScopeRead :: scope where "ScopeRead = ''read''"
definition ScopeAll :: scope where "ScopeAll = ''all''"

lemmas scope_defs = ScopeUnread_def ScopeRead_def ScopeAll_def

record message_page =
  Messages :: "message_summary list"
  IDs :: ids
  Total :: nat
  Offset :: int
  page_scope :: scope

definition ParseScope :: "string \<Rightarrow> error + scope" where
  "ParseScope name =
     (if name = [] \<or> name = ScopeUnread then Inr ScopeUnread
      else if name = ScopeRead then Inr ScopeRead
      else if name = ScopeAll then Inr ScopeAll
      else Inl (Wraps ErrBadScope [Str name]))"

subsection \<open>Folder rules\<close>

text \<open>A control character: below 0x20, or 0x7f.\<close>

definition control_char :: "char \<Rightarrow> bool" where
  "control_char c \<longleftrightarrow> (of_char c :: nat) < 0x20 \<or> (of_char c :: nat) = 0x7F"

definition CheckFolderName :: "string \<Rightarrow> check" where
  "CheckFolderName name =
     (if trim_space name = [] then Some (Wraps ErrBadFolder [])
      else if list_ex control_char name then Some (Wraps ErrBadFolder [Str name])
      else None)"

definition CheckFolderEmpty :: "string \<Rightarrow> int \<Rightarrow> check" where
  "CheckFolderEmpty name messages =
     (if messages > 0 then Some (Wraps ErrFolderNotEmpty [Str name, Num messages]) else None)"

definition CheckFolderChildless :: "string \<Rightarrow> ids \<Rightarrow> check" where
  "CheckFolderChildless name children =
     (if length children > 0
      then Some (Wraps ErrFolderNotEmpty ([Str name, Num (int (length children))] @ map Str children))
      else None)"

datatype curation_route =
  RouteOverride | RouteDeclared | RouteConvention | RouteAlias | RouteCreate | RouteFixed

record curation_destination =
  Folder :: string
  Route :: curation_route

record curation_plan =
  Archive :: curation_destination
  Trash :: curation_destination

record curation_capabilities =
  MoveMode :: string
  PermanentDelete :: bool
  SourceRemovedOnMove :: bool

text \<open>
  The destinations are examined in the order archive, trash.  The remedy the message names
  depends on the route; it is kept as the last detail (empty where the layout is fixed).
\<close>

definition protected_error :: "string \<Rightarrow> curation_destination \<Rightarrow> string \<Rightarrow> string \<Rightarrow> error" where
  "protected_error name dest tool override =
     Wraps ErrFolderProtected
       [Str name, Str tool, Str (if Route dest = RouteFixed then [] else override)]"

fun deletable_loop ::
  "string \<Rightarrow> string \<Rightarrow> (curation_destination \<times> string \<times> string) list \<Rightarrow> check" where
  "deletable_loop name resolved [] = None"
| "deletable_loop name resolved ((dest, tool, override) # ds) =
     (if Folder dest = [] \<or> Folder dest \<noteq> resolved then deletable_loop name resolved ds
      else Some (protected_error name dest tool override))"

definition CheckFolderDeletable :: "string \<Rightarrow> string \<Rightarrow> curation_plan \<Rightarrow> check" where
  "CheckFolderDeletable name resolved plan =
     (if equal_fold resolved ''INBOX'' then Some (Wraps ErrFolderProtected [Str name])
      else deletable_loop name resolved
             [(Archive plan, ''email.archive'', ''archive_folder''),
              (Trash plan, ''email.delete'', ''trash_folder'')])"

subsection \<open>Batches and budgets\<close>

definition MaxBulkIDs :: int where "MaxBulkIDs = 100"
definition MaxFetchBytes :: int where "MaxFetchBytes = 25 * 2 ^ 20"
definition MaxSummaryMessages :: int where "MaxSummaryMessages = 100"
definition MaxScanMessages :: int where "MaxScanMessages = 5000"

text \<open>The duplicate scan: \<open>seen\<close> is the set of the ids already met.\<close>

fun first_duplicate :: "string set \<Rightarrow> ids \<Rightarrow> string option" where
  "first_duplicate seen [] = None"
| "first_duplicate seen (i # ids) =
     (if i \<in> seen then Some i else first_duplicate (insert i seen) ids)"

definition effective_limit :: "int \<Rightarrow> int" where
  "effective_limit limit = (if limit \<le> 0 then MaxBulkIDs else limit)"

definition CheckBulkIDsLimit :: "ids \<Rightarrow> int \<Rightarrow> check" where
  "CheckBulkIDsLimit ids limit0 =
     (let limit = effective_limit limit0 in
      if length ids = 0 then Some (Wraps ErrBulkSize [Num limit])
      else if int (length ids) > limit
           then Some (Wraps ErrBulkSize [Num (int (length ids)), Num limit])
      else (case first_duplicate {} ids of
              Some i \<Rightarrow> Some (Wraps ErrBulkSize [Str i])
            | None \<Rightarrow> None))"

definition CheckBulkIDs :: "ids \<Rightarrow> check" where
  "CheckBulkIDs ids = CheckBulkIDsLimit ids MaxBulkIDs"

definition CheckFetchBudget :: "int64 \<Rightarrow> nat \<Rightarrow> check" where
  "CheckFetchBudget tot ids =
     (if sint tot > MaxFetchBytes
      then Some (Wraps ErrFetchTooLarge [Num (int ids), Num (sint tot), Num MaxFetchBytes])
      else None)"

definition CheckScanBudget :: "nat \<Rightarrow> scope \<Rightarrow> check" where
  "CheckScanBudget ids scope =
     (if int ids > MaxScanMessages
      then Some (Wraps ErrScanTooLarge [Num (int ids), Str scope, Num MaxScanMessages])
      else None)"

subsection \<open>Per-id results\<close>

record bulk_failure =
  ID :: string
  Err :: error

record bulk_result =
  Succeeded :: ids
  Failed :: "bulk_failure list"

definition NewBulkResult :: bulk_result where
  "NewBulkResult = \<lparr>Succeeded = [], Failed = []\<rparr>"

definition Succeed :: "string \<Rightarrow> bulk_result \<Rightarrow> bulk_result" where
  "Succeed i r = r\<lparr>Succeeded := Succeeded r @ [i]\<rparr>"

definition Fail :: "string \<Rightarrow> error \<Rightarrow> bulk_result \<Rightarrow> bulk_result" where
  "Fail i e r = r\<lparr>Failed := Failed r @ [\<lparr>ID = i, Err = e\<rparr>]\<rparr>"

record bulk_message =
  msg_id :: string
  Raw :: bytes

record fetch_result =
  Fetched :: "bulk_message list"
  fetch_failed :: "bulk_failure list"

definition NewFetchResult :: fetch_result where
  "NewFetchResult = \<lparr>Fetched = [], fetch_failed = []\<rparr>"

definition fetch_Add :: "string \<Rightarrow> bytes \<Rightarrow> fetch_result \<Rightarrow> fetch_result" where
  "fetch_Add i raw r = r\<lparr>Fetched := Fetched r @ [\<lparr>msg_id = i, Raw = raw\<rparr>]\<rparr>"

definition fetch_Fail :: "string \<Rightarrow> error \<Rightarrow> fetch_result \<Rightarrow> fetch_result" where
  "fetch_Fail i e r = r\<lparr>fetch_failed := fetch_failed r @ [\<lparr>ID = i, Err = e\<rparr>]\<rparr>"

lemmas result_defs = NewBulkResult_def Succeed_def Fail_def
  NewFetchResult_def fetch_Add_def fetch_Fail_def

text \<open>The ids a result accounts for, successes first.\<close>

definition reported :: "bulk_result \<Rightarrow> ids" where
  "reported r = Succeeded r @ map ID (Failed r)"

definition fetch_reported :: "fetch_result \<Rightarrow> ids" where
  "fetch_reported r = map msg_id (Fetched r) @ map ID (fetch_failed r)"

subsection \<open>What the checks accept\<close>

lemma first_duplicate_None_iff:
  "first_duplicate seen ids = None \<longleftrightarrow> distinct ids \<and> set ids \<inter> seen = {}"
  by (induction ids arbitrary: seen) auto

lemma first_duplicate_Some:
  "first_duplicate seen ids = Some i \<Longrightarrow> i \<in> set ids \<and> (i \<in> seen \<or> \<not> distinct ids)"
  by (induction ids arbitrary: seen) (fastforce split: if_splits)+

lemma effective_limit_pos [simp]: "0 < effective_limit limit"
  by (simp add: effective_limit_def MaxBulkIDs_def)

lemma bulk_limit_None_iff [check_simps]:
  "CheckBulkIDsLimit ids limit = None \<longleftrightarrow>
     ids \<noteq> [] \<and> int (length ids) \<le> effective_limit limit \<and> distinct ids"
  by (auto simp: CheckBulkIDsLimit_def Let_def first_duplicate_None_iff
      dest: first_duplicate_Some split: option.splits)

lemma bulk_limit_Some_is:
  "CheckBulkIDsLimit ids limit = Some e \<Longrightarrow> errors_is e ErrBulkSize"
  by (auto simp: CheckBulkIDsLimit_def Let_def split: option.splits if_splits)

lemma folder_name_None_iff [check_simps]:
  "CheckFolderName name = None \<longleftrightarrow> trim_space name \<noteq> [] \<and> (\<forall>c \<in> set name. \<not> control_char c)"
  by (auto simp: CheckFolderName_def list_ex_iff)

lemma folder_empty_None_iff [check_simps]: "CheckFolderEmpty name n = None \<longleftrightarrow> n \<le> 0"
  by (auto simp: CheckFolderEmpty_def)

lemma folder_childless_None_iff [check_simps]:
  "CheckFolderChildless name children = None \<longleftrightarrow> children = []"
  by (auto simp: CheckFolderChildless_def)

lemma fetch_budget_None_iff [check_simps]:
  "CheckFetchBudget tot n = None \<longleftrightarrow> sint tot \<le> MaxFetchBytes"
  by (auto simp: CheckFetchBudget_def)

lemma scan_budget_None_iff [check_simps]:
  "CheckScanBudget n scope = None \<longleftrightarrow> int n \<le> MaxScanMessages"
  by (auto simp: CheckScanBudget_def)

lemma deletable_loop_None_iff:
  "deletable_loop name resolved ds = None \<longleftrightarrow>
     (\<forall>(dest, t, ov) \<in> set ds. Folder dest = [] \<or> Folder dest \<noteq> resolved)"
  by (induction name resolved ds rule: deletable_loop.induct) auto

lemma deletable_loop_Some_is:
  "deletable_loop name resolved ds = Some e \<Longrightarrow> errors_is e ErrFolderProtected"
  by (induction name resolved ds rule: deletable_loop.induct)
    (auto simp: protected_error_def split: if_splits)

lemma deletable_None_iff [check_simps]:
  "CheckFolderDeletable name resolved plan = None \<longleftrightarrow>
     \<not> equal_fold resolved ''INBOX'' \<and>
     (Folder (Archive plan) = [] \<or> Folder (Archive plan) \<noteq> resolved) \<and>
     (Folder (Trash plan) = [] \<or> Folder (Trash plan) \<noteq> resolved)"
  by (auto simp: CheckFolderDeletable_def deletable_loop_None_iff)

lemma ParseScope_Inr_iff:
  "ParseScope name = Inr s \<longleftrightarrow>
     (s = ScopeUnread \<and> (name = [] \<or> name = ScopeUnread)) \<or>
     (s = ScopeRead \<and> name = ScopeRead) \<or> (s = ScopeAll \<and> name = ScopeAll)"
  by (auto simp: ParseScope_def scope_defs)

lemma ParseScope_idem: "ParseScope name = Inr s \<Longrightarrow> ParseScope s = Inr s"
  by (auto simp: ParseScope_def scope_defs split: if_splits)

subsection \<open>What a result accounts for\<close>

lemma reported_simps [simp]:
  "reported NewBulkResult = []"
  "mset (reported (Succeed i r)) = add_mset i (mset (reported r))"
  "mset (reported (Fail i e r)) = add_mset i (mset (reported r))"
  by (simp_all add: reported_def result_defs)

lemma fetch_reported_simps [simp]:
  "fetch_reported NewFetchResult = []"
  "mset (fetch_reported (fetch_Add i raw r)) = add_mset i (mset (fetch_reported r))"
  "mset (fetch_reported (fetch_Fail i e r)) = add_mset i (mset (fetch_reported r))"
  by (simp_all add: fetch_reported_def result_defs)

end
