(* ===== verification/Service.thy ===== *)
theory Service
  imports Mail_Domain
begin

section \<open>The mailbox use cases (application/service.go)\<close>

text \<open>
  A mailbox is a record of operations on a world \<open>'w\<close>.  The three operations of the
  \<open>Mailbox\<close> interface are always there; every optional interface the code asks for with a
  type assertion is an option field.  \<open>InFolder\<close> yields another mailbox, so mailboxes are a
  datatype.  The context is a function \<open>cx\<close> from the world to the error \<open>ctx.Err()\<close>
  reports then.  A Go function that returns a result beside its error does so here.
\<close>

type_synonym 'w ctx = "'w \<Rightarrow> error option"
type_synonym ('w, 'a) reporting = "'w \<Rightarrow> ('a \<times> error option) \<times> 'w"

subsection \<open>Mailboxes\<close>

record 'w curator =
  ArchiveOne :: "string \<Rightarrow> ('w, unit) effect"
  DeleteOne :: "string \<Rightarrow> ('w, unit) effect"

record 'w bulk_curator =
  ArchiveBatch :: "ids \<Rightarrow> ('w, bulk_result) reporting"
  DeleteBatch :: "ids \<Rightarrow> ('w, bulk_result) reporting"

record 'w folder_manager =
  CreateFolderOp :: "string \<Rightarrow> ('w, unit) effect"
  DeleteFolderOp :: "string \<Rightarrow> ('w, unit) effect"

type_synonym headers_answer = "(string \<rightharpoonup> message_headers) \<times> (string \<rightharpoonup> error)"

record 'w ports =
  ListUnreadOp :: "('w, ids) effect"
  FetchOp :: "string \<Rightarrow> ('w, bytes) effect"
  MarkSeenOp :: "string \<Rightarrow> ('w, unit) effect"
  ScopedMailbox :: "(scope \<Rightarrow> ('w, ids) effect) option"
  Searcher :: "(string \<Rightarrow> ('w, ids) effect) option"
  ScopedSearcher :: "(scope \<Rightarrow> string \<Rightarrow> ('w, ids) effect) option"
  SenderSearcher :: "(scope \<Rightarrow> string \<Rightarrow> string \<Rightarrow> ('w, ids) effect) option"
  HeaderFetcher :: "(string \<Rightarrow> ('w, message_headers) effect) option"
  BatchHeaderFetcher :: "(ids \<Rightarrow> 'w \<Rightarrow> headers_answer \<times> 'w) option"
  FolderLister :: "('w, ids) effect option"
  FolderManager :: "'w folder_manager option"
  Curator :: "'w curator option"
  Mover :: "(string \<Rightarrow> string \<Rightarrow> ('w, unit) effect) option"
  MessageSizer :: "(ids \<Rightarrow> ('w, string \<rightharpoonup> int64) effect) option"
  BulkFetcher :: "(ids \<Rightarrow> ('w, fetch_result) reporting) option"
  BulkMailbox :: "(ids \<Rightarrow> ('w, bulk_result) reporting) option"
  BulkCurator :: "'w bulk_curator option"
  BulkMover :: "(ids \<Rightarrow> string \<Rightarrow> ('w, bulk_result) reporting) option"
  CurationInspector :: "('w, curation_plan) effect option"
  CapabilityProvider :: "('w, curation_capabilities) effect option"
  LimitProvider :: "('w \<Rightarrow> int) option"
  LimitSetter :: "(int \<Rightarrow> 'w \<Rightarrow> 'w) option"

datatype 'w mailbox =
  Mailbox (ops: "'w ports") (in_folder: "(string \<Rightarrow> 'w \<Rightarrow> (error + 'w mailbox) \<times> 'w) option")

subsection \<open>The service\<close>

record 'w service =
  mailbox :: "'w mailbox"
  accounts :: "(string \<times> 'w mailbox) list"
  bulkLimit :: int

definition NewService :: "'w mailbox \<Rightarrow> (string \<times> 'w mailbox) list \<Rightarrow> 'w \<Rightarrow> 'w service" where
  "NewService box accs w =
     \<lparr>mailbox = box, accounts = accs,
      bulkLimit = (case LimitProvider (ops box) of
                     Some p \<Rightarrow> if p w > 0 then p w else MaxBulkIDs
                   | None \<Rightarrow> MaxBulkIDs)\<rparr>"

fun set_limits :: "int \<Rightarrow> 'w mailbox list \<Rightarrow> 'w \<Rightarrow> 'w" where
  "set_limits n [] w = w"
| "set_limits n (b # bs) w =
     set_limits n bs (case LimitSetter (ops b) of Some f \<Rightarrow> f n w | None \<Rightarrow> w)"

definition service_SetBulkLimit :: "int \<Rightarrow> 'w service \<Rightarrow> 'w \<Rightarrow> 'w service \<times> 'w" where
  "service_SetBulkLimit limit0 s w =
     (let limit = effective_limit limit0 in
      (s\<lparr>bulkLimit := limit\<rparr>, set_limits limit (mailbox s # map snd (accounts s)) w))"

definition service_BulkLimit :: "'w service \<Rightarrow> 'w \<Rightarrow> int" where
  "service_BulkLimit s w =
     (case LimitProvider (ops (mailbox s)) of
        Some p \<Rightarrow> if p w > 0 then p w else bulkLimit s
      | None \<Rightarrow> bulkLimit s)"

definition Resolve :: "'w service \<Rightarrow> string \<Rightarrow> string \<Rightarrow> ('w, 'w mailbox) effect" where
  "Resolve s account folder w =
     (case (if account \<noteq> [] then map_of (accounts s) account else Some (mailbox s)) of
        None \<Rightarrow> (Inl (Failure ''unknown account''), w)
      | Some box \<Rightarrow>
          (if folder = [] then (Inr box, w)
           else case in_folder box of
                  None \<Rightarrow> (Inl (Failure ''backend has no folder support''), w)
                | Some f \<Rightarrow> f folder w))"

subsection \<open>Listing and searching\<close>

definition listMailbox :: "'w mailbox \<Rightarrow> scope \<Rightarrow> ('w, ids) effect" where
  "listMailbox mb scope w =
     (case ScopedMailbox (ops mb) of
        Some f \<Rightarrow> f scope w
      | None \<Rightarrow>
          (if scope \<noteq> ScopeUnread then (Inl (Failure ''backend lists unread mail only''), w)
           else ListUnreadOp (ops mb) w))"

definition service_List :: "'w service \<Rightarrow> string \<Rightarrow> string \<Rightarrow> scope \<Rightarrow> ('w, ids) effect" where
  "service_List s account folder scope0 w =
     (case ParseScope scope0 of
        Inl e \<Rightarrow> (Inl e, w)
      | Inr scope \<Rightarrow>
          (case Resolve s account folder w of
             (Inl e, w1) \<Rightarrow> (Inl e, w1)
           | (Inr box, w1) \<Rightarrow> listMailbox box scope w1))"

definition service_ListUnread :: "'w service \<Rightarrow> string \<Rightarrow> string \<Rightarrow> ('w, ids) effect" where
  "service_ListUnread s account folder = service_List s account folder ScopeUnread"

text \<open>The scan: what cannot be read is skipped, unless the caller's time is up.\<close>

fun scan_loop :: "'w ctx \<Rightarrow> 'w ports \<Rightarrow> string \<Rightarrow> ids \<Rightarrow> ('w, ids) effect" where
  "scan_loop cx p needle [] w = (Inr [], w)"
| "scan_loop cx p needle (i # is) w =
     (case FetchOp p i w of
        (Inl e, w1) \<Rightarrow>
          (if cx w1 \<noteq> None then (Inl e, w1) else scan_loop cx p needle is w1)
      | (Inr raw, w1) \<Rightarrow>
          (case scan_loop cx p needle is w1 of
             (Inl e, w2) \<Rightarrow> (Inl e, w2)
           | (Inr out, w2) \<Rightarrow>
               (Inr (if str_contains (to_lower raw) needle then i # out else out), w2)))"

definition searchMailbox :: "'w ctx \<Rightarrow> 'w mailbox \<Rightarrow> scope \<Rightarrow> string \<Rightarrow> ('w, ids) effect" where
  "searchMailbox cx mb scope query w =
     (case ScopedSearcher (ops mb) of
        Some f \<Rightarrow> f scope query w
      | None \<Rightarrow>
          (case (if scope = ScopeUnread then Searcher (ops mb) else None) of
             Some f \<Rightarrow> f query w
           | None \<Rightarrow>
               (case listMailbox mb scope w of
                  (Inl e, w1) \<Rightarrow> (Inl e, w1)
                | (Inr is, w1) \<Rightarrow>
                    (case CheckScanBudget (length is) scope of
                       Some e \<Rightarrow> (Inl e, w1)
                     | None \<Rightarrow> scan_loop cx (ops mb) (to_lower query) is w1))))"

definition service_SearchScope ::
  "'w ctx \<Rightarrow> 'w service \<Rightarrow> string \<Rightarrow> string \<Rightarrow> string \<Rightarrow> scope \<Rightarrow> ('w, ids) effect" where
  "service_SearchScope cx s account folder query scope0 w =
     (case ParseScope scope0 of
        Inl e \<Rightarrow> (Inl e, w)
      | Inr scope \<Rightarrow>
          (case Resolve s account folder w of
             (Inl e, w1) \<Rightarrow> (Inl e, w1)
           | (Inr box, w1) \<Rightarrow> searchMailbox cx box scope query w1))"

definition service_Search ::
  "'w ctx \<Rightarrow> 'w service \<Rightarrow> string \<Rightarrow> string \<Rightarrow> string \<Rightarrow> ('w, ids) effect" where
  "service_Search cx s account folder query = service_SearchScope cx s account folder query ScopeUnread"

subsection \<open>Reading\<close>

definition service_Read :: "'w service \<Rightarrow> string \<Rightarrow> string \<Rightarrow> string \<Rightarrow> ('w, bytes) effect" where
  "service_Read s account folder i w =
     (case Resolve s account folder w of
        (Inl e, w1) \<Rightarrow> (Inl e, w1)
      | (Inr box, w1) \<Rightarrow> FetchOp (ops box) i w1)"

definition ReadHeaders ::
  "'w service \<Rightarrow> string \<Rightarrow> string \<Rightarrow> string \<Rightarrow> ('w, message_headers) effect" where
  "ReadHeaders s account folder i w =
     (case Resolve s account folder w of
        (Inl e, w1) \<Rightarrow> (Inl e, w1)
      | (Inr box, w1) \<Rightarrow>
          (case HeaderFetcher (ops box) of
             None \<Rightarrow> (Inl (Failure ''backend cannot fetch message headers''), w1)
           | Some f \<Rightarrow> f i w1))"

text \<open>The answer of a batch of headers, read back id by id.\<close>

definition header_of :: "headers_answer \<Rightarrow> string \<Rightarrow> error + message_headers" where
  "header_of ans i =
     (case snd ans i of
        Some e \<Rightarrow> Inl e
      | None \<Rightarrow>
          (case fst ans i of None \<Rightarrow> Inl (Failure ''no headers returned'') | Some h \<Rightarrow> Inr h))"

fun headers_in_order :: "headers_answer \<Rightarrow> ids \<Rightarrow> error + message_summary list" where
  "headers_in_order ans [] = Inr []"
| "headers_in_order ans (i # is) =
     (case header_of ans i of
        Inl e \<Rightarrow> Inl e
      | Inr h \<Rightarrow>
          (case headers_in_order ans is of
             Inl e \<Rightarrow> Inl e
           | Inr ms \<Rightarrow> Inr (\<lparr>sum_id = i, sum_headers = h\<rparr> # ms)))"

definition messagePage ::
  "'w service \<Rightarrow> string \<Rightarrow> string \<Rightarrow> scope \<Rightarrow> ids \<Rightarrow> int \<Rightarrow> int \<Rightarrow> bool \<Rightarrow> ('w, message_page) effect"
  where
  "messagePage s account folder scope0 ids0 offset limit includeHeaders w =
     (if offset < 0 \<or> limit < 0 then (Inl (Failure ''offset and limit must not be negative''), w)
      else case ParseScope scope0 of
        Inl e \<Rightarrow> (Inl e, w)
      | Inr scope \<Rightarrow>
          (let page = \<lparr>Messages = [], IDs = [], Total = length ids0, Offset = offset,
                       page_scope = scope\<rparr> in
           if offset \<ge> int (length ids0) then (Inr page, w)
           else
             (let rest = drop (nat offset) ids0;
                  ids = (if limit > 0 \<and> limit < int (length rest) then take (nat limit) rest else rest) in
              if \<not> includeHeaders then (Inr (page\<lparr>IDs := ids\<rparr>), w)
              else case Resolve s account folder w of
                (Inl e, w1) \<Rightarrow> (Inl e, w1)
              | (Inr box, w1) \<Rightarrow>
                  (case BatchHeaderFetcher (ops box) of
                     None \<Rightarrow> (Inl (Failure ''backend cannot fetch message headers in a batch''), w1)
                   | Some f \<Rightarrow>
                       (case f ids w1 of
                          (ans, w2) \<Rightarrow>
                            (case headers_in_order ans ids of
                               Inl e \<Rightarrow> (Inl e, w2)
                             | Inr ms \<Rightarrow> (Inr (page\<lparr>IDs := ids, Messages := ms\<rparr>), w2)))))))"

definition ListMessages ::
  "'w service \<Rightarrow> string \<Rightarrow> string \<Rightarrow> scope \<Rightarrow> int \<Rightarrow> int \<Rightarrow> bool \<Rightarrow> ('w, message_page) effect" where
  "ListMessages s account folder scope offset limit includeHeaders w =
     (case service_List s account folder scope w of
        (Inl e, w1) \<Rightarrow> (Inl e, w1)
      | (Inr is, w1) \<Rightarrow> messagePage s account folder scope is offset limit includeHeaders w1)"

definition SearchMessages ::
  "'w ctx \<Rightarrow> 'w service \<Rightarrow> string \<Rightarrow> string \<Rightarrow> string \<Rightarrow> scope \<Rightarrow> int \<Rightarrow> int \<Rightarrow> bool \<Rightarrow>
   ('w, message_page) effect" where
  "SearchMessages cx s account folder query scope offset limit includeHeaders w =
     (case service_SearchScope cx s account folder query scope w of
        (Inl e, w1) \<Rightarrow> (Inl e, w1)
      | (Inr is, w1) \<Rightarrow> messagePage s account folder scope is offset limit includeHeaders w1)"

text \<open>
  The sender filter of \<open>searchFromFallback\<close>: headers are asked for in batches of at most
  \<open>MaxBulkIDs\<close>, and the first id without headers ends the search.
\<close>

fun filter_from :: "headers_answer \<Rightarrow> string \<Rightarrow> ids \<Rightarrow> error + ids" where
  "filter_from ans needle [] = Inr []"
| "filter_from ans needle (i # is) =
     (case header_of ans i of
        Inl e \<Rightarrow> Inl e
      | Inr h \<Rightarrow>
          (case filter_from ans needle is of
             Inl e \<Rightarrow> Inl e
           | Inr out \<Rightarrow> Inr (if str_contains (to_lower (From h)) needle then i # out else out)))"

function from_loop ::
  "(ids \<Rightarrow> 'w \<Rightarrow> headers_answer \<times> 'w) \<Rightarrow> string \<Rightarrow> ids \<Rightarrow> ('w, ids) effect" where
  "from_loop f needle is w =
     (if is = [] then (Inr [], w)
      else (case f (take (nat MaxBulkIDs) is) w of
              (ans, w1) \<Rightarrow>
                (case filter_from ans needle (take (nat MaxBulkIDs) is) of
                   Inl e \<Rightarrow> (Inl e, w1)
                 | Inr out \<Rightarrow>
                     (case from_loop f needle (drop (nat MaxBulkIDs) is) w1 of
                        (Inl e, w2) \<Rightarrow> (Inl e, w2)
                      | (Inr out', w2) \<Rightarrow> (Inr (out @ out'), w2)))))"
  by pat_completeness auto

termination from_loop
  by (relation "measure (\<lambda>(f, needle, is, w). length is)") (auto simp: MaxBulkIDs_def)

declare from_loop.simps [simp del]

definition searchFromFallback ::
  "'w ctx \<Rightarrow> 'w mailbox \<Rightarrow> scope \<Rightarrow> string \<Rightarrow> string \<Rightarrow> ('w, ids) effect" where
  "searchFromFallback cx box scope query sender w =
     (case searchMailbox cx box scope query w of
        (Inl e, w1) \<Rightarrow> (Inl e, w1)
      | (Inr is, w1) \<Rightarrow>
          (case BatchHeaderFetcher (ops box) of
             None \<Rightarrow> (Inl (Failure ''backend cannot fetch message headers in a batch''), w1)
           | Some f \<Rightarrow> from_loop f (to_lower (trim_space sender)) is w1))"

definition SearchMessagesFrom ::
  "'w ctx \<Rightarrow> 'w service \<Rightarrow> string \<Rightarrow> string \<Rightarrow> string \<Rightarrow> string \<Rightarrow> scope \<Rightarrow> int \<Rightarrow> int \<Rightarrow> bool \<Rightarrow>
   ('w, message_page) effect" where
  "SearchMessagesFrom cx s account folder query sender scope offset limit includeHeaders w =
     (if trim_space sender = []
      then SearchMessages cx s account folder query scope offset limit includeHeaders w
      else case Resolve s account folder w of
             (Inl e, w1) \<Rightarrow> (Inl e, w1)
           | (Inr box, w1) \<Rightarrow>
               (case (case SenderSearcher (ops box) of
                        Some f \<Rightarrow> f scope query sender w1
                      | None \<Rightarrow> searchFromFallback cx box scope query sender w1) of
                  (Inl e, w2) \<Rightarrow> (Inl e, w2)
                | (Inr filtered, w2) \<Rightarrow>
                    messagePage s account folder scope filtered offset limit includeHeaders w2))"

subsection \<open>Batches\<close>

text \<open>The shared loop: every id gets its own outcome and only the context stops it.\<close>

fun bulk_loop ::
  "'w ctx \<Rightarrow> (string \<Rightarrow> ('w, unit) effect) \<Rightarrow> bulk_result \<Rightarrow> ids \<Rightarrow> ('w, bulk_result) reporting"
  where
  "bulk_loop cx f res [] w = ((res, None), w)"
| "bulk_loop cx f res (i # is) w =
     (case cx w of
        Some e \<Rightarrow> ((res, Some e), w)
      | None \<Rightarrow>
          (case f i w of
             (Inl e, w1) \<Rightarrow> bulk_loop cx f (Fail i e res) is w1
           | (Inr _, w1) \<Rightarrow> bulk_loop cx f (Succeed i res) is w1))"

definition bulkEach ::
  "'w ctx \<Rightarrow> ids \<Rightarrow> (string \<Rightarrow> ('w, unit) effect) \<Rightarrow> ('w, bulk_result) reporting" where
  "bulkEach cx is f = bulk_loop cx f NewBulkResult is"

fun fetch_loop ::
  "'w ctx \<Rightarrow> (string \<Rightarrow> ('w, bytes) effect) \<Rightarrow> fetch_result \<Rightarrow> ids \<Rightarrow> ('w, fetch_result) reporting"
  where
  "fetch_loop cx f res [] w = ((res, None), w)"
| "fetch_loop cx f res (i # is) w =
     (case cx w of
        Some e \<Rightarrow> ((res, Some e), w)
      | None \<Rightarrow>
          (case f i w of
             (Inl e, w1) \<Rightarrow> fetch_loop cx f (fetch_Fail i e res) is w1
           | (Inr raw, w1) \<Rightarrow> fetch_loop cx f (fetch_Add i raw res) is w1))"

definition fetchEach ::
  "'w ctx \<Rightarrow> ids \<Rightarrow> (string \<Rightarrow> ('w, bytes) effect) \<Rightarrow> ('w, fetch_result) reporting" where
  "fetchEach cx is f = fetch_loop cx f NewFetchResult is"

text \<open>The sum of the sizes measured, in \<open>int64\<close>, and how many were measured.\<close>

fun sum_sizes :: "(string \<rightharpoonup> int64) \<Rightarrow> ids \<Rightarrow> int64 \<times> nat" where
  "sum_sizes sizes [] = (0, 0)"
| "sum_sizes sizes (i # is) =
     (case sum_sizes sizes is of
        (t, n) \<Rightarrow> (case sizes i of None \<Rightarrow> (t, n) | Some b \<Rightarrow> (b + t, n + 1)))"

definition preflightFetch :: "'w mailbox \<Rightarrow> ids \<Rightarrow> ('w, unit) effect" where
  "preflightFetch mb is w =
     (case MessageSizer (ops mb) of
        None \<Rightarrow> (Inl (Failure ''backend cannot measure message sizes''), w)
      | Some f \<Rightarrow>
          (case f is w of
             (Inl e, w1) \<Rightarrow> (Inl e, w1)
           | (Inr sizes, w1) \<Rightarrow>
               (case sum_sizes sizes is of
                  (tot, measured) \<Rightarrow>
                    (case CheckFetchBudget tot measured of
                       Some e \<Rightarrow> (Inl e, w1)
                     | None \<Rightarrow> (Inr (), w1)))))"

definition no_result :: bulk_result where "no_result = \<lparr>Succeeded = [], Failed = []\<rparr>"
definition no_fetch :: fetch_result where "no_fetch = \<lparr>Fetched = [], fetch_failed = []\<rparr>"

definition fetchMany :: "'w ctx \<Rightarrow> 'w mailbox \<Rightarrow> ids \<Rightarrow> int \<Rightarrow> ('w, fetch_result) reporting" where
  "fetchMany cx mb is limit w =
     (case CheckBulkIDsLimit is limit of
        Some e \<Rightarrow> ((no_fetch, Some e), w)
      | None \<Rightarrow>
          (case BulkFetcher (ops mb) of
             Some f \<Rightarrow> f is w
           | None \<Rightarrow>
               (case preflightFetch mb is w of
                  (Inl e, w1) \<Rightarrow> ((no_fetch, Some e), w1)
                | (Inr _, w1) \<Rightarrow> fetchEach cx is (FetchOp (ops mb)) w1)))"

definition markSeenMany :: "'w ctx \<Rightarrow> 'w mailbox \<Rightarrow> ids \<Rightarrow> int \<Rightarrow> ('w, bulk_result) reporting" where
  "markSeenMany cx mb is limit w =
     (case CheckBulkIDsLimit is limit of
        Some e \<Rightarrow> ((no_result, Some e), w)
      | None \<Rightarrow>
          (case BulkMailbox (ops mb) of
             Some f \<Rightarrow> f is w
           | None \<Rightarrow> bulkEach cx is (MarkSeenOp (ops mb)) w))"

datatype curation_action = actionArchive | actionDelete

definition curateMany ::
  "'w ctx \<Rightarrow> 'w mailbox \<Rightarrow> ids \<Rightarrow> curation_action \<Rightarrow> int \<Rightarrow> ('w, bulk_result) reporting" where
  "curateMany cx mb is action limit w =
     (case CheckBulkIDsLimit is limit of
        Some e \<Rightarrow> ((no_result, Some e), w)
      | None \<Rightarrow>
          (case BulkCurator (ops mb) of
             Some bc \<Rightarrow> (if action = actionArchive then ArchiveBatch bc is w else DeleteBatch bc is w)
           | None \<Rightarrow>
               (case Curator (ops mb) of
                  None \<Rightarrow> ((no_result, Some (Failure ''backend has no curation support'')), w)
                | Some cu \<Rightarrow>
                    (if action = actionArchive then bulkEach cx is (ArchiveOne cu) w
                     else bulkEach cx is (DeleteOne cu) w))))"

definition moveMany ::
  "'w ctx \<Rightarrow> 'w mailbox \<Rightarrow> ids \<Rightarrow> string \<Rightarrow> int \<Rightarrow> ('w, bulk_result) reporting" where
  "moveMany cx mb is destination limit w =
     (case CheckBulkIDsLimit is limit of
        Some e \<Rightarrow> ((no_result, Some e), w)
      | None \<Rightarrow>
          (case CheckFolderName destination of
             Some e \<Rightarrow> ((no_result, Some e), w)
           | None \<Rightarrow>
               (case BulkMover (ops mb) of
                  Some f \<Rightarrow> f is destination w
                | None \<Rightarrow>
                    (case Mover (ops mb) of
                       None \<Rightarrow> ((no_result, Some (Failure ''backend has no move support'')), w)
                     | Some mv \<Rightarrow> bulkEach cx is (\<lambda>i. mv i destination) w))))"

text \<open>The use cases over batches: resolve, then the batch function with the service's limit.\<close>

definition service_ReadMany ::
  "'w ctx \<Rightarrow> 'w service \<Rightarrow> string \<Rightarrow> string \<Rightarrow> ids \<Rightarrow> ('w, fetch_result) reporting" where
  "service_ReadMany cx s account folder is w =
     (case Resolve s account folder w of
        (Inl e, w1) \<Rightarrow> ((no_fetch, Some e), w1)
      | (Inr box, w1) \<Rightarrow> fetchMany cx box is (service_BulkLimit s w1) w1)"

definition service_MarkSeenMany ::
  "'w ctx \<Rightarrow> 'w service \<Rightarrow> string \<Rightarrow> string \<Rightarrow> ids \<Rightarrow> ('w, bulk_result) reporting" where
  "service_MarkSeenMany cx s account folder is w =
     (case Resolve s account folder w of
        (Inl e, w1) \<Rightarrow> ((no_result, Some e), w1)
      | (Inr box, w1) \<Rightarrow> markSeenMany cx box is (service_BulkLimit s w1) w1)"

definition service_ArchiveMany ::
  "'w ctx \<Rightarrow> 'w service \<Rightarrow> string \<Rightarrow> string \<Rightarrow> ids \<Rightarrow> ('w, bulk_result) reporting" where
  "service_ArchiveMany cx s account folder is w =
     (case Resolve s account folder w of
        (Inl e, w1) \<Rightarrow> ((no_result, Some e), w1)
      | (Inr box, w1) \<Rightarrow> curateMany cx box is actionArchive (service_BulkLimit s w1) w1)"

definition service_DeleteMany ::
  "'w ctx \<Rightarrow> 'w service \<Rightarrow> string \<Rightarrow> string \<Rightarrow> ids \<Rightarrow> ('w, bulk_result) reporting" where
  "service_DeleteMany cx s account folder is w =
     (case Resolve s account folder w of
        (Inl e, w1) \<Rightarrow> ((no_result, Some e), w1)
      | (Inr box, w1) \<Rightarrow> curateMany cx box is actionDelete (service_BulkLimit s w1) w1)"

definition service_MoveMany ::
  "'w ctx \<Rightarrow> 'w service \<Rightarrow> string \<Rightarrow> string \<Rightarrow> ids \<Rightarrow> string \<Rightarrow> ('w, bulk_result) reporting" where
  "service_MoveMany cx s account folder is destination w =
     (case CheckFolderName destination of
        Some e \<Rightarrow> ((no_result, Some e), w)
      | None \<Rightarrow>
          (case Resolve s account folder w of
             (Inl e, w1) \<Rightarrow> ((no_result, Some e), w1)
           | (Inr box, w1) \<Rightarrow> moveMany cx box is destination (service_BulkLimit s w1) w1))"

subsection \<open>One message\<close>

definition service_MarkSeen :: "'w service \<Rightarrow> string \<Rightarrow> string \<Rightarrow> string \<Rightarrow> ('w, unit) effect" where
  "service_MarkSeen s account folder i w =
     (case Resolve s account folder w of
        (Inl e, w1) \<Rightarrow> (Inl e, w1)
      | (Inr box, w1) \<Rightarrow> MarkSeenOp (ops box) i w1)"

definition curator_of :: "'w service \<Rightarrow> string \<Rightarrow> string \<Rightarrow> ('w, 'w curator) effect" where
  "curator_of s account folder w =
     (case Resolve s account folder w of
        (Inl e, w1) \<Rightarrow> (Inl e, w1)
      | (Inr box, w1) \<Rightarrow>
          (case Curator (ops box) of
             None \<Rightarrow> (Inl (Failure ''backend has no curation support''), w1)
           | Some cu \<Rightarrow> (Inr cu, w1)))"

definition service_Archive :: "'w service \<Rightarrow> string \<Rightarrow> string \<Rightarrow> string \<Rightarrow> ('w, unit) effect" where
  "service_Archive s account folder i w =
     (case curator_of s account folder w of
        (Inl e, w1) \<Rightarrow> (Inl e, w1)
      | (Inr cu, w1) \<Rightarrow> ArchiveOne cu i w1)"

definition service_Delete :: "'w service \<Rightarrow> string \<Rightarrow> string \<Rightarrow> string \<Rightarrow> ('w, unit) effect" where
  "service_Delete s account folder i w =
     (case curator_of s account folder w of
        (Inl e, w1) \<Rightarrow> (Inl e, w1)
      | (Inr cu, w1) \<Rightarrow> DeleteOne cu i w1)"

definition service_Move ::
  "'w service \<Rightarrow> string \<Rightarrow> string \<Rightarrow> string \<Rightarrow> string \<Rightarrow> ('w, unit) effect" where
  "service_Move s account folder i destination w =
     (case CheckFolderName destination of
        Some e \<Rightarrow> (Inl e, w)
      | None \<Rightarrow>
          (case Resolve s account folder w of
             (Inl e, w1) \<Rightarrow> (Inl e, w1)
           | (Inr box, w1) \<Rightarrow>
               (case Mover (ops box) of
                  None \<Rightarrow> (Inl (Failure ''backend has no move support''), w1)
                | Some mv \<Rightarrow> mv i destination w1)))"

subsection \<open>Folders, accounts and curation reports\<close>

definition service_Folders :: "'w service \<Rightarrow> string \<Rightarrow> ('w, ids) effect" where
  "service_Folders s account w =
     (case Resolve s account [] w of
        (Inl e, w1) \<Rightarrow> (Inl e, w1)
      | (Inr box, w1) \<Rightarrow>
          (case FolderLister (ops box) of
             Some f \<Rightarrow> f w1
           | None \<Rightarrow> (Inr [''INBOX''], w1)))"

definition folderManager :: "'w service \<Rightarrow> string \<Rightarrow> ('w, 'w folder_manager) effect" where
  "folderManager s account w =
     (case Resolve s account [] w of
        (Inl e, w1) \<Rightarrow> (Inl e, w1)
      | (Inr box, w1) \<Rightarrow>
          (case FolderManager (ops box) of
             None \<Rightarrow> (Inl (Failure ''backend has no folder management''), w1)
           | Some fm \<Rightarrow> (Inr fm, w1)))"

definition service_CreateFolder :: "'w service \<Rightarrow> string \<Rightarrow> string \<Rightarrow> ('w, unit) effect" where
  "service_CreateFolder s account name w =
     (case folderManager s account w of
        (Inl e, w1) \<Rightarrow> (Inl e, w1)
      | (Inr fm, w1) \<Rightarrow> CreateFolderOp fm name w1)"

definition service_DeleteFolder :: "'w service \<Rightarrow> string \<Rightarrow> string \<Rightarrow> ('w, unit) effect" where
  "service_DeleteFolder s account name w =
     (case folderManager s account w of
        (Inl e, w1) \<Rightarrow> (Inl e, w1)
      | (Inr fm, w1) \<Rightarrow> DeleteFolderOp fm name w1)"

definition service_Accounts :: "'w service \<Rightarrow> ids" where
  "service_Accounts s = ''default'' # sort (map fst (accounts s))"

definition service_CurationPlan :: "'w service \<Rightarrow> string \<Rightarrow> string \<Rightarrow> ('w, curation_plan) effect" where
  "service_CurationPlan s account folder w =
     (case Resolve s account folder w of
        (Inl e, w1) \<Rightarrow> (Inl e, w1)
      | (Inr box, w1) \<Rightarrow>
          (case CurationInspector (ops box) of
             None \<Rightarrow> (Inl (Failure ''backend cannot report curation destinations''), w1)
           | Some f \<Rightarrow> f w1))"

definition service_CurationCapabilities ::
  "'w service \<Rightarrow> string \<Rightarrow> string \<Rightarrow> ('w, curation_capabilities) effect" where
  "service_CurationCapabilities s account folder w =
     (case Resolve s account folder w of
        (Inl e, w1) \<Rightarrow> (Inl e, w1)
      | (Inr box, w1) \<Rightarrow>
          (case CapabilityProvider (ops box) of
             None \<Rightarrow> (Inl (Failure ''backend cannot report curation capabilities''), w1)
           | Some f \<Rightarrow> f w1))"

subsection \<open>What a batch reports\<close>

lemma bulk_loop_reported:
  "bulk_loop cx f res is w = ((res', e), w') \<Longrightarrow>
   \<exists>n \<le> length is. mset (reported res') = mset (reported res) + mset (take n is) \<and>
     (e = None \<longrightarrow> n = length is) \<and> (e \<noteq> None \<longrightarrow> n < length is \<and> cx w' = e)"
proof (induction "is" arbitrary: w res)
  case (Cons i "is")
  show ?case
  proof (cases "cx w")
    case None
    obtain r w1 where r: "f i w = (r, w1)" by force
    define res1 where "res1 = (case r of Inl e \<Rightarrow> Fail i e res | Inr _ \<Rightarrow> Succeed i res)"
    have "bulk_loop cx f res1 is w1 = ((res', e), w')"
      using Cons.prems None r by (cases r) (simp_all add: res1_def)
    from Cons.IH [OF this] obtain n where "n \<le> length is"
      "mset (reported res') = mset (reported res1) + mset (take n is)"
      "e = None \<longrightarrow> n = length is" "e \<noteq> None \<longrightarrow> n < length is \<and> cx w' = e" by blast
    moreover have "mset (reported res1) = add_mset i (mset (reported res))"
      by (cases r) (simp_all add: res1_def)
    ultimately show ?thesis by (intro exI [of _ "Suc n"]) simp
  next
    case (Some x)
    with Cons.prems have "res' = res" "e = Some x" "w' = w" by simp_all
    with Some show ?thesis by (intro exI [of _ 0]) simp
  qed
qed auto

lemma fetch_loop_reported:
  "fetch_loop cx f res is w = ((res', e), w') \<Longrightarrow>
   \<exists>n \<le> length is. mset (fetch_reported res') = mset (fetch_reported res) + mset (take n is) \<and>
     (e = None \<longrightarrow> n = length is) \<and> (e \<noteq> None \<longrightarrow> n < length is \<and> cx w' = e)"
proof (induction "is" arbitrary: w res)
  case (Cons i "is")
  show ?case
  proof (cases "cx w")
    case None
    obtain r w1 where r: "f i w = (r, w1)" by force
    define res1 where "res1 = (case r of Inl e \<Rightarrow> fetch_Fail i e res | Inr raw \<Rightarrow> fetch_Add i raw res)"
    have "fetch_loop cx f res1 is w1 = ((res', e), w')"
      using Cons.prems None r by (cases r) (simp_all add: res1_def)
    from Cons.IH [OF this] obtain n where "n \<le> length is"
      "mset (fetch_reported res') = mset (fetch_reported res1) + mset (take n is)"
      "e = None \<longrightarrow> n = length is" "e \<noteq> None \<longrightarrow> n < length is \<and> cx w' = e" by blast
    moreover have "mset (fetch_reported res1) = add_mset i (mset (fetch_reported res))"
      by (cases r) (simp_all add: res1_def)
    ultimately show ?thesis by (intro exI [of _ "Suc n"]) simp
  next
    case (Some x)
    with Cons.prems have "res' = res" "e = Some x" "w' = w" by simp_all
    with Some show ?thesis by (intro exI [of _ 0]) simp
  qed
qed auto

text \<open>The outcome of an id is the outcome of its own operation.\<close>

lemma bulk_loop_mono:
  "bulk_loop cx f res is w = ((res', e), w') \<Longrightarrow>
   set (Succeeded res) \<subseteq> set (Succeeded res') \<and> set (Failed res) \<subseteq> set (Failed res')"
proof (induction "is" arbitrary: w res)
  case (Cons i "is")
  show ?case
  proof (cases "cx w")
    case None
    obtain r w1 where r: "f i w = (r, w1)" by force
    define res1 where "res1 = (case r of Inl e \<Rightarrow> Fail i e res | Inr _ \<Rightarrow> Succeed i res)"
    have "bulk_loop cx f res1 is w1 = ((res', e), w')"
      using Cons.prems None r by (cases r) (simp_all add: res1_def)
    from Cons.IH [OF this] show ?thesis
      by (cases r) (auto simp: res1_def result_defs)
  qed (use Cons.prems in auto)
qed auto

text \<open>
  The interface of an operation on one id: it keeps an invariant, a success leaves a mark on
  its id, and later operations keep the mark.  A batch then marks every id it reports.
\<close>

locale id_operation =
  fixes f :: "string \<Rightarrow> ('w, unit) effect"
    and Inv :: "'w \<Rightarrow> bool"
    and mark :: "string \<Rightarrow> 'w \<Rightarrow> bool"
  assumes keeps: "Inv w \<Longrightarrow> f i w = (r, w') \<Longrightarrow> Inv w'"
    and marks: "Inv w \<Longrightarrow> f i w = (Inr u, w') \<Longrightarrow> mark i w'"
    and stays: "Inv w \<Longrightarrow> mark i w \<Longrightarrow> f j w = (r, w') \<Longrightarrow> mark i w'"
begin

lemma bulk_loop_marks:
  "bulk_loop cx f res is w = ((res', e), w') \<Longrightarrow> Inv w \<Longrightarrow>
    (\<forall>i \<in> set (Succeeded res). mark i w) \<Longrightarrow> Inv w' \<and> (\<forall>i \<in> set (Succeeded res'). mark i w')"
proof (induction "is" arbitrary: w res)
  case (Cons i "is")
  show ?case
  proof (cases "cx w")
    case None
    obtain r w1 where r: "f i w = (r, w1)" by force
    define res1 where "res1 = (case r of Inl e \<Rightarrow> Fail i e res | Inr _ \<Rightarrow> Succeed i res)"
    have go: "bulk_loop cx f res1 is w1 = ((res', e), w')"
      using Cons.prems(1) None r by (cases r) (simp_all add: res1_def)
    have old: "\<forall>j \<in> set (Succeeded res). mark j w1"
      using stays Cons.prems(2, 3) r by blast
    have "\<forall>j \<in> set (Succeeded res1). mark j w1"
    proof (cases r)
      case (Inl x)
      with old show ?thesis by (simp add: res1_def result_defs)
    next
      case (Inr u)
      with marks [OF Cons.prems(2), of i u w1] r old show ?thesis
        by (simp add: res1_def result_defs)
    qed
    with Cons.IH [OF go] keeps [OF Cons.prems(2) r] show ?thesis by blast
  qed (use Cons.prems in auto)
qed auto

lemma bulkEach_marks:
  "bulkEach cx is f w = ((res, e), w') \<Longrightarrow> Inv w \<Longrightarrow> Inv w' \<and> (\<forall>i \<in> set (Succeeded res). mark i w')"
  unfolding bulkEach_def by (drule bulk_loop_marks) (simp_all add: NewBulkResult_def)

end

lemma sum_sizes_measured:
  "snd (sum_sizes sizes is) = length (filter (\<lambda>i. sizes i \<noteq> None) is)"
  by (induction "is") (auto split: prod.splits option.splits)

text \<open>While the true total fits in 63 bits, the machine sum is the true total.\<close>

lemma sum_sizes_exact:
  assumes "\<forall>i b. sizes i = Some b \<longrightarrow> 0 \<le> sint b"
    and "(\<Sum>i \<leftarrow> is. case sizes i of None \<Rightarrow> 0 | Some b \<Rightarrow> sint b) < 2 ^ 63"
  shows "sint (fst (sum_sizes sizes is)) =
    (\<Sum>i \<leftarrow> is. case sizes i of None \<Rightarrow> 0 | Some b \<Rightarrow> sint b)"
  using assms(2)
proof (induction "is")
  case (Cons i "is")
  let ?S = "\<Sum>i \<leftarrow> is. case sizes i of None \<Rightarrow> 0 | Some b \<Rightarrow> sint b"
  have pos: "0 \<le> ?S" using assms(1)
    by (induction "is") (auto split: option.splits)
  obtain t n where t: "sum_sizes sizes is = (t, n)" by force
  show ?case
  proof (cases "sizes i")
    case None
    with Cons t show ?thesis by simp
  next
    case (Some b)
    then have b: "0 \<le> sint b" using assms(1) by blast
    with Cons.prems Some have S: "?S < 2 ^ 63" and total: "sint b + ?S < 2 ^ 63" by auto
    from Cons.IH S t have "sint t = ?S" by simp
    then have "sint (b + t) = sint b + ?S"
      using b pos total by (simp add: sint_word_ariths(1) signed_take_bit_int_eq_self)
    with Some t show ?thesis by simp
  qed
qed simp

lemma headers_in_order_ids: "headers_in_order ans is = Inr ms \<Longrightarrow> map sum_id ms = is"
  by (induction "is" arbitrary: ms) (auto split: sum.splits)

subsection \<open>Operations that only read\<close>

text \<open>
  What a backend promises of its reading operations: they leave the \<open>view\<close> of the mailbox as
  it was.  The use cases that list, search, read and measure inherit it.
\<close>

definition keeps_view :: "('w \<Rightarrow> 'v) \<Rightarrow> ('w \<Rightarrow> 'a \<times> 'w) \<Rightarrow> bool" where
  "keeps_view view f \<longleftrightarrow> (\<forall>w. view (snd (f w)) = view w)"

lemma keeps_viewD: "keeps_view view f \<Longrightarrow> f w = (x, w') \<Longrightarrow> view w' = view w"
  unfolding keeps_view_def by (metis snd_conv)

locale reading_ports =
  fixes p :: "'w ports" and view :: "'w \<Rightarrow> 'v"
  assumes reads_list: "keeps_view view (ListUnreadOp p)"
    and reads_fetch: "keeps_view view (FetchOp p i)"
    and reads_scoped: "ScopedMailbox p = Some sm \<Longrightarrow> keeps_view view (sm scope)"
    and reads_search: "Searcher p = Some se \<Longrightarrow> keeps_view view (se query)"
    and reads_scoped_search: "ScopedSearcher p = Some ss \<Longrightarrow> keeps_view view (ss scope query)"
    and reads_sizes: "MessageSizer p = Some sz \<Longrightarrow> keeps_view view (sz ids)"
    and reads_bulk: "BulkFetcher p = Some bf \<Longrightarrow> keeps_view view (bf ids)"
    and reads_headers: "BatchHeaderFetcher p = Some hf \<Longrightarrow> keeps_view view (hf ids)"
begin

lemma listMailbox_reads: "keeps_view view (listMailbox (Mailbox p fo) scope)"
  using reads_list reads_scoped
  by (auto simp: keeps_view_def listMailbox_def split: option.splits)

lemma scan_loop_reads: "keeps_view view (scan_loop cx p needle is)"
proof (induction "is")
  case Nil
  then show ?case by (simp add: keeps_view_def)
next
  case (Cons i "is")
  have "view (snd (scan_loop cx p needle (i # is) w)) = view w" for w
  proof -
    obtain r w1 where r: "FetchOp p i w = (r, w1)" by force
    note v1 = keeps_viewD [OF reads_fetch r]
    obtain o2 w2 where w2: "scan_loop cx p needle is w1 = (o2, w2)" by force
    note v2 = keeps_viewD [OF Cons w2]
    show ?thesis using r v1 w2 v2 by (auto split: sum.splits)
  qed
  then show ?case by (simp add: keeps_view_def)
qed

lemma searchMailbox_reads: "keeps_view view (searchMailbox cx (Mailbox p fo) scope query)"
proof -
  have "view (snd (searchMailbox cx (Mailbox p fo) scope query w)) = view w" for w
  proof -
    obtain l w1 where l: "listMailbox (Mailbox p fo) scope w = (l, w1)" by force
    note v1 = keeps_viewD [OF listMailbox_reads l]
    have v2: "view (snd (scan_loop cx p n is w1)) = view w1" for n "is"
      using scan_loop_reads by (simp add: keeps_view_def)
    show ?thesis
      using l v1 v2 reads_search reads_scoped_search
      by (auto simp: searchMailbox_def keeps_view_def split: option.splits sum.splits)
  qed
  then show ?thesis by (simp add: keeps_view_def)
qed

lemma fetch_loop_reads: "view (snd (fetch_loop cx (FetchOp p) res is w)) = view w"
proof (induction "is" arbitrary: res w)
  case (Cons i "is")
  obtain r w1 where r: "FetchOp p i w = (r, w1)" by force
  from keeps_viewD [OF reads_fetch r] Cons r show ?case by (auto split: option.splits sum.splits)
qed simp

lemma preflightFetch_reads: "keeps_view view (preflightFetch (Mailbox p fo) is)"
proof -
  have "view (snd (preflightFetch (Mailbox p fo) is w)) = view w" for w
  proof (cases "MessageSizer p")
    case (Some f)
    obtain r w1 where r: "f is w = (r, w1)" by force
    from keeps_viewD [OF reads_sizes [OF Some] r] r Some show ?thesis
      by (auto simp: preflightFetch_def split: sum.splits prod.splits option.splits)
  qed (simp add: preflightFetch_def)
  then show ?thesis by (simp add: keeps_view_def)
qed

lemma fetchMany_reads: "keeps_view view (fetchMany cx (Mailbox p fo) is limit)"
proof -
  have "view (snd (fetchMany cx (Mailbox p fo) is limit w)) = view w" for w
  proof -
    obtain r w1 where r: "preflightFetch (Mailbox p fo) is w = (r, w1)" by force
    note v1 = keeps_viewD [OF preflightFetch_reads r]
    show ?thesis
      using r v1 reads_bulk fetch_loop_reads
      by (auto simp: fetchMany_def fetchEach_def keeps_view_def split: option.splits sum.splits)
  qed
  then show ?thesis by (simp add: keeps_view_def)
qed

lemma from_loop_reads:
  "(\<And>ids. keeps_view view (f ids)) \<Longrightarrow> view (snd (from_loop f needle is w)) = view w"
proof (induction f needle "is" w rule: from_loop.induct)
  case (1 f needle "is" w)
  show ?case
  proof (cases "is = []")
    case False
    obtain ans w1 where f: "f (take (nat MaxBulkIDs) is) w = (ans, w1)" by (metis surj_pair)
    note v1 = keeps_viewD [OF 1(2) f]
    show ?thesis
    proof (cases "filter_from ans needle (take (nat MaxBulkIDs) is)")
      case (Inl e)
      with f v1 False show ?thesis by (simp add: from_loop.simps [of f needle "is"])
    next
      case (Inr out)
      from 1(1) [OF False f [symmetric] Inr 1(2)] v1
      have "view (snd (from_loop f needle (drop (nat MaxBulkIDs) is) w1)) = view w" by simp
      with f Inr False show ?thesis
        by (auto simp: from_loop.simps [of f needle "is"] split: prod.splits sum.splits)
    qed
  qed (simp add: from_loop.simps)
qed

lemma searchFromFallback_reads:
  "keeps_view view (searchFromFallback cx (Mailbox p fo) scope query sender)"
proof -
  have "view (snd (searchFromFallback cx (Mailbox p fo) scope query sender w)) = view w" for w
  proof -
    obtain r w1 where r: "searchMailbox cx (Mailbox p fo) scope query w = (r, w1)" by force
    note v1 = keeps_viewD [OF searchMailbox_reads r]
    have "view (snd (from_loop f n is w1)) = view w1" if "BatchHeaderFetcher p = Some f" for f n "is"
      using reads_headers [OF that] by (rule from_loop_reads)
    with r v1 show ?thesis
      by (auto simp: searchFromFallback_def split: sum.splits option.splits)
  qed
  then show ?thesis by (simp add: keeps_view_def)
qed

end

subsection \<open>Properties\<close>

lemma bulkEach_report:
  assumes "bulkEach cx is f w = ((res, e), w')" "distinct is"
  shows "distinct (reported res) \<and> set (reported res) \<subseteq> set is \<and>
    (e = None \<longrightarrow> set (reported res) = set is) \<and> (e \<noteq> None \<longrightarrow> cx w' = e)"
proof -
  from bulk_loop_reported [OF assms(1) [unfolded bulkEach_def]] obtain n where
    n: "n \<le> length is" "mset (reported res) = mset (take n is)" "e = None \<longrightarrow> n = length is"
      "e \<noteq> None \<longrightarrow> cx w' = e" by auto
  have "distinct (reported res)" "set (reported res) = set (take n is)"
    using n(2) assms(2) mset_eq_imp_distinct_iff mset_eq_setD distinct_take by metis+
  with n show ?thesis using set_take_subset [of n "is"] by auto
qed

text \<open>C10: a batch that the backend does not run itself reports every requested id exactly once,
  as a success or with its own failure; only the end of the caller's context cuts it short, and
  then that error is returned and what is reported is a part of the request, each id once.\<close>

theorem batches_report_every_id_once:
  assumes "CheckBulkIDsLimit is limit = None"
    and "BulkMailbox (ops mb) = None" "BulkCurator (ops mb) = None" "BulkMover (ops mb) = None"
    and "Curator (ops mb) = Some cu" "Mover (ops mb) = Some mv" "CheckFolderName dst = None"
    and "((res, e), w') \<in> {markSeenMany cx mb is limit w, curateMany cx mb is act limit w,
           moveMany cx mb is dst limit w}"
  shows "distinct (reported res) \<and> set (reported res) \<subseteq> set is \<and>
    (e = None \<longrightarrow> set (reported res) = set is) \<and> (e \<noteq> None \<longrightarrow> cx w' = e)"
proof -
  have "distinct is" using assms(1) by (simp add: check_simps)
  moreover have "\<exists>f. bulkEach cx is f w = ((res, e), w')"
  proof -
    have ms: "markSeenMany cx mb is limit w = bulkEach cx is (MarkSeenOp (ops mb)) w"
      using assms(1, 2) by (simp add: markSeenMany_def)
    have mv: "moveMany cx mb is dst limit w = bulkEach cx is (\<lambda>i. mv i dst) w"
      using assms(1, 4, 6, 7) by (simp add: moveMany_def)
    have cu: "curateMany cx mb is act limit w =
        bulkEach cx is (if act = actionArchive then ArchiveOne cu else DeleteOne cu) w"
      using assms(1, 3, 5) by (simp add: curateMany_def)
    from assms(8) show ?thesis
      unfolding ms mv cu by (elim insertE emptyE) (rule exI, erule sym)+
  qed
  ultimately show ?thesis by (elim exE) (rule bulkEach_report)
qed

text \<open>A mailbox over the list of the unread ids, for evaluation.\<close>

definition toy_ports :: "ids ports" where
  "toy_ports =
     \<lparr>ListUnreadOp = (\<lambda>w. (Inr w, w)),
      FetchOp = (\<lambda>i w. (if i \<in> set w then Inr i else Inl (Wraps ErrBadID [Str i]), w)),
      MarkSeenOp = (\<lambda>i w. if i \<in> set w then (Inr (), removeAll i w)
                            else (Inl (Wraps ErrBadID [Str i]), w)),
      ScopedMailbox = None, Searcher = None, ScopedSearcher = None, SenderSearcher = None,
      HeaderFetcher = None,
      BatchHeaderFetcher = Some (\<lambda>is w. ((\<lambda>i. Some \<lparr>From = i, To = [], Subject = [], Date = [],
        MessageID = []\<rparr>, \<lambda>i. None), w)),
      FolderLister = None, FolderManager = None,
      Curator = Some \<lparr>ArchiveOne = (\<lambda>i w. (Inr (), removeAll i w)),
                      DeleteOne = (\<lambda>i w. (Inr (), removeAll i w))\<rparr>,
      Mover = Some (\<lambda>i d w. (Inr (), removeAll i w)),
      MessageSizer = Some (\<lambda>is w. (Inr (\<lambda>i. if i \<in> set w then Some 10 else None), w)),
      BulkFetcher = None, BulkMailbox = None, BulkCurator = None, BulkMover = None,
      CurationInspector = None, CapabilityProvider = None, LimitProvider = None,
      LimitSetter = None\<rparr>"

definition toy_mailbox :: "ids mailbox" where
  "toy_mailbox = Mailbox toy_ports None"

lemmas toy_defs = toy_mailbox_def toy_ports_def

theorem batches_report_every_id_once_witness:
  "set (reported (fst (fst (markSeenMany (\<lambda>w. None) toy_mailbox [''b'', ''x''] 0 [''a'', ''b''])))) =
     {''b'', ''x''}"
proof -
  obtain res e w' where r: "markSeenMany (\<lambda>w. None) toy_mailbox [''b'', ''x''] 0 [''a'', ''b''] =
      ((res, e), w')" by (metis surj_pair)
  have c: "CheckBulkIDsLimit [''b'', ''x''] 0 = None"
    by (simp add: check_simps effective_limit_def MaxBulkIDs_def)
  have "CheckFolderName ''d'' = None"
    by (simp add: check_simps go_string control_char_def)
  from batches_report_every_id_once [where mb = toy_mailbox and cx = "\<lambda>w. None" and w' = w'
      and res = res and e = e and w = "[''a'', ''b'']" and act = actionArchive, OF c _ _ _ _ _ this]
    r
  have "(e = None \<longrightarrow> set (reported res) = {''b'', ''x''}) \<and> (e \<noteq> None \<longrightarrow> None = e)"
    by (simp add: toy_defs)
  then show ?thesis using r by (cases e) auto
qed

text \<open>a batch over the cap, empty or naming an id twice is refused as a whole with the batch
  error, whichever batch it is and whatever the backend can do itself, and nothing is done.\<close>

theorem refused_batches_do_nothing:
  assumes "CheckBulkIDsLimit is limit = Some e"
  shows "errors_is e ErrBulkSize \<and>
    fetchMany cx mb is limit w = ((no_fetch, Some e), w) \<and>
    markSeenMany cx mb is limit w = ((no_result, Some e), w) \<and>
    curateMany cx mb is act limit w = ((no_result, Some e), w) \<and>
    moveMany cx mb is dst limit w = ((no_result, Some e), w) \<and>
    (is = [] \<or> int (length is) > effective_limit limit \<or> \<not> distinct is)"
proof -
  have "CheckBulkIDsLimit is limit \<noteq> None" using assms by simp
  then have "is = [] \<or> int (length is) > effective_limit limit \<or> \<not> distinct is"
    unfolding bulk_limit_None_iff by auto
  with assms bulk_limit_Some_is [OF assms] show ?thesis
    by (simp add: fetchMany_def markSeenMany_def curateMany_def moveMany_def)
qed

theorem refused_batches_do_nothing_witness:
  "snd (markSeenMany (\<lambda>w. None) toy_mailbox [''a'', ''a''] 5 [''a'', ''b'']) = [''a'', ''b'']"
proof -
  have "CheckBulkIDsLimit [''a'', ''a''] 5 \<noteq> None" by (simp add: check_simps)
  then obtain e where "CheckBulkIDsLimit [''a'', ''a''] 5 = Some e" by blast
  from refused_batches_do_nothing [OF this, of "\<lambda>w. None" toy_mailbox "[''a'', ''b'']"] show ?thesis
    by simp
qed

text \<open>C11: a batch fetch that is read id by id is bounded before a byte of it is read: when the
  measured sizes are honest and sum below 2^63, reading starts only if they sum to at most the
  fetch budget, and otherwise nothing is read and the refusal says too large.\<close>

theorem batch_fetch_is_measured_first:
  assumes "CheckBulkIDsLimit is limit = None" "BulkFetcher (ops mb) = None"
    and "MessageSizer (ops mb) = Some sz" "sz is w = (Inr sizes, w1)"
    and "\<forall>i b. sizes i = Some b \<longrightarrow> 0 \<le> sint b"
    and "(\<Sum>i \<leftarrow> is. case sizes i of None \<Rightarrow> 0 | Some b \<Rightarrow> sint b) < 2 ^ 63"
  shows "if (\<Sum>i \<leftarrow> is. case sizes i of None \<Rightarrow> 0 | Some b \<Rightarrow> sint b) \<le> MaxFetchBytes
    then fetchMany cx mb is limit w = fetchEach cx is (FetchOp (ops mb)) w1
    else \<exists>e. fetchMany cx mb is limit w = ((no_fetch, Some e), w1) \<and> errors_is e ErrFetchTooLarge"
proof -
  obtain t n where t: "sum_sizes sizes is = (t, n)" by force
  with sum_sizes_exact [OF assms(5, 6)]
  have "sint t = (\<Sum>i \<leftarrow> is. case sizes i of None \<Rightarrow> 0 | Some b \<Rightarrow> sint b)" by simp
  with assms(1-4) t show ?thesis
    by (simp add: fetchMany_def preflightFetch_def CheckFetchBudget_def)
qed

theorem batch_fetch_is_measured_first_witness:
  "fetchMany (\<lambda>w. None) toy_mailbox [''a''] 5 [''a'', ''b''] =
     fetchEach (\<lambda>w. None) [''a''] (FetchOp toy_ports) [''a'', ''b'']"
proof -
  have "CheckBulkIDsLimit [''a''] 5 = None" by (simp add: check_simps effective_limit_def)
  from batch_fetch_is_measured_first [OF this, of toy_mailbox
      "\<lambda>is w. (Inr (\<lambda>i. if i \<in> set w then Some 10 else None), w)" "[''a'', ''b'']"
      "\<lambda>i. if i \<in> set [''a'', ''b''] then Some 10 else None" "[''a'', ''b'']" "\<lambda>w. None"]
  show ?thesis by (simp add: toy_defs MaxFetchBytes_def)
qed

text \<open>the budget sum is not guarded against overflow: sizes a backend reports can wrap the
  int64 total to a negative number, and the batch is then read although it measures far more
  than the budget.\<close>

theorem fetch_budget_can_wrap:
  assumes "MessageSizer (ops mb) = Some (\<lambda>is w. (Inr (\<lambda>i. Some (2 ^ 63 - 1)), w))"
    and "BulkFetcher (ops mb) = None"
  shows "fetchMany cx mb [''a'', ''b''] 100 w = fetchEach cx [''a'', ''b''] (FetchOp (ops mb)) w \<and>
    2 * sint (2 ^ 63 - 1 :: int64) > MaxFetchBytes"
proof -
  have "CheckBulkIDsLimit [''a'', ''b''] 100 = None" by (simp add: check_simps effective_limit_def)
  with assms show ?thesis
    by (simp add: fetchMany_def preflightFetch_def CheckFetchBudget_def MaxFetchBytes_def)
qed

theorem fetch_budget_can_wrap_witness:
  "snd (fst (fetchMany (\<lambda>w. None) (Mailbox (toy_ports\<lparr>MessageSizer :=
       Some (\<lambda>is w. (Inr (\<lambda>i. Some (2 ^ 63 - 1)), w))\<rparr>) None) [''a'', ''b''] 100 [''a'', ''b''])) = None"
  using fetch_budget_can_wrap [of "Mailbox (toy_ports\<lparr>MessageSizer :=
       Some (\<lambda>is w. (Inr (\<lambda>i. Some (2 ^ 63 - 1)), w))\<rparr>) None" "\<lambda>w. None" "[''a'', ''b'']"]
  by (simp add: toy_defs fetchEach_def)

text \<open>a page without headers is the slice of the ids its offset and limit name, with the size
  of the whole listing; pages of one positive limit tile the listing; and a page with headers
  carries exactly the headers of its ids, in their order.\<close>

theorem pages_tile_the_listing:
  assumes "ParseScope scope0 = Inr scope"
  shows "(0 \<le> off \<longrightarrow> 0 < limit \<longrightarrow>
      (\<exists>pg. messagePage s acc fo scope0 is off limit False w = (Inr pg, w) \<and>
         IDs pg = take (nat limit) (drop (nat off) is) \<and> Total pg = length is \<and> page_scope pg = scope)) \<and>
    (\<forall>pages. 0 < limit \<longrightarrow>
      (\<forall>k < n. fst (messagePage s acc fo scope0 is (int k * limit) limit False w) = Inr (pages k)) \<longrightarrow>
      concat (map (\<lambda>k. IDs (pages k)) [0..<n]) = take (n * nat limit) is) \<and>
    (\<forall>pg w'. messagePage s acc fo scope0 is off limit True w = (Inr pg, w') \<longrightarrow>
       map sum_id (Messages pg) = IDs pg)"
proof (intro conjI impI allI)
  have slice: "\<exists>pg. messagePage s acc fo scope0 is o' limit False w = (Inr pg, w) \<and>
         IDs pg = take (nat limit) (drop (nat o') is) \<and> Total pg = length is \<and> page_scope pg = scope"
    if "0 \<le> o'" "0 < limit" for o'
    using that assms by (auto simp: messagePage_def Let_def)
  then show "\<exists>pg. messagePage s acc fo scope0 is off limit False w = (Inr pg, w) \<and>
         IDs pg = take (nat limit) (drop (nat off) is) \<and> Total pg = length is \<and> page_scope pg = scope"
    if "0 \<le> off" "0 < limit" using that by blast
  show "concat (map (\<lambda>k. IDs (pages k)) [0..<n]) = take (n * nat limit) is"
    if l: "0 < limit"
      and pages: "\<forall>k < n. fst (messagePage s acc fo scope0 is (int k * limit) limit False w) = Inr (pages k)"
    for pages
    using pages
  proof (induction n)
    case (Suc n)
    from slice [of "int n * limit"] l obtain pg where
      pg: "messagePage s acc fo scope0 is (int n * limit) limit False w = (Inr pg, w)"
        "IDs pg = take (nat limit) (drop (nat (int n * limit)) is)" by auto
    with Suc.prems have "pages n = pg" by (metis fst_conv lessI sum.inject(2))
    moreover have "nat (int n * limit) = n * nat limit" using l by (simp add: nat_mult_distrib)
    ultimately have "IDs (pages n) = take (nat limit) (drop (n * nat limit) is)" using pg(2) by simp
    moreover have "take (Suc n * nat limit) is =
        take (n * nat limit) is @ take (nat limit) (drop (n * nat limit) is)"
      by (simp add: take_add [symmetric] add.commute)
    moreover have "concat (map (\<lambda>k. IDs (pages k)) [0..<n]) = take (n * nat limit) is"
      using Suc by simp
    ultimately show ?case by simp
  qed simp
  show "map sum_id (Messages pg) = IDs pg"
    if "messagePage s acc fo scope0 is off limit True w = (Inr pg, w')" for pg w'
    using that assms headers_in_order_ids
    by (auto simp: messagePage_def Let_def split: if_splits sum.splits prod.splits option.splits)
qed

theorem pages_tile_the_listing_witness:
  "\<exists>pg. messagePage \<lparr>mailbox = toy_mailbox, accounts = [], bulkLimit = 100\<rparr> [] [] []
       [''a'', ''b'', ''c''] 1 1 False [''a'', ''b'', ''c''] = (Inr pg, [''a'', ''b'', ''c'']) \<and>
     IDs pg = [''b''] \<and> Total pg = 3"
proof -
  have "ParseScope [] = Inr ScopeUnread" by (simp add: ParseScope_def)
  from pages_tile_the_listing [OF this, THEN conjunct1, rule_format, of 1 1
      "\<lparr>mailbox = toy_mailbox, accounts = [], bulkLimit = 100\<rparr>" "[]" "[]" "[''a'', ''b'', ''c'']"
      "[''a'', ''b'', ''c'']"]
  show ?thesis by auto
qed

end
