(* ===== verification/Outbound.thy ===== *)
theory Outbound
  imports Mail_Domain
begin

section \<open>Outbound messages and their lifecycle (domain/outbound.go, domain/outbox.go)\<close>

text \<open>
  The message record, its validation and its envelope recipients, and the lifecycle
  statechart.  The address and media-type parsers of Go's \<open>net/mail\<close> and \<open>mime\<close> are
  functions of a \<open>mail_lib\<close> that every definition using them takes, so what is proved here
  holds whatever they accept; the statechart library is a \<open>statekit\<close>, with its documented
  behaviour as the predicate \<open>statekit_documented\<close>.
\<close>

subsection \<open>The parsers of the standard library\<close>

record address =
  Name :: string
  Address :: string

text \<open>A parsed message or part: its header fields by name, and its body.\<close>

record raw_mail =
  HeaderGet :: "string \<Rightarrow> string"
  RawBody :: bytes

text \<open>
  \<open>Multipart\<close> yields the parts a multipart reader returns before it ends or fails, and the
  two decoders what they yield before they end or fail.
\<close>

record mail_lib =
  ParseAddress :: "string \<Rightarrow> address option"
  ParseAddressList :: "string \<Rightarrow> address list option"
  AddressString :: "address \<Rightarrow> string"
  ParseMediaType :: "string \<Rightarrow> (string \<times> (string \<Rightarrow> string)) option"
  ReadMessage :: "bytes \<Rightarrow> raw_mail option"
  DecodeHeader :: "string \<Rightarrow> string option"
  Multipart :: "string \<Rightarrow> bytes \<Rightarrow> raw_mail list"
  DecodeQuotedPrintable :: "bytes \<Rightarrow> bytes"
  DecodeBase64 :: "bytes \<Rightarrow> bytes"

text \<open>A simple library, for evaluation.\<close>

definition plain_mail :: mail_lib where
  "plain_mail =
     \<lparr>ParseAddress = (\<lambda>s. if CHR ''@'' \<in> set s then Some \<lparr>Name = [], Address = trim_space s\<rparr>
                        else None),
      ParseAddressList = (\<lambda>s. None), AddressString = Address,
      ParseMediaType = (\<lambda>s. if s = [] then None else Some (s, \<lambda>_. [])),
      ReadMessage = (\<lambda>raw. Some \<lparr>HeaderGet = (\<lambda>k. if k = ''From'' then ''a@b'' else []), RawBody = raw\<rparr>),
      DecodeHeader = Some, Multipart = (\<lambda>b raw. []),
      DecodeQuotedPrintable = (\<lambda>raw. raw), DecodeBase64 = (\<lambda>raw. raw)\<rparr>"

subsection \<open>Messages\<close>

definition MaxAttachmentBytes :: nat where "MaxAttachmentBytes = 10 * 2 ^ 20"
definition MaxMessageBytes :: nat where "MaxMessageBytes = 25 * 2 ^ 20"

record attachment =
  Filename :: string
  ContentType :: string
  Content :: bytes

record outbound_message =
  om_ID :: string
  om_To :: ids
  om_Subject :: string
  om_Body :: string
  om_Cc :: ids
  om_Bcc :: ids
  om_HTMLBody :: string
  om_InReplyTo :: string
  om_References :: ids
  om_Attachments :: "attachment list"
  om_State :: string
  om_Error :: string
  om_Attempts :: int

definition empty_message :: outbound_message where
  "empty_message =
     \<lparr>om_ID = [], om_To = [], om_Subject = [], om_Body = [], om_Cc = [], om_Bcc = [],
      om_HTMLBody = [], om_InReplyTo = [], om_References = [], om_Attachments = [],
      om_State = [], om_Error = [], om_Attempts = 0\<rparr>"

subsection \<open>Envelope recipients\<close>

text \<open>The loop body: \<open>seen\<close> holds the lower-cased addr-specs already taken.\<close>

fun recipients_loop :: "mail_lib \<Rightarrow> string set \<Rightarrow> ids \<Rightarrow> ids" where
  "recipients_loop lib seen [] = []"
| "recipients_loop lib seen (v # vs) =
     (case ParseAddress lib (trim_space v) of
        None \<Rightarrow> recipients_loop lib seen vs
      | Some a \<Rightarrow>
          if to_lower (Address a) \<in> seen then recipients_loop lib seen vs
          else Address a # recipients_loop lib (insert (to_lower (Address a)) seen) vs)"

definition Recipients :: "mail_lib \<Rightarrow> outbound_message \<Rightarrow> ids" where
  "Recipients lib m = recipients_loop lib {} (om_To m @ om_Cc m @ om_Bcc m)"

text \<open>The addr-specs a list of header values names.\<close>

definition specs_of :: "mail_lib \<Rightarrow> ids \<Rightarrow> string set" where
  "specs_of lib vs =
     {to_lower (Address a) | a v. v \<in> set vs \<and> ParseAddress lib (trim_space v) = Some a}"

lemma specs_of_Nil [simp]: "specs_of lib [] = {}"
  by (simp add: specs_of_def)

lemma specs_of_Cons:
  "specs_of lib (v # vs) =
     (case ParseAddress lib (trim_space v) of None \<Rightarrow> {} | Some a \<Rightarrow> {to_lower (Address a)})
     \<union> specs_of lib vs"
  by (auto simp: specs_of_def split: option.splits)

lemma specs_of_append: "specs_of lib (xs @ ys) = specs_of lib xs \<union> specs_of lib ys"
  by (auto simp: specs_of_def)

lemma recipients_loop_keys:
  "set (map to_lower (recipients_loop lib seen vs)) = specs_of lib vs - seen"
proof (induction vs arbitrary: seen)
  case (Cons v vs)
  show ?case
    by (cases "ParseAddress lib (trim_space v)") (auto simp: specs_of_Cons Cons [simplified])
qed simp

lemma recipients_loop_distinct:
  "distinct (map to_lower (recipients_loop lib seen vs))"
proof (induction vs arbitrary: seen)
  case (Cons v vs)
  show ?case
  proof (cases "ParseAddress lib (trim_space v)")
    case (Some a)
    have "to_lower (Address a) \<notin>
        set (map to_lower (recipients_loop lib (insert (to_lower (Address a)) seen) vs))"
      by (simp only: recipients_loop_keys) simp
    with Some Cons show ?thesis by simp
  qed (simp add: Cons)
qed simp

subsection \<open>Validation\<close>

definition line_breaks :: string where "line_breaks = [CHR 0x0D, CHR 0x0A]"

definition ValidateAddress :: "mail_lib \<Rightarrow> string \<Rightarrow> check" where
  "ValidateAddress lib addr =
     (if contains_any addr line_breaks then Some (Failure ''address contains line breaks'')
      else case ParseAddress lib addr of
             None \<Rightarrow> Some (Failure ''invalid address'')
           | Some _ \<Rightarrow> None)"

fun ValidateAddresses :: "mail_lib \<Rightarrow> ids \<Rightarrow> check" where
  "ValidateAddresses lib [] = None"
| "ValidateAddresses lib (a # as) =
     (case ValidateAddress lib a of Some e \<Rightarrow> Some e | None \<Rightarrow> ValidateAddresses lib as)"

text \<open>\<open>id[1:len(id)-1]\<close>: the text between the brackets.\<close>

definition ValidateMessageID :: "string \<Rightarrow> check" where
  "ValidateMessageID i =
     (if contains_any i line_breaks then Some (Failure ''message id contains line breaks'')
      else if length i < 3 \<or> \<not> has_prefix i ''<'' \<or> \<not> has_suffix i ''>''
      then Some (Failure ''message id is not angle-bracketed'')
      else if contains_any (butlast (tl i)) ([CHR ''<'', CHR ''>'', CHR '' '', CHR 0x09])
      then Some (Failure ''message id is not a single token'')
      else None)"

definition ValidateContentType :: "mail_lib \<Rightarrow> string \<Rightarrow> check" where
  "ValidateContentType lib ctype =
     (if contains_any ctype line_breaks then Some (Failure ''content type contains line breaks'')
      else if ParseMediaType lib ctype = None then Some (Failure ''invalid content type'')
      else None)"

fun validate_groups :: "mail_lib \<Rightarrow> ids list \<Rightarrow> check" where
  "validate_groups lib [] = None"
| "validate_groups lib (g # gs) =
     (case ValidateAddresses lib g of Some e \<Rightarrow> Some e | None \<Rightarrow> validate_groups lib gs)"

fun validate_refs :: "ids \<Rightarrow> check" where
  "validate_refs [] = None"
| "validate_refs (r # rs) =
     (case ValidateMessageID r of Some e \<Rightarrow> Some e | None \<Rightarrow> validate_refs rs)"

text \<open>The attachment loop carries the running \<open>total\<close> and returns it.\<close>

fun validate_attachments :: "mail_lib \<Rightarrow> nat \<Rightarrow> attachment list \<Rightarrow> error + nat" where
  "validate_attachments lib tot [] = Inr tot"
| "validate_attachments lib tot (a # as) =
     (if Filename a = [] then Inl (Failure ''attachment has no filename'')
      else if ContentType a = [] then Inl (Failure ''attachment has no content type'')
      else if length (Content a) = 0 then Inl (Failure ''attachment is empty'')
      else if length (Content a) > MaxAttachmentBytes then Inl (Failure ''attachment over the limit'')
      else case ValidateContentType lib (ContentType a) of
             Some e \<Rightarrow> Inl e
           | None \<Rightarrow> validate_attachments lib (tot + length (Content a)) as)"

definition Validate :: "mail_lib \<Rightarrow> outbound_message \<Rightarrow> check" where
  "Validate lib m =
     (if length (om_To m) = 0 then Some (Failure ''message needs at least one recipient'')
      else case validate_groups lib [om_To m, om_Cc m, om_Bcc m] of
        Some e \<Rightarrow> Some e
      | None \<Rightarrow>
        (case (if om_InReplyTo m \<noteq> [] then ValidateMessageID (om_InReplyTo m) else None) of
           Some e \<Rightarrow> Some e
         | None \<Rightarrow>
           (case validate_refs (om_References m) of
              Some e \<Rightarrow> Some e
            | None \<Rightarrow>
              (case validate_attachments lib (length (om_Body m) + length (om_HTMLBody m))
                      (om_Attachments m) of
                 Inl e \<Rightarrow> Some e
               | Inr tot \<Rightarrow>
                   if tot > MaxMessageBytes then Some (Failure ''message over the limit'')
                   else None))))"

subsection \<open>What validation establishes\<close>

definition single_line :: "string \<Rightarrow> bool" where
  "single_line s \<longleftrightarrow> set s \<inter> set line_breaks = {}"

lemma ValidateAddress_None_iff:
  "ValidateAddress lib a = None \<longleftrightarrow> single_line a \<and> ParseAddress lib a \<noteq> None"
  by (auto simp: ValidateAddress_def contains_any_iff single_line_def split: option.splits)

lemma ValidateAddresses_None_iff:
  "ValidateAddresses lib as = None \<longleftrightarrow> (\<forall>a \<in> set as. ValidateAddress lib a = None)"
  by (induction as) (auto split: option.splits)

lemma ValidateMessageID_None:
  assumes "ValidateMessageID i = None"
  shows "single_line i" and "\<exists>t. i = ''<'' @ t @ ''>'' \<and> t \<noteq> [] \<and>
           set t \<inter> {CHR ''<'', CHR ''>'', CHR '' '', CHR 0x09} = {}"
proof -
  from assms show "single_line i"
    by (auto simp: ValidateMessageID_def contains_any_iff single_line_def split: if_splits)
  from assms have len: "3 \<le> length i" and pre: "has_prefix i ''<''"
    and suf: "has_suffix i ''>''"
    and tok: "\<not> contains_any (butlast (tl i)) ([CHR ''<'', CHR ''>'', CHR '' '', CHR 0x09])"
    by (auto simp: ValidateMessageID_def split: if_splits)
  from pre obtain r where r: "i = CHR ''<'' # r" by (auto simp: has_prefix_iff)
  from suf obtain q where "rev i = CHR ''>'' # q"
    by (auto simp: has_suffix_def has_prefix_iff)
  then have q: "i = rev q @ [CHR ''>'']" by (metis rev.simps(2) rev_rev_ident)
  with r len obtain t where "r = t @ [CHR ''>'']"
    by (cases "rev q") auto
  with r len tok show "\<exists>t. i = ''<'' @ t @ ''>'' \<and> t \<noteq> [] \<and>
           set t \<inter> {CHR ''<'', CHR ''>'', CHR '' '', CHR 0x09} = {}"
    by (auto simp: contains_any_iff)
qed

lemma validate_refs_None_iff:
  "validate_refs rs = None \<longleftrightarrow> (\<forall>r \<in> set rs. ValidateMessageID r = None)"
  by (induction rs) (auto split: option.splits)

lemma validate_attachments_Inr:
  "validate_attachments lib tot as = Inr n \<Longrightarrow>
     n = tot + sum_list (map (length \<circ> Content) as) \<and>
     (\<forall>a \<in> set as. Filename a \<noteq> [] \<and> Content a \<noteq> [] \<and>
        length (Content a) \<le> MaxAttachmentBytes \<and> single_line (ContentType a))"
proof (induction as arbitrary: tot)
  case (Cons a as)
  from Cons.prems have rest: "validate_attachments lib (tot + length (Content a)) as = Inr n"
    and a: "Filename a \<noteq> [] \<and> Content a \<noteq> [] \<and>
      length (Content a) \<le> MaxAttachmentBytes \<and> single_line (ContentType a)"
    by (auto simp: ValidateContentType_def contains_any_iff single_line_def
        split: if_splits option.splits)
  from Cons.IH [OF rest] a show ?case by simp
qed simp

lemma Validate_None:
  assumes "Validate lib m = None"
  shows "om_To m \<noteq> []"
    and "\<forall>a \<in> set (om_To m @ om_Cc m @ om_Bcc m). ValidateAddress lib a = None"
    and "om_InReplyTo m \<noteq> [] \<longrightarrow> ValidateMessageID (om_InReplyTo m) = None"
    and "\<forall>r \<in> set (om_References m). ValidateMessageID r = None"
    and "\<exists>n. validate_attachments lib (length (om_Body m) + length (om_HTMLBody m))
               (om_Attachments m) = Inr n \<and> n \<le> MaxMessageBytes"
  using assms
  by (auto simp: Validate_def ValidateAddresses_None_iff validate_refs_None_iff
      split: if_splits option.splits sum.splits)

subsection \<open>The lifecycle statechart\<close>

definition OutboxStates :: ids where
  "OutboxStates = [''queued'', ''sending'', ''sent'', ''failed'']"

record chart_state =
  state_id :: string
  edges :: "(string \<times> string) list"
  is_final :: bool

record chart =
  chart_name :: string
  initial :: string
  chart_states :: "chart_state list"

text \<open>What \<open>newOutboxMachine\<close> hands to the statechart library.\<close>

definition outbox_chart :: "string \<Rightarrow> chart" where
  "outbox_chart ini =
     \<lparr>chart_name = ''outbox'', initial = ini,
      chart_states =
        [\<lparr>state_id = ''queued'', edges = [(''SEND'', ''sending'')], is_final = False\<rparr>,
         \<lparr>state_id = ''sending'',
          edges = [(''SUCCEED'', ''sent''), (''FAIL'', ''failed'')], is_final = False\<rparr>,
         \<lparr>state_id = ''sent'', edges = [], is_final = True\<rparr>,
         \<lparr>state_id = ''failed'', edges = [(''RETRY'', ''queued'')], is_final = False\<rparr>]\<rparr>"

record statekit =
  Build :: "chart \<Rightarrow> check"
  Send_event :: "chart \<Rightarrow> string \<Rightarrow> string \<Rightarrow> string"

definition newOutboxMachine :: "statekit \<Rightarrow> string \<Rightarrow> error + chart" where
  "newOutboxMachine sk ini =
     (case Build sk (outbox_chart ini) of Some e \<Rightarrow> Inl e | None \<Rightarrow> Inr (outbox_chart ini))"

definition Transition :: "statekit \<Rightarrow> string \<Rightarrow> string \<Rightarrow> error + string" where
  "Transition sk from event =
     (case newOutboxMachine sk from of
        Inl e \<Rightarrow> Inl e
      | Inr interp \<Rightarrow>
          (let to = Send_event sk interp (initial interp) event in
           if to = from then Inl (Failure ''illegal transition'') else Inr to))"

text \<open>
  The documented behaviour of the library: building a chart fails when the initial state is
  not one of its states, and an event moves the machine along the edge the current state
  declares for it, or leaves it where it is.
\<close>

definition chart_edge :: "chart \<Rightarrow> string \<Rightarrow> string \<Rightarrow> string option" where
  "chart_edge c s ev =
     (case find (\<lambda>x. state_id x = s) (chart_states c) of
        None \<Rightarrow> None
      | Some x \<Rightarrow> map_of (edges x) ev)"

definition statekit_documented :: "statekit \<Rightarrow> bool" where
  "statekit_documented sk \<longleftrightarrow>
     (\<forall>c. Build sk c = None \<longleftrightarrow> initial c \<in> state_id ` set (chart_states c)) \<and>
     (\<forall>c s ev. Send_event sk c s ev = (case chart_edge c s ev of None \<Rightarrow> s | Some t \<Rightarrow> t))"

text \<open>A library that behaves as documented, for evaluation.\<close>

definition reference_statekit :: statekit where
  "reference_statekit =
     \<lparr>Build = (\<lambda>c. if initial c \<in> state_id ` set (chart_states c) then None
                   else Some (Failure ''invalid initial state'')),
      Send_event = (\<lambda>c s ev. case chart_edge c s ev of None \<Rightarrow> s | Some t \<Rightarrow> t)\<rparr>"

lemma reference_statekit_documented: "statekit_documented reference_statekit"
  by (simp add: statekit_documented_def reference_statekit_def)

text \<open>The transition table the statechart amounts to.\<close>

definition lifecycle :: "string \<Rightarrow> string \<Rightarrow> string option" where
  "lifecycle from event =
     map_of [((''queued'', ''SEND''), ''sending''), ((''sending'', ''SUCCEED''), ''sent''),
             ((''sending'', ''FAIL''), ''failed''), ((''failed'', ''RETRY''), ''queued'')]
            (from, event)"

lemma chart_edge_lifecycle: "chart_edge (outbox_chart ini) s ev = lifecycle s ev"
  by (simp add: chart_edge_def outbox_chart_def lifecycle_def)

lemma lifecycle_neq: "lifecycle s ev = Some t \<Longrightarrow> t \<noteq> s \<and> s \<in> set OutboxStates \<and> t \<in> set OutboxStates"
  by (auto simp: lifecycle_def OutboxStates_def split: if_splits)

lemma lifecycle_simps [simp]:
  "lifecycle ''queued'' ''SEND'' = Some ''sending''"
  "lifecycle ''sending'' ''SUCCEED'' = Some ''sent''"
  "lifecycle ''sending'' ''FAIL'' = Some ''failed''"
  "lifecycle ''failed'' ''RETRY'' = Some ''queued''"
  by (simp_all add: lifecycle_def)

lemma Transition_Inr_iff:
  assumes "statekit_documented sk"
  shows "Transition sk from ev = Inr to \<longleftrightarrow> lifecycle from ev = Some to"
proof -
  have b: "Build sk (outbox_chart from) = None \<longleftrightarrow> from \<in> set OutboxStates"
    using assms by (simp add: statekit_documented_def outbox_chart_def OutboxStates_def)
  have s: "Send_event sk (outbox_chart from) (initial (outbox_chart from)) ev =
      (case lifecycle from ev of None \<Rightarrow> from | Some t \<Rightarrow> t)"
    using assms chart_edge_lifecycle
    by (simp add: statekit_documented_def outbox_chart_def)
  show ?thesis
    using b s
    by (auto simp: Transition_def newOutboxMachine_def Let_def
        split: option.splits dest: lifecycle_neq)
qed

end
