(* ===== verification/Reply.thy ===== *)
theory Reply
  imports Outbound
begin

section \<open>Replies and forwards (domain/reply.go, domain/plaintext.go)\<close>

text \<open>
  What a reply or a forward is derived from, who it reaches, how it threads, and the text it
  quotes.  The header and MIME parsers are those of the \<open>mail_lib\<close>.
\<close>

subsection \<open>More of Go's string functions\<close>

definition trim_cutset_right :: "string \<Rightarrow> string \<Rightarrow> string" where
  "trim_cutset_right s cs = rev (dropWhile (\<lambda>c. c \<in> set cs) (rev s))"

fun crlf_to_lf :: "string \<Rightarrow> string" where
  "crlf_to_lf [] = []"
| "crlf_to_lf [c] = [c]"
| "crlf_to_lf (c # d # s) =
     (if c = CHR 0x0D \<and> d = CHR 0x0A then CHR 0x0A # crlf_to_lf s else c # crlf_to_lf (d # s))"

text \<open>\<open>strings.Fields\<close>: the maximal runs without white space.\<close>

fun str_fields_loop :: "string \<Rightarrow> string \<Rightarrow> string list" where
  "str_fields_loop acc [] = (if acc = [] then [] else [acc])"
| "str_fields_loop acc (c # s) =
     (if is_space c then (if acc = [] then str_fields_loop [] s else acc # str_fields_loop [] s)
      else str_fields_loop (acc @ [c]) s)"

definition str_fields :: "string \<Rightarrow> string list" where
  "str_fields s = str_fields_loop [] s"

definition newline :: char where "newline = CHR 0x0A"

subsection \<open>The original\<close>

definition MaxQuotedBytes :: nat where "MaxQuotedBytes = 64 * 2 ^ 10"

record original =
  o_MessageID :: string
  o_References :: ids
  o_Subject :: string
  o_Date :: string
  o_From :: ids
  o_ReplyTo :: ids
  o_To :: ids
  o_Cc :: ids
  o_Raw :: bytes

definition decodeHeaderText :: "mail_lib \<Rightarrow> string \<Rightarrow> string" where
  "decodeHeaderText lib v =
     (case DecodeHeader lib v of None \<Rightarrow> trim_space v | Some d \<Rightarrow> trim_space d)"

definition headerAddresses :: "mail_lib \<Rightarrow> raw_mail \<Rightarrow> string \<Rightarrow> ids" where
  "headerAddresses lib h key =
     (let raw = HeaderGet h key in
      if trim_space raw = [] then []
      else case ParseAddressList lib raw of
             Some as \<Rightarrow> map (\<lambda>a. if Name a = [] then Address a else AddressString lib a) as
           | None \<Rightarrow> filter (\<lambda>v. v \<noteq> []) (map trim_space (split_char (CHR '','') raw)))"

definition ParseOriginal :: "mail_lib \<Rightarrow> bytes \<Rightarrow> error + original" where
  "ParseOriginal lib raw =
     (case ReadMessage lib raw of
        None \<Rightarrow> Inl (Failure ''cannot parse the original message'')
      | Some h \<Rightarrow>
          Inr \<lparr>o_MessageID = trim_space (HeaderGet h ''Message-Id''),
               o_References = str_fields (HeaderGet h ''References''),
               o_Subject = decodeHeaderText lib (HeaderGet h ''Subject''),
               o_Date = trim_space (HeaderGet h ''Date''),
               o_From = headerAddresses lib h ''From'',
               o_ReplyTo = headerAddresses lib h ''Reply-To'',
               o_To = headerAddresses lib h ''To'',
               o_Cc = headerAddresses lib h ''Cc'',
               o_Raw = raw\<rparr>)"

subsection \<open>Recipients\<close>

definition addrSpec :: "mail_lib \<Rightarrow> string \<Rightarrow> string" where
  "addrSpec lib addr0 =
     (let addr = trim_space addr0 in
      case ParseAddress lib addr of Some a \<Rightarrow> to_lower (Address a) | None \<Rightarrow> to_lower addr)"

definition newAddrSet :: "mail_lib \<Rightarrow> ids \<Rightarrow> string set" where
  "newAddrSet lib exclude = set (filter (\<lambda>k. k \<noteq> []) (map (addrSpec lib) exclude))"

text \<open>\<open>take\<close> of one sequence of candidates: what is appended, and the set afterwards.\<close>

fun take_addrs :: "mail_lib \<Rightarrow> string set \<Rightarrow> ids \<Rightarrow> ids \<times> string set" where
  "take_addrs lib seen [] = ([], seen)"
| "take_addrs lib seen (a # as) =
     (let addr = trim_space a; key = addrSpec lib addr in
      if key = [] \<or> key \<in> seen then take_addrs lib seen as
      else (case take_addrs lib (insert key seen) as of (out, s) \<Rightarrow> (addr # out, s)))"

definition take_groups :: "mail_lib \<Rightarrow> string set \<Rightarrow> ids list \<Rightarrow> ids \<times> string set" where
  "take_groups lib seen groups = take_addrs lib seen (concat groups)"

subsection \<open>Subjects and threading\<close>

definition prefixSubject :: "string \<Rightarrow> string \<Rightarrow> string list \<Rightarrow> string" where
  "prefixSubject subject pre existing =
     (let trimmed = trim_space subject in
      if list_ex (\<lambda>p. has_prefix (to_lower trimmed) p) existing then trimmed
      else trim_space (pre @ '' '' @ trimmed))"

definition replyPrefixes :: "string list" where "replyPrefixes = [''re:'']"
definition forwardPrefixes :: "string list" where "forwardPrefixes = [''fwd:'', ''fw:'']"

definition ReplySubject :: "string \<Rightarrow> string" where
  "ReplySubject subject = prefixSubject subject ''Re:'' replyPrefixes"

definition ForwardSubject :: "string \<Rightarrow> string" where
  "ForwardSubject subject = prefixSubject subject ''Fwd:'' forwardPrefixes"

definition applyThreading :: "outbound_message \<Rightarrow> original \<Rightarrow> outbound_message" where
  "applyThreading m org =
     (let i = trim_space (o_MessageID org) in
      if i = [] then m
      else let b = (if \<not> has_prefix i ''<'' then ''<'' @ i @ ''>'' else i) in
           if ValidateMessageID b \<noteq> None then m
           else m\<lparr>om_InReplyTo := b,
                  om_References := filter (\<lambda>r. ValidateMessageID r = None) (o_References org) @ [b]\<rparr>)"

subsection \<open>Deriving\<close>

definition DeriveReply :: "mail_lib \<Rightarrow> original \<Rightarrow> string \<Rightarrow> bool \<Rightarrow> error + outbound_message" where
  "DeriveReply lib org self everyone =
     (let targets = (if length (o_ReplyTo org) = 0 then o_From org else o_ReplyTo org) in
      case ValidateAddresses lib targets of
        Some e \<Rightarrow> Inl e
      | None \<Rightarrow>
          (case take_groups lib (newAddrSet lib [self]) [targets] of
             (to, seen) \<Rightarrow>
               (if length to = 0 then Inl (Wraps ErrNoReplyTarget [Str self])
                else
                  (let msg = empty_message\<lparr>om_To := to, om_Subject := ReplySubject (o_Subject org)\<rparr> in
                   if everyone
                   then (case ValidateAddresses lib (o_To org) of
                           Some e \<Rightarrow> Inl e
                         | None \<Rightarrow>
                             (case ValidateAddresses lib (o_Cc org) of
                                Some e \<Rightarrow> Inl e
                              | None \<Rightarrow>
                                  Inr (applyThreading
                                        (msg\<lparr>om_Cc := fst (take_groups lib seen [o_To org, o_Cc org])\<rparr>)
                                        org)))
                   else Inr (applyThreading msg org)))))"

definition CheckForwardBudget :: "nat \<Rightarrow> check" where
  "CheckForwardBudget n =
     (if n > MaxAttachmentBytes
      then Some (Wraps ErrForwardTooLarge [Num (int n), Num (int MaxAttachmentBytes)]) else None)"

definition DeriveForward :: "mail_lib \<Rightarrow> original \<Rightarrow> ids \<Rightarrow> error + outbound_message" where
  "DeriveForward lib org to =
     (case ValidateAddresses lib to of
        Some e \<Rightarrow> Inl e
      | None \<Rightarrow>
          (let dest = fst (take_groups lib (newAddrSet lib []) [to]) in
           if length dest = 0 then Inl (Wraps ErrNoReplyTarget [])
           else case CheckForwardBudget (length (o_Raw org)) of
                  Some e \<Rightarrow> Inl e
                | None \<Rightarrow>
                    Inr (empty_message
                          \<lparr>om_To := dest, om_Subject := ForwardSubject (o_Subject org),
                           om_Attachments :=
                             [\<lparr>Filename = ''forwarded-message.eml'', ContentType = ''message/rfc822'',
                               Content = o_Raw org\<rparr>]\<rparr>)))"

subsection \<open>The text that is quoted\<close>

definition maxPlainTextDepth :: nat where "maxPlainTextDepth = 4"

definition truncation_note :: string where
  "truncation_note = newline # ''[... quoted original truncated ...]''"

definition decodeBody :: "mail_lib \<Rightarrow> string \<Rightarrow> bytes \<Rightarrow> string" where
  "decodeBody lib encoding r =
     (let enc = to_lower (trim_space encoding);
          out = (if enc = ''quoted-printable'' then DecodeQuotedPrintable lib r
                 else if enc = ''base64'' then DecodeBase64 lib r else r);
          raw = take (MaxQuotedBytes + 1) out in
      if length raw > MaxQuotedBytes then take MaxQuotedBytes raw @ truncation_note else raw)"

function readTextBody :: "mail_lib \<Rightarrow> string \<Rightarrow> string \<Rightarrow> bytes \<Rightarrow> nat \<Rightarrow> string" where
  "readTextBody lib contentType encoding r depth =
     (case (if contentType = [] then None else ParseMediaType lib contentType) of
        None \<Rightarrow> decodeBody lib encoding r
      | Some (mediaType, params) \<Rightarrow>
          if \<not> has_prefix mediaType ''multipart/''
          then (if mediaType = ''text/plain'' then decodeBody lib encoding r else [])
          else if depth \<ge> maxPlainTextDepth \<or> params ''boundary'' = [] then []
          else (case find (\<lambda>t. trim_space t \<noteq> [])
                       (map (\<lambda>p. readTextBody lib (HeaderGet p ''Content-Type'')
                                  (HeaderGet p ''Content-Transfer-Encoding'') (RawBody p) (depth + 1))
                         (Multipart lib (params ''boundary'') r)) of
                  Some t \<Rightarrow> t
                | None \<Rightarrow> []))"
  by pat_completeness auto

termination readTextBody
  by (relation "measure (\<lambda>(lib, ct, enc, r, depth). maxPlainTextDepth - depth)") auto

declare readTextBody.simps [simp del]

definition PlainText :: "mail_lib \<Rightarrow> bytes \<Rightarrow> string" where
  "PlainText lib raw =
     (case ReadMessage lib raw of
        None \<Rightarrow> []
      | Some h \<Rightarrow>
          trim_cutset_right
            (readTextBody lib (HeaderGet h ''Content-Type'') (HeaderGet h ''Content-Transfer-Encoding'')
               (RawBody h) 0) line_breaks)"

definition attribution :: "original \<Rightarrow> string" where
  "attribution org =
     (let who = join '', '' (o_From org) in
      if who \<noteq> [] \<and> o_Date org \<noteq> []
      then ''On '' @ o_Date org @ '', '' @ who @ '' wrote:'' @ [newline]
      else if who \<noteq> [] then who @ '' wrote:'' @ [newline]
      else ''The original message read:'' @ [newline])"

definition quote_line :: "string \<Rightarrow> string" where
  "quote_line line = ''> '' @ line @ [newline]"

definition Quote :: "mail_lib \<Rightarrow> original \<Rightarrow> string" where
  "Quote lib org =
     (let body = PlainText lib (o_Raw org) in
      if body = [] then attribution org
      else attribution org @ [newline] @
           concat (map quote_line (split_char newline (crlf_to_lf body))))"

definition intro_field :: "string \<times> string \<Rightarrow> string" where
  "intro_field f = (if snd f \<noteq> [] then fst f @ '': '' @ snd f @ [newline] else [])"

definition ForwardIntro :: "mail_lib \<Rightarrow> original \<Rightarrow> string" where
  "ForwardIntro lib org =
     (let body = PlainText lib (o_Raw org) in
      ''---------- Forwarded message ----------'' @ [newline] @
      concat (map intro_field
        [(''From'', join '', '' (o_From org)), (''Date'', o_Date org), (''Subject'', o_Subject org),
         (''To'', join '', '' (o_To org)), (''Cc'', join '', '' (o_Cc org))]) @
      (if body \<noteq> [] then [newline] @ body @ [newline] else []))"

subsection \<open>Facts about recipients\<close>

lemma addrSpec_trim [simp]: "addrSpec lib (trim_space a) = addrSpec lib a"
  by (simp add: addrSpec_def)

lemma take_addrs_spec:
  "take_addrs lib seen as = (out, s) \<Longrightarrow>
     distinct (map (addrSpec lib) out) \<and>
     addrSpec lib ` set out = addrSpec lib ` set as - {[]} - seen \<and>
     s = seen \<union> addrSpec lib ` set out \<and> set out \<subseteq> trim_space ` set as"
proof (induction "as" arbitrary: seen out s)
  case (Cons a "as")
  show ?case
  proof (cases "addrSpec lib a = [] \<or> addrSpec lib a \<in> seen")
    case True
    with Cons.prems have "take_addrs lib seen as = (out, s)" by (simp add: Let_def)
    from Cons.IH [OF this] True show ?thesis by auto
  next
    case False
    obtain out' s' where t: "take_addrs lib (insert (addrSpec lib a) seen) as = (out', s')" by force
    with False Cons.prems have eq: "out = trim_space a # out'" "s = s'" by (auto simp: Let_def)
    from Cons.IH [OF t] False show ?thesis unfolding eq by auto
  qed
qed simp

lemma newAddrSet_single: "newAddrSet lib [self] = {addrSpec lib self} - {[]}"
  by (auto simp: newAddrSet_def)

lemma applyThreading_fields [simp]:
  "om_To (applyThreading m org) = om_To m" "om_Cc (applyThreading m org) = om_Cc m"
  "om_Bcc (applyThreading m org) = om_Bcc m" "om_Attachments (applyThreading m org) = om_Attachments m"
  "om_Subject (applyThreading m org) = om_Subject m"
  by (simp_all add: applyThreading_def Let_def)

lemma applyThreading_valid:
  assumes "om_InReplyTo m = []" "om_References m = []"
  shows "om_InReplyTo (applyThreading m org) \<noteq> [] \<longrightarrow>
           ValidateMessageID (om_InReplyTo (applyThreading m org)) = None"
    and "\<forall>r \<in> set (om_References (applyThreading m org)). ValidateMessageID r = None"
    and "om_InReplyTo (applyThreading m org) \<noteq> [] \<longrightarrow>
           last (om_References (applyThreading m org)) = om_InReplyTo (applyThreading m org)"
  using assms by (auto simp: applyThreading_def Let_def)

definition reply_targets :: "original \<Rightarrow> ids" where
  "reply_targets org = (if o_ReplyTo org = [] then o_From org else o_ReplyTo org)"

lemma DeriveReply_Inr:
  assumes "DeriveReply lib org self everyone = Inr m"
  obtains to seen where
    "ValidateAddresses lib (reply_targets org) = None"
    "take_addrs lib ({addrSpec lib self} - {[]}) (reply_targets org) = (to, seen)" "to \<noteq> []"
    "everyone \<longrightarrow> ValidateAddresses lib (o_To org) = None \<and> ValidateAddresses lib (o_Cc org) = None"
    "m = applyThreading (empty_message\<lparr>om_To := to, om_Subject := ReplySubject (o_Subject org),
           om_Cc := (if everyone then fst (take_addrs lib seen (o_To org @ o_Cc org)) else [])\<rparr>) org"
proof -
  obtain to seen where t: "take_addrs lib ({addrSpec lib self} - {[]}) (reply_targets org) = (to, seen)"
    by force
  from assms t show ?thesis
    by (intro that [of to seen])
      (auto simp: DeriveReply_def reply_targets_def Let_def take_groups_def newAddrSet_single
        empty_message_def split: option.splits if_splits)
qed

lemma validate_trimmed:
  assumes "\<forall>s. ParseAddress lib (trim_space s) = ParseAddress lib s" "ValidateAddresses lib as = None"
    and "set out \<subseteq> trim_space ` set as"
  shows "ValidateAddresses lib out = None"
proof -
  have "ValidateAddress lib (trim_space a) = None" if "a \<in> set as" for a
  proof -
    from assms(2) that have "single_line a \<and> ParseAddress lib a \<noteq> None"
      by (simp add: ValidateAddresses_None_iff ValidateAddress_None_iff)
    with assms(1) set_trim_space [of a] show ?thesis
      by (auto simp: ValidateAddress_None_iff single_line_def)
  qed
  with assms(3) show ?thesis by (auto simp: ValidateAddresses_None_iff)
qed

subsection \<open>Facts about subjects\<close>

lemma trim_space_keeps_prefix:
  assumes "p \<noteq> []" "\<not> is_space (hd p)" "\<not> is_space (last p)"
  shows "has_prefix (trim_space (p @ r)) p"
proof -
  from assms(1, 2) have l: "trim_left (p @ r) = p @ r"
    by (cases p) (auto simp: trim_left_def)
  have "dropWhile is_space (rev r @ rev p) =
      (if \<forall>c \<in> set r. is_space c then rev p else dropWhile is_space (rev r) @ rev p)"
  proof (cases "\<forall>c \<in> set r. is_space c")
    case True
    moreover have "dropWhile is_space (rev p) = rev p"
      using assms(1, 3) by (cases p rule: rev_cases) auto
    moreover have "dropWhile is_space (rev r @ rev p) = dropWhile is_space (rev p)"
      using True by (intro dropWhile_append2) simp
    ultimately show ?thesis by simp
  next
    case False
    then show ?thesis by (simp add: dropWhile_append3) (metis dropWhile_append1 set_rev)
  qed
  then show ?thesis
    by (auto simp: trim_space_def trim_right_def l has_prefix_iff)
qed

lemma to_lower_append [simp]: "to_lower (a @ b) = to_lower a @ to_lower b"
  by (simp add: to_lower_def)

lemma prefixSubject_idem:
  assumes "pre \<noteq> []" "\<not> is_space (hd pre)" "\<not> is_space (last pre)" "to_lower pre \<in> set existing"
  shows "prefixSubject (prefixSubject s pre existing) pre existing = prefixSubject s pre existing"
    and "list_ex (\<lambda>p. has_prefix (to_lower (prefixSubject s pre existing)) p) existing"
proof -
  let ?r = "prefixSubject s pre existing"
  have trimmed: "trim_space ?r = ?r" by (simp add: prefixSubject_def Let_def)
  show pr: "list_ex (\<lambda>p. has_prefix (to_lower ?r) p) existing"
  proof (cases "list_ex (\<lambda>p. has_prefix (to_lower (trim_space s)) p) existing")
    case False
    then have "?r = trim_space (pre @ '' '' @ trim_space s)" by (simp add: prefixSubject_def Let_def)
    with trim_space_keeps_prefix [OF assms(1-3)] obtain q where "?r = pre @ q"
      by (auto simp: has_prefix_iff)
    then show ?thesis using assms(4) by (auto simp: list_ex_iff intro!: bexI [of _ "to_lower pre"])
  qed (simp add: prefixSubject_def Let_def)
  then show "prefixSubject ?r pre existing = ?r"
    by (subst prefixSubject_def) (simp add: Let_def trimmed)
qed

subsection \<open>Facts about quoted text\<close>

lemma decodeBody_length:
  "length (decodeBody lib enc r) \<le> MaxQuotedBytes + length truncation_note"
  by (auto simp: decodeBody_def Let_def)

lemma readTextBody_length:
  "length (readTextBody lib ct enc r depth) \<le> MaxQuotedBytes + length truncation_note"
proof (induction lib ct enc r depth rule: readTextBody.induct)
  case (1 lib ct enc r depth)
  show ?case
  proof (cases "if ct = [] then None else ParseMediaType lib ct")
    case None
    then show ?thesis by (simp add: readTextBody.simps [of lib ct] decodeBody_length)
  next
    case (Some mp)
    obtain mt params where mp: "mp = (mt, params)" by (cases mp)
    let ?parts = "map (\<lambda>p. readTextBody lib (HeaderGet p ''Content-Type'')
        (HeaderGet p ''Content-Transfer-Encoding'') (RawBody p) (depth + 1))
        (Multipart lib (params ''boundary'') r)"
    have part: "length t \<le> MaxQuotedBytes + length truncation_note"
      if "has_prefix mt ''multipart/''" "\<not> (maxPlainTextDepth \<le> depth \<or> params ''boundary'' = [])"
        "t \<in> set ?parts" for t
      using 1 [OF Some mp [symmetric]] that by auto
    show ?thesis
    proof (cases "find (\<lambda>t. trim_space t \<noteq> []) ?parts")
      case None
      with Some mp show ?thesis
        by (simp add: readTextBody.simps [of lib ct] decodeBody_length)
    next
      case (Some t)
      then have "t \<in> set ?parts" by (auto simp: find_Some_iff)
      with part [of t] \<open>(if ct = [] then None else ParseMediaType lib ct) = Some mp\<close> mp Some
      show ?thesis
        by (simp add: readTextBody.simps [of lib ct] decodeBody_length)
    qed
  qed
qed

lemma split_char_append:
  "c \<notin> set a \<Longrightarrow> split_char c (a @ c # b) = a # split_char c b"
  by (induction a) auto

lemma split_char_parts: "p \<in> set (split_char c s) \<Longrightarrow> c \<notin> set p"
proof (induction s arbitrary: p)
  case (Cons d s)
  then show ?case by (cases "split_char c s") (auto split: if_splits)
qed simp

lemma split_quoted:
  "\<forall>l \<in> set ls. newline \<notin> set l \<Longrightarrow>
   split_char newline (concat (map quote_line ls)) = map (\<lambda>l. ''> '' @ l) ls @ [[]]"
proof (induction ls)
  case (Cons l ls)
  have "concat (map quote_line (l # ls)) = (''> '' @ l) @ newline # concat (map quote_line ls)"
    by (simp add: quote_line_def)
  moreover have "newline \<notin> set (''> '' @ l)" using Cons.prems by (simp add: newline_def)
  ultimately have "split_char newline (concat (map quote_line (l # ls))) =
      (''> '' @ l) # split_char newline (concat (map quote_line ls))"
    using split_char_append by metis
  with Cons show ?case by simp
qed simp

subsection \<open>Properties\<close>

definition demo_original :: original where
  "demo_original =
     \<lparr>o_MessageID = ''m@x'', o_References = [''<r@x>'', ''bad''], o_Subject = ''RE: hi'', o_Date = [],
      o_From = [''Bob@x''], o_ReplyTo = [], o_To = [''me@x'', '' carol@x''], o_Cc = [''bob@x'', ''Me@x''],
      o_Raw = ''text''\<rparr>"

text \<open>C5: a derived reply reaches the senders the original asks for (its Reply-To, or its From
  where it names none), and for a reply to all exactly those plus everyone on its To and Cc;
  never this outbox itself, never an address twice however its display name or case is
  written, and never anybody as a blind copy.\<close>

theorem reply_reaches_the_visible_audience:
  assumes "DeriveReply lib org self everyone = Inr m"
  shows "distinct (map (addrSpec lib) (om_To m @ om_Cc m)) \<and>
    addrSpec lib ` set (om_To m) = addrSpec lib ` set (reply_targets org) - {[], addrSpec lib self} \<and>
    addrSpec lib ` set (om_Cc m) =
      (if everyone then addrSpec lib ` (set (o_To org) \<union> set (o_Cc org)) - {[], addrSpec lib self}
         - addrSpec lib ` set (om_To m) else {}) \<and>
    om_To m \<noteq> [] \<and> om_Bcc m = []"
  using assms
proof (rule DeriveReply_Inr)
  fix to seen
  assume t: "take_addrs lib ({addrSpec lib self} - {[]}) (reply_targets org) = (to, seen)" "to \<noteq> []"
    and m: "m = applyThreading (empty_message\<lparr>om_To := to, om_Subject := ReplySubject (o_Subject org),
           om_Cc := (if everyone then fst (take_addrs lib seen (o_To org @ o_Cc org)) else [])\<rparr>) org"
  note to = take_addrs_spec [OF t(1)]
  obtain cc s' where cc: "take_addrs lib seen (o_To org @ o_Cc org) = (cc, s')" by force
  note cc' = take_addrs_spec [OF this]
  have fields: "om_To m = to" "om_Cc m = (if everyone then cc else [])" "om_Bcc m = []"
    by (simp_all add: m cc empty_message_def)
  have disj: "addrSpec lib ` set to \<inter> addrSpec lib ` set cc = {}" using to cc' by auto
  show ?thesis
    unfolding fields
    using to cc' disj t(2) by (cases everyone) auto
qed

theorem reply_reaches_the_visible_audience_witness:
  "\<exists>m. DeriveReply plain_mail demo_original ''ME@X'' True = Inr m \<and>
     addrSpec plain_mail ` set (om_Cc m) = {''carol@x''} \<and> om_Bcc m = []"
proof -
  have "\<not> isl (DeriveReply plain_mail demo_original ''ME@X'' True)" by code_simp
  then obtain m where m: "DeriveReply plain_mail demo_original ''ME@X'' True = Inr m"
    by (cases "DeriveReply plain_mail demo_original ''ME@X'' True") auto
  from reply_reaches_the_visible_audience [OF m] have
    "addrSpec plain_mail ` set (om_Cc m) =
       addrSpec plain_mail ` (set (o_To demo_original) \<union> set (o_Cc demo_original)) -
         {[], addrSpec plain_mail ''ME@X''} -
         (addrSpec plain_mail ` set (reply_targets demo_original) - {[], addrSpec plain_mail ''ME@X''})"
    "om_Bcc m = []" by simp_all
  moreover have "addrSpec plain_mail ` (set (o_To demo_original) \<union> set (o_Cc demo_original)) -
         {[], addrSpec plain_mail ''ME@X''} -
         (addrSpec plain_mail ` set (reply_targets demo_original) - {[], addrSpec plain_mail ''ME@X''})
      = {''carol@x''}" by code_simp
  ultimately show ?thesis using m by simp
qed

text \<open>a derived reply passes the validation of the outbox whatever body and attachments of
  acceptable size it is given: every recipient and every threading header taken from the
  original has been checked, and an id that does not pass is left out.\<close>

theorem derived_replies_are_valid:
  assumes "DeriveReply lib org self everyone = Inr m"
    and "\<forall>s. ParseAddress lib (trim_space s) = ParseAddress lib s"
    and "validate_attachments lib (length body + length html) atts = Inr n" "n \<le> MaxMessageBytes"
  shows "Validate lib (m\<lparr>om_Body := body, om_HTMLBody := html, om_Attachments := atts\<rparr>) = None"
  using assms(1)
proof (rule DeriveReply_Inr)
  fix to seen
  assume v: "ValidateAddresses lib (reply_targets org) = None"
    and t: "take_addrs lib ({addrSpec lib self} - {[]}) (reply_targets org) = (to, seen)" "to \<noteq> []"
    and all: "everyone \<longrightarrow> ValidateAddresses lib (o_To org) = None \<and> ValidateAddresses lib (o_Cc org) = None"
    and m: "m = applyThreading (empty_message\<lparr>om_To := to, om_Subject := ReplySubject (o_Subject org),
           om_Cc := (if everyone then fst (take_addrs lib seen (o_To org @ o_Cc org)) else [])\<rparr>) org"
  obtain cc s' where cc: "take_addrs lib seen (o_To org @ o_Cc org) = (cc, s')" by force
  have fields: "om_To m = to" "om_Cc m = (if everyone then cc else [])" "om_Bcc m = []"
    by (simp_all add: m cc empty_message_def)
  have "ValidateAddresses lib to = None"
    using validate_trimmed [OF assms(2) v] take_addrs_spec [OF t(1)] by blast
  moreover have "ValidateAddresses lib cc = None" if everyone
  proof -
    have "ValidateAddresses lib (o_To org @ o_Cc org) = None"
      using all that by (auto simp: ValidateAddresses_None_iff)
    from validate_trimmed [OF assms(2) this] take_addrs_spec [OF cc] show ?thesis by blast
  qed
  moreover have "om_InReplyTo m \<noteq> [] \<longrightarrow> ValidateMessageID (om_InReplyTo m) = None"
    "validate_refs (om_References m) = None"
    unfolding m validate_refs_None_iff by (rule applyThreading_valid; simp add: empty_message_def)+
  ultimately show ?thesis
    using t(2) assms(3, 4) by (simp add: Validate_def fields)
qed

theorem derived_replies_are_valid_witness:
  "\<exists>m. DeriveReply plain_mail demo_original ''ME@X'' False = Inr m \<and>
     Validate plain_mail (m\<lparr>om_Body := ''ok'', om_HTMLBody := [], om_Attachments := []\<rparr>) = None"
proof -
  have "\<not> isl (DeriveReply plain_mail demo_original ''ME@X'' False)" by code_simp
  then obtain m where m: "DeriveReply plain_mail demo_original ''ME@X'' False = Inr m"
    by (cases "DeriveReply plain_mail demo_original ''ME@X'' False") auto
  have "CHR ''@'' \<in> set (trim_space s) \<longleftrightarrow> CHR ''@'' \<in> set s" for s
  proof
    show "CHR ''@'' \<in> set s" if "CHR ''@'' \<in> set (trim_space s)"
      using that set_trim_space by blast
    assume "CHR ''@'' \<in> set s"
    moreover have keep: "c \<in> set (dropWhile is_space u)" if "c \<in> set u" "\<not> is_space c" for c u
      using that by (induction u) auto
    moreover have "\<not> is_space CHR ''@''" by (simp add: is_space_def)
    ultimately show "CHR ''@'' \<in> set (trim_space s)"
      by (simp add: trim_space_def trim_left_def trim_right_def)
  qed
  then have "\<forall>s. ParseAddress plain_mail (trim_space s) = ParseAddress plain_mail s"
    by (simp add: plain_mail_def)
  from derived_replies_are_valid [OF m this, of "''ok''" "[]" "[]" 2] m show ?thesis
    by (auto simp: MaxMessageBytes_def)
qed

text \<open>a subject gains its reply or forward mark once.  Marking a marked subject again
  changes nothing, and every marked subject carries one of the accepted marks.\<close>

theorem subject_marks_do_not_pile_up:
  "ReplySubject (ReplySubject s) = ReplySubject s \<and> ForwardSubject (ForwardSubject s) = ForwardSubject s \<and>
   has_prefix (to_lower (ReplySubject s)) ''re:'' \<and>
   (has_prefix (to_lower (ForwardSubject s)) ''fwd:'' \<or> has_prefix (to_lower (ForwardSubject s)) ''fw:'')"
proof -
  have re: "to_lower ''Re:'' \<in> set replyPrefixes" and fw: "to_lower ''Fwd:'' \<in> set forwardPrefixes"
    by code_simp+
  have c: "\<not> is_space CHR ''R''" "\<not> is_space CHR '':''" "\<not> is_space CHR ''F''"
    by (simp_all add: is_space_def)
  from prefixSubject_idem [of "''Re:''" replyPrefixes s] re c
    prefixSubject_idem [of "''Fwd:''" forwardPrefixes s] fw
  show ?thesis
    by (simp add: ReplySubject_def ForwardSubject_def)
      (simp add: replyPrefixes_def forwardPrefixes_def)
qed

text \<open>a forward carries the bytes of the original unchanged as its one attachment, within
  the attachment ceiling, to the recipients the caller named and no others, each once, and
  threads onto nothing.\<close>

theorem forwards_carry_the_original_whole:
  assumes "DeriveForward lib org to = Inr m"
  shows "map Content (om_Attachments m) = [o_Raw org] \<and> length (o_Raw org) \<le> MaxAttachmentBytes \<and>
    addrSpec lib ` set (om_To m) = addrSpec lib ` set to - {[]} \<and>
    distinct (map (addrSpec lib) (om_To m)) \<and> om_To m \<noteq> [] \<and>
    om_Cc m = [] \<and> om_Bcc m = [] \<and> om_InReplyTo m = [] \<and> om_References m = []"
proof -
  obtain out s where t: "take_addrs lib {} to = (out, s)" by force
  from assms t have m: "om_To m = out" "out \<noteq> []" "map Content (om_Attachments m) = [o_Raw org]"
    "length (o_Raw org) \<le> MaxAttachmentBytes"
    "om_Cc m = []" "om_Bcc m = []" "om_InReplyTo m = []" "om_References m = []"
    by (auto simp: DeriveForward_def take_groups_def newAddrSet_def Let_def CheckForwardBudget_def
        empty_message_def split: option.splits if_splits)
  with take_addrs_spec [OF t] show ?thesis by simp
qed

theorem forwards_carry_the_original_whole_witness:
  "\<exists>m. DeriveForward plain_mail demo_original [''z@x'', ''Z@x''] = Inr m \<and>
     map Content (om_Attachments m) = [''text''] \<and> distinct (map (addrSpec plain_mail) (om_To m))"
proof -
  have "ValidateAddresses plain_mail [''z@x'', ''Z@x''] = None"
    "take_groups plain_mail (newAddrSet plain_mail []) [[''z@x'', ''Z@x'']] = ([''z@x''], {''z@x''})"
    by code_simp+
  then obtain m where m: "DeriveForward plain_mail demo_original [''z@x'', ''Z@x''] = Inr m"
    by (simp add: DeriveForward_def CheckForwardBudget_def MaxAttachmentBytes_def demo_original_def)
  from forwards_carry_the_original_whole [OF m] m show ?thesis
    by (simp add: demo_original_def)
qed

text \<open>the quoted block of a reply is the attribution followed, where the original has text,
  by one line per line of that text, each marked with \<open>> \<close>, so that the text can be read back;
  and the text quoted never exceeds the quoting cap by more than the truncation note.\<close>

theorem quoting_is_line_by_line_and_bounded:
  "(PlainText lib (o_Raw org) = [] \<longrightarrow> Quote lib org = attribution org) \<and>
   (PlainText lib (o_Raw org) \<noteq> [] \<longrightarrow>
     (\<exists>block. Quote lib org = attribution org @ newline # block \<and>
        split_char newline block =
          map (\<lambda>l. ''> '' @ l) (split_char newline (crlf_to_lf (PlainText lib (o_Raw org)))) @ [[]])) \<and>
   length (PlainText lib raw) \<le> MaxQuotedBytes + length truncation_note"
proof -
  have "length (PlainText lib raw) \<le> MaxQuotedBytes + length truncation_note"
  proof (cases "ReadMessage lib raw")
    case (Some h)
    let ?t = "readTextBody lib (HeaderGet h ''Content-Type'')
        (HeaderGet h ''Content-Transfer-Encoding'') (RawBody h) 0"
    have "length (trim_cutset_right ?t line_breaks) \<le> length ?t"
      by (simp add: trim_cutset_right_def) (metis length_dropWhile_le length_rev)
    with Some readTextBody_length show ?thesis
      by (simp add: PlainText_def) (meson le_trans)
  qed (simp add: PlainText_def)
  moreover have "split_char newline (concat (map quote_line (split_char newline u))) =
      map (\<lambda>l. ''> '' @ l) (split_char newline u) @ [[]]" for u
    by (rule split_quoted) (blast dest: split_char_parts)
  ultimately show ?thesis by (simp add: Quote_def Let_def)
qed

theorem quoting_is_line_by_line_and_bounded_witness:
  "length (PlainText plain_mail ''hello'') \<le> MaxQuotedBytes + length truncation_note"
  using quoting_is_line_by_line_and_bounded [of plain_mail demo_original "''hello''"] by blast

end
