(* ===== verification/Outbox.thy ===== *)
theory Outbox
  imports Outbound "HOL-Library.AList"
begin

section \<open>The outbox (application/outbox.go)\<close>

text \<open>
  The orchestration of outbound mail over a store and a sender.  The store and the sender
  are records of operations on a world \<open>'w\<close>; the optional interfaces the code asks for
  (a cross-process lock, a per-state read) are option fields.  The random id of an enqueued
  message and Go's unspecified map iteration orders are arguments.  The in-process mutex only
  orders goroutines and is not modelled: an operation runs on its own.
\<close>

subsection \<open>Ports\<close>

record 'w locker =
  Lock :: "('w, unit) effect"
  TryLock :: "('w, bool) effect"
  Release :: "'w \<Rightarrow> 'w"

record 'w store =
  Write :: "outbound_message \<Rightarrow> ('w, unit) effect"
  Remove :: "string \<Rightarrow> string \<Rightarrow> ('w, unit) effect"
  Find :: "string \<Rightarrow> ('w, outbound_message) effect"
  ListState :: "string \<Rightarrow> ('w, ids) effect"
  FindIn :: "(string \<Rightarrow> string \<Rightarrow> ('w, outbound_message) effect) option"
  Locker :: "'w locker option"

record 'w sender =
  Send :: "outbound_message \<Rightarrow> ('w, unit) effect"
  SelfAddress :: "string option"

record 'w outbox =
  store :: "'w store"
  sender :: "'w sender"
  locker :: "'w locker option"

definition NewOutbox :: "'w store \<Rightarrow> 'w sender \<Rightarrow> 'w outbox" where
  "NewOutbox st sd = \<lparr>store = st, sender = sd, locker = Locker st\<rparr>"

definition outbox_From :: "'w outbox \<Rightarrow> string" where
  "outbox_From ob = (case SelfAddress (sender ob) of Some a \<Rightarrow> a | None \<Rightarrow> [])"

subsection \<open>The cross-process lock\<close>

definition hold :: "'w outbox \<Rightarrow> ('w, unit) effect" where
  "hold ob w = (case locker ob of None \<Rightarrow> (Inr (), w) | Some l \<Rightarrow> Lock l w)"

definition tryHold :: "'w outbox \<Rightarrow> ('w, bool) effect" where
  "tryHold ob w = (case locker ob of None \<Rightarrow> (Inr True, w) | Some l \<Rightarrow> TryLock l w)"

definition release :: "'w outbox \<Rightarrow> 'w \<Rightarrow> 'w" where
  "release ob w = (case locker ob of None \<Rightarrow> w | Some l \<Rightarrow> Release l w)"

text \<open>The deferred release: it runs whatever the operation returned.\<close>

definition released :: "'w outbox \<Rightarrow> (error + 'a) \<times> 'w \<Rightarrow> (error + 'a) \<times> 'w" where
  "released ob r = (fst r, release ob (snd r))"

subsection \<open>Moving a record along the lifecycle\<close>

text \<open>
  \<open>apply\<close> also updates the caller's message in place; the updated message is \<open>moved\<close>.
\<close>

definition moved :: "statekit \<Rightarrow> outbound_message \<Rightarrow> string \<Rightarrow> outbound_message" where
  "moved sk m ev = (case Transition sk (om_State m) ev of Inl e \<Rightarrow> m | Inr s \<Rightarrow> m\<lparr>om_State := s\<rparr>)"

definition apply_event ::
  "statekit \<Rightarrow> 'w outbox \<Rightarrow> outbound_message \<Rightarrow> string \<Rightarrow> ('w, unit) effect" where
  "apply_event sk ob m ev w =
     (case Transition sk (om_State m) ev of
        Inl e \<Rightarrow> (Inl e, w)
      | Inr s \<Rightarrow>
          (case Write (store ob) (m\<lparr>om_State := s\<rparr>) w of
             (Inl e, w1) \<Rightarrow> (Inl e, w1)
           | (Inr _, w1) \<Rightarrow> Remove (store ob) (om_State m) (om_ID m) w1))"

subsection \<open>Enqueue, status, retry, summary\<close>

definition Enqueue ::
  "mail_lib \<Rightarrow> error + string \<Rightarrow> 'w outbox \<Rightarrow> outbound_message \<Rightarrow> ('w, string) effect" where
  "Enqueue lib rnd ob msg w =
     (case Validate lib msg of
        Some e \<Rightarrow> (Inl e, w)
      | None \<Rightarrow>
          (case rnd of
             Inl e \<Rightarrow> (Inl e, w)
           | Inr i \<Rightarrow>
               (case Write (store ob) (msg\<lparr>om_ID := i, om_State := ''queued''\<rparr>) w of
                  (Inl e, w1) \<Rightarrow> (Inl e, w1)
                | (Inr _, w1) \<Rightarrow> (Inr i, w1))))"

definition Status :: "'w outbox \<Rightarrow> string \<Rightarrow> ('w, outbound_message) effect" where
  "Status ob i w = Find (store ob) i w"

definition Retry :: "statekit \<Rightarrow> 'w outbox \<Rightarrow> string \<Rightarrow> ('w, unit) effect" where
  "Retry sk ob i w =
     (case hold ob w of
        (Inl e, w1) \<Rightarrow> (Inl e, w1)
      | (Inr _, w1) \<Rightarrow>
          released ob
            (case Find (store ob) i w1 of
               (Inl e, w2) \<Rightarrow> (Inl e, w2)
             | (Inr msg, w2) \<Rightarrow> apply_event sk ob msg ''RETRY'' w2))"

fun summary_loop :: "'w outbox \<Rightarrow> ids \<Rightarrow> ('w, (string \<times> ids) list) effect" where
  "summary_loop ob [] w = (Inr [], w)"
| "summary_loop ob (s # ss) w =
     (case ListState (store ob) s w of
        (Inl e, w1) \<Rightarrow> (Inl e, w1)
      | (Inr is, w1) \<Rightarrow>
          (case summary_loop ob ss w1 of
             (Inl e, w2) \<Rightarrow> (Inl e, w2)
           | (Inr out, w2) \<Rightarrow> (Inr ((s, is) # out), w2)))"

definition Summary :: "'w outbox \<Rightarrow> ('w, (string \<times> ids) list) effect" where
  "Summary ob w = summary_loop ob OutboxStates w"

subsection \<open>Delivery\<close>

text \<open>
  One round of the loop of \<open>ProcessOnce\<close>: the number delivered (0 or 1) and the errors
  the round adds.  A refused SEND is skipped in silence.
\<close>

definition message_of :: "error \<Rightarrow> string" where
  "message_of e = (case e of Failure s \<Rightarrow> s | Wraps k ds \<Rightarrow> ''wrapped'' | Joined es \<Rightarrow> ''joined'')"

definition deliver :: "statekit \<Rightarrow> 'w outbox \<Rightarrow> string \<Rightarrow> 'w \<Rightarrow> (nat \<times> error list) \<times> 'w" where
  "deliver sk ob i w =
     (case Find (store ob) i w of
        (Inl e, w1) \<Rightarrow> ((0, [e]), w1)
      | (Inr msg0, w1) \<Rightarrow>
          (let msg1 = msg0\<lparr>om_Attempts := om_Attempts msg0 + 1\<rparr>;
               msg = moved sk msg1 ''SEND'' in
           case apply_event sk ob msg1 ''SEND'' w1 of
             (Inl e, w2) \<Rightarrow> ((0, []), w2)
           | (Inr _, w2) \<Rightarrow>
               (case Send (sender ob) msg w2 of
                  (Inl sendErr, w3) \<Rightarrow>
                    (case apply_event sk ob (msg\<lparr>om_Error := message_of sendErr\<rparr>) ''FAIL'' w3 of
                       (Inl e, w4) \<Rightarrow> ((0, [e]), w4)
                     | (Inr _, w4) \<Rightarrow> ((0, []), w4))
                | (Inr _, w3) \<Rightarrow>
                    (case apply_event sk ob (msg\<lparr>om_Error := []\<rparr>) ''SUCCEED'' w3 of
                       (Inl e, w4) \<Rightarrow> ((0, [e]), w4)
                     | (Inr _, w4) \<Rightarrow> ((1, []), w4)))))"

fun deliver_all :: "statekit \<Rightarrow> 'w outbox \<Rightarrow> ids \<Rightarrow> 'w \<Rightarrow> (nat \<times> error list) \<times> 'w" where
  "deliver_all sk ob [] w = ((0, []), w)"
| "deliver_all sk ob (i # is) w =
     (case deliver sk ob i w of
        ((d, es), w1) \<Rightarrow>
          (case deliver_all sk ob is w1 of
             ((d', es'), w2) \<Rightarrow> ((d + d', es @ es'), w2)))"

text \<open>Go returns the count beside the joined error; so does the pair.\<close>

definition ProcessOnce :: "statekit \<Rightarrow> 'w outbox \<Rightarrow> 'w \<Rightarrow> (nat \<times> error option) \<times> 'w" where
  "ProcessOnce sk ob w =
     (case hold ob w of
        (Inl e, w1) \<Rightarrow> ((0, Some e), w1)
      | (Inr _, w1) \<Rightarrow>
          (case ListState (store ob) ''queued'' w1 of
             (Inl e, w2) \<Rightarrow> ((0, Some e), release ob w2)
           | (Inr is, w2) \<Rightarrow>
               (case deliver_all sk ob is w2 of
                  ((n, es), w3) \<Rightarrow> ((n, join_errors es), release ob w3))))"

subsection \<open>Which copy of a duplicated record is current\<close>

definition staleSide :: "string \<times> string \<Rightarrow> string option" where
  "staleSide =
     map_of [((''queued'', ''sending''), ''queued''), ((''sending'', ''sent''), ''sending''),
             ((''sending'', ''failed''), ''sending''), ((''failed'', ''queued''), ''failed'')]"

definition keepOrder :: ids where
  "keepOrder = [''sent'', ''failed'', ''sending'', ''queued'']"

type_synonym copies_of = "(string \<times> outbound_message) list"

definition otherThan :: "ids \<Rightarrow> string \<Rightarrow> string" where
  "otherThan pair stale = (if pair ! 0 = stale then pair ! 1 else pair ! 0)"

fun top_loop :: "int \<Rightarrow> ids \<Rightarrow> copies_of \<Rightarrow> ids" where
  "top_loop best tops [] = tops"
| "top_loop best tops ((s, m) # cs) =
     (if om_Attempts m > best then top_loop (om_Attempts m) [s] cs
      else if om_Attempts m = best then top_loop best (tops @ [s]) cs
      else top_loop best tops cs)"

definition by_keepOrder :: "ids \<Rightarrow> string" where
  "by_keepOrder tops = (case find (\<lambda>s. s \<in> set tops) keepOrder of Some s \<Rightarrow> s | None \<Rightarrow> tops ! 0)"

definition choose_top :: "ids \<Rightarrow> string" where
  "choose_top tops =
     (if length tops = 1 then tops ! 0
      else if length tops = 2 then
        (case staleSide (tops ! 0, tops ! 1) of
           Some stale \<Rightarrow> otherThan tops stale
         | None \<Rightarrow>
             (case staleSide (tops ! 1, tops ! 0) of
                Some stale \<Rightarrow> otherThan tops stale
              | None \<Rightarrow> by_keepOrder tops))
      else by_keepOrder tops)"

definition survivor :: "copies_of \<Rightarrow> string" where
  "survivor byState = choose_top (top_loop (- 1) [] byState)"

subsection \<open>Recovery\<close>

record survey =
  copies :: "(string \<times> copies_of) list"
  damaged :: "string set"
  errs :: "error list"

definition add_copy :: "string \<Rightarrow> string \<Rightarrow> outbound_message \<Rightarrow> survey \<Rightarrow> survey" where
  "add_copy i s m f =
     f\<lparr>copies := AList.update i
         (AList.update s m (case map_of (copies f) i of Some cs \<Rightarrow> cs | None \<Rightarrow> [])) (copies f)\<rparr>"

definition read_copy :: "'w outbox \<Rightarrow> string \<Rightarrow> string \<Rightarrow> ('w, outbound_message) effect" where
  "read_copy ob s i w =
     (case FindIn (store ob) of Some f \<Rightarrow> f s i w | None \<Rightarrow> Find (store ob) i w)"

fun survey_ids :: "'w outbox \<Rightarrow> string \<Rightarrow> ids \<Rightarrow> survey \<Rightarrow> 'w \<Rightarrow> survey \<times> 'w" where
  "survey_ids ob s [] f w = (f, w)"
| "survey_ids ob s (i # is) f w =
     (case read_copy ob s i w of
        (Inl e, w1) \<Rightarrow>
          survey_ids ob s is (f\<lparr>damaged := insert i (damaged f), errs := errs f @ [e]\<rparr>) w1
      | (Inr m, w1) \<Rightarrow> survey_ids ob s is (add_copy i s m f) w1)"

fun survey_states :: "'w outbox \<Rightarrow> ids \<Rightarrow> survey \<Rightarrow> ('w, survey) effect" where
  "survey_states ob [] f w = (Inr f, w)"
| "survey_states ob (s # ss) f w =
     (case ListState (store ob) s w of
        (Inl e, w1) \<Rightarrow> (Inl e, w1)
      | (Inr is, w1) \<Rightarrow>
          (case survey_ids ob s is f w1 of (f', w2) \<Rightarrow> survey_states ob ss f' w2))"

definition survey_outbox :: "'w outbox \<Rightarrow> ('w, survey) effect" where
  "survey_outbox ob w = survey_states ob OutboxStates \<lparr>copies = [], damaged = {}, errs = []\<rparr> w"

text \<open>
  The inner loop of \<open>deduplicate\<close>, over the states in the order the map yields them: the
  errors, and what is left of the map.
\<close>

fun drop_copies ::
  "'w outbox \<Rightarrow> string \<Rightarrow> string \<Rightarrow> ids \<Rightarrow> copies_of \<Rightarrow> 'w \<Rightarrow> (error list \<times> copies_of) \<times> 'w" where
  "drop_copies ob i keep [] cs w = (([], cs), w)"
| "drop_copies ob i keep (s # ss) cs w =
     (if s = keep then drop_copies ob i keep ss cs w
      else case Remove (store ob) s i w of
             (Inl e, w1) \<Rightarrow>
               (case drop_copies ob i keep ss cs w1 of ((es, cs'), w2) \<Rightarrow> ((e # es, cs'), w2))
           | (Inr _, w1) \<Rightarrow> drop_copies ob i keep ss (AList.delete s cs) w1)"

record map_order =
  dedup_order :: "(string \<times> copies_of) list \<Rightarrow> (string \<times> copies_of) list"
  state_order :: "copies_of \<Rightarrow> copies_of"
  strand_order :: "(string \<times> copies_of) list \<Rightarrow> (string \<times> copies_of) list"

fun dedup_loop ::
  "map_order \<Rightarrow> 'w outbox \<Rightarrow> string set \<Rightarrow> (string \<times> copies_of) list \<Rightarrow> 'w \<Rightarrow>
   (error list \<times> (string \<times> copies_of) list) \<times> 'w" where
  "dedup_loop ord ob dmg [] w = (([], []), w)"
| "dedup_loop ord ob dmg ((i, cs) # rest) w =
     (if i \<in> dmg \<or> length cs < 2
      then (case dedup_loop ord ob dmg rest w of ((es, rest'), w1) \<Rightarrow> ((es, (i, cs) # rest'), w1))
      else (let keep = survivor (state_order ord cs) in
            case drop_copies ob i keep (map fst (state_order ord cs)) cs w of
              ((es, cs'), w1) \<Rightarrow>
                (case dedup_loop ord ob dmg rest w1 of
                   ((es', rest'), w2) \<Rightarrow> ((es @ es', (i, cs') # rest'), w2))))"

definition deduplicate ::
  "map_order \<Rightarrow> 'w outbox \<Rightarrow> survey \<Rightarrow> 'w \<Rightarrow> (error list \<times> survey) \<times> 'w" where
  "deduplicate ord ob found w =
     (case dedup_loop ord ob (damaged found) (dedup_order ord (copies found)) w of
        ((es, cs'), w1) \<Rightarrow> ((es, found\<lparr>copies := cs'\<rparr>), w1))"

fun strand_loop ::
  "statekit \<Rightarrow> 'w outbox \<Rightarrow> string set \<Rightarrow> (string \<times> copies_of) list \<Rightarrow> 'w \<Rightarrow> error list \<times> 'w" where
  "strand_loop sk ob dmg [] w = ([], w)"
| "strand_loop sk ob dmg ((i, cs) # rest) w =
     (if i \<in> dmg \<or> map_of cs ''sending'' = None then strand_loop sk ob dmg rest w
      else case read_copy ob ''sending'' i w of
             (Inl e, w1) \<Rightarrow>
               (case strand_loop sk ob dmg rest w1 of (es, w2) \<Rightarrow> (e # es, w2))
           | (Inr m, w1) \<Rightarrow>
               (if om_State m \<noteq> ''sending''
                then (case strand_loop sk ob dmg rest w1 of
                        (es, w2) \<Rightarrow> (Failure ''record in sending/ declares another state'' # es, w2))
                else (case apply_event sk ob
                             (m\<lparr>om_Error := ''delivery interrupted by restart''\<rparr>) ''FAIL'' w1 of
                        (Inl e, w2) \<Rightarrow>
                          (case strand_loop sk ob dmg rest w2 of (es, w3) \<Rightarrow> (e # es, w3))
                      | (Inr _, w2) \<Rightarrow> strand_loop sk ob dmg rest w2)))"

definition failStranded ::
  "map_order \<Rightarrow> statekit \<Rightarrow> 'w outbox \<Rightarrow> survey \<Rightarrow> 'w \<Rightarrow> error list \<times> 'w" where
  "failStranded ord sk ob found w =
     strand_loop sk ob (damaged found) (strand_order ord (copies found)) w"

definition Recover :: "map_order \<Rightarrow> statekit \<Rightarrow> 'w outbox \<Rightarrow> 'w \<Rightarrow> error option \<times> 'w" where
  "Recover ord sk ob w =
     (case tryHold ob w of
        (Inl e, w1) \<Rightarrow> (Some e, w1)
      | (Inr False, w1) \<Rightarrow> (Some (Wraps ErrOutboxBusy []), w1)
      | (Inr True, w1) \<Rightarrow>
          (case survey_outbox ob w1 of
             (Inl e, w2) \<Rightarrow> (Some e, release ob w2)
           | (Inr found, w2) \<Rightarrow>
               (case deduplicate ord ob found w2 of
                  ((es, found'), w3) \<Rightarrow>
                    (case failStranded ord sk ob found' w3 of
                       (es', w4) \<Rightarrow>
                         (join_errors (errs found @ es @ es'), release ob w4)))))"


subsection \<open>Facts about the survivor\<close>

definition highest :: "int \<Rightarrow> copies_of \<Rightarrow> int" where
  "highest best cs = Max (insert best ((om_Attempts \<circ> snd) ` set cs))"

lemma highest_Cons: "highest best (c # cs) = highest (max best (om_Attempts (snd c))) cs"
proof -
  have "Max (insert (max best x) A) = max x (Max (insert best A))" if "finite A" for x A
    using that by (cases "A = {}") (auto simp: max.left_commute max.commute)
  then show ?thesis
    by (simp add: highest_def insert_commute [of best])
qed

lemma set_top_loop:
  "set (top_loop best tops cs) =
     {s. \<exists>m. (s, m) \<in> set cs \<and> om_Attempts m = highest best cs} \<union>
     (if highest best cs = best then set tops else {})"
proof (induction best tops cs rule: top_loop.induct)
  case (1 best tops)
  then show ?case by (simp add: highest_def)
next
  case (2 best tops s m cs)
  have le: "b \<le> highest b cs" for b
    by (simp add: highest_def)
  note IH = 2
  consider (more) "om_Attempts m > best" | (same) "om_Attempts m = best"
    | (less) "om_Attempts m < best"
    by linarith
  then show ?case
  proof cases
    case more
    with IH(1) le [of "om_Attempts m"] show ?thesis
      by (auto simp: highest_Cons)
  next
    case same
    with IH(2) show ?thesis by (auto simp: highest_Cons)
  next
    case less
    with IH(3) le [of best] show ?thesis by (auto simp: highest_Cons)
  qed
qed

lemma distinct_top_loop:
  "distinct (tops @ map fst cs) \<Longrightarrow> distinct (top_loop best tops cs)"
  by (induction best tops cs rule: top_loop.induct) auto

lemma survivor_tops:
  assumes "cs \<noteq> []" and "\<forall>(s, m) \<in> set cs. 0 \<le> om_Attempts m" and "distinct (map fst cs)"
  shows "set (top_loop (- 1) [] cs) =
      {s. \<exists>m. (s, m) \<in> set cs \<and> (\<forall>(t, n) \<in> set cs. om_Attempts n \<le> om_Attempts m)}"
    and "top_loop (- 1) [] cs \<noteq> []" and "distinct (top_loop (- 1) [] cs)"
proof -
  let ?A = "(om_Attempts \<circ> snd) ` set cs"
  have A: "finite ?A" "?A \<noteq> {}" "\<forall>x \<in> ?A. 0 \<le> x" using assms(1, 2)
    by (simp, simp, auto)
  then have "Max ?A \<in> ?A" by (intro Max_in) auto
  then have "0 \<le> Max ?A" using A(3) by (rule bspec [rotated])
  then have hi: "highest (- 1) cs = Max ?A"
    using Max_insert [OF A(1, 2), of "- 1"] by (simp add: highest_def)
  have "om_Attempts m = Max ?A \<longleftrightarrow> (\<forall>(t, n) \<in> set cs. om_Attempts n \<le> om_Attempts m)"
    if "(s, m) \<in> set cs" for s m
  proof -
    have "om_Attempts m \<in> ?A" using that by force
    then have "om_Attempts m = Max ?A \<longleftrightarrow> (\<forall>x \<in> ?A. x \<le> om_Attempts m)"
      using A(1, 2) by (metis Max_eq_iff)
    then show ?thesis by (simp add: case_prod_unfold)
  qed
  then show *: "set (top_loop (- 1) [] cs) =
      {s. \<exists>m. (s, m) \<in> set cs \<and> (\<forall>(t, n) \<in> set cs. om_Attempts n \<le> om_Attempts m)}"
    by (auto simp: set_top_loop hi)
  have "Max ?A \<in> ?A" using A(1, 2) by (rule Max_in)
  then obtain s m where "(s, m) \<in> set cs" "om_Attempts m = Max ?A" by auto
  then have "s \<in> set (top_loop (- 1) [] cs)"
    unfolding set_top_loop hi by blast
  then show "top_loop (- 1) [] cs \<noteq> []" by auto
  show "distinct (top_loop (- 1) [] cs)" by (rule distinct_top_loop) (simp add: assms(3))
qed

lemma by_keepOrder_in:
  "tops \<noteq> [] \<Longrightarrow> by_keepOrder tops \<in> set tops"
  by (auto simp: by_keepOrder_def keepOrder_def)

lemma choose_top_in: "tops \<noteq> [] \<Longrightarrow> choose_top tops \<in> set tops"
  using by_keepOrder_in [of tops]
  by (auto simp: choose_top_def otherThan_def numeral_2_eq_2 split: option.splits)

lemma by_keepOrder_set:
  assumes "set tops = set tops'" "tops \<noteq> []" "set tops \<subseteq> set OutboxStates"
  shows "by_keepOrder tops = by_keepOrder tops'"
proof -
  obtain s where "s \<in> set tops" using assms(2) by (cases tops) auto
  with assms(3) have "s \<in> set keepOrder \<and> s \<in> set tops"
    by (auto simp: OutboxStates_def keepOrder_def)
  then have "find (\<lambda>s. s \<in> set tops) keepOrder \<noteq> None"
    by (auto simp: find_None_iff)
  with assms(1) show ?thesis by (auto simp: by_keepOrder_def)
qed

lemma choose_top_pair:
  assumes "a \<in> set OutboxStates" "b \<in> set OutboxStates"
  shows "choose_top [a, b] = choose_top [b, a]"
proof -
  have "\<forall>a \<in> set OutboxStates. \<forall>b \<in> set OutboxStates. choose_top [a, b] = choose_top [b, a]"
    by code_simp
  with assms show ?thesis by blast
qed

lemma choose_top_set:
  assumes "set tops = set tops'" "distinct tops" "distinct tops'" "tops \<noteq> []"
    and "set tops \<subseteq> set OutboxStates"
  shows "choose_top tops = choose_top tops'"
proof -
  have len: "length tops = length tops'"
    using assms(1-3) by (metis distinct_card)
  consider "length tops = 1" | "length tops = 2" | "length tops \<noteq> 1" "length tops \<noteq> 2" by blast
  then show ?thesis
  proof cases
    case 1
    then obtain a where t: "tops = [a]" by (auto simp: length_Suc_conv)
    from 1 len obtain c where "tops' = [c]" by (auto simp: length_Suc_conv)
    with t assms(1) show ?thesis by simp
  next
    case 2
    then obtain a b where t: "tops = [a, b]" by (auto simp: numeral_2_eq_2 length_Suc_conv)
    from 2 len obtain c d where t': "tops' = [c, d]"
      by (auto simp: numeral_2_eq_2 length_Suc_conv)
    from t t' assms(1-3) have "(c, d) = (a, b) \<or> (c, d) = (b, a)" by auto
    with t t' assms(5) choose_top_pair [of a b] show ?thesis by auto
  next
    case 3
    with len assms(1, 4, 5) by_keepOrder_set [of tops tops'] show ?thesis
      by (simp add: choose_top_def)
  qed
qed

end
