(* ===== verification/Compose.thy ===== *)
theory Compose
  imports Service Reply Outbox
begin

section \<open>Answering mail (application/compose.go)\<close>

text \<open>
  Planning a reply or a forward from the id of a message: the original is read through the
  service, the audience derived in the domain, and the caller's text set above the quoted
  original.  Sending is the outbox's \<open>Enqueue\<close>.
\<close>

record 'w composer =
  svc :: "'w service"
  outbox_of :: "'w outbox"

record reply_request =
  rq_Account :: string
  rq_Folder :: string
  rq_ID :: string
  rq_All :: bool
  rq_Body :: string
  rq_HTMLBody :: string
  rq_Attachments :: "attachment list"

record forward_request =
  fw_Account :: string
  fw_Folder :: string
  fw_ID :: string
  fw_To :: ids
  fw_Body :: string
  fw_HTMLBody :: string

subsection \<open>Text blocks\<close>

definition appendBlock :: "string \<Rightarrow> string \<Rightarrow> string" where
  "appendBlock body block =
     (if trim_space block = [] then body
      else if body = [] then block
      else body @ [newline, newline] @ block)"

definition escape_char :: "char \<Rightarrow> string" where
  "escape_char c =
     (if c = CHR ''&'' then ''&amp;'' else if c = CHR ''<'' then ''&lt;''
      else if c = CHR ''>'' then ''&gt;'' else if c = CHR 0x22 then ''&quot;''
      else if c = CHR 0x27 then ''&#39;'' else [c])"

definition escape_line :: "string \<Rightarrow> string" where
  "escape_line line = concat (map escape_char line)"

definition htmlEscapeLines :: "string \<Rightarrow> string" where
  "htmlEscapeLines s =
     concat (map (\<lambda>line. escape_line line @ ''<br>'' @ [newline])
       (split_char newline (trim_cutset_right (crlf_to_lf s) [newline])))"

definition appendHTMLBlock :: "string \<Rightarrow> string \<Rightarrow> string" where
  "appendHTMLBlock htmlBody block =
     (if htmlBody = [] \<or> trim_space block = [] then htmlBody
      else htmlBody @ [newline] @ ''<blockquote>'' @ [newline] @ htmlEscapeLines block @
           ''</blockquote>'' @ [newline])"

subsection \<open>Planning and sending\<close>

definition original_of ::
  "mail_lib \<Rightarrow> 'w composer \<Rightarrow> string \<Rightarrow> string \<Rightarrow> string \<Rightarrow> ('w, original) effect" where
  "original_of lib c account folder i w =
     (case service_Read (svc c) account folder i w of
        (Inl e, w1) \<Rightarrow> (Inl e, w1)
      | (Inr raw, w1) \<Rightarrow> (ParseOriginal lib raw, w1))"

definition PlanReply ::
  "mail_lib \<Rightarrow> 'w composer \<Rightarrow> reply_request \<Rightarrow> ('w, outbound_message) effect" where
  "PlanReply lib c req w =
     (case original_of lib c (rq_Account req) (rq_Folder req) (rq_ID req) w of
        (Inl e, w1) \<Rightarrow> (Inl e, w1)
      | (Inr org, w1) \<Rightarrow>
          (case DeriveReply lib org (outbox_From (outbox_of c)) (rq_All req) of
             Inl e \<Rightarrow> (Inl e, w1)
           | Inr msg \<Rightarrow>
               (Inr (msg\<lparr>om_Body := appendBlock (rq_Body req) (Quote lib org),
                         om_HTMLBody := appendHTMLBlock (rq_HTMLBody req) (Quote lib org),
                         om_Attachments := rq_Attachments req\<rparr>), w1)))"

definition PlanForward ::
  "mail_lib \<Rightarrow> 'w composer \<Rightarrow> forward_request \<Rightarrow> ('w, outbound_message) effect" where
  "PlanForward lib c req w =
     (case original_of lib c (fw_Account req) (fw_Folder req) (fw_ID req) w of
        (Inl e, w1) \<Rightarrow> (Inl e, w1)
      | (Inr org, w1) \<Rightarrow>
          (case DeriveForward lib org (fw_To req) of
             Inl e \<Rightarrow> (Inl e, w1)
           | Inr msg \<Rightarrow>
               (Inr (msg\<lparr>om_Body := appendBlock (fw_Body req) (ForwardIntro lib org),
                         om_HTMLBody := appendHTMLBlock (fw_HTMLBody req) (ForwardIntro lib org)\<rparr>), w1)))"

definition composer_Send ::
  "mail_lib \<Rightarrow> error + string \<Rightarrow> 'w composer \<Rightarrow> outbound_message \<Rightarrow> ('w, string) effect" where
  "composer_Send lib rnd c msg = Enqueue lib rnd (outbox_of c) msg"

subsection \<open>Escaping\<close>

text \<open>Reading an escaped text back.\<close>

fun unescape :: "string \<Rightarrow> string" where
  "unescape [] = []"
| "unescape (c # s) =
     (if has_prefix (c # s) ''&amp;'' then CHR ''&'' # unescape (drop 4 s)
      else if has_prefix (c # s) ''&lt;'' then CHR ''<'' # unescape (drop 3 s)
      else if has_prefix (c # s) ''&gt;'' then CHR ''>'' # unescape (drop 3 s)
      else if has_prefix (c # s) ''&quot;'' then CHR 0x22 # unescape (drop 5 s)
      else if has_prefix (c # s) ''&#39;'' then CHR 0x27 # unescape (drop 4 s)
      else c # unescape s)"

lemma unescape_escape: "unescape (escape_line s) = s"
proof (induction s)
  case (Cons c s)
  have step: "unescape (escape_char c @ t) = c # unescape t" for t
    by (simp add: escape_char_def has_prefix_def)
  have "escape_line (c # s) = escape_char c @ escape_line s" by (simp add: escape_line_def)
  with step Cons show ?case by simp
qed (simp add: escape_line_def)

lemma escape_no_markup: "set (escape_line s) \<inter> {CHR ''<'', CHR ''>'', CHR 0x22, CHR 0x27} = {}"
  by (induction s) (auto simp: escape_line_def escape_char_def)

subsection \<open>Properties\<close>

text \<open>what a reply quotes into an HTML body is text there.  The quoted lines carry no
  markup of their own (no angle bracket, no quote), and nothing of them is lost: unescaping
  a line gives it back.\<close>

theorem quoted_html_is_text:
  "(\<forall>line. set (escape_line line) \<inter> {CHR ''<'', CHR ''>'', CHR 0x22, CHR 0x27} = {} \<and>
      unescape (escape_line line) = line) \<and>
   (html \<noteq> [] \<longrightarrow> trim_space block \<noteq> [] \<longrightarrow>
     (\<exists>lines. appendHTMLBlock html block =
        html @ newline # ''<blockquote>'' @ newline #
        concat (map (\<lambda>l. escape_line l @ ''<br>'' @ [newline]) lines) @ ''</blockquote>'' @ [newline] \<and>
        join [newline] lines = trim_cutset_right (crlf_to_lf block) [newline])) \<and>
   (html = [] \<longrightarrow> appendHTMLBlock html block = [])"
proof -
  have "\<exists>lines. appendHTMLBlock html block =
        html @ newline # ''<blockquote>'' @ newline #
        concat (map (\<lambda>l. escape_line l @ ''<br>'' @ [newline]) lines) @ ''</blockquote>'' @ [newline] \<and>
        join [newline] lines = trim_cutset_right (crlf_to_lf block) [newline]"
    if "html \<noteq> []" "trim_space block \<noteq> []"
    using that split_char_join [of newline "trim_cutset_right (crlf_to_lf block) [newline]"]
    by (intro exI [of _ "split_char newline (trim_cutset_right (crlf_to_lf block) [newline])"])
      (simp add: appendHTMLBlock_def htmlEscapeLines_def)
  then show ?thesis using escape_no_markup unescape_escape by (simp add: appendHTMLBlock_def)
qed

theorem quoted_html_is_text_witness:
  "\<exists>lines. appendHTMLBlock ''<p>'' ''a<b'' =
     ''<p>'' @ newline # ''<blockquote>'' @ newline #
     concat (map (\<lambda>l. escape_line l @ ''<br>'' @ [newline]) lines) @ ''</blockquote>'' @ [newline] \<and>
     join [newline] lines = ''a<b''"
proof -
  have "trim_space ''a<b'' \<noteq> []" "trim_cutset_right (crlf_to_lf ''a<b'') [newline] = ''a<b''"
    by code_simp+
  with quoted_html_is_text [of "''<p>''" "''a<b''"] show ?thesis by simp
qed

text \<open>a planned reply is the message the domain derives from the original with that id, as
  the service reads it: its recipients, subject and threading are the derivation's, the caller
  adds only the text above the quotation and the attachments, and planning queues nothing.\<close>

theorem planned_replies_are_derived:
  assumes "PlanReply lib c req w = (Inr m, w')"
  shows "\<exists>raw org d. service_Read (svc c) (rq_Account req) (rq_Folder req) (rq_ID req) w = (Inr raw, w') \<and>
    ParseOriginal lib raw = Inr org \<and> o_Raw org = raw \<and>
    DeriveReply lib org (outbox_From (outbox_of c)) (rq_All req) = Inr d \<and>
    (om_To m, om_Cc m, om_Bcc m, om_Subject m, om_InReplyTo m, om_References m) =
      (om_To d, om_Cc d, om_Bcc d, om_Subject d, om_InReplyTo d, om_References d) \<and>
    om_Attachments m = rq_Attachments req \<and> (\<exists>rest. om_Body m = rq_Body req @ rest)"
proof -
  obtain r w1 where r: "service_Read (svc c) (rq_Account req) (rq_Folder req) (rq_ID req) w = (r, w1)"
    by force
  with assms obtain raw where raw: "r = Inr raw"
    by (cases r) (auto simp: PlanReply_def original_of_def)
  with r assms obtain org where org: "ParseOriginal lib raw = Inr org"
    by (cases "ParseOriginal lib raw") (auto simp: PlanReply_def original_of_def)
  with r raw assms obtain d where d: "DeriveReply lib org (outbox_From (outbox_of c)) (rq_All req) = Inr d"
    by (cases "DeriveReply lib org (outbox_From (outbox_of c)) (rq_All req)")
      (auto simp: PlanReply_def original_of_def)
  from org have "o_Raw org = raw" by (auto simp: ParseOriginal_def split: option.splits)
  moreover from r raw org d assms have "w' = w1"
    "m = d\<lparr>om_Body := appendBlock (rq_Body req) (Quote lib org),
           om_HTMLBody := appendHTMLBlock (rq_HTMLBody req) (Quote lib org),
           om_Attachments := rq_Attachments req\<rparr>"
    by (auto simp: PlanReply_def original_of_def)
  ultimately show ?thesis using r raw org d
    by (intro exI [of _ raw] exI [of _ org] exI [of _ d]) (auto simp: appendBlock_def)
qed

definition toy_composer :: "ids composer" where
  "toy_composer =
     \<lparr>svc = \<lparr>mailbox = toy_mailbox, accounts = [], bulkLimit = 100\<rparr>,
      outbox_of = NewOutbox
        \<lparr>Write = (\<lambda>m w. (Inr (), w)), Remove = (\<lambda>s i w. (Inr (), w)),
         Find = (\<lambda>i w. (Inl (Wraps ErrBadID []), w)), ListState = (\<lambda>s w. (Inr [], w)),
         FindIn = None, Locker = None\<rparr>
        \<lparr>Send = (\<lambda>m w. (Inr (), w)), SelfAddress = Some ''me@x''\<rparr>\<rparr>"

definition toy_request :: reply_request where
  "toy_request = \<lparr>rq_Account = [], rq_Folder = [], rq_ID = ''m1'', rq_All = False, rq_Body = ''ok'',
                  rq_HTMLBody = [], rq_Attachments = []\<rparr>"

theorem planned_replies_are_derived_witness:
  "\<exists>m. PlanReply plain_mail toy_composer toy_request [''m1''] = (Inr m, [''m1'']) \<and>
     (\<exists>rest. om_Body m = ''ok'' @ rest)"
proof -
  have read: "service_Read (svc toy_composer) [] [] ''m1'' [''m1''] = (Inr ''m1'', [''m1''])"
    by (simp add: service_Read_def Resolve_def toy_composer_def toy_defs)
  have "\<not> isl (ParseOriginal plain_mail ''m1'')" by code_simp
  then obtain org where org: "ParseOriginal plain_mail ''m1'' = Inr org"
    by (cases "ParseOriginal plain_mail ''m1''") auto
  have "case ParseOriginal plain_mail ''m1'' of Inl e \<Rightarrow> False
      | Inr og \<Rightarrow> \<not> isl (DeriveReply plain_mail og ''me@x'' False)" by code_simp
  with org obtain d where d: "DeriveReply plain_mail org ''me@x'' False = Inr d"
    by (cases "DeriveReply plain_mail org ''me@x'' False") auto
  have "outbox_From (outbox_of toy_composer) = ''me@x''"
    by (simp add: outbox_From_def toy_composer_def NewOutbox_def)
  with read org d obtain m where m: "PlanReply plain_mail toy_composer toy_request [''m1''] = (Inr m, [''m1''])"
    by (simp add: PlanReply_def original_of_def toy_request_def)
  from planned_replies_are_derived [OF m]
  have "\<exists>rest. om_Body m = rq_Body toy_request @ rest" by blast
  with m show ?thesis by (auto simp: toy_request_def)
qed

end
