(* ===== verification/Outbox_Laws.thy ===== *)
theory Outbox_Laws
  imports Outbox
begin

section \<open>What the outbox promises, over any store that keeps its laws\<close>

text \<open>
  The abstract state of an outbox is a \<open>ledger\<close>: the records on disk by state and id,
  and the messages handed to the wire.  The locale \<open>outbox_ports\<close> states what the code
  relies on of its store, its lock and its sender, failures included; the lemmas inside it
  are proved once, and the on-disk store discharges the laws in the theory that models it.
\<close>

datatype record_file = Rec outbound_message | Damaged

record ledger =
  on_disk :: "string \<times> string \<Rightarrow> record_file option"
  sent_log :: "outbound_message list"

definition letter :: "outbound_message \<Rightarrow> outbound_message" where
  "letter m = m\<lparr>om_State := [], om_Error := [], om_Attempts := 0\<rparr>"

text \<open>A record lies where it says it lies.\<close>

definition filed :: "ledger \<Rightarrow> bool" where
  "filed L \<longleftrightarrow>
     (\<forall>s i m. on_disk L (s, i) = Some (Rec m) \<longrightarrow>
        s \<in> set OutboxStates \<and> om_State m = s \<and> om_ID m = i \<and> 0 \<le> om_Attempts m)"

text \<open>The copies of an id are copies of one letter.\<close>

definition coherent :: "ledger \<Rightarrow> bool" where
  "coherent L \<longleftrightarrow>
     (\<forall>s t i m n. on_disk L (s, i) = Some (Rec m) \<longrightarrow> on_disk L (t, i) = Some (Rec n) \<longrightarrow>
        letter m = letter n)"

definition sound :: "ledger \<Rightarrow> bool" where
  "sound L \<longleftrightarrow> filed L \<and> coherent L"

definition holds_letter :: "ledger \<Rightarrow> string \<Rightarrow> outbound_message \<Rightarrow> bool" where
  "holds_letter L i c \<longleftrightarrow> (\<exists>s m. on_disk L (s, i) = Some (Rec m) \<and> letter m = c)"

definition keeps_letters :: "ledger \<Rightarrow> ledger \<Rightarrow> bool" where
  "keeps_letters L L' \<longleftrightarrow> (\<forall>i c. holds_letter L i c \<longrightarrow> holds_letter L' i c)"

text \<open>Wire deliveries of an id already made, plus the one a queued record still stands for.\<close>

definition wired :: "ledger \<Rightarrow> string \<Rightarrow> nat" where
  "wired L i = count_list (map om_ID (sent_log L)) i"

definition debt :: "ledger \<Rightarrow> string \<Rightarrow> nat" where
  "debt L i = wired L i + (if on_disk L (''queued'', i) \<noteq> None then 1 else 0)"

text \<open>The abstract effect of the store and the sender.\<close>

definition after_write :: "outbound_message \<Rightarrow> ledger \<Rightarrow> ledger" where
  "after_write m L = L\<lparr>on_disk := (on_disk L)((om_State m, om_ID m) \<mapsto> Rec m)\<rparr>"

definition after_remove :: "string \<Rightarrow> string \<Rightarrow> ledger \<Rightarrow> ledger" where
  "after_remove s i L = L\<lparr>on_disk := (on_disk L)((s, i) := None)\<rparr>"

definition after_send :: "outbound_message \<Rightarrow> ledger \<Rightarrow> ledger" where
  "after_send m L = L\<lparr>sent_log := sent_log L @ [m]\<rparr>"

lemmas after_defs = after_write_def after_remove_def after_send_def

lemma wired_after [simp]:
  "wired (after_write m L) i = wired L i" "wired (after_remove s j L) i = wired L i"
  "wired (after_send m L) i = wired L i + (if om_ID m = i then 1 else 0)"
  by (simp_all add: wired_def after_defs)

lemma debt_after_remove: "debt (after_remove s i L) k \<le> debt L k"
  by (simp add: debt_def wired_def after_remove_def)

lemma keeps_refl [simp, intro]: "keeps_letters L L"
  by (simp add: keeps_letters_def)

lemma keeps_trans [trans]:
  "keeps_letters L L' \<Longrightarrow> keeps_letters L' L'' \<Longrightarrow> keeps_letters L L''"
  by (simp add: keeps_letters_def)

lemma soundD:
  assumes "sound L" "on_disk L (s, i) = Some (Rec m)"
  shows "s \<in> set OutboxStates" "om_State m = s" "om_ID m = i" "0 \<le> om_Attempts m"
  using assms unfolding sound_def filed_def by blast+

lemma after_write_disk:
  "on_disk (after_write m L) k = (if k = (om_State m, om_ID m) then Some (Rec m) else on_disk L k)"
  by (simp add: after_defs)

lemma after_remove_disk:
  "on_disk (after_remove s i L) k = (if k = (s, i) then None else on_disk L k)"
  by (simp add: after_defs)

lemma soundI:
  assumes "\<And>s i m. on_disk L (s, i) = Some (Rec m) \<Longrightarrow>
      s \<in> set OutboxStates \<and> om_State m = s \<and> om_ID m = i \<and> 0 \<le> om_Attempts m"
    and "\<And>s t i m n. on_disk L (s, i) = Some (Rec m) \<Longrightarrow> on_disk L (t, i) = Some (Rec n) \<Longrightarrow>
      letter m = letter n"
  shows "sound L"
  using assms unfolding sound_def filed_def coherent_def by blast

lemma sound_letters:
  "sound L \<Longrightarrow> on_disk L (s, i) = Some (Rec m) \<Longrightarrow> on_disk L (t, i) = Some (Rec n) \<Longrightarrow>
   letter m = letter n"
  unfolding sound_def coherent_def by blast

lemma after_send_disk [simp]: "on_disk (after_send m L) = on_disk L"
  by (simp add: after_defs)

lemma sound_after_send [simp]: "sound (after_send m L) = sound L"
  by (simp add: sound_def filed_def coherent_def)

lemma keeps_after_send [simp]: "keeps_letters L (after_send m L)"
  by (simp add: keeps_letters_def holds_letter_def)

lemma sound_after_remove:
  assumes "sound L"
  shows "sound (after_remove s i L)"
proof (rule soundI)
  fix t j m assume "on_disk (after_remove s i L) (t, j) = Some (Rec m)"
  then have "on_disk L (t, j) = Some (Rec m)" by (simp add: after_remove_disk split: if_splits)
  from soundD [OF assms this]
  show "t \<in> set OutboxStates \<and> om_State m = t \<and> om_ID m = j \<and> 0 \<le> om_Attempts m" by blast
next
  fix t u j m n
  assume "on_disk (after_remove s i L) (t, j) = Some (Rec m)"
    and "on_disk (after_remove s i L) (u, j) = Some (Rec n)"
  then have "on_disk L (t, j) = Some (Rec m)" "on_disk L (u, j) = Some (Rec n)"
    by (simp_all add: after_remove_disk split: if_splits)
  from sound_letters [OF assms this] show "letter m = letter n" .
qed

text \<open>Writing another copy of a letter that is on disk under that id, or of a new id.\<close>

definition same_letter :: "ledger \<Rightarrow> outbound_message \<Rightarrow> bool" where
  "same_letter L m \<longleftrightarrow>
     (\<forall>s n. on_disk L (s, om_ID m) = Some (Rec n) \<longrightarrow> letter n = letter m)"

lemma write_copy:
  assumes "sound L" "om_State m \<in> set OutboxStates" "0 \<le> om_Attempts m" "same_letter L m"
  shows "sound (after_write m L)" "keeps_letters L (after_write m L)"
proof -
  have disk: "on_disk L (s, i) = Some (Rec n) \<or> (s, i) = (om_State m, om_ID m) \<and> n = m"
    if "on_disk (after_write m L) (s, i) = Some (Rec n)" for s i n
    using that by (simp add: after_write_disk split: if_splits)
  have letters: "letter n = letter m" if "on_disk L (s, om_ID m) = Some (Rec n)" for s n
    using assms(4) that unfolding same_letter_def by blast
  show "sound (after_write m L)"
  proof (rule soundI)
    fix s i n assume "on_disk (after_write m L) (s, i) = Some (Rec n)"
    from disk [OF this] soundD [OF assms(1), of s i n] assms(2, 3)
    show "s \<in> set OutboxStates \<and> om_State n = s \<and> om_ID n = i \<and> 0 \<le> om_Attempts n" by blast
  next
    fix s t i n k
    assume "on_disk (after_write m L) (s, i) = Some (Rec n)"
      and "on_disk (after_write m L) (t, i) = Some (Rec k)"
    from disk [OF this(1)] disk [OF this(2)] letters sound_letters [OF assms(1), of s i n t k]
    show "letter n = letter k" by (metis prod.inject)
  qed
  show "keeps_letters L (after_write m L)"
    unfolding keeps_letters_def holds_letter_def
  proof (intro allI impI)
    fix i c assume "\<exists>s n. on_disk L (s, i) = Some (Rec n) \<and> letter n = c"
    then obtain s n where n: "on_disk L (s, i) = Some (Rec n)" "letter n = c" by blast
    show "\<exists>s n. on_disk (after_write m L) (s, i) = Some (Rec n) \<and> letter n = c"
    proof (cases "(s, i) = (om_State m, om_ID m)")
      case True
      with n letters [of s n] have "letter m = c" by simp
      with True show ?thesis
        by (intro exI [of _ s] exI [of _ m]) (simp add: after_write_disk)
    next
      case False
      with n show ?thesis
        by (intro exI [of _ s] exI [of _ n]) (simp add: after_write_disk del: prod.inject)
    qed
  qed
qed

text \<open>Removing a copy of a letter that has another copy under that id.\<close>

lemma remove_copy:
  assumes "sound L" "on_disk L (t, i) = Some (Rec n)" "t \<noteq> s"
  shows "keeps_letters L (after_remove s i L)"
  unfolding keeps_letters_def holds_letter_def
proof (intro allI impI)
  fix j c assume "\<exists>u m. on_disk L (u, j) = Some (Rec m) \<and> letter m = c"
  then obtain u m where m: "on_disk L (u, j) = Some (Rec m)" "letter m = c" by blast
  show "\<exists>u m. on_disk (after_remove s i L) (u, j) = Some (Rec m) \<and> letter m = c"
  proof (cases "(u, j) = (s, i)")
    case True
    with m sound_letters [OF assms(1, 2), of u m] have "letter n = c" by simp
    with True assms(2, 3) show ?thesis
      by (intro exI [of _ t] exI [of _ n]) (simp add: after_remove_disk)
  next
    case False
    with m show ?thesis
      by (intro exI [of _ u] exI [of _ m]) (simp add: after_remove_disk del: prod.inject)
  qed
qed

lemma lifecycle_states:
  "lifecycle s ev = Some t \<Longrightarrow> s \<in> set OutboxStates \<and> t \<in> set OutboxStates \<and> t \<noteq> s"
  using lifecycle_neq by blast

text \<open>A survey that says only what is on disk.\<close>

definition accurate_copies :: "ledger \<Rightarrow> string \<Rightarrow> copies_of \<Rightarrow> bool" where
  "accurate_copies L i cs \<longleftrightarrow>
     cs \<noteq> [] \<and> distinct (map fst cs) \<and>
     (\<forall>s m. (s, m) \<in> set cs \<longrightarrow> s \<in> set OutboxStates \<and> on_disk L (s, i) = Some (Rec m))"

definition accurate :: "ledger \<Rightarrow> (string \<times> copies_of) list \<Rightarrow> bool" where
  "accurate L cps \<longleftrightarrow>
     distinct (map fst cps) \<and> (\<forall>i cs. (i, cs) \<in> set cps \<longrightarrow> accurate_copies L i cs)"

definition orders :: "map_order \<Rightarrow> bool" where
  "orders ord \<longleftrightarrow> (\<forall>c. mset (dedup_order ord c) = mset c) \<and>
     (\<forall>c. mset (state_order ord c) = mset c) \<and> (\<forall>c. mset (strand_order ord c) = mset c)"

lemma mset_fst_distinct: "mset xs = mset ys \<Longrightarrow> distinct (map fst xs) = distinct (map fst ys)"
  by (metis mset_map distinct_count_atmost_1 set_mset_mset)

lemma accurate_perm: "mset xs = mset ys \<Longrightarrow> accurate L xs = accurate L ys"
  unfolding accurate_def using mset_fst_distinct mset_eq_setD by metis

lemma update_mem:
  "distinct (map fst al) \<Longrightarrow>
   (k, v) \<in> set (AList.update k' v' al) \<longleftrightarrow> (if k = k' then v = v' else (k, v) \<in> set al)"
  by (metis distinct_update map_of_eq_Some_iff option.inject update_conv' fun_upd_apply)

lemma accurate_add_copy:
  assumes "accurate L (copies f)" "on_disk L (s, i) = Some (Rec m)" "s \<in> set OutboxStates"
  shows "accurate L (copies (add_copy i s m f))"
proof -
  let ?old = "case map_of (copies f) i of Some cs \<Rightarrow> cs | None \<Rightarrow> []"
  have old: "distinct (map fst ?old)"
    "t \<in> set OutboxStates \<and> on_disk L (t, i) = Some (Rec n)" if "(t, n) \<in> set ?old" for t n
    using assms(1) that
    by (auto simp: accurate_def accurate_copies_def dest!: map_of_SomeD split: option.splits)
  have d: "distinct (map fst ?old)"
    using assms(1)
    by (auto simp: accurate_def accurate_copies_def dest!: map_of_SomeD split: option.splits)
  have "AList.update s m ?old \<noteq> []" by (cases ?old) auto
  moreover have "distinct (map fst (AList.update s m ?old))" using d by (rule distinct_update)
  moreover have "t \<in> set OutboxStates \<and> on_disk L (t, i) = Some (Rec n)"
    if "(t, n) \<in> set (AList.update s m ?old)" for t n
    using that d old(2) assms(2, 3) by (auto simp: update_mem split: if_splits)
  ultimately have new: "accurate_copies L i (AList.update s m ?old)"
    unfolding accurate_copies_def by blast
  have dd: "distinct (map fst (copies f))" using assms(1) by (simp add: accurate_def)
  have "accurate_copies L j cs"
    if "(j, cs) \<in> set (AList.update i (AList.update s m ?old) (copies f))" for j cs
    using that dd new assms(1) by (auto simp: update_mem accurate_def split: if_splits)
  with dd show ?thesis
    by (simp add: add_copy_def accurate_def distinct_update)
qed

lemma survivor_mem:
  assumes "sound L" "accurate_copies L i cs" "mset cs' = mset cs"
  shows "\<exists>m. (survivor cs', m) \<in> set cs"
proof -
  from assms(3) have set: "set cs' = set cs" by (rule mset_eq_setD)
  from assms(2, 3) have ne: "cs' \<noteq> []" "distinct (map fst cs')"
    using mset_fst_distinct [OF assms(3)] by (auto simp: accurate_copies_def)
  have att: "0 \<le> om_Attempts m" if "(s, m) \<in> set cs'" for s m
    using that set assms(2) soundD(4) [OF assms(1)] unfolding accurate_copies_def by blast
  have "survivor cs' \<in> set (top_loop (- 1) [] cs')"
    unfolding survivor_def
    using survivor_tops(2) [of cs'] ne att by (intro choose_top_in) blast
  then show ?thesis
    using survivor_tops(1) [of cs'] ne att set by blast
qed

subsection \<open>The laws\<close>

locale outbox_ports =
  fixes st :: "'w store"
    and sd :: "'w sender"
    and view :: "'w \<Rightarrow> ledger"
  assumes Write_law:
      "Write st m w = (r, w') \<Longrightarrow> om_State m \<in> set OutboxStates \<Longrightarrow>
       (\<exists>e. r = Inl e) \<and> view w' = view w \<or> r = Inr () \<and> view w' = after_write m (view w)"
    and Remove_law:
      "Remove st s i w = (r, w') \<Longrightarrow> s \<in> set OutboxStates \<Longrightarrow>
       (\<exists>e. r = Inl e) \<and> view w' = view w \<or>
       r = Inr () \<and> on_disk (view w) (s, i) \<noteq> None \<and> view w' = after_remove s i (view w)"
    and Find_law:
      "Find st i w = (x, w') \<Longrightarrow>
       view w' = view w \<and> (\<forall>m. x = Inr m \<longrightarrow> (\<exists>s. on_disk (view w) (s, i) = Some (Rec m)))"
    and FindIn_law:
      "FindIn st = Some f \<Longrightarrow> f s i w = (x, w') \<Longrightarrow> s \<in> set OutboxStates \<Longrightarrow>
       view w' = view w \<and> (\<forall>m. x = Inr m \<longrightarrow> on_disk (view w) (s, i) = Some (Rec m))"
    and FindIn_offered: "FindIn st \<noteq> None"
    and ListState_law:
      "ListState st s w = (y, w') \<Longrightarrow> s \<in> set OutboxStates \<Longrightarrow>
       view w' = view w \<and>
       (\<forall>is. y = Inr is \<longrightarrow> distinct is \<and> (\<forall>i \<in> set is. on_disk (view w) (s, i) \<noteq> None))"
    and Send_law:
      "Send sd m w = (r, w') \<Longrightarrow>
       view w' = after_send m (view w) \<or> (\<exists>e. r = Inl e) \<and> view w' = view w"
    and Lock_law: "Locker st = Some l \<Longrightarrow> view (snd (Lock l w)) = view w"
    and TryLock_law: "Locker st = Some l \<Longrightarrow> view (snd (TryLock l w)) = view w"
    and Release_law: "Locker st = Some l \<Longrightarrow> view (Release l w) = view w"
begin

abbreviation ob :: "'w outbox" where "ob \<equiv> NewOutbox st sd"

lemma ob_fields [simp]: "store ob = st" "sender ob = sd" "locker ob = Locker st"
  by (simp_all add: NewOutbox_def)

lemma hold_view: "hold ob w = (r, w') \<Longrightarrow> view w' = view w"
  using Lock_law by (auto simp: hold_def split: option.splits) (metis snd_conv)

lemma tryHold_view: "tryHold ob w = (r, w') \<Longrightarrow> view w' = view w"
  using TryLock_law by (auto simp: tryHold_def split: option.splits) (metis snd_conv)

lemma release_view [simp]: "view (release ob w) = view w"
  using Release_law by (auto simp: release_def split: option.splits)

lemma read_copy_law:
  assumes "read_copy ob s i w = (r, w')" "s \<in> set OutboxStates"
  shows "view w' = view w" "r = Inr m \<Longrightarrow> on_disk (view w) (s, i) = Some (Rec m)"
  using FindIn_offered FindIn_law [of _ s i w r w'] assms
  by (auto simp: read_copy_def split: option.splits)

subsection \<open>A move along the lifecycle\<close>

lemma apply_cases:
  assumes "statekit_documented sk" "apply_event sk ob m ev w = (r, w')"
  obtains (refused) e where "r = Inl e" "view w' = view w"
  | (half) e s where "r = Inl e" "lifecycle (om_State m) ev = Some s"
      "view w' = after_write (m\<lparr>om_State := s\<rparr>) (view w)"
  | (done_move) s where "r = Inr ()" "lifecycle (om_State m) ev = Some s"
      "on_disk (view w) (om_State m, om_ID m) \<noteq> None"
      "view w' = after_remove (om_State m) (om_ID m) (after_write (m\<lparr>om_State := s\<rparr>) (view w))"
proof (cases "Transition sk (om_State m) ev")
  case (Inl e)
  with assms show ?thesis by (auto simp: apply_event_def intro: refused)
next
  case (Inr s)
  with assms have life: "lifecycle (om_State m) ev = Some s"
    using Transition_Inr_iff by blast
  note st = lifecycle_states [OF life]
  obtain r1 w1 where w1: "Write st (m\<lparr>om_State := s\<rparr>) w = (r1, w1)" by force
  from st Write_law [OF w1] consider
      (no) e where "r1 = Inl e" "view w1 = view w"
    | (yes) "r1 = Inr ()" "view w1 = after_write (m\<lparr>om_State := s\<rparr>) (view w)"
    by auto
  then show ?thesis
  proof cases
    case no
    with w1 Inr assms(2) show ?thesis by (intro refused) (auto simp: apply_event_def)
  next
    case yes
    with w1 Inr assms(2) have rm: "Remove st (om_State m) (om_ID m) w1 = (r, w')"
      by (simp add: apply_event_def)
    from Remove_law [OF rm] st yes(2) consider
        (no') e where "r = Inl e" "view w' = view w1"
      | (yes') "r = Inr ()" "on_disk (view w1) (om_State m, om_ID m) \<noteq> None"
          "view w' = after_remove (om_State m) (om_ID m) (view w1)"
      by auto
    then show ?thesis
    proof cases
      case no'
      with yes(2) life show ?thesis by (intro half) auto
    next
      case yes'
      with yes(2) life st show ?thesis
        by (intro done_move) (auto simp: after_write_disk)
    qed
  qed
qed

lemma apply_sound:
  assumes sk: "statekit_documented sk" and ap: "apply_event sk ob m ev w = (r, w')"
    and L: "sound (view w)" "on_disk (view w) (om_State m, om_ID m) = Some (Rec m0)"
    and m: "letter m = letter m0" "0 \<le> om_Attempts m"
  shows "sound (view w')" "keeps_letters (view w) (view w')"
proof -
  have same: "same_letter (view w) (m\<lparr>om_State := s\<rparr>)" for s
    unfolding same_letter_def
  proof (intro allI impI)
    fix t n assume "on_disk (view w) (t, om_ID (m\<lparr>om_State := s\<rparr>)) = Some (Rec n)"
    then have "on_disk (view w) (t, om_ID m) = Some (Rec n)" by simp
    from sound_letters [OF L(1) this L(2)] m(1) show "letter n = letter (m\<lparr>om_State := s\<rparr>)"
      by (simp add: letter_def)
  qed
  have wr: "sound (after_write (m\<lparr>om_State := s\<rparr>) (view w))"
    "keeps_letters (view w) (after_write (m\<lparr>om_State := s\<rparr>) (view w))"
    if "lifecycle (om_State m) ev = Some s" for s
    using write_copy [OF L(1), of "m\<lparr>om_State := s\<rparr>"] lifecycle_states [OF that] m(2) same
    by simp_all
  from sk ap have "sound (view w') \<and> keeps_letters (view w) (view w')"
  proof (cases rule: apply_cases)
    case (done_move s)
    let ?L = "after_write (m\<lparr>om_State := s\<rparr>) (view w)"
    have "on_disk ?L (s, om_ID m) = Some (Rec (m\<lparr>om_State := s\<rparr>))"
      by (simp add: after_write_disk)
    from remove_copy [OF wr(1) [OF done_move(2)] this] lifecycle_states [OF done_move(2)]
    have "keeps_letters ?L (view w')" using done_move(4) by simp
    with wr [OF done_move(2)] done_move(4) show ?thesis
      by (metis keeps_trans sound_after_remove)
  qed (use L wr in simp_all)
  then show "sound (view w')" "keeps_letters (view w) (view w')" by simp_all
qed

lemma lifecycle_queued: "lifecycle s ev = Some ''queued'' \<Longrightarrow> ev = ''RETRY''"
  by (auto simp: lifecycle_def split: if_splits)

lemma apply_debt:
  assumes sk: "statekit_documented sk" and ap: "apply_event sk ob m ev w = (r, w')"
  shows "debt (view w') i \<le>
      debt (view w) i + (if ev = ''RETRY'' \<and> om_ID m = i then 1 else 0)"
  using sk ap
proof (cases rule: apply_cases)
  case (half e s)
  then show ?thesis using lifecycle_queued [of "om_State m" ev]
    by (auto simp: debt_def after_write_disk)
next
  case (done_move s)
  then show ?thesis using lifecycle_queued [of "om_State m" ev]
    by (auto simp: debt_def after_write_disk after_remove_disk)
qed simp

lemma apply_SEND:
  assumes sk: "statekit_documented sk" and ap: "apply_event sk ob m ''SEND'' w = (Inr u, w')"
  shows "debt (view w') i + (if om_ID m = i then 1 else 0) = debt (view w) i"
    and "on_disk (view w') (''sending'', om_ID m) = Some (Rec (moved sk m ''SEND''))"
    and "moved sk m ''SEND'' = m\<lparr>om_State := ''sending''\<rparr>"
proof -
  have q: "lifecycle s ''SEND'' = Some t \<Longrightarrow> s = ''queued'' \<and> t = ''sending''" for s t
    by (auto simp: lifecycle_def split: if_splits)
  from sk ap have *: "om_State m = ''queued'' \<and> on_disk (view w) (''queued'', om_ID m) \<noteq> None \<and>
      view w' = after_remove ''queued'' (om_ID m) (after_write (m\<lparr>om_State := ''sending''\<rparr>) (view w))"
    by (cases rule: apply_cases) (use q in auto)
  then have "Transition sk (om_State m) ''SEND'' = Inr ''sending''"
    using Transition_Inr_iff [OF sk] by simp
  then show mv: "moved sk m ''SEND'' = m\<lparr>om_State := ''sending''\<rparr>"
    by (simp add: moved_def)
  from * show "debt (view w') i + (if om_ID m = i then 1 else 0) = debt (view w) i"
    by (auto simp: debt_def after_write_disk after_remove_disk)
  from * mv show "on_disk (view w') (''sending'', om_ID m) = Some (Rec (moved sk m ''SEND''))"
    by (simp add: after_write_disk after_remove_disk)
qed

subsection \<open>Delivery\<close>

lemma deliver_cases:
  assumes "deliver sk ob i w = (x, w')"
  obtains (unread) e w1 where "Find st i w = (Inl e, w1)" "w' = w1"
  | (unmoved) m w1 e where "Find st i w = (Inr m, w1)"
      "apply_event sk ob (m\<lparr>om_Attempts := om_Attempts m + 1\<rparr>) ''SEND'' w1 = (Inl e, w')"
  | (handed) m w1 w2 r w3 r' why ev where "Find st i w = (Inr m, w1)"
      "apply_event sk ob (m\<lparr>om_Attempts := om_Attempts m + 1\<rparr>) ''SEND'' w1 = (Inr (), w2)"
      "Send sd (moved sk (m\<lparr>om_Attempts := om_Attempts m + 1\<rparr>) ''SEND'') w2 = (r, w3)"
      "apply_event sk ob ((moved sk (m\<lparr>om_Attempts := om_Attempts m + 1\<rparr>) ''SEND'')
          \<lparr>om_Error := why\<rparr>) ev w3 = (r', w')"
      "ev = (case r of Inl _ \<Rightarrow> ''FAIL'' | Inr _ \<Rightarrow> ''SUCCEED'')"
  using assms unfolding deliver_def Let_def ob_fields
  by (fastforce split: prod.splits sum.splits)

lemma deliver_debt:
  assumes sk: "statekit_documented sk" and d: "deliver sk ob i w = (x, w')"
  shows "debt (view w') j \<le> debt (view w) j"
  using d
proof (cases rule: deliver_cases)
  case (unread e w1)
  then show ?thesis using Find_law by simp
next
  case (unmoved m w1 e)
  with Find_law have "view w1 = view w" by blast
  with apply_debt [OF sk unmoved(2), of j] show ?thesis by simp
next
  case (handed m w1 w2 r w3 r' why ev)
  let ?m = "m\<lparr>om_Attempts := om_Attempts m + 1\<rparr>"
  from handed(1) Find_law have v1: "view w1 = view w" by blast
  have v2: "debt (view w2) j + (if om_ID m = j then 1 else 0) = debt (view w) j"
    using apply_SEND(1) [OF sk handed(2), of j] v1 by simp
  have id: "om_ID (moved sk ?m ''SEND'') = om_ID m"
    using apply_SEND(3) [OF sk handed(2)] by simp
  have "debt (view w3) j \<le> debt (view w2) j + (if om_ID m = j then 1 else 0)"
    using Send_law [OF handed(3)] id by (auto simp: debt_def)
  with v2 have v3: "debt (view w3) j \<le> debt (view w) j" by simp
  have "ev \<noteq> ''RETRY''" using handed(5) by (auto split: sum.splits)
  with apply_debt [OF sk handed(4), of j] v3 show ?thesis by simp
qed

lemma deliver_sound:
  assumes sk: "statekit_documented sk" and d: "deliver sk ob i w = (x, w')"
    and L: "sound (view w)"
  shows "sound (view w') \<and> keeps_letters (view w) (view w')"
  using d
proof (cases rule: deliver_cases)
  case (unread e w1)
  then show ?thesis using Find_law L by simp
next
  case (unmoved m w1 e)
  from Find_law [OF unmoved(1)] obtain s where v: "view w1 = view w"
    and m: "on_disk (view w) (s, i) = Some (Rec m)" by blast
  from soundD [OF L m] m v L apply_sound [OF sk unmoved(2), of m] show ?thesis
    by (simp add: letter_def)
next
  case (handed m w1 w2 r w3 r' why ev)
  let ?m = "m\<lparr>om_Attempts := om_Attempts m + 1\<rparr>"
  from Find_law [OF handed(1)] obtain s where v: "view w1 = view w"
    and m: "on_disk (view w) (s, i) = Some (Rec m)" by blast
  from soundD [OF L m] m v L apply_sound [OF sk handed(2), of m]
  have 2: "sound (view w2)" "keeps_letters (view w) (view w2)" by (simp_all add: letter_def)
  from Send_law [OF handed(3)] have 3: "sound (view w3)" "keeps_letters (view w2) (view w3)"
    and disk: "on_disk (view w3) = on_disk (view w2)" using 2 by auto
  note mv = apply_SEND(3) [OF sk handed(2)]
  have rec: "on_disk (view w3) (''sending'', om_ID m) = Some (Rec (moved sk ?m ''SEND''))"
    using apply_SEND(2) [OF sk handed(2)] disk by simp
  have att: "0 \<le> om_Attempts (moved sk ?m ''SEND'')"
    using soundD(4) [OF L m] mv by simp
  have "sound (view w')" "keeps_letters (view w3) (view w')"
    using apply_sound [OF sk handed(4), of "moved sk ?m ''SEND''"] 3(1) rec mv att
    by (simp_all add: letter_def)
  with 2(2) 3(2) show ?thesis by (meson keeps_trans)
qed

lemma deliver_all_debt:
  "statekit_documented sk \<Longrightarrow> deliver_all sk ob is w = (x, w') \<Longrightarrow>
   debt (view w') j \<le> debt (view w) j"
proof (induction "is" arbitrary: w x w')
  case (Cons i "is")
  obtain y w1 where y: "deliver sk ob i w = (y, w1)" by (metis surj_pair)
  with Cons.prems obtain z where z: "deliver_all sk ob is w1 = (z, w')"
    by (auto split: prod.splits)
  from Cons.IH [OF Cons.prems(1) z] deliver_debt [OF Cons.prems(1) y, of j] show ?case
    by simp
qed simp

lemma deliver_all_sound:
  "statekit_documented sk \<Longrightarrow> deliver_all sk ob is w = (x, w') \<Longrightarrow> sound (view w) \<Longrightarrow>
   sound (view w') \<and> keeps_letters (view w) (view w')"
proof (induction "is" arbitrary: w x w')
  case (Cons i "is")
  obtain y w1 where y: "deliver sk ob i w = (y, w1)" by (metis surj_pair)
  with Cons.prems obtain z where z: "deliver_all sk ob is w1 = (z, w')"
    by (auto split: prod.splits)
  from deliver_sound [OF Cons.prems(1) y Cons.prems(3)] Cons.IH [OF Cons.prems(1) z]
  show ?case by (meson keeps_trans)
qed simp

lemma ProcessOnce_view:
  assumes "ProcessOnce sk ob w = (x, w')"
  shows "view w' = view w \<or>
    (\<exists>is y w1 w2. view w1 = view w \<and> deliver_all sk ob is w1 = (y, w2) \<and> view w' = view w2)"
proof -
  obtain r w1 where h: "hold ob w = (r, w1)" by force
  then have v1: "view w1 = view w" by (rule hold_view)
  show ?thesis
  proof (cases r)
    case (Inr u)
    obtain l w2 where l: "ListState st ''queued'' w1 = (l, w2)" by force
    then have v2: "view w2 = view w1"
      using ListState_law by (auto simp: OutboxStates_def)
    show ?thesis
    proof (cases l)
      case l': (Inr "is")
      obtain n es w3 where d: "deliver_all sk ob is w2 = ((n, es), w3)" by (metis surj_pair)
      with h Inr l l' assms have "w' = release ob w3" by (simp add: ProcessOnce_def)
      with d v1 v2 show ?thesis by fastforce
    qed (use h l Inr v1 v2 assms in \<open>auto simp: ProcessOnce_def\<close>)
  qed (use h v1 assms in \<open>auto simp: ProcessOnce_def\<close>)
qed

lemma ProcessOnce_debt:
  assumes "statekit_documented sk" "ProcessOnce sk ob w = (x, w')"
  shows "debt (view w') j \<le> debt (view w) j"
  using ProcessOnce_view [OF assms(2)] deliver_all_debt [OF assms(1)] by fastforce

lemma ProcessOnce_sound:
  assumes "statekit_documented sk" "ProcessOnce sk ob w = (x, w')" "sound (view w)"
  shows "sound (view w')" "keeps_letters (view w) (view w')"
  using ProcessOnce_view [OF assms(2)] deliver_all_sound [OF assms(1)] assms(3) by fastforce+

subsection \<open>Retry and enqueue\<close>

lemma Retry_view:
  assumes "Retry sk ob i w = (r, w')"
  shows "view w' = view w \<or>
    (\<exists>s m w1 w2. view w1 = view w \<and> on_disk (view w) (s, i) = Some (Rec m) \<and>
       apply_event sk ob m ''RETRY'' w1 = (r, w2) \<and> view w' = view w2)"
proof -
  obtain h w1 where h: "hold ob w = (h, w1)" by force
  then have v1: "view w1 = view w" by (rule hold_view)
  show ?thesis
  proof (cases h)
    case (Inr u)
    obtain f w2 where f: "Find st i w1 = (f, w2)" by force
    from Find_law [OF this] have v2: "view w2 = view w1" by blast
    show ?thesis
    proof (cases f)
      case f': (Inr m)
      with Find_law [OF f] v1 obtain s where "on_disk (view w) (s, i) = Some (Rec m)" by auto
      moreover obtain x w3 where "apply_event sk ob m ''RETRY'' w2 = (x, w3)" by force
      ultimately show ?thesis
        using h Inr f f' v1 v2 assms by (fastforce simp: Retry_def released_def)
    qed (use h f Inr v1 v2 assms in \<open>auto simp: Retry_def released_def\<close>)
  qed (use h v1 assms in \<open>auto simp: Retry_def\<close>)
qed

lemma Retry_debt:
  assumes sk: "statekit_documented sk" and r: "Retry sk ob i w = (r, w')" and L: "sound (view w)"
  shows "debt (view w') j \<le> debt (view w) j + (if i = j then 1 else 0)"
  using Retry_view [OF r]
proof (elim disjE exE conjE)
  fix s m w1 w2
  assume "view w1 = view w" "on_disk (view w) (s, i) = Some (Rec m)" "view w' = view w2"
    and "apply_event sk ob m ''RETRY'' w1 = (r, w2)"
  with apply_debt [OF sk, of m "''RETRY''" w1 r w2 j] soundD(3) [OF L] show ?thesis by simp
qed simp

lemma Retry_sound:
  assumes sk: "statekit_documented sk" and r: "Retry sk ob i w = (r, w')" and L: "sound (view w)"
  shows "sound (view w') \<and> keeps_letters (view w) (view w')"
  using Retry_view [OF r]
proof (elim disjE exE conjE)
  fix s m w1 w2
  assume v: "view w1 = view w" and m: "on_disk (view w) (s, i) = Some (Rec m)"
    and v2: "view w' = view w2" and ap: "apply_event sk ob m ''RETRY'' w1 = (r, w2)"
  from soundD [OF L m] have "om_State m = s" "om_ID m = i" "0 \<le> om_Attempts m" by blast+
  with v v2 m L apply_sound [OF sk ap, of m] show ?thesis by simp
qed (use L in simp)

lemma Enqueue_view:
  assumes "Enqueue lib rnd ob msg w = (r, w')"
  shows "view w' = view w \<and> (\<exists>e. r = Inl e) \<or>
    (\<exists>i. rnd = Inr i \<and> r = Inr i \<and> Validate lib msg = None \<and>
       view w' = after_write (msg\<lparr>om_ID := i, om_State := ''queued''\<rparr>) (view w))"
proof (cases "Validate lib msg = None \<and> (\<exists>i. rnd = Inr i)")
  case True
  then obtain i where i: "rnd = Inr i" by blast
  obtain x w1 where x: "Write st (msg\<lparr>om_ID := i, om_State := ''queued''\<rparr>) w = (x, w1)" by force
  from Write_law [OF x] show ?thesis
    using True i x assms by (auto simp: Enqueue_def OutboxStates_def)
qed (use assms in \<open>auto simp: Enqueue_def split: option.splits sum.splits\<close>)

lemma Enqueue_debt:
  "Enqueue lib rnd ob msg w = (r, w') \<Longrightarrow>
   debt (view w') j \<le> debt (view w) j + (if rnd = Inr j then 1 else 0)"
  using Enqueue_view by (fastforce simp: debt_def after_write_disk)

lemma Enqueue_sound:
  assumes "Enqueue lib (Inr i) ob msg w = (r, w')" "sound (view w)"
    and "\<forall>s. on_disk (view w) (s, i) = None" "0 \<le> om_Attempts msg"
  shows "sound (view w') \<and> keeps_letters (view w) (view w')"
  using Enqueue_view [OF assms(1)]
    write_copy [OF assms(2), of "msg\<lparr>om_ID := i, om_State := ''queued''\<rparr>"] assms
  by (auto simp: same_letter_def OutboxStates_def)

subsection \<open>Recovery under faults\<close>

lemma survey_ids_law:
  "survey_ids ob s is f w = (f', w') \<Longrightarrow> s \<in> set OutboxStates \<Longrightarrow> accurate (view w) (copies f) \<Longrightarrow>
   view w' = view w \<and> accurate (view w) (copies f')"
proof (induction "is" arbitrary: f w)
  case (Cons i "is")
  obtain r w1 where r: "read_copy ob s i w = (r, w1)" by force
  note v = read_copy_law(1) [OF r Cons.prems(2)]
  show ?case
  proof (cases r)
    case (Inl e)
    with r v Cons.prems Cons.IH [of "f\<lparr>damaged := insert i (damaged f), errs := errs f @ [e]\<rparr>" w1]
    show ?thesis by simp
  next
    case (Inr m)
    have "accurate (view w) (copies (add_copy i s m f))"
      using accurate_add_copy Cons.prems(2, 3) read_copy_law(2) [OF r Cons.prems(2) Inr] by blast
    with r v Inr Cons.prems Cons.IH [of "add_copy i s m f" w1] show ?thesis by simp
  qed
qed simp

lemma survey_states_law:
  "survey_states ob ss f w = (r, w') \<Longrightarrow> set ss \<subseteq> set OutboxStates \<Longrightarrow>
   accurate (view w) (copies f) \<Longrightarrow>
   view w' = view w \<and> (\<forall>f'. r = Inr f' \<longrightarrow> accurate (view w) (copies f'))"
proof (induction ss arbitrary: f w)
  case (Cons s ss)
  obtain l w1 where l: "ListState st s w = (l, w1)" by force
  with ListState_law Cons.prems(2) have v: "view w1 = view w" by simp
  show ?case
  proof (cases l)
    case (Inl e)
    with l v Cons.prems show ?thesis by auto
  next
    case (Inr "is")
    obtain f2 w2 where f2: "survey_ids ob s is f w1 = (f2, w2)" by (metis surj_pair)
    from survey_ids_law [OF f2] v Cons.prems
    have "view w2 = view w" "accurate (view w) (copies f2)" by simp_all
    with Cons.IH [of f2 w2] Cons.prems l Inr f2 v show ?thesis by simp
  qed
next
  case (Nil f w)
  then have "r = Inr f" "w' = w" by simp_all
  with Nil(3) show ?case by simp
qed

lemma survey_law:
  assumes "survey_outbox ob w = (r, w')"
  shows "view w' = view w" "r = Inr f \<Longrightarrow> accurate (view w) (copies f)"
  using survey_states_law [OF assms [unfolded survey_outbox_def]]
  by (simp_all add: accurate_def)

lemma drop_copies_law:
  "drop_copies ob i keep ss cs w = ((es, cs'), w') \<Longrightarrow> set ss \<subseteq> set OutboxStates \<Longrightarrow>
   sound (view w) \<Longrightarrow> on_disk (view w) (keep, i) = Some (Rec n) \<Longrightarrow>
   sound (view w') \<and> keeps_letters (view w) (view w') \<and> debt (view w') k \<le> debt (view w) k \<and>
   (\<forall>s j. j \<noteq> i \<longrightarrow> on_disk (view w') (s, j) = on_disk (view w) (s, j))"
proof (induction ss arbitrary: cs w es)
  case (Cons s ss)
  show ?case
  proof (cases "s = keep")
    case False
    obtain r w1 where r: "Remove st s i w = (r, w1)" by force
    with False Cons.prems(1) obtain es1 cs1
      where rest: "drop_copies ob i keep ss cs1 w1 = ((es1, cs'), w')"
      by (auto split: prod.splits sum.splits)
    from Remove_law [OF r] Cons.prems(2)
    have "view w1 = view w \<or> view w1 = after_remove s i (view w)" by auto
    then have 1: "sound (view w1)" "keeps_letters (view w) (view w1)"
        "debt (view w1) k \<le> debt (view w) k" "on_disk (view w1) (keep, i) = Some (Rec n)"
        "\<forall>t j. j \<noteq> i \<longrightarrow> on_disk (view w1) (t, j) = on_disk (view w) (t, j)"
      using Cons.prems(3, 4) False sound_after_remove
        remove_copy [OF Cons.prems(3, 4), of s]
      by (auto simp: after_remove_disk debt_after_remove)
    have "set ss \<subseteq> set OutboxStates" using Cons.prems(2) by simp
    from Cons.IH [OF rest this 1(1, 4)] 1 show ?thesis
      by (metis (no_types, lifting) keeps_trans order_trans)
  qed (use Cons in simp)
qed simp

lemma dedup_loop_law:
  assumes "orders ord"
  shows "dedup_loop ord ob dmg cps w = ((es, cps'), w') \<Longrightarrow> sound (view w) \<Longrightarrow>
    accurate (view w) cps \<Longrightarrow>
    sound (view w') \<and> keeps_letters (view w) (view w') \<and> debt (view w') k \<le> debt (view w) k"
proof (induction cps arbitrary: w es cps')
  case (Cons c rest)
  obtain i cs where c: "c = (i, cs)" by (cases c)
  from Cons.prems(3) c have acc: "accurate_copies (view w) i cs" "accurate (view w) rest"
    "i \<notin> fst ` set rest"
    by (auto simp: accurate_def)
  show ?case
  proof (cases "i \<in> dmg \<or> length cs < 2")
    case True
    with Cons.prems(1) c obtain es1 r1 where "dedup_loop ord ob dmg rest w = ((es1, r1), w')"
      by (auto split: prod.splits)
    from Cons.IH [OF this Cons.prems(2) acc(2)] show ?thesis .
  next
    case False
    let ?keep = "survivor (state_order ord cs)"
    have so: "mset (state_order ord cs) = mset cs" using assms by (simp add: orders_def)
    obtain es1 cs1 w1 where d:
      "drop_copies ob i ?keep (map fst (state_order ord cs)) cs w = ((es1, cs1), w1)"
      by (metis surj_pair)
    from False Cons.prems(1) c d obtain es2 r2
      where rest: "dedup_loop ord ob dmg rest w1 = ((es2, r2), w')"
      by (auto simp: Let_def split: prod.splits)
    from survivor_mem [OF Cons.prems(2) acc(1) so] acc(1)
    obtain n where n: "on_disk (view w) (?keep, i) = Some (Rec n)"
      unfolding accurate_copies_def by blast
    have "set (map fst (state_order ord cs)) \<subseteq> set OutboxStates"
      using mset_eq_setD [OF so] acc(1) by (auto simp: accurate_copies_def)
    from drop_copies_law [OF d this Cons.prems(2) n, of k]
    have 1: "sound (view w1)" "keeps_letters (view w) (view w1)"
        "debt (view w1) k \<le> debt (view w) k"
        "\<forall>t j. j \<noteq> i \<longrightarrow> on_disk (view w1) (t, j) = on_disk (view w) (t, j)"
      by blast+
    have "accurate (view w1) rest"
      unfolding accurate_def
    proof (intro conjI allI impI)
      show "distinct (map fst rest)" using acc(2) by (simp add: accurate_def)
      fix j cs' assume j: "(j, cs') \<in> set rest"
      then have "j \<noteq> i" using acc(3) by force
      moreover have "accurate_copies (view w) j cs'" using acc(2) j by (simp add: accurate_def)
      ultimately show "accurate_copies (view w1) j cs'"
        using 1(4) by (simp add: accurate_copies_def)
    qed
    from Cons.IH [OF rest 1(1) this] 1 show ?thesis
      by (metis (no_types, lifting) keeps_trans order_trans)
  qed
qed simp

lemma strand_loop_law:
  assumes sk: "statekit_documented sk"
  shows "strand_loop sk ob dmg cps w = (es, w') \<Longrightarrow> sound (view w) \<Longrightarrow>
    sound (view w') \<and> keeps_letters (view w) (view w') \<and> debt (view w') k \<le> debt (view w) k"
proof (induction cps arbitrary: w es)
  case (Cons c rest)
  obtain i cs where c: "c = (i, cs)" by (cases c)
  have s: "''sending'' \<in> set OutboxStates" by (simp add: OutboxStates_def)
  obtain r w1 where r: "read_copy ob ''sending'' i w = (r, w1)" by force
  note v = read_copy_law(1) [OF r s]
  show ?case
  proof (cases "i \<in> dmg \<or> map_of cs ''sending'' = None")
    case skip: False
    show ?thesis
    proof (cases r)
      case (Inr m)
      show ?thesis
      proof (cases "om_State m = ''sending''")
        case True
        obtain x w2 where ap:
          "apply_event sk ob (m\<lparr>om_Error := ''delivery interrupted by restart''\<rparr>) ''FAIL'' w1 = (x, w2)"
          by force
        have m: "on_disk (view w) (''sending'', i) = Some (Rec m)"
          using read_copy_law(2) [OF r s Inr] .
        from soundD [OF Cons.prems(2) m] m v Cons.prems(2) apply_sound [OF sk ap, of m]
        have 2: "sound (view w2)" "keeps_letters (view w) (view w2)" by (simp_all add: letter_def)
        have d: "debt (view w2) k \<le> debt (view w) k" using apply_debt [OF sk ap, of k] v by simp
        from skip c r Inr True ap Cons.prems(1)
        obtain es1 where "strand_loop sk ob dmg rest w2 = (es1, w')"
          by (auto split: prod.splits sum.splits)
        from Cons.IH [OF this 2(1)] 2 d show ?thesis
          by (metis (no_types, lifting) keeps_trans order_trans)
      next
        case False
        with skip c r Inr Cons.prems(1) obtain es1 where "strand_loop sk ob dmg rest w1 = (es1, w')"
          by (auto split: prod.splits)
        with Cons.IH [OF this] Cons.prems(2) v show ?thesis by simp
      qed
    next
      case (Inl e)
      with skip c r Cons.prems(1) obtain es1 where "strand_loop sk ob dmg rest w1 = (es1, w')"
        by (auto split: prod.splits)
      with Cons.IH [OF this] Cons.prems(2) v show ?thesis by simp
    qed
  qed (use c Cons in simp)
qed simp

lemma Recover_law:
  assumes sk: "statekit_documented sk" and ord: "orders ord"
    and r: "Recover ord sk ob w = (x, w')" and L: "sound (view w)"
  shows "sound (view w') \<and> keeps_letters (view w) (view w') \<and> debt (view w') k \<le> debt (view w) k"
proof -
  obtain h w1 where h: "tryHold ob w = (h, w1)" by force
  then have v1: "view w1 = view w" by (rule tryHold_view)
  show ?thesis
  proof (cases "h = Inr True")
    case True
    obtain f w2 where f: "survey_outbox ob w1 = (f, w2)" by force
    note v2 = survey_law(1) [OF this]
    show ?thesis
    proof (cases f)
      case (Inl e)
      with h True f r v1 v2 L have "view w' = view w" by (auto simp: Recover_def)
      with L show ?thesis by simp
    next
      case (Inr found)
      with survey_law(2) [OF f] v1 have acc: "accurate (view w) (copies found)" by simp
      obtain es cps' w3 where
        d: "dedup_loop ord ob (damaged found) (dedup_order ord (copies found)) w2 = ((es, cps'), w3)"
        by (metis surj_pair)
      obtain es' w4 where
        q: "strand_loop sk ob (damaged found) (strand_order ord cps') w3 = (es', w4)"
        by (metis surj_pair)
      have "accurate (view w2) (dedup_order ord (copies found))"
        using acc v1 v2 ord accurate_perm by (metis orders_def)
      from dedup_loop_law [OF ord d _ this, of k] v1 v2 L
      have 3: "sound (view w3) \<and> keeps_letters (view w) (view w3) \<and> debt (view w3) k \<le> debt (view w) k"
        by simp
      from h True f Inr d q r have "w' = release ob w4"
        by (auto simp: Recover_def deduplicate_def failStranded_def)
      with strand_loop_law [OF sk q, of k] 3 show ?thesis
        by simp (meson keeps_trans order_trans)
    qed
  next
    case False
    with h r v1 have "view w' = view w"
      by (auto simp: Recover_def split: sum.splits bool.splits)
    with L show ?thesis by simp
  qed
qed

end

end
