(* ===== verification/Outbox_Recovery.thy ===== *)
theory Outbox_Recovery
  imports Outbox_Laws
begin

section \<open>What recovery leaves behind on a store that works\<close>

text \<open>
  The locale \<open>reliable_ports\<close> extends the laws of the outbox by what holds while the
  disk works and the lock is free.  Under it recovery is described exactly, id by id: the
  \<open>column\<close> of an id is its record under each state.
\<close>

definition column :: "ledger \<Rightarrow> string \<Rightarrow> string \<Rightarrow> record_file option" where
  "column L i s = on_disk L (s, i)"

definition damaged_id :: "ledger \<Rightarrow> string \<Rightarrow> bool" where
  "damaged_id L i \<longleftrightarrow> (\<exists>s. on_disk L (s, i) = Some Damaged)"

definition copies_at :: "ledger \<Rightarrow> string \<Rightarrow> copies_of" where
  "copies_at L i =
     concat (map (\<lambda>s. case on_disk L (s, i) of Some (Rec m) \<Rightarrow> [(s, m)] | _ \<Rightarrow> []) OutboxStates)"

definition final_state :: "ledger \<Rightarrow> string \<Rightarrow> string" where
  "final_state L i =
     (let k = survivor (copies_at L i) in if k = ''sending'' then ''failed'' else k)"

definition keep_only :: "string \<Rightarrow> (string \<Rightarrow> 'a option) \<Rightarrow> string \<Rightarrow> 'a option" where
  "keep_only k c s = (if s = k then c s else None)"

definition failed_copy :: "outbound_message \<Rightarrow> outbound_message" where
  "failed_copy m = m\<lparr>om_Error := ''delivery interrupted by restart'', om_State := ''failed''\<rparr>"

definition strand_column ::
  "(string \<Rightarrow> record_file option) \<Rightarrow> string \<Rightarrow> record_file option" where
  "strand_column c =
     (case c ''sending'' of
        Some (Rec m) \<Rightarrow> c(''failed'' \<mapsto> Rec (failed_copy m), ''sending'' := None)
      | _ \<Rightarrow> c)"

text \<open>A survey entry that lists exactly the copies an undamaged id has.\<close>

definition mirrors :: "ledger \<Rightarrow> string \<Rightarrow> copies_of \<Rightarrow> bool" where
  "mirrors L i cs \<longleftrightarrow>
     distinct (map fst cs) \<and> (\<forall>s m. (s, m) \<in> set cs \<longleftrightarrow> on_disk L (s, i) = Some (Rec m))"

definition mirrored :: "ledger \<Rightarrow> string set \<Rightarrow> (string \<times> copies_of) list \<Rightarrow> bool" where
  "mirrored L dmg cps \<longleftrightarrow>
     distinct (map fst cps) \<and> (\<forall>i cs. (i, cs) \<in> set cps \<longrightarrow> i \<notin> dmg \<longrightarrow> mirrors L i cs)"

lemma column_after_remove:
  "column (after_remove s i L) j = (if j = i then (column L i)(s := None) else column L j)"
  by (rule ext) (simp add: column_def after_remove_disk)

lemma column_after_write:
  "column (after_write m L) j =
     (if j = om_ID m then (column L j)(om_State m \<mapsto> Rec m) else column L j)"
  by (rule ext) (simp add: column_def after_write_disk)

lemma mirrors_column: "column L' i = column L i \<Longrightarrow> mirrors L' i cs = mirrors L i cs"
  by (simp add: mirrors_def column_def fun_eq_iff)

lemma mirrors_copies:
  assumes "sound L" "mirrors L i cs"
  shows "set cs = set (copies_at L i)" "distinct (map fst (copies_at L i))"
proof -
  have "(s, m) \<in> set (copies_at L i) \<longleftrightarrow> s \<in> set OutboxStates \<and> on_disk L (s, i) = Some (Rec m)" for s m
    by (auto simp: copies_at_def split: option.splits record_file.splits)
  then show "set cs = set (copies_at L i)"
    using assms soundD(1) [OF assms(1)] by (auto simp: mirrors_def)
  show "distinct (map fst (copies_at L i))"
    by (simp add: copies_at_def OutboxStates_def split: option.splits record_file.splits)
qed

lemma survivor_perm:
  assumes "set cs = set cs'" "distinct (map fst cs)" "distinct (map fst cs')" "cs \<noteq> []"
    and "\<forall>(s, m) \<in> set cs. 0 \<le> om_Attempts m \<and> s \<in> set OutboxStates"
  shows "survivor cs = survivor cs'"
proof -
  have ne: "cs' \<noteq> []" using assms(1, 4) by auto
  have att: "\<forall>(s, m) \<in> set cs. 0 \<le> om_Attempts m" using assms(5) by blast
  then have att': "\<forall>(s, m) \<in> set cs'. 0 \<le> om_Attempts m" using assms(1) by simp
  note 1 = survivor_tops [OF assms(4) att assms(2)] and 2 = survivor_tops [OF ne att' assms(3)]
  have "set (top_loop (- 1) [] cs) = set (top_loop (- 1) [] cs')"
    unfolding 1(1) 2(1) assms(1) ..
  moreover have "set (top_loop (- 1) [] cs) \<subseteq> set OutboxStates"
    unfolding 1(1) using assms(5) by blast
  moreover note 1(2, 3) 2(3)
  ultimately show ?thesis
    unfolding survivor_def by (intro choose_top_set)
qed

lemma mirrors_survivor:
  assumes "sound L" "mirrors L i cs" "cs \<noteq> []" "mset cs' = mset cs"
  shows "survivor cs' = survivor (copies_at L i)"
    and "\<exists>m. on_disk L (survivor (copies_at L i), i) = Some (Rec m)"
proof -
  have ok: "\<forall>(s, m) \<in> set cs. 0 \<le> om_Attempts m \<and> s \<in> set OutboxStates"
    using assms(2) soundD [OF assms(1)] by (auto simp: mirrors_def)
  from assms(4) have set: "set cs' = set cs" by (rule mset_eq_setD)
  have ne: "cs' \<noteq> []" using assms(3) set by auto
  have "distinct (map fst cs')"
    using mset_fst_distinct [OF assms(4)] assms(2) by (simp add: mirrors_def)
  then show eq: "survivor cs' = survivor (copies_at L i)"
    using survivor_perm [of cs' "copies_at L i"] mirrors_copies [OF assms(1, 2)] set ne ok
    by simp
  have "accurate_copies L i cs"
    using assms(2, 3) ok by (auto simp: accurate_copies_def mirrors_def)
  from survivor_mem [OF assms(1) this assms(4)] assms(2)
  show "\<exists>m. on_disk L (survivor (copies_at L i), i) = Some (Rec m)"
    by (auto simp: mirrors_def eq)
qed

text \<open>How far a survey has got: it has read the records \<open>D\<close>.\<close>

definition surveyed :: "ledger \<Rightarrow> (string \<times> string) set \<Rightarrow> survey \<Rightarrow> bool" where
  "surveyed L D f \<longleftrightarrow>
     accurate L (copies f) \<and>
     (\<forall>s i m. (s, i) \<in> D \<longrightarrow> on_disk L (s, i) = Some (Rec m) \<longrightarrow>
        (\<exists>cs. (i, cs) \<in> set (copies f) \<and> (s, m) \<in> set cs)) \<and>
     damaged f = {i. \<exists>s. (s, i) \<in> D \<and> on_disk L (s, i) = Some Damaged} \<and>
     (errs f = [] \<longleftrightarrow> damaged f = {})"

lemma add_copy_mem:
  assumes "accurate L (copies f)" "on_disk L (s, i) = Some (Rec m)"
  shows "\<exists>cs. (i, cs) \<in> set (copies (add_copy i s m f)) \<and> (s, m) \<in> set cs"
    and "(j, cs) \<in> set (copies f) \<Longrightarrow> (t, n) \<in> set cs \<Longrightarrow>
         \<exists>cs. (j, cs) \<in> set (copies (add_copy i s m f)) \<and> (t, n) \<in> set cs"
proof -
  let ?old = "case map_of (copies f) i of Some cs \<Rightarrow> cs | None \<Rightarrow> []"
  have dd: "distinct (map fst (copies f))" using assms(1) by (simp add: accurate_def)
  have d: "distinct (map fst ?old)"
    using assms(1)
    by (auto simp: accurate_def accurate_copies_def dest!: map_of_SomeD split: option.splits)
  have new: "(i, AList.update s m ?old) \<in> set (copies (add_copy i s m f))"
    using dd by (simp add: add_copy_def update_mem)
  then show "\<exists>cs. (i, cs) \<in> set (copies (add_copy i s m f)) \<and> (s, m) \<in> set cs"
    using d by (intro exI [of _ "AList.update s m ?old"]) (simp add: update_mem)
  assume j: "(j, cs) \<in> set (copies f)" and t: "(t, n) \<in> set cs"
  show "\<exists>cs. (j, cs) \<in> set (copies (add_copy i s m f)) \<and> (t, n) \<in> set cs"
  proof (cases "j = i")
    case True
    with j dd have "?old = cs" by simp
    moreover have "t = s \<Longrightarrow> n = m"
      using j t assms True by (auto simp: accurate_def accurate_copies_def)
    ultimately show ?thesis using new d t True
      by (intro exI [of _ "AList.update s m ?old"]) (simp add: update_mem)
  next
    case False
    with j dd have "(j, cs) \<in> set (copies (add_copy i s m f))"
      by (simp add: add_copy_def update_mem)
    with t show ?thesis by blast
  qed
qed

lemma surveyed_add:
  assumes "surveyed L D f" "on_disk L (s, i) = Some (Rec m)" "s \<in> set OutboxStates"
  shows "surveyed L (insert (s, i) D) (add_copy i s m f)"
proof -
  from assms(1) have acc: "accurate L (copies f)" by (simp add: surveyed_def)
  note mem = add_copy_mem [OF acc assms(2)]
  have "\<exists>cs. (j, cs) \<in> set (copies (add_copy i s m f)) \<and> (t, n) \<in> set cs"
    if "(t, j) \<in> insert (s, i) D" "on_disk L (t, j) = Some (Rec n)" for t j n
  proof (cases "(t, j) = (s, i)")
    case True
    with that(2) assms(2) mem(1) show ?thesis by simp
  next
    case False
    with that assms(1) obtain cs where "(j, cs) \<in> set (copies f)" "(t, n) \<in> set cs"
      unfolding surveyed_def by blast
    then show ?thesis by (rule mem(2))
  qed
  moreover have "{j. \<exists>t. (t, j) \<in> insert (s, i) D \<and> on_disk L (t, j) = Some Damaged} =
      {j. \<exists>t. (t, j) \<in> D \<and> on_disk L (t, j) = Some Damaged}"
    using assms(2) by auto
  ultimately show ?thesis
    using assms(1) accurate_add_copy [OF acc assms(2, 3)]
    by (simp add: surveyed_def add_copy_def)
qed

lemma surveyed_damage:
  assumes "surveyed L D f" "on_disk L (s, i) = Some Damaged"
  shows "surveyed L (insert (s, i) D) (f\<lparr>damaged := insert i (damaged f), errs := errs f @ [e]\<rparr>)"
  using assms by (auto simp: surveyed_def)

lemma surveyed_mirrored:
  assumes "sound L" "surveyed L {(s, i). on_disk L (s, i) \<noteq> None} f"
  shows "mirrored L (damaged f) (copies f)"
    and "damaged f = {i. damaged_id L i}"
    and "i \<notin> damaged f \<Longrightarrow> on_disk L (s, i) \<noteq> None \<Longrightarrow> i \<in> fst ` set (copies f)"
    and "(i, cs) \<in> set (copies f) \<Longrightarrow> cs \<noteq> []"
proof -
  show dmg: "damaged f = {i. damaged_id L i}"
    using assms(2) by (auto simp: surveyed_def damaged_id_def)
  have acc: "accurate L (copies f)" using assms(2) by (simp add: surveyed_def)
  have all: "\<exists>cs. (i, cs) \<in> set (copies f) \<and> (s, m) \<in> set cs"
    if "on_disk L (s, i) = Some (Rec m)" for s i m
    using assms(2) that unfolding surveyed_def by blast
  show "(i, cs) \<in> set (copies f) \<Longrightarrow> cs \<noteq> []"
    using acc by (auto simp: accurate_def accurate_copies_def)
  show "i \<in> fst ` set (copies f)" if "i \<notin> damaged f" "on_disk L (s, i) \<noteq> None"
  proof -
    from that dmg obtain m where "on_disk L (s, i) = Some (Rec m)"
      by (auto simp: damaged_id_def) (metis record_file.exhaust)
    from all [OF this] show ?thesis by force
  qed
  have "mirrors L j cs" if j: "(j, cs) \<in> set (copies f)" for j cs
    unfolding mirrors_def
  proof (intro conjI allI iffI)
    show "distinct (map fst cs)" using acc j by (auto simp: accurate_def accurate_copies_def)
    fix t n
    show "on_disk L (t, j) = Some (Rec n)" if "(t, n) \<in> set cs"
      using acc j that unfolding accurate_def accurate_copies_def by blast
    assume "on_disk L (t, j) = Some (Rec n)"
    from all [OF this] obtain cs' where "(j, cs') \<in> set (copies f)" "(t, n) \<in> set cs'" by blast
    moreover have "distinct (map fst (copies f))" using acc by (simp add: accurate_def)
    ultimately show "(t, n) \<in> set cs" using j by (metis eq_key_imp_eq_value)
  qed
  with acc show "mirrored L (damaged f) (copies f)"
    by (simp add: mirrored_def accurate_def)
qed

locale reliable_ports = outbox_ports st sd view
  for st :: "'w store" and sd :: "'w sender" and view :: "'w \<Rightarrow> ledger" +
  fixes healthy_w :: "'w \<Rightarrow> bool"
    and valid :: "string \<Rightarrow> bool"
  assumes Write_reliable:
      "healthy_w w \<Longrightarrow> om_State m \<in> set OutboxStates \<Longrightarrow> Write st m w = (r, w') \<Longrightarrow>
       r = Inr () \<and> healthy_w w'"
    and Remove_reliable:
      "healthy_w w \<Longrightarrow> s \<in> set OutboxStates \<Longrightarrow> on_disk (view w) (s, i) = Some (Rec m) \<Longrightarrow>
       Remove st s i w = (r, w') \<Longrightarrow> r = Inr () \<and> healthy_w w'"
    and FindIn_reliable:
      "healthy_w w \<Longrightarrow> FindIn st = Some f \<Longrightarrow> f s i w = (x, w') \<Longrightarrow> s \<in> set OutboxStates \<Longrightarrow>
       valid i \<Longrightarrow>
       healthy_w w' \<and> (\<forall>m. on_disk (view w) (s, i) = Some (Rec m) \<longrightarrow> x = Inr m)"
    and ListState_reliable:
      "healthy_w w \<Longrightarrow> s \<in> set OutboxStates \<Longrightarrow> ListState st s w = (y, w') \<Longrightarrow>
       healthy_w w' \<and> (\<exists>is. y = Inr is \<and> set is = {i. on_disk (view w) (s, i) \<noteq> None})"
    and TryLock_reliable:
      "healthy_w w \<Longrightarrow> Locker st = Some l \<Longrightarrow> TryLock l w = (z, w') \<Longrightarrow>
       z = Inr True \<and> healthy_w w'"
    and disk_states: "on_disk (view w) (s, i) \<noteq> None \<Longrightarrow> s \<in> set OutboxStates"
begin

lemma read_reliable:
  assumes "healthy_w w" "read_copy ob s i w = (r, w')" "s \<in> set OutboxStates" "valid i"
  shows "healthy_w w'" "view w' = view w"
    and "on_disk (view w) (s, i) = Some (Rec m) \<Longrightarrow> r = Inr m"
    and "on_disk (view w) (s, i) = Some Damaged \<Longrightarrow> \<exists>e. r = Inl e"
proof -
  obtain f where f: "FindIn st = Some f" using FindIn_offered by auto
  with assms(2) have f': "f s i w = (r, w')" by (simp add: read_copy_def)
  from FindIn_reliable [OF assms(1) f f' assms(3, 4)] show "healthy_w w'"
    "on_disk (view w) (s, i) = Some (Rec m) \<Longrightarrow> r = Inr m" by blast+
  from FindIn_law [OF f f' assms(3)] show "view w' = view w"
    "on_disk (view w) (s, i) = Some Damaged \<Longrightarrow> \<exists>e. r = Inl e"
    by (simp_all, cases r) auto
qed

lemma apply_FAIL_reliable:
  assumes sk: "statekit_documented sk" and h: "healthy_w w"
    and m: "om_State m = ''sending''" "om_ID m = i" "on_disk (view w) (''sending'', i) = Some (Rec m0)"
    and ap: "apply_event sk ob m ''FAIL'' w = (r, w')"
  shows "r = Inr ()" "healthy_w w'"
    "view w' = after_remove ''sending'' i (after_write (m\<lparr>om_State := ''failed''\<rparr>) (view w))"
proof -
  have t: "Transition sk (om_State m) ''FAIL'' = Inr ''failed''"
    using Transition_Inr_iff [OF sk] m(1) by simp
  let ?m = "m\<lparr>om_State := ''failed''\<rparr>"
  obtain r1 w1 where w1: "Write st ?m w = (r1, w1)" by force
  have st: "om_State ?m \<in> set OutboxStates" "''sending'' \<in> set OutboxStates"
    by (simp_all add: OutboxStates_def)
  from Write_reliable [OF h st(1) w1] Write_law [OF w1 st(1)]
  have 1: "r1 = Inr ()" "healthy_w w1" "view w1 = after_write ?m (view w)" by auto
  from t w1 1 m ap have rm: "Remove st ''sending'' i w1 = (r, w')"
    by (simp add: apply_event_def)
  have "on_disk (view w1) (''sending'', i) = Some (Rec m0)"
    using 1(3) m(3) by (simp add: after_write_disk)
  from Remove_reliable [OF 1(2) st(2) this rm] Remove_law [OF rm st(2)] 1(3)
  show "r = Inr ()" "healthy_w w'"
    "view w' = after_remove ''sending'' i (after_write (m\<lparr>om_State := ''failed''\<rparr>) (view w))"
    by auto
qed

subsection \<open>The survey reads everything\<close>

lemma survey_ids_exact:
  "survey_ids ob s is f w = (f', w') \<Longrightarrow> healthy_w w \<Longrightarrow> s \<in> set OutboxStates \<Longrightarrow>
   (\<forall>i \<in> set is. on_disk (view w) (s, i) \<noteq> None \<and> valid i) \<Longrightarrow> surveyed (view w) D f \<Longrightarrow>
   healthy_w w' \<and> view w' = view w \<and> surveyed (view w) ({s} \<times> set is \<union> D) f'"
proof (induction "is" arbitrary: f w D)
  case (Cons i "is")
  obtain r w1 where r: "read_copy ob s i w = (r, w1)" by force
  from Cons.prems(4) have i: "on_disk (view w) (s, i) \<noteq> None" "valid i"
    and rest: "\<forall>j \<in> set is. on_disk (view w) (s, j) \<noteq> None \<and> valid j" by simp_all
  note rd = read_reliable [OF Cons.prems(2) r Cons.prems(3) i(2)]
  have D: "{s} \<times> set is \<union> insert (s, i) D = {s} \<times> set (i # is) \<union> D" by auto
  from i(1) consider (ok) m where "on_disk (view w) (s, i) = Some (Rec m)"
    | (bad) "on_disk (view w) (s, i) = Some Damaged"
    by (metis not_None_eq record_file.exhaust)
  then show ?case
  proof cases
    case ok
    with rd(3) r Cons.prems(1) have go: "survey_ids ob s is (add_copy i s m f) w1 = (f', w')"
      by simp
    have "surveyed (view w1) (insert (s, i) D) (add_copy i s m f)"
      using surveyed_add [OF Cons.prems(5) ok Cons.prems(3)] rd(2) by simp
    from Cons.IH [OF go rd(1) Cons.prems(3) _ this] rest rd(2) D show ?thesis by simp
  next
    case bad
    with rd(4) obtain e where "r = Inl e" by blast
    with r Cons.prems(1)
    have go: "survey_ids ob s is (f\<lparr>damaged := insert i (damaged f), errs := errs f @ [e]\<rparr>) w1 =
        (f', w')"
      by simp
    have "surveyed (view w1) (insert (s, i) D)
        (f\<lparr>damaged := insert i (damaged f), errs := errs f @ [e]\<rparr>)"
      using surveyed_damage [OF Cons.prems(5) bad] rd(2) by simp
    from Cons.IH [OF go rd(1) Cons.prems(3) _ this] rest rd(2) D show ?thesis by simp
  qed
qed simp

lemma survey_states_exact:
  "survey_states ob ss f w = (r, w') \<Longrightarrow> healthy_w w \<Longrightarrow> set ss \<subseteq> set OutboxStates \<Longrightarrow>
   (\<forall>s i. on_disk (view w) (s, i) \<noteq> None \<longrightarrow> valid i) \<Longrightarrow> surveyed (view w) D f \<Longrightarrow>
   healthy_w w' \<and> view w' = view w \<and>
   (\<exists>f'. r = Inr f' \<and>
      surveyed (view w) ({(s, i). s \<in> set ss \<and> on_disk (view w) (s, i) \<noteq> None} \<union> D) f')"
proof (induction ss arbitrary: f w D)
  case (Cons s ss)
  obtain l w1 where l: "ListState st s w = (l, w1)" by force
  from Cons.prems(3) have s: "s \<in> set OutboxStates" "set ss \<subseteq> set OutboxStates" by simp_all
  from ListState_reliable [OF Cons.prems(2) s(1) l] ListState_law [OF l s(1)]
  obtain "is" where 1: "healthy_w w1" "view w1 = view w" "l = Inr is"
    "set is = {i. on_disk (view w) (s, i) \<noteq> None}" by blast
  obtain f2 w2 where f2: "survey_ids ob s is f w1 = (f2, w2)" by (metis surj_pair)
  from survey_ids_exact [OF f2 1(1) s(1)] 1 Cons.prems(4, 5)
  have 2: "healthy_w w2" "view w2 = view w" "surveyed (view w) ({s} \<times> set is \<union> D) f2" by auto
  have go: "survey_states ob ss f2 w2 = (r, w')" using Cons.prems(1) l 1(3) f2 by simp
  have D: "{(t, i). t \<in> set ss \<and> on_disk (view w) (t, i) \<noteq> None} \<union> ({s} \<times> set is \<union> D) =
      {(t, i). t \<in> set (s # ss) \<and> on_disk (view w) (t, i) \<noteq> None} \<union> D"
    using 1(4) by auto
  from Cons.IH [OF go 2(1) s(2), of "{s} \<times> set is \<union> D"] 2(2, 3) Cons.prems(4) D
  show ?case by simp
next
  case (Nil f w)
  then show ?case by auto
qed

lemma survey_exact:
  assumes "survey_outbox ob w = (r, w')" "healthy_w w"
    and "\<forall>s i. on_disk (view w) (s, i) \<noteq> None \<longrightarrow> valid i"
  shows "healthy_w w' \<and> view w' = view w \<and>
    (\<exists>f. r = Inr f \<and> surveyed (view w) {(s, i). on_disk (view w) (s, i) \<noteq> None} f)"
proof -
  have "surveyed (view w) {} \<lparr>copies = [], damaged = {}, errs = []\<rparr>"
    by (simp add: surveyed_def accurate_def)
  from survey_states_exact [OF assms(1) [unfolded survey_outbox_def] assms(2) _ assms(3) this]
  have "healthy_w w' \<and> view w' = view w \<and>
    (\<exists>f. r = Inr f \<and>
       surveyed (view w) {(s, i). s \<in> set OutboxStates \<and> on_disk (view w) (s, i) \<noteq> None} f)"
    by simp
  moreover have "{(s, i). s \<in> set OutboxStates \<and> on_disk (view w) (s, i) \<noteq> None} =
      {(s, i). on_disk (view w) (s, i) \<noteq> None}"
    using disk_states by blast
  ultimately show ?thesis by simp
qed

subsection \<open>Deduplication keeps the survivor\<close>

lemma drop_copies_exact:
  "drop_copies ob i keep ss cs w = ((es, cs'), w') \<Longrightarrow> healthy_w w \<Longrightarrow> distinct ss \<Longrightarrow>
   set ss \<subseteq> set OutboxStates \<Longrightarrow>
   (\<forall>s \<in> set ss. \<exists>m. on_disk (view w) (s, i) = Some (Rec m)) \<Longrightarrow>
   es = [] \<and> healthy_w w' \<and> set cs' = {c \<in> set cs. fst c \<in> set ss \<longrightarrow> fst c = keep} \<and>
   (distinct (map fst cs) \<longrightarrow> distinct (map fst cs')) \<and>
   (\<forall>j s. column (view w') j s =
      (if j = i \<and> s \<in> set ss \<and> s \<noteq> keep then None else column (view w) j s))"
proof (induction ss arbitrary: cs w es)
  case (Cons s ss)
  show ?case
  proof (cases "s = keep")
    case True
    with Cons.prems(1) have "drop_copies ob i keep ss cs w = ((es, cs'), w')" by simp
    from Cons.IH [OF this Cons.prems(2)] Cons.prems(3-5) True show ?thesis by auto
  next
    case False
    obtain r w1 where r: "Remove st s i w = (r, w1)" by force
    from Cons.prems(4, 5) have s: "s \<in> set OutboxStates"
      and m: "\<exists>m. on_disk (view w) (s, i) = Some (Rec m)" by simp_all
    from m Remove_reliable [OF Cons.prems(2) s _ r] Remove_law [OF r s]
    have 1: "r = Inr ()" "healthy_w w1" "view w1 = after_remove s i (view w)" by auto
    with False r Cons.prems(1)
    have go: "drop_copies ob i keep ss (AList.delete s cs) w1 = ((es, cs'), w')" by simp
    have "\<forall>t \<in> set ss. \<exists>m. on_disk (view w1) (t, i) = Some (Rec m)"
      using 1(3) Cons.prems(3, 5) by (auto simp: after_remove_disk)
    from Cons.IH [OF go 1(2) _ _ this] Cons.prems(3, 4) False 1(3)
    show ?thesis
      by (auto simp: column_after_remove AList.delete_eq distinct_map_filter split: if_splits)
  qed
next
  case (Nil cs w es)
  then show ?case by auto
qed

lemma keep_single:
  assumes "mirrors L i cs" "\<not> damaged_id L i" "length cs < 2" "cs \<noteq> []" "sound L"
  shows "keep_only (survivor (copies_at L i)) (column L i) = column L i"
proof
  fix s
  obtain t m where cs: "cs = [(t, m)]"
    using assms(3, 4) by (cases cs) (auto simp: Suc_lessI)
  have "survivor (copies_at L i) = t"
    using mirrors_survivor(2) [OF assms(5, 1, 4) refl] assms(1) cs by (auto simp: mirrors_def)
  moreover have "s = t" if "column L i s \<noteq> None"
  proof -
    from that assms(2) obtain n where "on_disk L (s, i) = Some (Rec n)"
      by (auto simp: column_def damaged_id_def) (metis record_file.exhaust)
    with assms(1) cs show ?thesis by (auto simp: mirrors_def)
  qed
  ultimately show "keep_only (survivor (copies_at L i)) (column L i) s = column L i s"
    unfolding keep_only_def by metis
qed

lemma copies_at_column: "column L i = column L' i \<Longrightarrow> copies_at L i = copies_at L' i"
  by (simp add: copies_at_def column_def fun_eq_iff)

lemma damaged_id_column: "column L i = column L' i \<Longrightarrow> damaged_id L i = damaged_id L' i"
  by (simp add: damaged_id_def column_def fun_eq_iff)

lemma dedup_entry:
  assumes "orders ord" "sound (view w)" "mirrors (view w) i cs" "cs \<noteq> []" "healthy_w w"
    and "\<not> damaged_id (view w) i"
    and "drop_copies ob i (survivor (state_order ord cs)) (map fst (state_order ord cs)) cs w =
           ((es, cs'), w')"
  shows "es = []" "healthy_w w'" "sound (view w')" "mirrors (view w') i cs'"
    and "column (view w') j =
      (if j = i then keep_only (survivor (copies_at (view w) i)) (column (view w) i)
       else column (view w) j)"
proof -
  let ?k = "survivor (state_order ord cs)"
  have so: "mset (state_order ord cs) = mset cs" using assms(1) by (simp add: orders_def)
  note set = mset_eq_setD [OF so]
  note k = mirrors_survivor [OF assms(2-4) so]
  have dist: "distinct (map fst (state_order ord cs))" "distinct (map fst cs)"
    using mset_fst_distinct [OF so] assms(3) by (simp_all add: mirrors_def)
  have disk: "on_disk (view w) (s, i) = Some (Rec m) \<longleftrightarrow> (s, m) \<in> set cs" for s m
    using assms(3) by (simp add: mirrors_def)
  have sub: "set (map fst (state_order ord cs)) \<subseteq> set OutboxStates"
    using set disk soundD(1) [OF assms(2)] by fastforce
  have "\<forall>s \<in> set (map fst (state_order ord cs)). \<exists>m. on_disk (view w) (s, i) = Some (Rec m)"
    using set disk by fastforce
  from drop_copies_exact [OF assms(7, 5) dist(1) sub this] dist(2) set
  have ex: "es = []" "healthy_w w'" "distinct (map fst cs')"
    "set cs' = {c \<in> set cs. fst c = ?k}"
    "\<And>j s. column (view w') j s =
      (if j = i \<and> s \<in> fst ` set cs \<and> s \<noteq> ?k then None else column (view w) j s)"
    by auto
  then show "es = []" "healthy_w w'" by simp_all
  from k obtain n where "on_disk (view w) (?k, i) = Some (Rec n)" by auto
  from drop_copies_law [OF assms(7) sub assms(2) this] show "sound (view w')" by simp
  have some: "s \<in> fst ` set cs" if "column (view w) i s \<noteq> None" for s
    using that assms(6) disk by (auto simp: column_def damaged_id_def)
      (metis fst_conv image_eqI record_file.exhaust)
  show col: "column (view w') j =
      (if j = i then keep_only (survivor (copies_at (view w) i)) (column (view w) i)
       else column (view w) j)" for j
  proof
    fix s
    show "column (view w') j s =
      (if j = i then keep_only (survivor (copies_at (view w) i)) (column (view w) i)
       else column (view w) j) s"
      using some [of s] unfolding ex(5) keep_only_def k(1)
      by (cases "column (view w) i s") auto
  qed
  have "on_disk (view w') (s, i) = (if s = ?k then on_disk (view w) (s, i) else None)" for s
    using fun_cong [OF col [of i], of s] by (simp add: column_def keep_only_def k(1))
  with ex(3, 4) disk show "mirrors (view w') i cs'"
    by (auto simp: mirrors_def)
qed

lemma mirrored_other:
  assumes "mirrored L dmg rest" "i \<notin> fst ` set rest" "\<forall>j. j \<noteq> i \<longrightarrow> column L' j = column L j"
  shows "mirrored L' dmg rest"
  unfolding mirrored_def
proof (intro conjI allI impI)
  show "distinct (map fst rest)" using assms(1) by (simp add: mirrored_def)
  fix j cs assume j: "(j, cs) \<in> set rest" "j \<notin> dmg"
  then have "j \<noteq> i" using assms(2) by force
  with assms(3) have "mirrors L' j cs = mirrors L j cs" by (intro mirrors_column) simp
  with j assms(1) show "mirrors L' j cs" by (simp add: mirrored_def)
qed

lemma dedup_loop_exact:
  assumes "orders ord"
  shows "dedup_loop ord ob dmg cps w = ((es, cps'), w') \<Longrightarrow> healthy_w w \<Longrightarrow> sound (view w) \<Longrightarrow>
    mirrored (view w) dmg cps \<Longrightarrow> (\<forall>(i, cs) \<in> set cps. cs \<noteq> []) \<Longrightarrow>
    (\<forall>j. j \<notin> dmg \<longrightarrow> \<not> damaged_id (view w) j) \<Longrightarrow>
    es = [] \<and> healthy_w w' \<and> sound (view w') \<and> map fst cps' = map fst cps \<and>
    mirrored (view w') dmg cps' \<and>
    (\<forall>j. column (view w') j =
       (if j \<notin> dmg \<and> j \<in> fst ` set cps
        then keep_only (survivor (copies_at (view w) j)) (column (view w) j)
        else column (view w) j))"
proof (induction cps arbitrary: w es cps')
  case (Cons c rest)
  obtain i cs where c: "c = (i, cs)" by (cases c)
  from Cons.prems(4) c have rest: "mirrored (view w) dmg rest" "i \<notin> fst ` set rest"
    by (auto simp: mirrored_def)
  have ne: "cs \<noteq> []" "\<forall>(i, cs) \<in> set rest. cs \<noteq> []" using Cons.prems(5) c by simp_all
  show ?case
  proof (cases "i \<in> dmg \<or> length cs < 2")
    case True
    obtain es1 r1 where go: "dedup_loop ord ob dmg rest w = ((es1, r1), w')"
      using True Cons.prems(1) c by (auto split: prod.splits)
    with True Cons.prems(1) c have eq: "es = es1" "cps' = (i, cs) # r1" by auto
    note IH = Cons.IH [OF go Cons.prems(2, 3) rest(1) ne(2) Cons.prems(6)]
    have same: "column (view w') i = column (view w) i" using IH rest(2) by simp
    have "mirrors (view w') i cs" if "i \<notin> dmg"
      using that Cons.prems(4) c mirrors_column [OF same] by (simp add: mirrored_def)
    then have "mirrored (view w') dmg cps'"
      using IH rest(2) unfolding eq mirrored_def by (simp, metis list.set_map)
    moreover have "keep_only (survivor (copies_at (view w) i)) (column (view w) i) = column (view w) i"
      if "i \<notin> dmg"
      using keep_single [of "view w" i cs] that True Cons.prems(3, 4, 6) c ne(1)
      by (simp add: mirrored_def)
    ultimately show ?thesis using IH eq c rest(2) by auto
  next
    case False
    obtain es1 cs1 w1 where d: "drop_copies ob i (survivor (state_order ord cs))
        (map fst (state_order ord cs)) cs w = ((es1, cs1), w1)"
      by (metis surj_pair)
    obtain es2 r2 where go: "dedup_loop ord ob dmg rest w1 = ((es2, r2), w')"
      using False Cons.prems(1) c d by (auto simp: Let_def split: prod.splits)
    with False Cons.prems(1) c d have eq: "es = es1 @ es2" "cps' = (i, cs1) # r2"
      by (auto simp: Let_def)
    from False Cons.prems(4, 6) c have i: "mirrors (view w) i cs" "\<not> damaged_id (view w) i"
      by (auto simp: mirrored_def)
    note e = dedup_entry [OF assms Cons.prems(3) i(1) ne(1) Cons.prems(2) i(2) d]
    have others: "\<forall>j. j \<noteq> i \<longrightarrow> column (view w1) j = column (view w) j" using e(5) by simp
    note m1 = mirrored_other [OF rest this]
    have "\<not> damaged_id (view w1) i"
    proof
      assume "damaged_id (view w1) i"
      then obtain s where "column (view w1) i s = Some Damaged"
        by (auto simp: damaged_id_def column_def)
      then have "column (view w) i s = Some Damaged"
        unfolding e(5) keep_only_def by (simp split: if_splits)
      with i(2) show False by (auto simp: damaged_id_def column_def)
    qed
    then have "\<forall>j. j \<notin> dmg \<longrightarrow> \<not> damaged_id (view w1) j"
      using Cons.prems(6) others damaged_id_column by metis
    note IH = Cons.IH [OF go e(2, 3) m1 ne(2) this]
    have same: "column (view w') i = column (view w1) i" using IH rest(2) by simp
    have "mirrored (view w') dmg cps'"
      using IH rest(2) e(4) mirrors_column [OF same] unfolding eq mirrored_def
      by (simp, metis list.set_map)
    moreover have "column (view w') j = (if j \<notin> dmg \<and> j \<in> fst ` set (c # rest)
        then keep_only (survivor (copies_at (view w) j)) (column (view w) j)
        else column (view w) j)" for j
    proof (cases "j = i")
      case True
      with same e(5) False c show ?thesis by simp
    next
      case j: False
      with others have "column (view w1) j = column (view w) j" by simp
      with IH j c copies_at_column [OF this] show ?thesis by simp
    qed
    ultimately show ?thesis using IH eq e(1) c by simp
  qed
qed simp

subsection \<open>What is stranded in sending is failed\<close>

lemma strand_entry:
  assumes sk: "statekit_documented sk" and h: "healthy_w w" and L: "sound (view w)"
    and m: "on_disk (view w) (''sending'', i) = Some (Rec m)"
    and ap: "apply_event sk ob (m\<lparr>om_Error := ''delivery interrupted by restart''\<rparr>) ''FAIL'' w = (r, w')"
  shows "r = Inr ()" "healthy_w w'" "sound (view w')"
    "column (view w') j = (if j = i then strand_column (column (view w) i) else column (view w) j)"
proof -
  let ?m = "m\<lparr>om_Error := ''delivery interrupted by restart''\<rparr>"
  from soundD [OF L m] have id: "om_State ?m = ''sending''" "om_ID ?m = i" "0 \<le> om_Attempts ?m"
    by simp_all
  note a = apply_FAIL_reliable [OF sk h id(1, 2) m ap]
  then show "r = Inr ()" "healthy_w w'" by simp_all
  show "sound (view w')"
    using apply_sound(1) [OF sk ap L, of m] m id by (simp add: letter_def)
  have "column (view w) i ''sending'' = Some (Rec m)" using m by (simp add: column_def)
  then show "column (view w') j =
      (if j = i then strand_column (column (view w) i) else column (view w) j)"
    using id(2) unfolding a(3)
    by (simp add: column_after_remove column_after_write strand_column_def failed_copy_def)
qed

lemma strand_loop_exact:
  assumes sk: "statekit_documented sk"
  shows "strand_loop sk ob dmg cps w = (es, w') \<Longrightarrow> healthy_w w \<Longrightarrow> sound (view w) \<Longrightarrow>
    mirrored (view w) dmg cps \<Longrightarrow> (\<forall>i \<in> fst ` set cps. valid i) \<Longrightarrow>
    (\<forall>j. j \<notin> dmg \<longrightarrow> \<not> damaged_id (view w) j) \<Longrightarrow>
    es = [] \<and> healthy_w w' \<and>
    (\<forall>j. column (view w') j =
       (if j \<notin> dmg \<and> j \<in> fst ` set cps then strand_column (column (view w) j)
        else column (view w) j))"
proof (induction cps arbitrary: w es)
  case (Cons c rest)
  obtain i cs where c: "c = (i, cs)" by (cases c)
  from Cons.prems(4) c have rest: "mirrored (view w) dmg rest" "i \<notin> fst ` set rest"
    by (auto simp: mirrored_def)
  have val: "valid i" "\<forall>i \<in> fst ` set rest. valid i" using Cons.prems(5) c by simp_all
  have s: "''sending'' \<in> set OutboxStates" by (simp add: OutboxStates_def)
  show ?case
  proof (cases "i \<in> dmg \<or> map_of cs ''sending'' = None")
    case True
    then have "strand_loop sk ob dmg rest w = (es, w')" using Cons.prems(1) c by simp
    note IH = Cons.IH [OF this Cons.prems(2, 3) rest(1) val(2) Cons.prems(6)]
    have "strand_column (column (view w) i) = column (view w) i" if "i \<notin> dmg"
    proof -
      from that True Cons.prems(4) c have "mirrors (view w) i cs" "''sending'' \<notin> fst ` set cs"
        by (auto simp: mirrored_def map_of_eq_None_iff)
      then have "on_disk (view w) (''sending'', i) \<noteq> Some (Rec m)" for m
        unfolding mirrors_def by (metis fst_conv image_eqI)
      then show ?thesis
        by (auto simp: strand_column_def column_def split: option.splits record_file.splits)
    qed
    with IH c rest(2) show ?thesis by auto
  next
    case False
    then obtain m where "(''sending'', m) \<in> set cs" by (auto dest!: map_of_SomeD)
    with False Cons.prems(4) c have m: "on_disk (view w) (''sending'', i) = Some (Rec m)"
      by (auto simp: mirrored_def mirrors_def)
    obtain r w1 where r: "read_copy ob ''sending'' i w = (r, w1)" by force
    note rd = read_reliable [OF Cons.prems(2) r s val(1)]
    have m1: "on_disk (view w1) (''sending'', i) = Some (Rec m)" "sound (view w1)"
      using m rd(2) Cons.prems(3) by simp_all
    obtain x w2 where ap:
      "apply_event sk ob (m\<lparr>om_Error := ''delivery interrupted by restart''\<rparr>) ''FAIL'' w1 = (x, w2)"
      by force
    note e = strand_entry [OF sk rd(1) m1(2, 1) ap]
    have "om_State m = ''sending''" using soundD(2) [OF Cons.prems(3) m] .
    with False rd(3) [OF m] r ap e(1) Cons.prems(1) c
    have go: "strand_loop sk ob dmg rest w2 = (es, w')" by auto
    have others: "\<forall>j. j \<noteq> i \<longrightarrow> column (view w2) j = column (view w) j"
      using e(4) rd(2) by simp
    have "\<not> damaged_id (view w2) i"
    proof
      assume "damaged_id (view w2) i"
      then obtain t where "column (view w2) i t = Some Damaged"
        by (auto simp: damaged_id_def column_def)
      then have "column (view w) i t = Some Damaged"
        using m unfolding e(4) rd(2)
        by (simp add: strand_column_def column_def split: if_splits)
      with False Cons.prems(6) show False by (auto simp: damaged_id_def column_def)
    qed
    then have dmg: "\<forall>j. j \<notin> dmg \<longrightarrow> \<not> damaged_id (view w2) j"
      using Cons.prems(6) others damaged_id_column by metis
    from Cons.IH [OF go e(2, 3) mirrored_other [OF rest others] val(2) dmg] e(4) rd(2) others
      False c rest(2)
    show ?thesis by auto
  qed
qed simp

lemma keep_final:
  assumes "on_disk L (survivor (copies_at L i), i) = Some (Rec m)"
  shows "strand_column (keep_only (survivor (copies_at L i)) (column L i)) s \<noteq> None \<longleftrightarrow>
         s = final_state L i"
  using assms
  by (auto simp: strand_column_def keep_only_def column_def final_state_def Let_def
      split: option.splits record_file.splits)

lemma Recover_exact:
  assumes sk: "statekit_documented sk" and ord: "orders ord" and h: "healthy_w w"
    and L: "sound (view w)" and val: "\<forall>s i. on_disk (view w) (s, i) \<noteq> None \<longrightarrow> valid i"
    and r: "Recover ord sk ob w = (x, w')"
  shows "x = None \<longleftrightarrow> (\<forall>i. \<not> damaged_id (view w) i)"
    and "damaged_id (view w) i \<Longrightarrow> on_disk (view w') (s, i) = on_disk (view w) (s, i)"
    and "\<not> damaged_id (view w) i \<Longrightarrow> on_disk (view w) (t, i) \<noteq> None \<Longrightarrow>
         on_disk (view w') (s, i) \<noteq> None \<longleftrightarrow> s = final_state (view w) i"
    and "(\<And>t. on_disk (view w) (t, i) = None) \<Longrightarrow> on_disk (view w') (s, i) = None"
proof -
  obtain y w1 where y: "tryHold ob w = (y, w1)" by force
  from y have v1: "view w1 = view w" by (rule tryHold_view)
  have 1: "y = Inr True" "healthy_w w1"
    using y h TryLock_reliable [OF h] by (auto simp: tryHold_def split: option.splits)
  obtain f w2 where f: "survey_outbox ob w1 = (f, w2)" by force
  from survey_exact [OF f 1(2)] val v1 obtain found where
    2: "healthy_w w2" "view w2 = view w" "f = Inr found"
    and sv: "surveyed (view w) {(s, i). on_disk (view w) (s, i) \<noteq> None} found" by auto
  note mir = surveyed_mirrored [OF L sv]
  let ?dmg = "damaged found" and ?cps = "copies found"
  obtain es cps' w3 where d: "dedup_loop ord ob ?dmg (dedup_order ord ?cps) w2 = ((es, cps'), w3)"
    by (metis surj_pair)
  obtain es' w4 where q: "strand_loop sk ob ?dmg (strand_order ord cps') w3 = (es', w4)"
    by (metis surj_pair)
  have do: "mset (dedup_order ord ?cps) = mset ?cps" "mset (strand_order ord cps') = mset cps'"
    using ord by (simp_all add: orders_def)
  have mirrored_perm: "mirrored L dmg xs = mirrored L dmg ys" if "mset xs = mset ys" for L dmg xs ys
    unfolding mirrored_def using mset_fst_distinct [OF that] mset_eq_setD [OF that] by simp
  have dmg: "\<forall>j. j \<notin> ?dmg \<longrightarrow> \<not> damaged_id (view w2) j" using mir(2) 2(2) by simp
  have "mirrored (view w2) ?dmg (dedup_order ord ?cps)"
    using mir(1) 2(2) mirrored_perm [OF do(1)] by simp
  moreover have "\<forall>(i, cs) \<in> set (dedup_order ord ?cps). cs \<noteq> []"
    using mir(4) mset_eq_setD [OF do(1)] by auto
  ultimately have 3: "es = []" "healthy_w w3" "sound (view w3)" "mirrored (view w3) ?dmg cps'"
      "map fst cps' = map fst (dedup_order ord ?cps)"
    and col3: "\<And>j. column (view w3) j = (if j \<notin> ?dmg \<and> j \<in> fst ` set (dedup_order ord ?cps)
        then keep_only (survivor (copies_at (view w2) j)) (column (view w2) j)
        else column (view w2) j)"
    using dedup_loop_exact [OF ord d 2(1) _ _ _ dmg] L 2(2) by auto
  have keys: "fst ` set cps' = fst ` set ?cps"
    using 3(5) mset_eq_setD [OF do(1)] by (metis list.set_map)
  have keys_do: "fst ` set (dedup_order ord ?cps) = fst ` set ?cps"
    using mset_eq_setD [OF do(1)] by simp
  have keys_st: "fst ` set (strand_order ord cps') = fst ` set ?cps"
    using keys mset_eq_setD [OF do(2)] by simp
  have valid_keys: "\<forall>i \<in> fst ` set ?cps. valid i"
  proof
    fix i assume "i \<in> fst ` set ?cps"
    then obtain cs where cs: "(i, cs) \<in> set ?cps" by auto
    with sv have "accurate_copies (view w) i cs" by (auto simp: surveyed_def accurate_def)
    then obtain s m where "(s, m) \<in> set cs"
      by (cases cs) (auto simp: accurate_copies_def)
    with \<open>accurate_copies (view w) i cs\<close> have "on_disk (view w) (s, i) = Some (Rec m)"
      unfolding accurate_copies_def by blast
    with val show "valid i" by (metis option.distinct(1))
  qed
  have dmg3: "\<forall>j. j \<notin> ?dmg \<longrightarrow> \<not> damaged_id (view w3) j"
  proof (intro allI impI)
    fix j assume j: "j \<notin> ?dmg"
    show "\<not> damaged_id (view w3) j"
    proof
      assume "damaged_id (view w3) j"
      then obtain t where "column (view w3) j t = Some Damaged"
        by (auto simp: damaged_id_def column_def)
      then have "column (view w2) j t = Some Damaged"
        unfolding col3 keep_only_def by (simp split: if_splits)
      with dmg j show False by (auto simp: damaged_id_def column_def)
    qed
  qed
  have "mirrored (view w3) ?dmg (strand_order ord cps')"
    using 3(4) mirrored_perm [OF do(2)] by simp
  from strand_loop_exact [OF sk q 3(2, 3) this _ dmg3] keys_st valid_keys
  have 4: "es' = []" and col4: "\<And>j. column (view w4) j =
      (if j \<notin> ?dmg \<and> j \<in> fst ` set ?cps then strand_column (column (view w3) j)
       else column (view w3) j)" by auto
  from y 1 f 2(3) d q r have x: "x = join_errors (errs found)" and w': "view w' = view w4"
    using 3(1) 4 by (auto simp: Recover_def deduplicate_def failStranded_def)
  have col: "column (view w') j = (if j \<notin> ?dmg \<and> j \<in> fst ` set ?cps
      then strand_column (keep_only (survivor (copies_at (view w) j)) (column (view w) j))
      else column (view w) j)" for j
    using col3 col4 keys_do w' 2(2) by simp
  show "x = None \<longleftrightarrow> (\<forall>i. \<not> damaged_id (view w) i)"
    using x sv mir(2) by (auto simp: surveyed_def)
  show "on_disk (view w') (s, i) = on_disk (view w) (s, i)" if "damaged_id (view w) i"
    using fun_cong [OF col [of i], of s] that mir(2) by (simp add: column_def)
  show "on_disk (view w') (s, i) \<noteq> None \<longleftrightarrow> s = final_state (view w) i"
    if u: "\<not> damaged_id (view w) i" "on_disk (view w) (t, i) \<noteq> None"
  proof -
    from u mir(2, 3) have i: "i \<notin> ?dmg" "i \<in> fst ` set ?cps" by auto
    then obtain cs where cs: "(i, cs) \<in> set ?cps" by auto
    with mir(1, 4) i have "mirrors (view w) i cs" "cs \<noteq> []" by (auto simp: mirrored_def)
    from mirrors_survivor(2) [OF L this refl] obtain m where
      "on_disk (view w) (survivor (copies_at (view w) i), i) = Some (Rec m)" by blast
    from keep_final [OF this, of s] fun_cong [OF col [of i], of s] i
    show ?thesis by (simp add: column_def)
  qed
  show "on_disk (view w') (s, i) = None" if "\<And>t. on_disk (view w) (t, i) = None"
  proof -
    have "column (view w) i = (\<lambda>_. None)" using that by (simp add: column_def fun_eq_iff)
    with col [of i] have "column (view w') i s = None"
      by (simp add: strand_column_def keep_only_def split: if_splits)
    then show ?thesis by (simp add: column_def)
  qed
qed

end

end
