(* ===== verification/Filesystem.thy ===== *)
theory Filesystem
  imports Prelude "HOL-Library.AList"
begin

section \<open>The file system under the local backends\<close>

text \<open>
  Go's \<open>os\<close> calls, on a tree of directories and files.  A path is the list of its
  components, so a name with a separator in it can only arise where the code forgets to check
  one.  Each call takes one entry of the script \<open>faults\<close>: it works, it fails with an
  error and no effect, or the process dies before it; a dead process does nothing more.  A
  script that has run out works forever.  The content of a file is a parameter \<open>'c\<close> of
  the model: bytes for mail, a record as the JSON decoder reads it for the outbox.
\<close>

type_synonym path = "string list"

datatype 'c node = Dir | File 'c

datatype fault = Works | IOError | Crash

record 'c fs =
  tree :: "(path \<times> 'c node) list"
  faults :: "fault list"
  crashed :: bool

text \<open>
  \<open>filepath.Base\<close>, and \<open>filepath.Join\<close> of a clean absolute path with a name: the
  separators in the name split it, empty and \<open>.\<close> components vanish, \<open>..\<close> steps up.
\<close>

definition base :: "string \<Rightarrow> string" where
  "base s =
     (if s = [] then ''.''
      else let t = rev (dropWhile (\<lambda>c. c = CHR ''/'') (rev s)) in
           if t = [] then ''/'' else last (split_char (CHR ''/'') t))"

definition join_step :: "path \<Rightarrow> string \<Rightarrow> path" where
  "join_step p c = (if c = [] \<or> c = ''.'' then p else if c = ''..'' then butlast p else p @ [c])"

definition join_path :: "path \<Rightarrow> string \<Rightarrow> path" where
  "join_path p s = foldl join_step p (split_char (CHR ''/'') s)"

definition io_error :: error where "io_error = Failure ''input/output error''"
definition gone :: error where "gone = Failure ''process gone''"

definition syscall ::
  "(('c, 'x) fs_scheme \<Rightarrow> (error + 'a) \<times> ('c, 'x) fs_scheme) \<Rightarrow>
   ('c, 'x) fs_scheme \<Rightarrow> (error + 'a) \<times> ('c, 'x) fs_scheme" where
  "syscall body w =
     (if crashed w then (Inl gone, w)
      else case faults w of
             [] \<Rightarrow> body w
           | f # fs \<Rightarrow>
               (case f of
                  Works \<Rightarrow> body (w\<lparr>faults := fs\<rparr>)
                | IOError \<Rightarrow> (Inl io_error, w\<lparr>faults := fs\<rparr>)
                | Crash \<Rightarrow> (Inl gone, w\<lparr>faults := fs, crashed := True\<rparr>)))"

definition look :: "('c, 'x) fs_scheme \<Rightarrow> path \<Rightarrow> 'c node option" where
  "look w p = map_of (tree w) p"

definition put :: "path \<Rightarrow> 'c node \<Rightarrow> ('c, 'x) fs_scheme \<Rightarrow> ('c, 'x) fs_scheme" where
  "put p n w = w\<lparr>tree := AList.update p n (tree w)\<rparr>"

definition drop_path :: "path \<Rightarrow> ('c, 'x) fs_scheme \<Rightarrow> ('c, 'x) fs_scheme" where
  "drop_path p w = w\<lparr>tree := AList.delete p (tree w)\<rparr>"

definition child_names :: "('c, 'x) fs_scheme \<Rightarrow> path \<Rightarrow> string list" where
  "child_names w p =
     sort (remdups (map last (filter (\<lambda>q. q \<noteq> [] \<and> butlast q = p) (map fst (tree w)))))"

text \<open>Why a path is not there: one of its ancestors is a file, or nothing is.\<close>

definition ancestors :: "path \<Rightarrow> path list" where
  "ancestors p = map (\<lambda>n. take n p) [1..<length p]"

definition is_file :: "'c node option \<Rightarrow> bool" where
  "is_file n = (case n of Some (File c) \<Rightarrow> True | _ \<Rightarrow> False)"

definition absent :: "('c, 'x) fs_scheme \<Rightarrow> path \<Rightarrow> error" where
  "absent w p =
     (if list_ex (\<lambda>q. is_file (look w q)) (ancestors p) then Failure ''not a directory''
      else Wraps ErrNotExist [])"

subsection \<open>The calls\<close>

definition Stat :: "path \<Rightarrow> ('c, 'x) fs_scheme \<Rightarrow> (error + 'c node) \<times> ('c, 'x) fs_scheme" where
  "Stat p = syscall (\<lambda>w. (case look w p of None \<Rightarrow> Inl (absent w p) | Some n \<Rightarrow> Inr n, w))"

definition ReadFile :: "path \<Rightarrow> ('c, 'x) fs_scheme \<Rightarrow> (error + 'c) \<times> ('c, 'x) fs_scheme" where
  "ReadFile p =
     syscall (\<lambda>w. (case look w p of
                      None \<Rightarrow> Inl (absent w p)
                    | Some Dir \<Rightarrow> Inl (Failure ''is a directory'')
                    | Some (File c) \<Rightarrow> Inr c, w))"

text \<open>\<open>os.ReadDir\<close>: the entries by name, each with whether it is a directory.\<close>

definition ReadDir ::
  "path \<Rightarrow> ('c, 'x) fs_scheme \<Rightarrow> (error + (string \<times> bool) list) \<times> ('c, 'x) fs_scheme" where
  "ReadDir p =
     syscall (\<lambda>w. (case look w p of
                      None \<Rightarrow> Inl (absent w p)
                    | Some (File c) \<Rightarrow> Inl (Failure ''not a directory'')
                    | Some Dir \<Rightarrow>
                        Inr (map (\<lambda>n. (n, \<not> is_file (look w (p @ [n])))) (child_names w p)), w))"

definition Remove_path :: "path \<Rightarrow> ('c, 'x) fs_scheme \<Rightarrow> (error + unit) \<times> ('c, 'x) fs_scheme" where
  "Remove_path p =
     syscall (\<lambda>w. (case look w p of
                      None \<Rightarrow> (Inl (absent w p), w)
                    | Some (File c) \<Rightarrow> (Inr (), drop_path p w)
                    | Some Dir \<Rightarrow>
                        if child_names w p = [] then (Inr (), drop_path p w)
                        else (Inl (Failure ''directory not empty''), w)))"

text \<open>\<open>os.MkdirAll\<close>: the prefixes of the path, shortest first.\<close>

fun mkdirs :: "path list \<Rightarrow> ('c, 'x) fs_scheme \<Rightarrow> (error + unit) \<times> ('c, 'x) fs_scheme" where
  "mkdirs [] w = (Inr (), w)"
| "mkdirs (p # ps) w =
     (case look w p of
        None \<Rightarrow> mkdirs ps (put p Dir w)
      | Some Dir \<Rightarrow> mkdirs ps w
      | Some (File c) \<Rightarrow> (Inl (Failure ''not a directory''), w))"

definition MkdirAll :: "path \<Rightarrow> ('c, 'x) fs_scheme \<Rightarrow> (error + unit) \<times> ('c, 'x) fs_scheme" where
  "MkdirAll p = syscall (mkdirs (ancestors p @ [p]))"

text \<open>
  \<open>os.Rename\<close>, as \<open>rename(2)\<close> has it: a file replaces a file, a directory moves with
  everything under it and only onto nothing or an empty directory.
\<close>

definition strict_below :: "path \<Rightarrow> path \<Rightarrow> bool" where
  "strict_below p q \<longleftrightarrow> length p < length q \<and> take (length p) q = p"

definition move_subtree :: "path \<Rightarrow> path \<Rightarrow> (path \<times> 'c node) list \<Rightarrow> (path \<times> 'c node) list" where
  "move_subtree a b t =
     map (\<lambda>(q, n). (if q = a \<or> strict_below a q then b @ drop (length a) q else q, n))
       (filter (\<lambda>(q, n). q \<noteq> b) t)"

definition rename_body ::
  "path \<Rightarrow> path \<Rightarrow> ('c, 'x) fs_scheme \<Rightarrow> (error + unit) \<times> ('c, 'x) fs_scheme" where
  "rename_body a b w =
     (case look w a of
        None \<Rightarrow> (Inl (absent w a), w)
      | Some n \<Rightarrow>
          if look w (butlast b) = None then (Inl (absent w b), w)
          else if is_file (look w (butlast b)) then (Inl (Failure ''not a directory''), w)
          else if a = b then (Inr (), w)
          else (case n of
             File c \<Rightarrow>
               (if look w b = Some Dir then (Inl (Failure ''file exists''), w)
                else (Inr (), put b (File c) (drop_path a w)))
           | Dir \<Rightarrow>
               (if strict_below a b then (Inl (Failure ''invalid argument''), w)
                else if is_file (look w b) then (Inl (Failure ''not a directory''), w)
                else if child_names w b \<noteq> [] then (Inl (Failure ''directory not empty''), w)
                else (Inr (), w\<lparr>tree := move_subtree a b (tree w)\<rparr>))))"

definition Rename ::
  "path \<Rightarrow> path \<Rightarrow> ('c, 'x) fs_scheme \<Rightarrow> (error + unit) \<times> ('c, 'x) fs_scheme" where
  "Rename a b = syscall (rename_body a b)"

text \<open>
  Writing a file: opening it truncates it, so from then until the write is through the file
  holds \<open>torn\<close>.
\<close>

definition OpenTrunc ::
  "'c \<Rightarrow> path \<Rightarrow> ('c, 'x) fs_scheme \<Rightarrow> (error + unit) \<times> ('c, 'x) fs_scheme" where
  "OpenTrunc torn p =
     syscall (\<lambda>w. if look w (butlast p) \<noteq> Some Dir then (Inl (absent w p), w)
                   else if look w p = Some Dir then (Inl (Failure ''is a directory''), w)
                   else (Inr (), put p (File torn) w))"

definition Write_bytes ::
  "path \<Rightarrow> 'c \<Rightarrow> ('c, 'x) fs_scheme \<Rightarrow> (error + unit) \<times> ('c, 'x) fs_scheme" where
  "Write_bytes p c = syscall (\<lambda>w. (Inr (), put p (File c) w))"

definition Sync :: "('c, 'x) fs_scheme \<Rightarrow> (error + unit) \<times> ('c, 'x) fs_scheme" where
  "Sync = syscall (\<lambda>w. (Inr (), w))"

definition Close :: "('c, 'x) fs_scheme \<Rightarrow> (error + unit) \<times> ('c, 'x) fs_scheme" where
  "Close = syscall (\<lambda>w. (Inr (), w))"

lemmas call_defs = Stat_def ReadFile_def ReadDir_def Remove_path_def MkdirAll_def
  Rename_def OpenTrunc_def Write_bytes_def Sync_def Close_def

subsection \<open>Facts about the tree\<close>

lemma look_put: "look (put p n w) q = (if q = p then Some n else look w q)"
  by (simp add: look_def put_def update_conv')

lemma look_drop_path: "look (drop_path p w) q = (if q = p then None else look w q)"
  by (simp add: look_def drop_path_def AList.delete_conv')

lemma look_script [simp]:
  "look (w\<lparr>faults := fs\<rparr>) = look w" "look (w\<lparr>crashed := b\<rparr>) = look w"
  by (simp_all add: look_def fun_eq_iff)

lemma put_fields [simp]:
  "faults (put p n w) = faults w" "crashed (put p n w) = crashed w"
  "fs.more (put p n w) = fs.more w"
  by (simp_all add: put_def)

lemma drop_path_fields [simp]:
  "faults (drop_path p w) = faults w" "crashed (drop_path p w) = crashed w"
  "fs.more (drop_path p w) = fs.more w"
  by (simp_all add: drop_path_def)

lemma map_of_None_iff: "map_of ps k = None \<longleftrightarrow> k \<notin> fst ` set ps"
  by (rule map_of_eq_None_iff)

lemma set_child_names: "set (child_names w p) = {n. look w (p @ [n]) \<noteq> None}"
proof -
  have "n \<in> set (child_names w p) \<longleftrightarrow> p @ [n] \<in> fst ` set (tree w)" for n
    by (force simp: child_names_def intro: rev_image_eqI
        dest: append_butlast_last_id)
  then show ?thesis by (auto simp: look_def map_of_eq_None_iff)
qed

lemma sorted_child_names [simp]: "sorted (child_names w p)" "distinct (child_names w p)"
  by (simp_all add: child_names_def)

lemma child_names_script [simp]: "child_names (w\<lparr>faults := fs\<rparr>) p = child_names w p"
  by (simp add: child_names_def)

text \<open>A call either runs its body, on a world that differs in the script only, or fails and
  changes nothing but the script.\<close>

definition same_disk :: "('c, 'x) fs_scheme \<Rightarrow> ('c, 'x) fs_scheme \<Rightarrow> bool" where
  "same_disk w w' \<longleftrightarrow> look w' = look w \<and> fs.more w' = fs.more w"

lemma same_disk_refl [simp, intro]: "same_disk w w"
  by (simp add: same_disk_def)

lemma same_disk_sym: "same_disk w w' \<Longrightarrow> same_disk w' w"
  by (simp add: same_disk_def)

lemma same_disk_trans [trans]: "same_disk w w' \<Longrightarrow> same_disk w' w'' \<Longrightarrow> same_disk w w''"
  by (simp add: same_disk_def)

lemma same_disk_script [simp, intro]:
  "same_disk w (w\<lparr>faults := fs\<rparr>)" "same_disk w (w\<lparr>faults := fs, crashed := b\<rparr>)"
  "same_disk w (w\<lparr>crashed := b\<rparr>)"
  by (simp_all add: same_disk_def)

lemma same_diskD: "same_disk w w' \<Longrightarrow> look w' p = look w p"
  by (simp add: same_disk_def)

lemma syscall_cases:
  assumes "syscall body w = (r, w')"
  obtains (fails) e where "r = Inl e" "same_disk w w'"
  | (runs) w0 where "same_disk w w0" "body w0 = (r, w')"
  using assms
  by (force simp: syscall_def split: if_splits list.splits fault.splits)

definition healthy :: "('c, 'x) fs_scheme \<Rightarrow> bool" where
  "healthy w \<longleftrightarrow> \<not> crashed w \<and> faults w = []"

lemma syscall_healthy: "healthy w \<Longrightarrow> syscall body w = body w"
  by (simp add: syscall_def healthy_def)

lemma healthy_put [simp]: "healthy (put p n w) = healthy w"
  by (simp add: healthy_def)

lemma healthy_drop_path [simp]: "healthy (drop_path p w) = healthy w"
  by (simp add: healthy_def)

subsection \<open>What each call does\<close>

text \<open>A call that changes the tree: it fails and changes nothing, or works and does \<open>f\<close>.\<close>

definition turned ::
  "((path \<Rightarrow> 'c node option) \<Rightarrow> path \<Rightarrow> 'c node option) \<Rightarrow>
   ('c, 'x) fs_scheme \<Rightarrow> ('c, 'x) fs_scheme \<Rightarrow> bool" where
  "turned f w w' \<longleftrightarrow> look w' = f (look w) \<and> fs.more w' = fs.more w"

lemma turned_same: "same_disk w w0 \<Longrightarrow> turned f w0 w' \<Longrightarrow> turned f w w'"
  by (simp add: turned_def same_disk_def)

lemma look_put_fun: "look (put p n w) = (look w)(p \<mapsto> n)"
  by (rule ext) (simp add: look_put)

lemma look_drop_fun: "look (drop_path p w) = (look w)(p := None)"
  by (rule ext) (simp add: look_drop_path)

lemma Stat_law: "Stat p w = (r, w') \<Longrightarrow> same_disk w w' \<and> (\<forall>n. r = Inr n \<longrightarrow> look w p = Some n)"
  unfolding Stat_def by (erule syscall_cases) (auto simp: same_disk_def split: option.splits)

lemma ReadFile_law:
  "ReadFile p w = (r, w') \<Longrightarrow> same_disk w w' \<and> (\<forall>c. r = Inr c \<longrightarrow> look w p = Some (File c))"
  unfolding ReadFile_def
  by (erule syscall_cases) (auto simp: same_disk_def split: option.splits node.splits)

lemma ReadDir_law:
  "ReadDir p w = (r, w') \<Longrightarrow> same_disk w w' \<and>
     (\<forall>es. r = Inr es \<longrightarrow> look w p = Some Dir \<and> sorted (map fst es) \<and> distinct (map fst es) \<and>
        (\<forall>n d. (n, d) \<in> set es \<longleftrightarrow> look w (p @ [n]) \<noteq> None \<and> (d \<longleftrightarrow> \<not> is_file (look w (p @ [n])))))"
  unfolding ReadDir_def
  by (erule syscall_cases)
    (auto simp: same_disk_def set_child_names comp_def image_iff split: option.splits node.splits)

lemma Remove_path_law:
  "Remove_path p w = (r, w') \<Longrightarrow>
     (\<exists>e. r = Inl e) \<and> same_disk w w' \<or>
     r = Inr () \<and> look w p \<noteq> None \<and> turned (\<lambda>t. t(p := None)) w w' \<and>
       (look w p = Some Dir \<longrightarrow> (\<forall>n. look w (p @ [n]) = None))"
  unfolding Remove_path_def
proof (erule syscall_cases)
  fix w0
  assume s: "same_disk w w0"
    and b: "(case look w0 p of None \<Rightarrow> (Inl (absent w0 p), w0) | Some Dir \<Rightarrow>
        if child_names w0 p = [] then (Inr (), drop_path p w0)
        else (Inl (Failure ''directory not empty''), w0)
      | Some (File c) \<Rightarrow> (Inr (), drop_path p w0)) = (r, w')"
  have "child_names w0 p = [] \<Longrightarrow> look w0 (p @ [n]) = None" for n
    using set_child_names [of w0 p] by auto
  with s b show "(\<exists>e. r = Inl e) \<and> same_disk w w' \<or>
     r = Inr () \<and> look w p \<noteq> None \<and> turned (\<lambda>t. t(p := None)) w w' \<and>
       (look w p = Some Dir \<longrightarrow> (\<forall>n. look w (p @ [n]) = None))"
    by (auto simp: same_disk_def turned_def look_drop_fun
        split: option.splits node.splits if_splits)
qed auto

lemma OpenTrunc_law:
  "OpenTrunc t p w = (r, w') \<Longrightarrow>
     (\<exists>e. r = Inl e) \<and> same_disk w w' \<or> r = Inr () \<and> turned (\<lambda>m. m(p \<mapsto> File t)) w w'"
  unfolding OpenTrunc_def
  by (erule syscall_cases) (auto simp: same_disk_def turned_def look_put_fun split: if_splits)

lemma Write_bytes_law:
  "Write_bytes p c w = (r, w') \<Longrightarrow>
     (\<exists>e. r = Inl e) \<and> same_disk w w' \<or> r = Inr () \<and> turned (\<lambda>m. m(p \<mapsto> File c)) w w'"
  unfolding Write_bytes_def
  by (erule syscall_cases) (auto simp: same_disk_def turned_def look_put_fun)

lemma Sync_law: "Sync w = (r, w') \<Longrightarrow> same_disk w w'"
  unfolding Sync_def by (erule syscall_cases) auto

lemma Close_law: "Close w = (r, w') \<Longrightarrow> same_disk w w'"
  unfolding Close_def by (erule syscall_cases) auto

text \<open>Renaming a file.\<close>

lemma Rename_file_law:
  assumes "Rename a b w = (r, w')" "look w a = Some (File c)"
  shows "(\<exists>e. r = Inl e) \<and> same_disk w w' \<or>
     r = Inr () \<and> turned (\<lambda>m. m(a := None, b \<mapsto> File c)) w w' \<and> look w (butlast b) = Some Dir"
  using assms(1) unfolding Rename_def
proof (cases rule: syscall_cases)
  case (runs w0)
  with assms(2) have "look w0 a = Some (File c)" by (simp add: same_disk_def)
  with runs show ?thesis
    by (auto simp: rename_body_def same_disk_def turned_def look_put_fun look_drop_fun is_file_def
        split: if_splits option.splits node.splits)
qed auto

lemma mkdirs_law:
  "mkdirs ps w = (r, w') \<Longrightarrow>
     fs.more w' = fs.more w \<and>
     (\<forall>q. look w' q = look w q \<or> look w q = None \<and> q \<in> set ps \<and> look w' q = Some Dir) \<and>
     (r = Inr () \<longrightarrow> (\<forall>q \<in> set ps. look w' q = Some Dir)) \<and> (healthy w \<longrightarrow> healthy w')"
proof (induction ps w arbitrary: r w' rule: mkdirs.induct)
  case (2 p ps w)
  consider (none) "look w p = None" | (dir) "look w p = Some Dir"
    | (leaf) c where "look w p = Some (File c)"
    by (metis node.exhaust option.exhaust)
  then show ?case
  proof cases
    case none
    with 2(3) have "mkdirs ps (put p Dir w) = (r, w')" by simp
    from 2(1) [OF none this] none show ?thesis by (auto simp: look_put) metis+
  next
    case dir
    with 2(3) have "mkdirs ps w = (r, w')" by simp
    from 2(2) [OF dir _ this] dir show ?thesis
      by auto (metis option.distinct(1))+
  next
    case leaf
    with 2(3) show ?thesis by auto
  qed
qed simp

end
