(* ===== verification/Outbox_Store.thy ===== *)
theory Outbox_Store
  imports Outbox_Recovery Filesystem
begin

section \<open>The outbox on disk (maildir/outboxstore.go, outboxlock_unix.go)\<close>

text \<open>
  One JSON file per record under \<open>root/state/id.json\<close>, staged through \<open>root/tmp\<close>.  The
  content of a file is what the JSON decoder makes of its bytes: a record, or damage; a file
  caught between its truncation and its last byte is damaged.  The world adds to the file
  system what the code meets beside it: the messages handed to the transport with the answers
  it gives, and the answers of the advisory lock.
\<close>

datatype flock_answer = Granted | Interrupted | WouldBlock | FlockFailed

record outbox_world = "record_file fs" +
  wire :: "outbound_message list"
  verdicts :: "check list"
  flocks :: "flock_answer list"

lemma more_fields:
  fixes w w' :: outbox_world
  assumes "fs.more w' = fs.more w"
  shows "wire w' = wire w" "verdicts w' = verdicts w" "flocks w' = flocks w"
  using assms by (cases w; cases w'; simp)+

subsection \<open>The lock\<close>

text \<open>The loop over the answers of \<open>flock\<close>: an interrupted wait is taken up again.\<close>

fun flock_loop :: "bool \<Rightarrow> flock_answer list \<Rightarrow> (error + bool) \<times> flock_answer list" where
  "flock_loop block [] = (Inr True, [])"
| "flock_loop block (Granted # as) = (Inr True, as)"
| "flock_loop block (Interrupted # as) = flock_loop block as"
| "flock_loop block (WouldBlock # as) =
     (if \<not> block then (Inr False, as) else (Inl (Failure ''flock''), as))"
| "flock_loop block (FlockFailed # as) = (Inl (Failure ''flock''), as)"

text \<open>Opening the lock file creates it when it is missing and never truncates it.\<close>

definition OpenLock :: "path \<Rightarrow> outbox_world \<Rightarrow> (error + unit) \<times> outbox_world" where
  "OpenLock p =
     syscall (\<lambda>w. if look w (butlast p) \<noteq> Some Dir then (Inl (absent w p), w)
                   else if look w p = Some Dir then (Inl (Failure ''is a directory''), w)
                   else if look w p = None then (Inr (), put p (File Damaged) w)
                   else (Inr (), w))"

definition acquireLockFile :: "path \<Rightarrow> bool \<Rightarrow> (outbox_world, bool) effect" where
  "acquireLockFile p block w =
     (case OpenLock p w of
        (Inl e, w1) \<Rightarrow> (Inl e, w1)
      | (Inr _, w1) \<Rightarrow>
          (case flock_loop block (flocks w1) of (r, as) \<Rightarrow> (r, w1\<lparr>flocks := as\<rparr>)))"

definition acquire :: "path \<Rightarrow> bool \<Rightarrow> (outbox_world, bool) effect" where
  "acquire root block = acquireLockFile (root @ [''.lock'']) block"

definition store_Lock :: "path \<Rightarrow> (outbox_world, unit) effect" where
  "store_Lock root w =
     (case acquire root True w of (Inl e, w1) \<Rightarrow> (Inl e, w1) | (Inr _, w1) \<Rightarrow> (Inr (), w1))"

definition store_TryLock :: "path \<Rightarrow> (outbox_world, bool) effect" where
  "store_TryLock root w = acquire root False w"

definition store_Release :: "outbox_world \<Rightarrow> outbox_world" where
  "store_Release w = snd (Close w)"

subsection \<open>Records\<close>

definition record_path :: "path \<Rightarrow> string \<Rightarrow> string \<Rightarrow> path" where
  "record_path root s i = root @ [s, i @ ''.json'']"

definition staging_path :: "path \<Rightarrow> string \<Rightarrow> string \<Rightarrow> path" where
  "staging_path root s i = root @ [''tmp'', s @ ''.'' @ i @ ''.json'']"

fun init_dirs :: "path \<Rightarrow> ids \<Rightarrow> (outbox_world, unit) effect" where
  "init_dirs root [] w = (Inr (), w)"
| "init_dirs root (s # ss) w =
     (case MkdirAll (root @ [s]) w of
        (Inl e, w1) \<Rightarrow> (Inl e, w1)
      | (Inr _, w1) \<Rightarrow> init_dirs root ss w1)"

definition NewOutboxStore :: "path \<Rightarrow> (outbox_world, path) effect" where
  "NewOutboxStore root w =
     (case init_dirs root (''tmp'' # OutboxStates) w of
        (Inl e, w1) \<Rightarrow> (Inl e, w1)
      | (Inr _, w1) \<Rightarrow> (Inr root, w1))"

text \<open>
  \<open>writeSynced\<close>: open, write, flush, close.  After a failed step the file is closed and
  the step's error returned.
\<close>

definition writeSynced :: "path \<Rightarrow> record_file \<Rightarrow> (outbox_world, unit) effect" where
  "writeSynced p raw w =
     (case OpenTrunc Damaged p w of
        (Inl e, w1) \<Rightarrow> (Inl e, w1)
      | (Inr _, w1) \<Rightarrow>
          (case Write_bytes p raw w1 of
             (Inl e, w2) \<Rightarrow> (Inl e, snd (Close w2))
           | (Inr _, w2) \<Rightarrow>
               (case Sync w2 of
                  (Inl e, w3) \<Rightarrow> (Inl e, snd (Close w3))
                | (Inr _, w3) \<Rightarrow> Close w3)))"

definition store_Write :: "path \<Rightarrow> outbound_message \<Rightarrow> (outbox_world, unit) effect" where
  "store_Write root m w =
     (case writeSynced (staging_path root (om_State m) (om_ID m)) (Rec m) w of
        (Inl e, w1) \<Rightarrow> (Inl e, w1)
      | (Inr _, w1) \<Rightarrow>
          Rename (staging_path root (om_State m) (om_ID m)) (record_path root (om_State m) (om_ID m)) w1)"

definition store_Remove :: "path \<Rightarrow> string \<Rightarrow> string \<Rightarrow> (outbox_world, unit) effect" where
  "store_Remove root s i w = Remove_path (record_path root s i) w"

text \<open>\<open>load\<close>: \<open>Inr None\<close> is no record here, an error is one that cannot be read.\<close>

definition load ::
  "path \<Rightarrow> string \<Rightarrow> string \<Rightarrow> (outbox_world, outbound_message option) effect" where
  "load root s i w =
     (case ReadFile (record_path root s i) w of
        (Inl e, w1) \<Rightarrow> (if errors_is e ErrNotExist then (Inr None, w1) else (Inl e, w1))
      | (Inr Damaged, w1) \<Rightarrow> (Inl (Failure ''outbox decode''), w1)
      | (Inr (Rec m), w1) \<Rightarrow> (Inr (Some m), w1))"

definition validOutboxID :: "string \<Rightarrow> check" where
  "validOutboxID i = (if i = [] \<or> i \<noteq> base i then Some (Wraps ErrBadID [Str i]) else None)"

fun find_loop :: "path \<Rightarrow> string \<Rightarrow> ids \<Rightarrow> (outbox_world, outbound_message) effect" where
  "find_loop root i [] w = (Inl (Wraps ErrBadID [Str i]), w)"
| "find_loop root i (s # ss) w =
     (case load root s i w of
        (Inl e, w1) \<Rightarrow> (Inl e, w1)
      | (Inr (Some m), w1) \<Rightarrow> (Inr m, w1)
      | (Inr None, w1) \<Rightarrow> find_loop root i ss w1)"

definition store_Find :: "path \<Rightarrow> string \<Rightarrow> (outbox_world, outbound_message) effect" where
  "store_Find root i w =
     (case validOutboxID i of Some e \<Rightarrow> (Inl e, w) | None \<Rightarrow> find_loop root i OutboxStates w)"

definition store_FindIn ::
  "path \<Rightarrow> string \<Rightarrow> string \<Rightarrow> (outbox_world, outbound_message) effect" where
  "store_FindIn root s i w =
     (case validOutboxID i of
        Some e \<Rightarrow> (Inl e, w)
      | None \<Rightarrow>
          (case load root s i w of
             (Inl e, w1) \<Rightarrow> (Inl e, w1)
           | (Inr (Some m), w1) \<Rightarrow> (Inr m, w1)
           | (Inr None, w1) \<Rightarrow> (Inl (Wraps ErrBadID [Str i]), w1)))"

text \<open>
  \<open>filepath.Glob\<close> of \<open>*.json\<close> in one directory: it stats the directory, reads its
  entries, keeps the names that match, and ignores every error on the way.
\<close>

definition Glob_json :: "path \<Rightarrow> (outbox_world, ids) effect" where
  "Glob_json p w =
     (case Stat p w of
        (Inl e, w1) \<Rightarrow> (Inr [], w1)
      | (Inr (File c), w1) \<Rightarrow> (Inr [], w1)
      | (Inr Dir, w1) \<Rightarrow>
          (case ReadDir p w1 of
             (Inl e, w2) \<Rightarrow> (Inr [], w2)
           | (Inr es, w2) \<Rightarrow> (Inr (filter (\<lambda>n. has_suffix n ''.json'') (map fst es)), w2)))"

definition store_List :: "path \<Rightarrow> string \<Rightarrow> (outbox_world, ids) effect" where
  "store_List root s w =
     (case Glob_json (root @ [s]) w of
        (Inl e, w1) \<Rightarrow> (Inl e, w1)
      | (Inr files, w1) \<Rightarrow> (Inr (map (\<lambda>f. take (length f - 5) f) files), w1))"

definition OutboxStore :: "path \<Rightarrow> outbox_world store" where
  "OutboxStore root =
     \<lparr>Write = store_Write root, Remove = store_Remove root, Find = store_Find root,
      ListState = store_List root, FindIn = Some (store_FindIn root),
      Locker = Some \<lparr>Lock = store_Lock root, TryLock = store_TryLock root,
                     Release = store_Release\<rparr>\<rparr>"

text \<open>
  The transport: it logs what is handed to it and answers as its script says.  The process
  that has died hands over nothing.
\<close>

definition transport :: "string option \<Rightarrow> outbox_world sender" where
  "transport addr =
     \<lparr>Send = (\<lambda>m w. if crashed w then (Inl gone, w)
               else (case verdicts w of
                       [] \<Rightarrow> (Inr (), w\<lparr>wire := wire w @ [m]\<rparr>)
                     | v # vs \<Rightarrow>
                         (case v of None \<Rightarrow> Inr () | Some e \<Rightarrow> Inl e,
                          w\<lparr>wire := wire w @ [m], verdicts := vs\<rparr>))),
      SelfAddress = addr\<rparr>"

subsection \<open>The ledger a directory stands for\<close>

definition file_record :: "record_file node option \<Rightarrow> record_file option" where
  "file_record n = (case n of None \<Rightarrow> None | Some (File r) \<Rightarrow> Some r | Some Dir \<Rightarrow> Some Damaged)"

definition outbox_view :: "path \<Rightarrow> outbox_world \<Rightarrow> ledger" where
  "outbox_view root w =
     \<lparr>on_disk = (\<lambda>(s, i). if s \<in> set OutboxStates then file_record (look w (record_path root s i))
                          else None),
      sent_log = wire w\<rparr>"

subsection \<open>The laws hold\<close>

lemma record_path_eq [simp]:
  "record_path root s i = record_path root t j \<longleftrightarrow> s = t \<and> i = j"
  by (auto simp: record_path_def)

lemma staging_not_record [simp]:
  "s \<in> set OutboxStates \<Longrightarrow> record_path root s i \<noteq> staging_path root t j"
  by (auto simp: record_path_def staging_path_def OutboxStates_def)

lemma look_world [simp]:
  "look (w\<lparr>flocks := fs\<rparr>) = look w" "look (w\<lparr>wire := ms\<rparr>) = look w"
  "look (w\<lparr>verdicts := vs\<rparr>) = look w"
  by (simp_all add: look_def fun_eq_iff)

lemma view_eqI:
  assumes "\<And>s i. s \<in> set OutboxStates \<Longrightarrow>
      look w' (record_path root s i) = look w (record_path root s i)" "wire w' = wire w"
  shows "outbox_view root w' = outbox_view root w"
proof -
  have "(\<lambda>(s, i). if s \<in> set OutboxStates then file_record (look w' (record_path root s i)) else None) =
    (\<lambda>(s, i). if s \<in> set OutboxStates then file_record (look w (record_path root s i)) else None)"
    using assms(1) by auto
  with assms(2) show ?thesis unfolding outbox_view_def by simp
qed

lemma same_disk_view: "same_disk w w' \<Longrightarrow> outbox_view root w' = outbox_view root w"
  by (rule view_eqI) (auto simp: same_disk_def intro: more_fields(1))

lemma flocks_view [simp]: "outbox_view root (w\<lparr>flocks := fs\<rparr>) = outbox_view root w"
  by (rule view_eqI) simp_all

lemma turned_view:
  assumes "turned f w w'"
    and "\<And>s i. s \<in> set OutboxStates \<Longrightarrow>
           f (look w) (record_path root s i) = look w (record_path root s i)"
  shows "outbox_view root w' = outbox_view root w"
proof (rule view_eqI)
  from assms(1) have t: "look w' = f (look w)" "fs.more w' = fs.more w" by (simp_all add: turned_def)
  from t(2) show "wire w' = wire w" by (rule more_fields(1))
  show "look w' (record_path root s i) = look w (record_path root s i)"
    if "s \<in> set OutboxStates" for s i
    using assms(2) [OF that] t(1) by simp
qed

lemma on_disk_view:
  "on_disk (outbox_view root w) (s, i) =
     (if s \<in> set OutboxStates then file_record (look w (record_path root s i)) else None)"
  by (simp add: outbox_view_def)

lemma sent_log_view [simp]: "sent_log (outbox_view root w) = wire w"
  by (simp add: outbox_view_def)

lemma ledger_eqI:
  assumes "\<And>s i. on_disk L (s, i) = on_disk L' (s, i)" "sent_log L = sent_log L'"
  shows "L = (L' :: ledger)"
proof -
  have "on_disk L = on_disk L'" using assms(1) by auto
  with assms(2) show ?thesis by simp
qed

lemma writeSynced_law:
  assumes "writeSynced p raw w = (r, w')"
    and p: "\<And>s i. s \<in> set OutboxStates \<Longrightarrow> record_path root s i \<noteq> p"
  shows "outbox_view root w' = outbox_view root w"
    and "r = Inr () \<Longrightarrow> look w' p = Some (File raw)" and "(\<exists>e. r = Inl e) \<or> r = Inr ()"
proof -
  have keep: "outbox_view root v' = outbox_view root v" if "turned (\<lambda>m. m(p \<mapsto> n)) v v'" for n v v'
    using that by (rule turned_view) (simp add: p)
  have close: "outbox_view root (snd (Close v)) = outbox_view root v" for v
    using Close_law [of v] same_disk_view by (metis prod.collapse)
  obtain r1 w1 where o: "OpenTrunc Damaged p w = (r1, w1)" by force
  from OpenTrunc_law [OF o] have v1: "outbox_view root w1 = outbox_view root w"
    using keep same_disk_view by blast
  obtain r2 w2 where b: "Write_bytes p raw w1 = (r2, w2)" by force
  from Write_bytes_law [OF b] have v2: "outbox_view root w2 = outbox_view root w1"
    using keep same_disk_view by blast
  obtain r3 w3 where f: "Sync w2 = (r3, w3)" by force
  from Sync_law [OF f] have v3: "same_disk w2 w3" .
  obtain r4 w4 where c: "Close w3 = (r4, w4)" by force
  from Close_law [OF c] have v4: "same_disk w3 w4" .
  note v34 = same_disk_view [OF v3] same_disk_view [OF v4]
  show "outbox_view root w' = outbox_view root w"
    using assms(1) o b f c v1 v2 v34 close
    by (auto simp: writeSynced_def split: sum.splits prod.splits)
  have "look w2 p = Some (File raw)" if "r2 = Inr ()"
    using Write_bytes_law [OF b] that by (auto simp: turned_def)
  then show "look w' p = Some (File raw)" if "r = Inr ()"
    using that assms(1) o b f c same_diskD [OF v3] same_diskD [OF v4]
    by (auto simp: writeSynced_def split: sum.splits prod.splits)
  show "(\<exists>e. r = Inl e) \<or> r = Inr ()" by (cases r) auto
qed

lemma store_Write_law:
  assumes "store_Write root m w = (r, w')" "om_State m \<in> set OutboxStates"
  shows "(\<exists>e. r = Inl e) \<and> outbox_view root w' = outbox_view root w \<or>
    r = Inr () \<and> outbox_view root w' = after_write m (outbox_view root w)"
proof -
  let ?tmp = "staging_path root (om_State m) (om_ID m)"
  let ?to = "record_path root (om_State m) (om_ID m)"
  obtain r1 w1 where ws: "writeSynced ?tmp (Rec m) w = (r1, w1)" by force
  note l = writeSynced_law [OF ws, of root]
  have v: "outbox_view root w1 = outbox_view root w" by (rule l(1)) simp
  show ?thesis
  proof (cases r1)
    case (Inl e)
    with ws assms(1) v show ?thesis by (auto simp: store_Write_def)
  next
    case (Inr u)
    with ws assms(1) have rn: "Rename ?tmp ?to w1 = (r, w')" by (simp add: store_Write_def)
    have "look w1 ?tmp = Some (File (Rec m))" using l(2) Inr by simp
    from Rename_file_law [OF rn this] show ?thesis
    proof (elim disjE conjE)
      assume t: "turned (\<lambda>t. t(?tmp := None, ?to \<mapsto> File (Rec m))) w1 w'" and "r = Inr ()"
      from t have look: "look w' = (look w1)(?tmp := None, ?to \<mapsto> File (Rec m))"
        and wire: "wire w' = wire w1"
        by (simp_all add: turned_def more_fields(1) [of w' w1])
      have "outbox_view root w' = after_write m (outbox_view root w1)"
      proof (rule ledger_eqI)
        show "on_disk (outbox_view root w') (s, i) =
            on_disk (after_write m (outbox_view root w1)) (s, i)" for s i
          unfolding after_write_disk on_disk_view look
          using assms(2) by (auto simp: file_record_def)
      qed (simp add: wire after_write_def)
      with \<open>r = Inr ()\<close> v show ?thesis by simp
    next
      assume "\<exists>e. r = Inl e" "same_disk w1 w'"
      with v show ?thesis by (simp add: same_disk_view)
    qed
  qed
qed

lemma store_Remove_law:
  assumes "store_Remove root s i w = (r, w')" "s \<in> set OutboxStates"
  shows "(\<exists>e. r = Inl e) \<and> outbox_view root w' = outbox_view root w \<or>
    r = Inr () \<and> on_disk (outbox_view root w) (s, i) \<noteq> None \<and>
    outbox_view root w' = after_remove s i (outbox_view root w)"
proof -
  from Remove_path_law [OF assms(1) [unfolded store_Remove_def]] show ?thesis
  proof (elim disjE conjE)
    assume t: "turned (\<lambda>m. m(record_path root s i := None)) w w'" "r = Inr ()"
      and n: "look w (record_path root s i) \<noteq> None"
    from t have look: "look w' = (look w)(record_path root s i := None)"
      and wire: "wire w' = wire w"
      by (simp_all add: turned_def more_fields(1) [of w' w])
    have "outbox_view root w' = after_remove s i (outbox_view root w)"
    proof (rule ledger_eqI)
      show "on_disk (outbox_view root w') (t, j) =
          on_disk (after_remove s i (outbox_view root w)) (t, j)" for t j
        unfolding after_remove_disk on_disk_view look by (auto simp: file_record_def)
    qed (simp add: wire after_remove_def)
    moreover have "on_disk (outbox_view root w) (s, i) \<noteq> None"
      using n assms(2) by (auto simp: on_disk_view file_record_def split: node.splits)
    ultimately show ?thesis using t(2) by simp
  next
    assume "\<exists>e. r = Inl e" "same_disk w w'"
    then show ?thesis by (simp add: same_disk_view)
  qed
qed

lemma load_law:
  assumes "load root s i w = (r, w')"
  shows "same_disk w w'" and "r = Inr (Some m) \<Longrightarrow> look w (record_path root s i) = Some (File (Rec m))"
proof -
  obtain x w1 where x: "ReadFile (record_path root s i) w = (x, w1)" by force
  from ReadFile_law [OF x] x assms show "same_disk w w'"
    "r = Inr (Some m) \<Longrightarrow> look w (record_path root s i) = Some (File (Rec m))"
    by (auto simp: load_def split: sum.splits record_file.splits if_splits)
qed

lemma on_disk_file:
  "s \<in> set OutboxStates \<Longrightarrow> look w (record_path root s i) = Some (File r) \<Longrightarrow>
   on_disk (outbox_view root w) (s, i) = Some r"
  by (simp add: on_disk_view file_record_def)

lemma on_disk_Rec:
  "on_disk (outbox_view root w) (s, i) = Some (Rec m) \<Longrightarrow>
   look w (record_path root s i) = Some (File (Rec m))"
  unfolding on_disk_view file_record_def
  by (cases "s \<in> set OutboxStates") (simp_all split: option.splits node.splits)

lemma find_loop_law:
  "find_loop root i ss w = (r, w') \<Longrightarrow> set ss \<subseteq> set OutboxStates \<Longrightarrow>
   outbox_view root w' = outbox_view root w \<and>
   (\<forall>m. r = Inr m \<longrightarrow> (\<exists>s. on_disk (outbox_view root w) (s, i) = Some (Rec m)))"
proof (induction ss arbitrary: w)
  case (Cons s ss)
  obtain x w1 where x: "load root s i w = (x, w1)" by force
  note l = load_law [OF x]
  have v: "outbox_view root w1 = outbox_view root w" using l(1) by (rule same_disk_view)
  show ?case
  proof (cases x)
    case (Inr y)
    show ?thesis
    proof (cases y)
      case None
      with Inr x Cons.prems Cons.IH [of w1] v show ?thesis by simp
    next
      case (Some m)
      with l(2) Inr have "look w (record_path root s i) = Some (File (Rec m))" by simp
      with Some Inr x Cons.prems v on_disk_file [of s w root i] show ?thesis by auto
    qed
  qed (use x v Cons.prems in auto)
qed auto

lemma store_Find_law:
  "store_Find root i w = (r, w') \<Longrightarrow>
   outbox_view root w' = outbox_view root w \<and>
   (\<forall>m. r = Inr m \<longrightarrow> (\<exists>s. on_disk (outbox_view root w) (s, i) = Some (Rec m)))"
  using find_loop_law by (fastforce simp: store_Find_def split: option.splits)

lemma store_FindIn_law:
  assumes "store_FindIn root s i w = (r, w')" "s \<in> set OutboxStates"
  shows "outbox_view root w' = outbox_view root w \<and>
    (\<forall>m. r = Inr m \<longrightarrow> on_disk (outbox_view root w) (s, i) = Some (Rec m))"
proof -
  obtain x w1 where x: "load root s i w = (x, w1)" by force
  note l = load_law [OF x] same_disk_view [OF load_law(1) [OF x]]
  with x assms on_disk_file [of s w root i] show ?thesis
    by (auto simp: store_FindIn_def split: option.splits sum.splits)
qed

lemma has_suffix_iff: "has_suffix n s \<longleftrightarrow> (\<exists>p. n = p @ s)"
proof -
  have "has_suffix n s \<longleftrightarrow> (\<exists>q. rev n = rev s @ q)" by (simp add: has_suffix_def has_prefix_iff)
  also have "\<dots> \<longleftrightarrow> (\<exists>p. n = p @ s)"
    by (metis rev_append rev_rev_ident)
  finally show ?thesis .
qed

lemma json_names:
  "set (map (\<lambda>f. take (length f - 5) f) (filter (\<lambda>n. has_suffix n ''.json'') ns)) =
     {i. i @ ''.json'' \<in> set ns}"
  "distinct ns \<Longrightarrow>
   distinct (map (\<lambda>f. take (length f - 5) f) (filter (\<lambda>n. has_suffix n ''.json'') ns))"
proof -
  show "set (map (\<lambda>f. take (length f - 5) f) (filter (\<lambda>n. has_suffix n ''.json'') ns)) =
     {i. i @ ''.json'' \<in> set ns}"
    by (force simp: has_suffix_iff)
  show "distinct ns \<Longrightarrow>
   distinct (map (\<lambda>f. take (length f - 5) f) (filter (\<lambda>n. has_suffix n ''.json'') ns))"
    by (induction ns) (auto simp: has_suffix_iff)
qed

lemma store_List_law:
  assumes "store_List root s w = (r, w')"
  shows "same_disk w w'" and "\<exists>is. r = Inr is \<and> distinct is \<and>
    set is \<subseteq> {i. look w (record_path root s i) \<noteq> None}"
proof -
  obtain x w1 where x: "Stat (root @ [s]) w = (x, w1)" by force
  from Stat_law [OF x] have s1: "same_disk w w1" by simp
  obtain y w2 where y: "ReadDir (root @ [s]) w1 = (y, w2)" by force
  from ReadDir_law [OF y] have s2: "same_disk w1 w2" by simp
  have s12: "same_disk w w2" using s1 s2 by (rule same_disk_trans)
  show "same_disk w w'"
    using x y s1 s12 assms by (auto simp: store_List_def Glob_json_def split: sum.splits node.splits)
  have look1: "look w1 = look w" using s1 by (simp add: same_disk_def)
  show "\<exists>is. r = Inr is \<and> distinct is \<and> set is \<subseteq> {i. look w (record_path root s i) \<noteq> None}"
  proof (cases "\<exists>es. x = Inr Dir \<and> y = Inr es")
    case True
    then obtain es where es: "x = Inr Dir" "y = Inr es" by blast
    let ?is = "map (\<lambda>f. take (length f - 5) f) (filter (\<lambda>n. has_suffix n ''.json'') (map fst es))"
    from x y es assms have r: "r = Inr ?is" by (simp add: store_List_def Glob_json_def)
    from ReadDir_law [OF y] es look1 have
      "set (map fst es) \<subseteq> {n. look w ((root @ [s]) @ [n]) \<noteq> None}" "distinct (map fst es)" by auto
    then have "distinct ?is" "set ?is \<subseteq> {i. look w (record_path root s i) \<noteq> None}"
      unfolding json_names(1) by (auto intro: json_names(2) simp: record_path_def)
    with r show ?thesis by blast
  next
    case False
    with x y assms have "r = Inr []"
      by (auto simp: store_List_def Glob_json_def split: sum.splits node.splits)
    then show ?thesis by simp
  qed
qed

lemma OpenLock_law:
  assumes "OpenLock p w = (r, w')" "\<And>s i. s \<in> set OutboxStates \<Longrightarrow> record_path root s i \<noteq> p"
  shows "outbox_view root w' = outbox_view root w"
  using assms(1) unfolding OpenLock_def
proof (cases rule: syscall_cases)
  case (runs w0)
  have "turned (\<lambda>m. m(p \<mapsto> File Damaged)) w0 (put p (File Damaged) w0)"
    by (simp add: turned_def look_put_fun)
  then have "outbox_view root (put p (File Damaged) w0) = outbox_view root w0"
    by (rule turned_view) (simp add: assms(2))
  with runs same_disk_view [OF runs(1)] show ?thesis by (auto split: if_splits)
qed (simp add: same_disk_view)

lemma lock_not_record [simp]: "record_path root s i \<noteq> root @ [''.lock'']"
  by (simp add: record_path_def)

lemma acquire_law: "acquire root b w = (r, w') \<Longrightarrow> outbox_view root w' = outbox_view root w"
proof -
  assume a: "acquire root b w = (r, w')"
  obtain x w1 where x: "OpenLock (root @ [''.lock'']) w = (x, w1)" by force
  have "outbox_view root w1 = outbox_view root w" by (rule OpenLock_law [OF x]) simp
  with a x show ?thesis
    by (cases x; cases "flock_loop b (flocks w1)")
      (auto simp: acquire_def acquireLockFile_def)
qed

lemma store_List_ledger:
  assumes "store_List root s w = (r, w')" "s \<in> set OutboxStates"
  shows "outbox_view root w' = outbox_view root w \<and>
    (\<forall>is. r = Inr is \<longrightarrow> distinct is \<and> (\<forall>i \<in> set is. on_disk (outbox_view root w) (s, i) \<noteq> None))"
proof -
  have "on_disk (outbox_view root w) (s, i) \<noteq> None" if "look w (record_path root s i) \<noteq> None" for i
    using that assms(2) by (auto simp: on_disk_view file_record_def split: node.splits)
  with store_List_law [OF assms(1)] show ?thesis
    using same_disk_view by blast
qed

lemma lock_laws:
  "outbox_view root (snd (store_Lock root w)) = outbox_view root w"
  "outbox_view root (snd (store_TryLock root w)) = outbox_view root w"
  "outbox_view root (store_Release w) = outbox_view root w"
proof -
  obtain r w1 where a: "acquire root True w = (r, w1)" by force
  from acquire_law [OF a] a show "outbox_view root (snd (store_Lock root w)) = outbox_view root w"
    by (simp add: store_Lock_def split: sum.splits)
  obtain r' w1' where a': "acquire root False w = (r', w1')" by force
  from acquire_law [OF a'] a'
  show "outbox_view root (snd (store_TryLock root w)) = outbox_view root w"
    by (simp add: store_TryLock_def)
  obtain r'' w1'' where c: "Close w = (r'', w1'')" by force
  from Close_law [OF c] c show "outbox_view root (store_Release w) = outbox_view root w"
    by (simp add: store_Release_def same_disk_view)
qed

lemma transport_law:
  assumes "Send (transport addr) m w = (r, w')"
  shows "outbox_view root w' = after_send m (outbox_view root w) \<or>
    (\<exists>e. r = Inl e) \<and> outbox_view root w' = outbox_view root w"
proof -
  have sent: "outbox_view root v = after_send m (outbox_view root w)"
    if "look v = look w" "wire v = wire w @ [m]" for v
    by (rule ledger_eqI) (simp_all add: that on_disk_view after_send_def)
  consider "crashed w" | "\<not> crashed w" "verdicts w = []" | v vs where "\<not> crashed w" "verdicts w = v # vs"
    by (cases "verdicts w") auto
  then show ?thesis
  proof cases
    case 1
    with assms show ?thesis by (auto simp: transport_def)
  next
    case 2
    with assms have "w' = w\<lparr>wire := wire w @ [m]\<rparr>" by (simp add: transport_def)
    with sent [of w'] show ?thesis by simp
  next
    case 3
    with assms have "w' = w\<lparr>wire := wire w @ [m], verdicts := vs\<rparr>" by (simp add: transport_def)
    with sent [of w'] show ?thesis by simp
  qed
qed

lemmas store_fields = OutboxStore_def

interpretation os: outbox_ports "OutboxStore root" "transport addr" "outbox_view root"
  for root :: path and addr :: "string option"
proof unfold_locales
  show "Remove (OutboxStore root) s i w = (r, w') \<Longrightarrow> s \<in> set OutboxStates \<Longrightarrow>
      (\<exists>e. r = Inl e) \<and> outbox_view root w' = outbox_view root w \<or>
      r = Inr () \<and> on_disk (outbox_view root w) (s, i) \<noteq> None \<and>
      outbox_view root w' = after_remove s i (outbox_view root w)" for s i w r w'
    unfolding OutboxStore_def store.simps by (rule store_Remove_law)
  show "ListState (OutboxStore root) s w = (y, w') \<Longrightarrow> s \<in> set OutboxStates \<Longrightarrow>
      outbox_view root w' = outbox_view root w \<and>
      (\<forall>is. y = Inr is \<longrightarrow> distinct is \<and> (\<forall>i \<in> set is. on_disk (outbox_view root w) (s, i) \<noteq> None))"
    for s w y w'
    unfolding OutboxStore_def store.simps by (rule store_List_ledger)
qed (auto simp only: OutboxStore_def store.simps locker.simps option.inject lock_laws
    store_Write_law store_Find_law store_FindIn_law option.distinct
    dest: transport_law)

subsection \<open>While the disk works and the lock is free\<close>

definition shaped :: "path \<Rightarrow> (path \<Rightarrow> record_file node option) \<Rightarrow> bool" where
  "shaped root t \<longleftrightarrow>
     t root = Some Dir \<and> t (root @ [''.lock'']) \<noteq> Some Dir \<and>
     (\<forall>s \<in> set (''tmp'' # OutboxStates).
        t (root @ [s]) = Some Dir \<and> (\<forall>n. t (root @ [s, n]) \<noteq> Some Dir))"

definition store_ready :: "path \<Rightarrow> outbox_world \<Rightarrow> bool" where
  "store_ready root w \<longleftrightarrow> healthy w \<and> flocks w = [] \<and> shaped root (look w)"

lemma shaped_upd:
  assumes "shaped root t" "v \<noteq> Some Dir" "(\<exists>s n. p = root @ [s, n]) \<or> p = root @ [''.lock'']"
  shows "shaped root (t(p := v))"
proof -
  have "p \<noteq> root" "\<And>s. s \<in> set (''tmp'' # OutboxStates) \<Longrightarrow> p \<noteq> root @ [s]"
    using assms(3) by (auto simp: OutboxStates_def)
  with assms(1, 2) show ?thesis by (auto simp: shaped_def)
qed

lemma healthy_world [simp]:
  "healthy (w\<lparr>flocks := fs\<rparr>) = healthy w"
  by (simp add: healthy_def)

lemma on_disk_some_iff:
  "s \<in> set OutboxStates \<Longrightarrow>
   on_disk (outbox_view root w) (s, i) \<noteq> None \<longleftrightarrow> look w (root @ [s, i @ ''.json'']) \<noteq> None"
  by (simp add: on_disk_view file_record_def record_path_def split: option.splits node.splits)

lemma flocks_put [simp]: "flocks (put p n w) = flocks w" "flocks (drop_path p w) = flocks w"
  by (simp_all add: put_def drop_path_def)

lemma ready_put [simp]:
  assumes "store_ready root w"
  shows "store_ready root (put (staging_path root s i) (File c) w)"
    "store_ready root (put (record_path root s i) (File c) w)"
    "store_ready root (drop_path (staging_path root s i) w)"
    "store_ready root (drop_path (record_path root s i) w)"
    "store_ready root (put (root @ [''.lock'']) (File c) w)"
  using assms
  by (simp_all add: store_ready_def look_put_fun look_drop_fun shaped_upd record_path_def
      staging_path_def)

lemma ready_look:
  assumes "store_ready root w"
  shows "healthy w" "flocks w = []" "look w root = Some Dir" "look w (root @ [''.lock'']) \<noteq> Some Dir"
    "look w (butlast (staging_path root s i)) = Some Dir"
    "look w (staging_path root s i) \<noteq> Some Dir"
    "t \<in> set OutboxStates \<Longrightarrow> look w (butlast (record_path root t i)) = Some Dir"
    "t \<in> set OutboxStates \<Longrightarrow> look w (root @ [t]) = Some Dir"
    "t \<in> set OutboxStates \<Longrightarrow> look w (record_path root t i) \<noteq> Some Dir"
  using assms
  by (auto simp: store_ready_def shaped_def staging_path_def record_path_def butlast_append)

lemma writeSynced_ready:
  assumes "store_ready root w"
  shows "writeSynced (staging_path root s i) raw w =
    (Inr (), put (staging_path root s i) (File raw) (put (staging_path root s i) (File Damaged) w))"
  using ready_look [OF assms] assms
  by (simp add: writeSynced_def call_defs syscall_healthy)

lemma store_Write_ready:
  assumes "store_ready root w" "om_State m \<in> set OutboxStates" "store_Write root m w = (r, w')"
  shows "r = Inr () \<and> store_ready root w'"
proof -
  let ?tmp = "staging_path root (om_State m) (om_ID m)"
  let ?to = "record_path root (om_State m) (om_ID m)"
  let ?w = "put ?tmp (File (Rec m)) (put ?tmp (File Damaged) w)"
  have ready: "store_ready root ?w" using assms(1) by simp
  have "look ?w ?tmp = Some (File (Rec m))" by (simp add: look_put)
  moreover note ready_look(7, 9) [OF ready assms(2), of "om_ID m"]
  ultimately have "Rename ?tmp ?to ?w = (Inr (), put ?to (File (Rec m)) (drop_path ?tmp ?w))"
    using ready_look(1) [OF ready] assms(2)
    by (simp add: Rename_def syscall_healthy rename_body_def is_file_def
        staging_not_record [THEN not_sym])
  with assms writeSynced_ready [OF assms(1)] ready show ?thesis
    by (auto simp: store_Write_def)
qed

lemma store_Remove_ready:
  assumes "store_ready root w" "s \<in> set OutboxStates"
    and "on_disk (outbox_view root w) (s, i) = Some (Rec m)" "store_Remove root s i w = (r, w')"
  shows "r = Inr () \<and> store_ready root w'"
proof -
  from assms(2, 3) obtain c where "look w (record_path root s i) = Some (File c)"
    by (auto simp: on_disk_view file_record_def split: option.splits node.splits)
  with assms(1, 4) ready_look(1) [OF assms(1)] show ?thesis
    by (auto simp: store_Remove_def Remove_path_def syscall_healthy)
qed

lemma store_FindIn_ready:
  assumes "store_ready root w" "s \<in> set OutboxStates" "validOutboxID i = None"
    and "store_FindIn root s i w = (r, w')"
  shows "store_ready root w' \<and>
    (\<forall>m. on_disk (outbox_view root w) (s, i) = Some (Rec m) \<longrightarrow> r = Inr m)"
proof -
  note h = ready_look(1) [OF assms(1)]
  obtain x w1 where x: "ReadFile (record_path root s i) w = (x, w1)" by force
  then have w1: "w1 = w" using h by (simp add: ReadFile_def syscall_healthy)
  have "x = Inr (Rec m)" if "on_disk (outbox_view root w) (s, i) = Some (Rec m)" for m
    using that x h assms(2)
    by (auto simp: ReadFile_def syscall_healthy on_disk_view file_record_def
        split: option.splits node.splits)
  moreover have "w' = w"
    using assms(3, 4) x w1
    by (auto simp: store_FindIn_def load_def split: sum.splits record_file.splits if_splits option.splits)
  ultimately show ?thesis
    using assms x by (auto simp: store_FindIn_def load_def)
qed

lemma store_List_ready:
  assumes "store_ready root w" "s \<in> set OutboxStates" "store_List root s w = (r, w')"
  shows "store_ready root w' \<and>
    (\<exists>is. r = Inr is \<and> set is = {i. on_disk (outbox_view root w) (s, i) \<noteq> None})"
proof -
  note h = ready_look(1) [OF assms(1)] and d = ready_look(8) [OF assms(1, 2)]
  have "Stat (root @ [s]) w = (Inr Dir, w)" using h d by (simp add: Stat_def syscall_healthy)
  moreover obtain es where es: "ReadDir (root @ [s]) w = (Inr es, w)"
    using h d by (simp add: ReadDir_def syscall_healthy)
  ultimately have r: "r = Inr (map (\<lambda>f. take (length f - 5) f)
      (filter (\<lambda>n. has_suffix n ''.json'') (map fst es)))" "w' = w"
    using assms(3) by (auto simp: store_List_def Glob_json_def)
  from ReadDir_law [OF es]
  have mem: "(n, b) \<in> set es \<longleftrightarrow> look w ((root @ [s]) @ [n]) \<noteq> None \<and>
      (b \<longleftrightarrow> \<not> is_file (look w ((root @ [s]) @ [n])))" for n b by blast
  have "n \<in> set (map fst es) \<longleftrightarrow> look w ((root @ [s]) @ [n]) \<noteq> None" for n
  proof -
    have "n \<in> set (map fst es) \<longleftrightarrow> (\<exists>b. (n, b) \<in> set es)" by force
    then show ?thesis unfolding mem by blast
  qed
  then have "{i. i @ ''.json'' \<in> set (map fst es)} = {i. on_disk (outbox_view root w) (s, i) \<noteq> None}"
    unfolding on_disk_some_iff [OF assms(2)] by simp
  with r json_names(1) [of "map fst es"] assms(1) show ?thesis by blast
qed

lemma store_TryLock_ready:
  assumes "store_ready root w" "store_TryLock root w = (r, w')"
  shows "r = Inr True \<and> store_ready root w'"
proof -
  note l = ready_look(1-4) [OF assms(1)]
  obtain x w1 where x: "OpenLock (root @ [''.lock'']) w = (x, w1)" by force
  have "x = Inr () \<and> store_ready root w1"
    using x l assms(1) by (auto simp: OpenLock_def syscall_healthy split: if_splits)
  moreover from this have "w1\<lparr>flocks := []\<rparr> = w1" by (simp add: store_ready_def)
  ultimately show ?thesis
    using x assms(2) by (auto simp: store_TryLock_def acquire_def acquireLockFile_def store_ready_def)
qed

interpretation rs: reliable_ports "OutboxStore root" "transport addr" "outbox_view root"
    "store_ready root" "\<lambda>i. validOutboxID i = None"
  for root :: path and addr :: "string option"
proof unfold_locales
  show "on_disk (outbox_view root w) (s, i) \<noteq> None \<Longrightarrow> s \<in> set OutboxStates" for w s i
    by (simp add: on_disk_view split: if_splits)
  show "store_ready root w \<Longrightarrow> s \<in> set OutboxStates \<Longrightarrow>
      ListState (OutboxStore root) s w = (y, w') \<Longrightarrow>
      store_ready root w' \<and>
      (\<exists>is. y = Inr is \<and> set is = {i. on_disk (outbox_view root w) (s, i) \<noteq> None})" for w s y w'
    unfolding OutboxStore_def store.simps by (rule store_List_ready)
  show "store_ready root w \<Longrightarrow> om_State m \<in> set OutboxStates \<Longrightarrow>
      Write (OutboxStore root) m w = (r, w') \<Longrightarrow> r = Inr () \<and> store_ready root w'" for w m r w'
    unfolding OutboxStore_def store.simps by (rule store_Write_ready)
  show "store_ready root w \<Longrightarrow> s \<in> set OutboxStates \<Longrightarrow>
      on_disk (outbox_view root w) (s, i) = Some (Rec m) \<Longrightarrow>
      Remove (OutboxStore root) s i w = (r, w') \<Longrightarrow> r = Inr () \<and> store_ready root w'"
    for w s i m r w'
    unfolding OutboxStore_def store.simps by (rule store_Remove_ready)
  show "store_ready root w \<Longrightarrow> FindIn (OutboxStore root) = Some f \<Longrightarrow> f s i w = (x, w') \<Longrightarrow>
      s \<in> set OutboxStates \<Longrightarrow> validOutboxID i = None \<Longrightarrow>
      store_ready root w' \<and> (\<forall>m. on_disk (outbox_view root w) (s, i) = Some (Rec m) \<longrightarrow> x = Inr m)"
    for w f s i x w'
    unfolding OutboxStore_def store.simps option.inject using store_FindIn_ready by blast
  show "store_ready root w \<Longrightarrow> Locker (OutboxStore root) = Some l \<Longrightarrow> TryLock l w = (z, w') \<Longrightarrow>
      z = Inr True \<and> store_ready root w'" for w l z w'
    unfolding OutboxStore_def store.simps option.inject
    using store_TryLock_ready by (metis locker.select_convs(2))
qed

end
