(* ===== verification/Outbox_Histories.thy ===== *)
theory Outbox_Histories
  imports Outbox_Store
begin

section \<open>Histories of the on-disk outbox, with faults, crashes and restarts\<close>

text \<open>
  A history is a sequence of calls on one outbox directory.  Any call may meet disk errors, a
  refusing transport or a busy lock, or the process may die inside it; a restart is a new
  process with its own script.  What is proved here holds for every history.
\<close>

datatype outbox_op =
    OpEnqueue outbound_message string
  | OpRetry string
  | OpProcess
  | OpRecover
  | OpRestart "fault list" "check list" "flock_answer list"

record setting =
  mail :: mail_lib
  charts :: statekit
  iteration :: map_order
  directory :: path
  sender_address :: "string option"

definition disk_outbox :: "setting \<Rightarrow> outbox_world outbox" where
  "disk_outbox c = NewOutbox (OutboxStore (directory c)) (transport (sender_address c))"

definition restart ::
  "fault list \<Rightarrow> check list \<Rightarrow> flock_answer list \<Rightarrow> outbox_world \<Rightarrow> outbox_world" where
  "restart fs vs as w = w\<lparr>crashed := False, faults := fs, verdicts := vs, flocks := as\<rparr>"

fun run_op :: "setting \<Rightarrow> outbox_op \<Rightarrow> outbox_world \<Rightarrow> outbox_world" where
  "run_op c (OpEnqueue m i) w = snd (Enqueue (mail c) (Inr i) (disk_outbox c) m w)"
| "run_op c (OpRetry i) w = snd (Retry (charts c) (disk_outbox c) i w)"
| "run_op c OpProcess w = snd (ProcessOnce (charts c) (disk_outbox c) w)"
| "run_op c OpRecover w = snd (Recover (iteration c) (charts c) (disk_outbox c) w)"
| "run_op c (OpRestart fs vs as) w = restart fs vs as w"

fun run_ops :: "setting \<Rightarrow> outbox_op list \<Rightarrow> outbox_world \<Rightarrow> outbox_world" where
  "run_ops c [] w = w"
| "run_ops c (op # ops) w = run_ops c ops (run_op c op w)"

text \<open>How often a history asks for the delivery of an id.\<close>

fun starts :: "string \<Rightarrow> outbox_op list \<Rightarrow> nat" where
  "starts j [] = 0"
| "starts j (OpEnqueue m i # ops) = (if i = j then 1 else 0) + starts j ops"
| "starts j (OpRetry i # ops) = (if i = j then 1 else 0) + starts j ops"
| "starts j (op # ops) = starts j ops"

text \<open>The 128 random bits of an enqueued message name no record that exists.\<close>

definition unused :: "path \<Rightarrow> string \<Rightarrow> outbox_world \<Rightarrow> bool" where
  "unused root i w \<longleftrightarrow> list_all (\<lambda>s. look w (record_path root s i) = None) OutboxStates"

fun admissible :: "setting \<Rightarrow> outbox_op list \<Rightarrow> outbox_world \<Rightarrow> bool" where
  "admissible c [] w \<longleftrightarrow> True"
| "admissible c (op # ops) w \<longleftrightarrow>
     (case op of OpEnqueue m i \<Rightarrow> unused (directory c) i w \<and> 0 \<le> om_Attempts m | _ \<Rightarrow> True) \<and>
     admissible c ops (run_op c op w)"

definition libraries_documented :: "setting \<Rightarrow> bool" where
  "libraries_documented c \<longleftrightarrow> statekit_documented (charts c) \<and> orders (iteration c)"

abbreviation ledger_of :: "setting \<Rightarrow> outbox_world \<Rightarrow> ledger" where
  "ledger_of c \<equiv> outbox_view (directory c)"

lemma unused_ledger: "unused root i w \<Longrightarrow> on_disk (outbox_view root w) (s, i) = None"
  by (simp add: unused_def list_all_iff on_disk_view file_record_def)

lemma restart_ledger [simp]: "outbox_view root (restart fs vs as w) = outbox_view root w"
  by (rule view_eqI) (simp_all add: restart_def look_def)

lemma run_op_sound:
  assumes "libraries_documented c" "sound (ledger_of c w)" "admissible c (op # ops) w"
  shows "sound (ledger_of c (run_op c op w)) \<and>
    keeps_letters (ledger_of c w) (ledger_of c (run_op c op w))"
proof -
  have sk: "statekit_documented (charts c)" and ord: "orders (iteration c)"
    using assms(1) by (simp_all add: libraries_documented_def)
  show ?thesis
  proof (cases op)
    case (OpEnqueue m i)
    with assms(3) have "\<forall>s. on_disk (ledger_of c w) (s, i) = None" "0 \<le> om_Attempts m"
      by (simp_all add: unused_ledger)
    then show ?thesis
      using os.Enqueue_sound [OF surjective_pairing assms(2)] OpEnqueue
      by (simp add: disk_outbox_def)
  next
    case (OpRetry i)
    then show ?thesis
      using os.Retry_sound [OF sk surjective_pairing assms(2)] by (simp add: disk_outbox_def)
  next
    case OpProcess
    then show ?thesis
      using os.ProcessOnce_sound [OF sk surjective_pairing assms(2)] by (simp add: disk_outbox_def)
  next
    case OpRecover
    then show ?thesis
      using os.Recover_law [OF sk ord surjective_pairing assms(2)] by (simp add: disk_outbox_def)
  next
    case (OpRestart fs vs as)
    with assms(2) show ?thesis by simp
  qed
qed

lemma run_op_debt:
  assumes "libraries_documented c" "sound (ledger_of c w)"
  shows "debt (ledger_of c (run_op c op w)) j + starts j ops \<le>
    debt (ledger_of c w) j + starts j (op # ops)"
proof -
  have sk: "statekit_documented (charts c)" and ord: "orders (iteration c)"
    using assms(1) by (simp_all add: libraries_documented_def)
  show ?thesis
  proof (cases op)
    case (OpEnqueue m i)
    then show ?thesis
      using os.Enqueue_debt [OF surjective_pairing, where w = w and j = j and lib = "mail c"
          and rnd = "Inr i" and msg = m and root = "directory c" and addr = "sender_address c"]
      by (simp add: disk_outbox_def)
  next
    case (OpRetry i)
    then show ?thesis
      using os.Retry_debt [OF sk surjective_pairing assms(2), where i = i and j = j
          and addr = "sender_address c"]
      by (simp add: disk_outbox_def)
  next
    case OpProcess
    then show ?thesis
      using os.ProcessOnce_debt [OF sk surjective_pairing, where w = w and j = j
          and root = "directory c" and addr = "sender_address c"]
      by (simp add: disk_outbox_def)
  next
    case OpRecover
    then show ?thesis
      using os.Recover_law [OF sk ord surjective_pairing assms(2), where k = j
          and addr = "sender_address c"]
      by (simp add: disk_outbox_def)
  qed simp
qed

lemma run_ops_sound:
  assumes "libraries_documented c"
  shows "sound (ledger_of c w) \<Longrightarrow> admissible c ops w \<Longrightarrow>
    sound (ledger_of c (run_ops c ops w)) \<and>
    keeps_letters (ledger_of c w) (ledger_of c (run_ops c ops w)) \<and>
    debt (ledger_of c (run_ops c ops w)) j \<le> debt (ledger_of c w) j + starts j ops"
proof (induction ops arbitrary: w)
  case (Cons op ops)
  note 1 = run_op_sound [OF assms Cons.prems] and 2 = run_op_debt [OF assms Cons.prems(1), of op j ops]
  have "admissible c ops (run_op c op w)" using Cons.prems(2) by simp
  with 1 Cons.IH [of "run_op c op w"] 2 show ?case
    by simp (meson add_le_cancel_right keeps_trans le_trans)
qed simp

subsection \<open>A concrete outbox\<close>

definition identity_order :: map_order where
  "identity_order = \<lparr>dedup_order = (\<lambda>c. c), state_order = (\<lambda>c. c), strand_order = (\<lambda>c. c)\<rparr>"

definition demo :: setting where
  "demo = \<lparr>mail = plain_mail, charts = reference_statekit, iteration = identity_order,
           directory = [], sender_address = None\<rparr>"

definition demo_message :: outbound_message where
  "demo_message = empty_message\<lparr>om_To := [''a@b''], om_Body := ''hello''\<rparr>"

definition demo_dirs :: "(path \<times> record_file node) list" where
  "demo_dirs = map (\<lambda>p. (p, Dir)) ([] # map (\<lambda>s. [s]) (''tmp'' # OutboxStates))"

definition demo_disk :: "(path \<times> record_file node) list \<Rightarrow> fault list \<Rightarrow> outbox_world" where
  "demo_disk files fs =
     \<lparr>tree = files @ demo_dirs, faults = fs, crashed = False, wire = [], verdicts = [], flocks = []\<rparr>"

lemma demo_documented: "libraries_documented demo"
  by (simp add: libraries_documented_def demo_def reference_statekit_documented orders_def
      identity_order_def)

lemma demo_fields [simp]: "directory demo = []" "mail demo = plain_mail"
  by (simp_all add: demo_def)

lemma demo_record:
  "look (demo_disk files fs) (record_path [] s i) = map_of files [s, i @ ''.json'']"
proof -
  have "map_of demo_dirs [s, i @ ''.json''] = None"
    by (simp add: demo_dirs_def OutboxStates_def)
  then show ?thesis
    by (simp add: look_def demo_disk_def record_path_def map_add_def split: option.splits)
qed

lemma demo_sound: "sound (outbox_view [] (demo_disk [] fs))"
  by (rule soundI) (simp_all add: on_disk_view demo_record file_record_def split: if_splits)

subsection \<open>Properties\<close>

text \<open>C1: over any history of enqueues, retries, delivery runs, recoveries and restarts, with
  any disk error, crash or transport failure at any point, an id is handed to the wire at most
  once per enqueue or retry of it, beyond what was sent or queued before.\<close>

theorem at_most_one_delivery_per_request:
  assumes "libraries_documented c" "sound (ledger_of c w)" "admissible c ops w"
  shows "count_list (map om_ID (wire (run_ops c ops w))) j \<le>
    count_list (map om_ID (wire w)) j +
    (if look w (record_path (directory c) ''queued'' j) \<noteq> None then 1 else 0) + starts j ops"
proof -
  have "debt (ledger_of c (run_ops c ops w)) j \<le> debt (ledger_of c w) j + starts j ops"
    using run_ops_sound [OF assms] by blast
  moreover have "on_disk (ledger_of c w) (''queued'', j) \<noteq> None \<longleftrightarrow>
      look w (record_path (directory c) ''queued'' j) \<noteq> None"
    using on_disk_some_iff [of "''queued''" "directory c" w j]
    by (simp add: OutboxStates_def record_path_def)
  ultimately show ?thesis
    by (simp add: debt_def wired_def split: if_splits)
qed

theorem at_most_one_delivery_per_request_witness:
  "count_list (map om_ID (wire (run_ops demo
      [OpEnqueue demo_message ''m1'', OpProcess, OpRestart [] [] [], OpRecover, OpProcess]
      (demo_disk [] (replicate 12 Works @ [Crash]))))) ''m1'' \<le> 1"
proof -
  have "sound (ledger_of demo (demo_disk [] fs))" for fs using demo_sound by simp
  moreover have "admissible demo
      [OpEnqueue demo_message ''m1'', OpProcess, OpRestart [] [] [], OpRecover, OpProcess]
      (demo_disk [] fs)" for fs
    by (simp add: unused_def list_all_iff demo_record demo_message_def empty_message_def)
  ultimately show ?thesis
    using at_most_one_delivery_per_request [OF demo_documented, of "demo_disk [] (replicate 12 Works @ [Crash])"
      "[OpEnqueue demo_message ''m1'', OpProcess, OpRestart [] [] [], OpRecover, OpProcess]" "''m1''"]
    by (simp add: demo_record) (simp add: demo_disk_def)
qed


definition demo_queued :: outbound_message where
  "demo_queued = demo_message\<lparr>om_ID := ''m1'', om_State := ''queued''\<rparr>"

definition demo_sending :: outbound_message where
  "demo_sending = demo_queued\<lparr>om_State := ''sending'', om_Attempts := 1\<rparr>"

text \<open>A crash has left the message under two states.\<close>

definition demo_split :: "fault list \<Rightarrow> outbox_world" where
  "demo_split = demo_disk [([''queued'', ''m1.json''], File (Rec demo_queued)),
                           ([''sending'', ''m1.json''], File (Rec demo_sending))]"

lemma demo_split_record:
  "look (demo_split fs) (record_path [] s i) =
     (if i = ''m1'' \<and> s = ''queued'' then Some (File (Rec demo_queued))
      else if i = ''m1'' \<and> s = ''sending'' then Some (File (Rec demo_sending)) else None)"
  unfolding demo_split_def demo_record by (simp add: append_eq_Cons_conv)

lemmas demo_message_defs = demo_queued_def demo_sending_def demo_message_def empty_message_def

lemma demo_split_sound: "sound (outbox_view [] (demo_split fs))"
  by (rule soundI)
    (auto simp: on_disk_view demo_split_record file_record_def demo_message_defs letter_def
      OutboxStates_def split: if_splits)


text \<open>C3: after a recovery on a working disk every undamaged id is left in exactly one state,
  the one the surviving copy says (failed where that copy was caught in sending), so none is
  left in sending; damaged ids are left as they were, and they are what recovery reports.\<close>

theorem recovery_settles_the_outbox:
  assumes "libraries_documented c" "sound (ledger_of c w)" "store_ready (directory c) w"
    and "\<forall>s i. on_disk (ledger_of c w) (s, i) \<noteq> None \<longrightarrow> validOutboxID i = None"
    and "Recover (iteration c) (charts c) (disk_outbox c) w = (x, w')"
  shows "(x = None \<longleftrightarrow> (\<forall>i. \<not> damaged_id (ledger_of c w) i)) \<and>
    (\<forall>i s. damaged_id (ledger_of c w) i \<longrightarrow>
       on_disk (ledger_of c w') (s, i) = on_disk (ledger_of c w) (s, i)) \<and>
    (\<forall>i s. \<not> damaged_id (ledger_of c w) i \<longrightarrow>
       (on_disk (ledger_of c w') (s, i) \<noteq> None \<longleftrightarrow>
        (\<exists>t. on_disk (ledger_of c w) (t, i) \<noteq> None) \<and> s = final_state (ledger_of c w) i)) \<and>
    (\<forall>i. \<not> damaged_id (ledger_of c w) i \<longrightarrow> on_disk (ledger_of c w') (''sending'', i) = None)"
proof -
  have sk: "statekit_documented (charts c)" and ord: "orders (iteration c)"
    using assms(1) by (simp_all add: libraries_documented_def)
  note ex = rs.Recover_exact [OF sk ord assms(3, 2, 4) assms(5) [unfolded disk_outbox_def]]
  have only: "on_disk (ledger_of c w') (s, i) \<noteq> None \<longleftrightarrow>
      (\<exists>t. on_disk (ledger_of c w) (t, i) \<noteq> None) \<and> s = final_state (ledger_of c w) i"
    if "\<not> damaged_id (ledger_of c w) i" for i s
  proof (cases "\<exists>t. on_disk (ledger_of c w) (t, i) \<noteq> None")
    case True
    then obtain t where "on_disk (ledger_of c w) (t, i) \<noteq> None" by blast
    with ex(3) [OF that this, of s] show ?thesis by blast
  next
    case False
    then have "\<And>t. on_disk (ledger_of c w) (t, i) = None" by blast
    from ex(4) [OF this, of s] False show ?thesis by blast
  qed
  have "final_state L i \<noteq> ''sending''" for L i by (simp add: final_state_def Let_def)
  then have "on_disk (ledger_of c w') (''sending'', i) = None"
    if "\<not> damaged_id (ledger_of c w) i" for i
    using only [OF that, of "''sending''"] by metis
  with only ex(1, 2) show ?thesis by auto
qed

lemma demo_split_view:
  "on_disk (outbox_view [] (demo_split fs)) (s, i) =
     (if i = ''m1'' \<and> s = ''queued'' then Some (Rec demo_queued)
      else if i = ''m1'' \<and> s = ''sending'' then Some (Rec demo_sending) else None)"
  by (simp add: on_disk_view demo_split_record file_record_def OutboxStates_def)

lemma demo_split_ready: "store_ready [] (demo_split [])"
proof -
  have "look (demo_split []) [s, n] \<noteq> Some Dir" for s n
    by (auto simp: look_def demo_split_def demo_disk_def demo_dirs_def OutboxStates_def)
  then show ?thesis
    by (simp add: store_ready_def healthy_def shaped_def)
      (simp add: demo_split_def demo_disk_def look_def demo_dirs_def OutboxStates_def)
qed

theorem recovery_settles_the_outbox_witness:
  "fst (Recover identity_order reference_statekit (disk_outbox demo) (demo_split [])) = None \<and>
   (\<forall>s. on_disk (outbox_view [] (snd (Recover identity_order reference_statekit (disk_outbox demo)
       (demo_split [])))) (s, ''m1'') \<noteq> None \<longleftrightarrow> s = ''failed'')"
proof -
  let ?r = "Recover identity_order reference_statekit (disk_outbox demo) (demo_split [])"
  have "final_state (outbox_view [] (demo_split [])) ''m1'' = ''failed''"
    by (simp add: final_state_def copies_at_def demo_split_view OutboxStates_def survivor_def
        choose_top_def demo_message_defs Let_def)
  moreover have "\<not> damaged_id (outbox_view [] (demo_split [])) i" for i
    by (auto simp: damaged_id_def demo_split_view)
  moreover have "\<exists>t. on_disk (outbox_view [] (demo_split [])) (t, ''m1'') \<noteq> None"
    by (auto simp: demo_split_view)
  moreover have "validOutboxID ''m1'' = None" by code_simp
  ultimately show ?thesis
    using recovery_settles_the_outbox [of demo "demo_split []" "fst ?r" "snd ?r"]
      demo_documented demo_split_sound [of "[]"] demo_split_ready
    by (auto simp: demo_def demo_split_view split: if_splits)
qed

text \<open>which of several copies survives does not depend on the order in which the copies
  are met, and where two copies are the residue of one interrupted move, made on a legal
  transition, the copy under the new state survives.\<close>

theorem survivor_is_the_newer_copy:
  assumes "mset cs = mset cs'" "cs \<noteq> []" "distinct (map fst cs)"
    and "\<forall>(s, m) \<in> set cs. s \<in> set OutboxStates \<and> 0 \<le> om_Attempts m"
  shows "survivor cs = survivor cs' \<and> (\<exists>m. (survivor cs, m) \<in> set cs) \<and>
    (\<forall>s t ev a b. lifecycle s ev = Some t \<longrightarrow> om_Attempts a \<le> om_Attempts b \<longrightarrow>
       set cs = {(s, a), (t, b)} \<longrightarrow> survivor cs = t)"
proof (intro conjI allI impI)
  from assms(1) have set: "set cs = set cs'" by (rule mset_eq_setD)
  have d': "distinct (map fst cs')" using mset_fst_distinct [OF assms(1)] assms(3) by simp
  have ok: "\<forall>(s, m) \<in> set cs. 0 \<le> om_Attempts m \<and> s \<in> set OutboxStates" using assms(4) by auto
  have att: "\<forall>(s, m) \<in> set cs. 0 \<le> om_Attempts m" using assms(4) by auto
  show "survivor cs = survivor cs'" by (rule survivor_perm [OF set assms(3) d' assms(2) ok])
  note tops = survivor_tops [OF assms(2) att assms(3)]
  have "survivor cs \<in> set (top_loop (- 1) [] cs)"
    unfolding survivor_def using tops(2) by (rule choose_top_in)
  then show "\<exists>m. (survivor cs, m) \<in> set cs" unfolding tops(1) by blast
  fix s t ev a b
  assume life: "lifecycle s ev = Some t" and ab: "om_Attempts a \<le> om_Attempts b"
    and two: "set cs = {(s, a), (t, b)}"
  have st: "s \<in> set OutboxStates" "t \<in> set OutboxStates" "t \<noteq> s"
    using lifecycle_states [OF life] by simp_all
  have "survivor cs = survivor [(s, a), (t, b)]"
    using two st(3) ok by (intro survivor_perm [OF _ assms(3) _ assms(2) ok]) auto
  also have "\<dots> = t"
    using ab life two ok st(3)
    by (auto simp: survivor_def choose_top_def staleSide_def otherThan_def lifecycle_def
        split: if_splits)
  finally show "survivor cs = t" .
qed

theorem survivor_is_the_newer_copy_witness:
  "survivor [(''sending'', demo_sending), (''queued'', demo_queued)] = ''sending''"
  using survivor_is_the_newer_copy
    [of "[(''sending'', demo_sending), (''queued'', demo_queued)]"
        "[(''sending'', demo_sending), (''queued'', demo_queued)]"]
  by (simp add: demo_message_defs OutboxStates_def survivor_def choose_top_def)

text \<open>C4: a write of a record is atomic.  Whatever fails inside it (the open, the write, the
  flush, the rename, or the process), every record on disk is afterwards either untouched or
  the complete new one, and only a write that reports success may have replaced it.\<close>

theorem record_writes_are_atomic:
  assumes "store_Write root m w = (r, w')" "om_State m \<in> set OutboxStates" "s \<in> set OutboxStates"
  shows "on_disk (outbox_view root w') (s, i) =
    (if r = Inr () \<and> (s, i) = (om_State m, om_ID m) then Some (Rec m)
     else on_disk (outbox_view root w) (s, i))"
  using store_Write_law [OF assms(1, 2)] by (auto simp: after_write_disk)

theorem record_writes_are_atomic_witness:
  "on_disk (outbox_view [] (snd (store_Write [] demo_queued (demo_split [Works, Works, Crash]))))
     (''queued'', ''m1'') = Some (Rec demo_queued)"
proof -
  obtain r w' where w: "store_Write [] demo_queued (demo_split [Works, Works, Crash]) = (r, w')"
    by force
  from record_writes_are_atomic [OF w, of "''queued''" "''m1''"] w show ?thesis
    by (simp add: demo_queued_def OutboxStates_def demo_split_view)
qed

text \<open>the statechart moves a message exactly along the lifecycle queued, sending, sent or
  failed, and back from failed to queued; every other event is refused, and sent is final.\<close>

theorem transitions_are_the_lifecycle:
  assumes "statekit_documented sk"
  shows "Transition sk s ev = Inr t \<longleftrightarrow>
    (s, ev, t) \<in> {(''queued'', ''SEND'', ''sending''), (''sending'', ''SUCCEED'', ''sent''),
                 (''sending'', ''FAIL'', ''failed''), (''failed'', ''RETRY'', ''queued'')}"
  unfolding Transition_Inr_iff [OF assms] by (auto simp: lifecycle_def split: if_splits)

theorem transitions_are_the_lifecycle_witness:
  "Transition reference_statekit ''sending'' ''FAIL'' = Inr ''failed''"
  using transitions_are_the_lifecycle [OF reference_statekit_documented] by simp

text \<open>recovery of an outbox that another process holds reports it busy and touches no
  record, however often the wait for the lock was interrupted.\<close>

theorem busy_outbox_is_left_alone:
  assumes "healthy w" "look w root = Some Dir" "look w (root @ [''.lock'']) \<noteq> Some Dir"
    and "flocks w = replicate n Interrupted @ WouldBlock # as"
    and "Recover ord sk (NewOutbox (OutboxStore root) sd) w = (x, w')"
  shows "(\<exists>e. x = Some e \<and> errors_is e ErrOutboxBusy) \<and>
    (\<forall>p. p \<noteq> root @ [''.lock''] \<longrightarrow> look w' p = look w p)"
proof -
  have loop: "flock_loop False (replicate n Interrupted @ WouldBlock # as) = (Inr False, as)"
    by (induction n) simp_all
  obtain y w1 where o: "OpenLock (root @ [''.lock'']) w = (y, w1)" by force
  have "y = Inr () \<and> flocks w1 = flocks w \<and> (\<forall>p. p \<noteq> root @ [''.lock''] \<longrightarrow> look w1 p = look w p)"
    using o assms(1-3) by (auto simp: OpenLock_def syscall_healthy look_put split: if_splits)
  with o loop assms(4)
  have "tryHold (NewOutbox (OutboxStore root) sd) w = (Inr False, w1\<lparr>flocks := as\<rparr>)"
    by (simp add: tryHold_def NewOutbox_def OutboxStore_def store_TryLock_def acquire_def
        acquireLockFile_def)
  with assms(5) \<open>y = Inr () \<and> _ \<and> _\<close> show ?thesis by (auto simp: Recover_def)
qed

theorem busy_outbox_is_left_alone_witness:
  "\<exists>e. fst (Recover identity_order reference_statekit (disk_outbox demo)
       ((demo_split [])\<lparr>flocks := [Interrupted, WouldBlock]\<rparr>)) = Some e \<and> errors_is e ErrOutboxBusy"
proof -
  let ?w = "(demo_split [])\<lparr>flocks := [Interrupted, WouldBlock]\<rparr>"
  have "healthy ?w" "look ?w [] = Some Dir" "look ?w [''.lock''] \<noteq> Some Dir"
    using ready_look [OF demo_split_ready] by simp_all
  with busy_outbox_is_left_alone [of ?w "[]" 1 "[]" identity_order reference_statekit "transport None"]
  show ?thesis by (simp add: disk_outbox_def demo_def prod_eq_iff)
qed

text \<open>a message is accepted into the outbox only when it passes validation, and then its
  queued record is complete on disk under the id the caller is given.\<close>

theorem accepted_messages_are_queued:
  assumes "Enqueue lib rnd (disk_outbox c) m w = (Inr i, w')"
  shows "rnd = Inr i \<and> Validate lib m = None \<and>
    look w' (record_path (directory c) ''queued'' i) =
      Some (File (Rec (m\<lparr>om_ID := i, om_State := ''queued''\<rparr>)))"
proof -
  let ?m = "m\<lparr>om_ID := i, om_State := ''queued''\<rparr>"
  from os.Enqueue_view [OF assms [unfolded disk_outbox_def]]
  have 1: "rnd = Inr i" "Validate lib m = None"
    and v: "ledger_of c w' = after_write ?m (ledger_of c w)" by auto
  have "on_disk (ledger_of c w') (''queued'', i) = Some (Rec ?m)"
    unfolding v after_write_disk by simp
  from on_disk_Rec [OF this]
  have "look w' (record_path (directory c) ''queued'' i) = Some (File (Rec ?m))" .
  with 1 show ?thesis by blast
qed

theorem accepted_messages_are_queued_witness:
  "look (snd (Enqueue plain_mail (Inr ''m2'') (disk_outbox demo) demo_message (demo_split [])))
     [''queued'', ''m2.json''] \<noteq> None"
proof -
  let ?m = "demo_message\<lparr>om_ID := ''m2'', om_State := ''queued''\<rparr>"
  have "Validate plain_mail demo_message = None"
    by (simp add: Validate_def demo_message_defs ValidateAddress_def contains_any_def
        line_breaks_def plain_mail_def MaxMessageBytes_def)
  moreover obtain r w' where wr: "store_Write [] ?m (demo_split []) = (r, w')" by force
  moreover have "r = Inr ()"
    using store_Write_ready [OF demo_split_ready _ wr] by (simp add: OutboxStates_def)
  ultimately have w: "Enqueue plain_mail (Inr ''m2'') (disk_outbox demo) demo_message (demo_split [])
      = (Inr ''m2'', w')"
    by (simp add: Enqueue_def disk_outbox_def NewOutbox_def OutboxStore_def)
  from accepted_messages_are_queued [OF w] w show ?thesis by (simp add: record_path_def)
qed

end
