(* ===== verification/Render.thy ===== *)
theory Render
  imports Outbound
begin

section \<open>Rendering a message (domain/render.go)\<close>

text \<open>
  The RFC 5322 text of an outbound message.  Q-encoding, quoted-printable and the
  Content-Disposition formatter are those of the standard library and are functions of a
  \<open>render_lib\<close>; base64, the multipart framing and everything the program writes itself are
  definitions.  The clock is the argument \<open>now\<close>, already formatted.
\<close>

record render_lib =
  QEncode :: "string \<Rightarrow> string"
  QuotedPrintable :: "string \<Rightarrow> string"
  FormatAttachment :: "string \<Rightarrow> string"

definition crlf :: string where "crlf = [CHR 0x0D, CHR 0x0A]"

subsection \<open>Boundaries\<close>

definition alnum :: "char \<Rightarrow> bool" where
  "alnum c \<longleftrightarrow>
     (let n = (of_char c :: nat) in (97 \<le> n \<and> n \<le> 122) \<or> (65 \<le> n \<and> n \<le> 90) \<or> (48 \<le> n \<and> n \<le> 57))"

definition boundary :: "string \<Rightarrow> string \<Rightarrow> string" where
  "boundary tag i =
     (let safe = filter alnum i;
          s = (if safe = [] then ''0'' else safe);
          b = ''bk-'' @ tag @ ''-'' @ s in
      if length b > 70 then take 70 b else b)"

text \<open>\<open>multipart.Writer.SetBoundary\<close>: one to seventy characters of the permitted set.\<close>

definition boundary_char :: "char \<Rightarrow> bool" where
  "boundary_char c \<longleftrightarrow> alnum c \<or> c \<in> set ''()+_,-./:=?' '' \<or> c = CHR 0x27"

definition SetBoundary :: "string \<Rightarrow> check" where
  "SetBoundary b =
     (if length b < 1 \<or> length b > 70 then Some (Failure ''mime: invalid boundary length'')
      else if \<not> list_all boundary_char b \<or> last b = CHR '' ''
      then Some (Failure ''mime: invalid boundary character'')
      else None)"

subsection \<open>Parts\<close>

definition part_headers :: "(string \<times> string) list \<Rightarrow> string" where
  "part_headers hs = concat (map (\<lambda>(k, v). k @ '': '' @ v @ crlf) hs) @ crlf"

text \<open>The parts a multipart writer frames, each its headers in order of name and its content.\<close>

type_synonym part = "(string \<times> string) list \<times> string"

fun frame_parts :: "string \<Rightarrow> bool \<Rightarrow> part list \<Rightarrow> string" where
  "frame_parts b first [] = crlf @ ''--'' @ b @ ''--'' @ crlf"
| "frame_parts b first ((hs, content) # ps) =
     (if first then [] else crlf) @ ''--'' @ b @ crlf @ part_headers hs @ content @
     frame_parts b False ps"

definition base64_char :: "nat \<Rightarrow> char" where
  "base64_char n =
     (if n < 26 then char_of (65 + n) else if n < 52 then char_of (71 + n)
      else if n < 62 then char_of (n - 4) else if n = 62 then CHR ''+'' else CHR ''/'')"

fun base64 :: "bytes \<Rightarrow> string" where
  "base64 [] = []"
| "base64 [a] =
     [base64_char (of_char a div 4), base64_char ((of_char a mod 4) * 16), CHR ''='', CHR ''='']"
| "base64 [a, b] =
     [base64_char (of_char a div 4),
      base64_char ((of_char a mod 4) * 16 + of_char b div 16),
      base64_char ((of_char b mod 16) * 4), CHR ''='']"
| "base64 (a # b # c # r) =
     base64_char (of_char a div 4) #
     base64_char ((of_char a mod 4) * 16 + of_char b div 16) #
     base64_char ((of_char b mod 16) * 4 + of_char c div 64) #
     base64_char (of_char c mod 64) # base64 r"

function wrap_lines :: "string \<Rightarrow> string" where
  "wrap_lines enc =
     (if length enc > 76 then take 76 enc @ crlf @ wrap_lines (drop 76 enc) else enc @ crlf)"
  by pat_completeness auto
termination by (relation "measure length") auto

declare wrap_lines.simps [simp del]

definition writeBase64Wrapped :: "bytes \<Rightarrow> string" where
  "writeBase64Wrapped content = wrap_lines (base64 content)"

definition writeTextPart :: "render_lib \<Rightarrow> string \<Rightarrow> string \<Rightarrow> part" where
  "writeTextPart lib contentType content =
     ([(''Content-Transfer-Encoding'', ''quoted-printable''), (''Content-Type'', contentType)],
      QuotedPrintable lib content)"

definition writeAttachmentPart :: "render_lib \<Rightarrow> attachment \<Rightarrow> part" where
  "writeAttachmentPart lib a =
     ([(''Content-Disposition'', FormatAttachment lib (Filename a)),
       (''Content-Transfer-Encoding'', ''base64''), (''Content-Type'', ContentType a)],
      writeBase64Wrapped (Content a))"

definition writeAlternativeParts :: "render_lib \<Rightarrow> string \<Rightarrow> string \<Rightarrow> part list" where
  "writeAlternativeParts lib plain html =
     [writeTextPart lib ''text/plain; charset=utf-8'' plain,
      writeTextPart lib ''text/html; charset=utf-8'' html]"

text \<open>The boundary in a Content-Type: printed with \<open>%q\<close>, which for its characters adds quotes.\<close>

definition multipart_type :: "string \<Rightarrow> string \<Rightarrow> string" where
  "multipart_type kind b = ''multipart/'' @ kind @ ''; boundary='' @ [CHR 0x22] @ b @ [CHR 0x22]"

definition writeAlternativePart :: "render_lib \<Rightarrow> outbound_message \<Rightarrow> error + part" where
  "writeAlternativePart lib m =
     (let b = boundary ''alt'' (om_ID m) in
      case SetBoundary b of
        Some e \<Rightarrow> Inl e
      | None \<Rightarrow>
          Inr ([(''Content-Type'', multipart_type ''alternative'' b)],
               frame_parts b True (writeAlternativeParts lib (om_Body m) (om_HTMLBody m))))"

subsection \<open>The three shapes of a message\<close>

definition renderPlain :: "render_lib \<Rightarrow> outbound_message \<Rightarrow> string" where
  "renderPlain lib m =
     ''Content-Type: text/plain; charset=utf-8'' @ crlf @
     ''Content-Transfer-Encoding: quoted-printable'' @ crlf @ crlf @ QuotedPrintable lib (om_Body m)"

definition renderAlternative :: "render_lib \<Rightarrow> outbound_message \<Rightarrow> error + string" where
  "renderAlternative lib m =
     (let b = boundary ''alt'' (om_ID m) in
      case SetBoundary b of
        Some e \<Rightarrow> Inl e
      | None \<Rightarrow>
          Inr (''Content-Type: '' @ multipart_type ''alternative'' b @ crlf @ crlf @
               frame_parts b True (writeAlternativeParts lib (om_Body m) (om_HTMLBody m))))"

definition renderMixed :: "render_lib \<Rightarrow> outbound_message \<Rightarrow> error + string" where
  "renderMixed lib m =
     (let b = boundary ''mixed'' (om_ID m) in
      case SetBoundary b of
        Some e \<Rightarrow> Inl e
      | None \<Rightarrow>
          (case (if om_HTMLBody m \<noteq> [] then writeAlternativePart lib m
                 else Inr (writeTextPart lib ''text/plain; charset=utf-8'' (om_Body m))) of
             Inl e \<Rightarrow> Inl e
           | Inr p \<Rightarrow>
               Inr (''Content-Type: '' @ multipart_type ''mixed'' b @ crlf @ crlf @
                    frame_parts b True (p # map (writeAttachmentPart lib) (om_Attachments m)))))"

fun references_loop :: "string \<Rightarrow> ids \<Rightarrow> string" where
  "references_loop line [] = line @ crlf"
| "references_loop line (r # rs) =
     (if line \<noteq> [] \<and> length line + 1 + length r > 76
      then line @ crlf @ references_loop ('' '' @ r) rs
      else references_loop (line @ '' '' @ r) rs)"

definition writeReferences :: "ids \<Rightarrow> string" where
  "writeReferences refs = (if length refs = 0 then [] else references_loop ''References:'' refs)"

definition RenderRFC5322 ::
  "render_lib \<Rightarrow> string \<Rightarrow> outbound_message \<Rightarrow> string \<Rightarrow> error + string" where
  "RenderRFC5322 lib sender m now =
     (let head =
        ''From: '' @ sender @ crlf @
        ''To: '' @ join '', '' (om_To m) @ crlf @
        (if length (om_Cc m) > 0 then ''Cc: '' @ join '', '' (om_Cc m) @ crlf else []) @
        ''Subject: '' @ QEncode lib (om_Subject m) @ crlf @
        ''Date: '' @ now @ crlf @
        ''Message-Id: <'' @ om_ID m @ ''@briefkasten>'' @ crlf @
        (if om_InReplyTo m \<noteq> [] then ''In-Reply-To: '' @ om_InReplyTo m @ crlf else []) @
        writeReferences (om_References m) @
        ''MIME-Version: 1.0'' @ crlf in
      case (if om_HTMLBody m = [] \<and> length (om_Attachments m) = 0 then Inr (renderPlain lib m)
            else if length (om_Attachments m) = 0 then renderAlternative lib m
            else renderMixed lib m) of
        Inl e \<Rightarrow> Inl e
      | Inr rest \<Rightarrow> Inr (head @ rest))"

subsection \<open>Boundaries are always acceptable\<close>

definition boundary_safe :: "char \<Rightarrow> bool" where
  "boundary_safe c \<longleftrightarrow> boundary_char c \<and> c \<noteq> CHR '' ''"

lemma alnum_safe: "alnum c \<Longrightarrow> boundary_safe c"
  by (auto simp: boundary_safe_def boundary_char_def alnum_def)

lemma boundary_prefix_safe: "list_all boundary_safe ''bk-'' \<and> list_all boundary_safe ''-'' \<and>
    list_all alnum ''alt'' \<and> list_all alnum ''mixed'' \<and> alnum CHR ''0''"
  by code_simp

lemma boundary_accepted:
  assumes "list_all alnum tag"
  shows "SetBoundary (boundary tag i) = None"
proof -
  define s where "s = (if filter alnum i = [] then ''0'' else filter alnum i)"
  have s: "list_all boundary_safe s"
    unfolding s_def list_all_iff using alnum_safe boundary_prefix_safe by auto
  have "list_all boundary_safe tag" using assms alnum_safe by (simp add: list_all_iff)
  with s boundary_prefix_safe have all: "list_all boundary_safe (''bk-'' @ tag @ ''-'' @ s)"
    by simp
  have b: "boundary tag i = take 70 (''bk-'' @ tag @ ''-'' @ s)"
    unfolding boundary_def Let_def s_def [symmetric] by simp
  have "list_all boundary_safe (boundary tag i)"
    unfolding b using all by (metis append_take_drop_id list_all_append)
  moreover have "length (boundary tag i) \<le> 70" "boundary tag i \<noteq> []" unfolding b by auto
  moreover from this(2) have "last (boundary tag i) \<in> set (boundary tag i)" by (rule last_in_set)
  ultimately show ?thesis
    by (auto simp: SetBoundary_def list_all_iff boundary_safe_def Suc_le_eq)
qed

lemma boundaries_accepted [simp]:
  "SetBoundary (boundary ''alt'' i) = None" "SetBoundary (boundary ''mixed'' i) = None"
  using boundary_prefix_safe by (simp_all add: boundary_accepted)

subsection \<open>Lines\<close>

text \<open>Unfolding a folded header: its line breaks vanish.\<close>

definition no_breaks :: "string \<Rightarrow> string" where
  "no_breaks s = filter (\<lambda>c. c \<notin> set crlf) s"

text \<open>The lines of a text, each ended by a CRLF.\<close>

definition of_lines :: "string list \<Rightarrow> string" where
  "of_lines ls = concat (map (\<lambda>l. l @ crlf) ls)"

lemma no_breaks_single: "single_line s \<Longrightarrow> no_breaks s = s"
  by (auto simp: no_breaks_def single_line_def line_breaks_def crlf_def intro!: filter_True)

lemma no_breaks_simps [simp]:
  "no_breaks (a @ b) = no_breaks a @ no_breaks b" "no_breaks crlf = []" "no_breaks [] = []"
  by (simp_all add: no_breaks_def crlf_def)

lemma of_lines_simps [simp]:
  "of_lines [] = []" "of_lines (l # ls) = l @ crlf @ of_lines ls"
  "of_lines (xs @ ys) = of_lines xs @ of_lines ys"
  by (simp_all add: of_lines_def)

lemma references_loop_lines:
  assumes "\<forall>r \<in> set rs. single_line r" "single_line line"
  shows "\<exists>ls. references_loop line rs = of_lines ls \<and> ls \<noteq> [] \<and>
    concat ls = line @ concat (map (\<lambda>r. '' '' @ r) rs) \<and>
    (\<forall>l \<in> set ls. single_line l \<and>
       (length l \<le> 76 \<or> l = line \<or> (\<exists>r \<in> set rs. l = '' '' @ r))) \<and>
    (\<exists>tail. hd ls = line @ tail) \<and> (\<forall>l \<in> set (tl ls). \<exists>t. l = '' '' @ t)"
  using assms
proof (induction line rs rule: references_loop.induct)
  case (1 line)
  then show ?case by (intro exI [of _ "[line]"]) simp
next
  case (2 line r rs)
  show ?case
  proof (cases "line \<noteq> [] \<and> length line + 1 + length r > 76")
    case True
    have "single_line ('' '' @ r)" using 2(3) by (auto simp: single_line_def line_breaks_def)
    with 2(1) [OF True] 2(3) obtain ls where ls: "references_loop ('' '' @ r) rs = of_lines ls" "ls \<noteq> []"
      "concat ls = ('' '' @ r) @ concat (map (\<lambda>r. '' '' @ r) rs)"
      "\<forall>l \<in> set ls. single_line l \<and> (length l \<le> 76 \<or> l = '' '' @ r \<or> (\<exists>r \<in> set rs. l = '' '' @ r))"
      "\<exists>tail. hd ls = ('' '' @ r) @ tail" "\<forall>l \<in> set (tl ls). \<exists>t. l = '' '' @ t" by auto
    from ls(2, 5, 6) have "\<forall>l \<in> set ls. \<exists>t. l = '' '' @ t"
      by (cases ls) auto
    with True ls 2(4) show ?thesis by (intro exI [of _ "line # ls"]) auto
  next
    case False
    have "single_line (line @ '' '' @ r)"
      using 2(3, 4) by (auto simp: single_line_def line_breaks_def)
    with 2(2) [OF False] 2(3) obtain ls where ls: "references_loop (line @ '' '' @ r) rs = of_lines ls"
      "ls \<noteq> []" "concat ls = (line @ '' '' @ r) @ concat (map (\<lambda>r. '' '' @ r) rs)"
      "\<forall>l \<in> set ls. single_line l \<and>
         (length l \<le> 76 \<or> l = line @ '' '' @ r \<or> (\<exists>r \<in> set rs. l = '' '' @ r))"
      "\<exists>tail. hd ls = (line @ '' '' @ r) @ tail" "\<forall>l \<in> set (tl ls). \<exists>t. l = '' '' @ t" by auto
    have "length (line @ '' '' @ r) \<le> 76 \<or> line @ '' '' @ r = '' '' @ r" using False by auto
    with False ls show ?thesis
      by (intro exI [of _ ls]) (auto split: if_splits)
  qed
qed

lemma wrap_lines_spec:
  "set enc \<inter> set crlf = {} \<Longrightarrow>
   \<exists>ls. wrap_lines enc = of_lines ls \<and> concat ls = enc \<and> (\<forall>l \<in> set ls. length l \<le> 76)"
proof (induction enc rule: wrap_lines.induct)
  case (1 enc)
  show ?case
  proof (cases "length enc > 76")
    case True
    have "set (drop 76 enc) \<inter> set crlf = {}"
      using 1(2) set_drop_subset [of 76 enc] by blast
    with 1(1) [OF True] obtain ls where ls: "wrap_lines (drop 76 enc) = of_lines ls"
      "concat ls = drop 76 enc" "\<forall>l \<in> set ls. length l \<le> 76" by blast
    with True show ?thesis
      by (intro exI [of _ "take 76 enc # ls"]) (simp add: wrap_lines.simps [of enc])
  next
    case False
    then show ?thesis by (intro exI [of _ "[enc]"]) (simp add: wrap_lines.simps [of enc])
  qed
qed

lemma base64_length: "length (base64 s) = 4 * ((length s + 2) div 3)"
  by (induction s rule: base64.induct) (auto, presburger)

lemma single_line_append [simp]: "single_line (a @ b) \<longleftrightarrow> single_line a \<and> single_line b"
  by (auto simp: single_line_def)

lemma single_line_Cons [simp]:
  "single_line (c # s) \<longleftrightarrow> c \<notin> set line_breaks \<and> single_line s"
  by (auto simp: single_line_def)

lemma single_line_Nil [simp]: "single_line []"
  by (simp add: single_line_def)

lemma single_line_join: "\<forall>x \<in> set xs. single_line x \<Longrightarrow> single_line sep \<Longrightarrow> single_line (join sep xs)"
  by (induction sep xs rule: join.induct) auto

definition base64_alphabet :: "char \<Rightarrow> bool" where
  "base64_alphabet x \<longleftrightarrow> x \<noteq> CHR 0x0D \<and> x \<noteq> CHR 0x0A"

lemma base64_char_alphabet: "n < 64 \<Longrightarrow> base64_alphabet (base64_char n)"
proof -
  have "\<forall>n \<in> set [0..<64]. base64_alphabet (base64_char n)" by code_simp
  then show "n < 64 \<Longrightarrow> base64_alphabet (base64_char n)" by simp
qed

lemma sextets:
  fixes x y :: nat
  assumes "x < 256" "y < 256"
  shows "x div 4 < 64" "x mod 4 * 16 < 64" "x mod 4 * 16 + y div 16 < 64" "x mod 16 * 4 < 64"
    "x mod 16 * 4 + y div 64 < 64" "x mod 64 < 64"
proof -
  have "x mod 4 \<le> 3" "x mod 16 \<le> 15" "y div 16 < 16" "y div 64 < 4"
    using assms by (simp_all add: less_mult_imp_div_less)
  with assms show "x div 4 < 64" "x mod 4 * 16 < 64" "x mod 4 * 16 + y div 16 < 64"
    "x mod 16 * 4 < 64" "x mod 16 * 4 + y div 64 < 64" "x mod 64 < 64"
    by (linarith | simp add: less_mult_imp_div_less)+
qed

lemma sextet1: "(x :: nat) < 256 \<Longrightarrow> x div 4 < 64" "(x :: nat) mod 4 * 16 < 64" "(x :: nat) mod 16 * 4 < 64"
  by (simp_all add: less_mult_imp_div_less)

lemma base64_chars: "list_all base64_alphabet (base64 s)"
  by (induction s rule: base64.induct)
    (simp_all add: base64_char_alphabet sextets sextet1, simp_all add: base64_alphabet_def)

subsection \<open>Properties\<close>

text \<open>The field names a rendered message may carry before its MIME headers.\<close>

definition written_fields :: "string list" where
  "written_fields = [''From: '', ''To: '', ''Cc: '', ''Subject: '', ''Date: '', ''Message-Id: '',
     ''In-Reply-To: '', ''References:'', '' '', ''MIME-Version: '']"

lemma references_lines:
  assumes "\<forall>r \<in> set refs. single_line r"
  shows "\<exists>ls. writeReferences refs = of_lines ls \<and>
    (\<forall>l \<in> set ls. single_line l \<and> (\<exists>p \<in> set [''References:'', '' '']. has_prefix l p) \<and>
       (length l \<le> 76 \<or> (\<exists>r \<in> set refs. l = '' '' @ r))) \<and>
    (refs \<noteq> [] \<longrightarrow> concat ls = ''References:'' @ concat (map (\<lambda>r. '' '' @ r) refs))"
proof (cases "refs = []")
  case False
  have "single_line ''References:''" by (simp add: line_breaks_def)
  from references_loop_lines [OF assms this] obtain ls where
    ls: "references_loop ''References:'' refs = of_lines ls" "ls \<noteq> []"
      "concat ls = ''References:'' @ concat (map (\<lambda>r. '' '' @ r) refs)"
      "\<forall>l \<in> set ls. single_line l \<and>
         (length l \<le> 76 \<or> l = ''References:'' \<or> (\<exists>r \<in> set refs. l = '' '' @ r))"
      "\<exists>tail. hd ls = ''References:'' @ tail" "\<forall>l \<in> set (tl ls). \<exists>t. l = '' '' @ t" by blast
  have "\<exists>p \<in> set [''References:'', '' '']. has_prefix l p" if "l \<in> set ls" for l
  proof (cases "l = hd ls")
    case True
    with ls(5) show ?thesis by (auto simp: has_prefix_iff)
  next
    case neq: False
    with that ls(2) have "l \<in> set (tl ls)" by (cases ls) auto
    with ls(6) show ?thesis by (auto simp: has_prefix_iff)
  qed
  moreover have "length l \<le> 76 \<or> (\<exists>r \<in> set refs. l = '' '' @ r)" if "l \<in> set ls" for l
    using ls(4) that by auto
  ultimately show ?thesis using ls(1, 3, 4) False
    by (intro exI [of _ ls]) (simp add: writeReferences_def)
qed (intro exI [of _ "[]"], simp add: writeReferences_def)

lemma rendered_rest:
  "\<exists>rest. (if om_HTMLBody m = [] \<and> length (om_Attachments m) = 0 then Inr (renderPlain lib m)
      else if length (om_Attachments m) = 0 then renderAlternative lib m else renderMixed lib m) = Inr rest
     \<and> has_prefix rest ''Content-Type: ''"
proof -
  have "\<exists>rest. renderAlternative lib m = Inr rest \<and> has_prefix rest ''Content-Type: ''"
    by (simp add: renderAlternative_def Let_def has_prefix_def)
  moreover have "\<exists>rest. renderMixed lib m = Inr rest \<and> has_prefix rest ''Content-Type: ''"
    by (cases "om_HTMLBody m = []")
      (simp_all add: renderMixed_def writeAlternativePart_def Let_def has_prefix_def)
  moreover have "has_prefix (renderPlain lib m) ''Content-Type: ''"
    by (simp add: renderPlain_def has_prefix_def)
  ultimately show ?thesis by auto
qed

text \<open>C6: a validated message always renders, and nothing in it can add a header.  The text up to
  the MIME headers is a sequence of lines that each open with one of the fields the renderer
  writes, so no recipient, threading id or subject can smuggle a line in, and the list of
  blind copies is in none of them; every References line is at most 76 characters or a single id.\<close>

theorem rendered_headers_are_the_written_ones:
  assumes "Validate ml m = None" "single_line sender" "single_line now" "single_line (om_ID m)"
    and "\<forall>s. single_line (QEncode lib s)"
  shows "\<exists>ls rest. RenderRFC5322 lib sender m now = Inr (of_lines ls @ rest) \<and>
    has_prefix rest ''Content-Type: '' \<and>
    (\<forall>l \<in> set ls. single_line l \<and> (\<exists>p \<in> set written_fields. has_prefix l p)) \<and>
    (\<forall>bcc. RenderRFC5322 lib sender (m\<lparr>om_Bcc := bcc\<rparr>) now = RenderRFC5322 lib sender m now)"
proof -
  have addr: "single_line a" if "a \<in> set (om_To m @ om_Cc m @ om_Bcc m)" for a
    using Validate_None(2) [OF assms(1)] that by (auto simp: ValidateAddress_None_iff)
  have lists: "single_line (join '', '' (om_To m))" "single_line (join '', '' (om_Cc m))"
    by (rule single_line_join; use addr in \<open>simp add: line_breaks_def\<close>)+
  have reply: "single_line (om_InReplyTo m)"
    using Validate_None(3) [OF assms(1)] ValidateMessageID_None(1)
    by (cases "om_InReplyTo m = []") auto
  have "\<forall>r \<in> set (om_References m). single_line r"
    using Validate_None(4) [OF assms(1)] ValidateMessageID_None(1) by blast
  from references_lines [OF this] obtain rls where rls: "writeReferences (om_References m) = of_lines rls"
    "\<forall>l \<in> set rls. single_line l \<and> (\<exists>p \<in> set [''References:'', '' '']. has_prefix l p)" by blast
  let ?ls = "[''From: '' @ sender, ''To: '' @ join '', '' (om_To m)] @
    (if om_Cc m \<noteq> [] then [''Cc: '' @ join '', '' (om_Cc m)] else []) @
    [''Subject: '' @ QEncode lib (om_Subject m), ''Date: '' @ now,
     ''Message-Id: <'' @ om_ID m @ ''@briefkasten>''] @
    (if om_InReplyTo m \<noteq> [] then [''In-Reply-To: '' @ om_InReplyTo m] else []) @ rls @
    [''MIME-Version: 1.0'']"
  let ?lines = "[''From: '' @ sender, ''To: '' @ join '', '' (om_To m), ''Cc: '' @ join '', '' (om_Cc m),
     ''Subject: '' @ QEncode lib (om_Subject m), ''Date: '' @ now,
     ''Message-Id: <'' @ om_ID m @ ''@briefkasten>'', ''In-Reply-To: '' @ om_InReplyTo m,
     ''MIME-Version: 1.0'']"
  have single: "\<forall>l \<in> set ?lines. single_line l"
    using lists reply assms(2-5) by (simp add: line_breaks_def)
  have fields: "\<forall>l \<in> set ?lines. \<exists>p \<in> set written_fields. has_prefix l p"
    by (simp add: written_fields_def has_prefix_def)
  have sub: "set ?ls \<subseteq> set ?lines \<union> set rls" by auto
  have refs: "\<forall>l \<in> set rls. \<exists>p \<in> set written_fields. has_prefix l p"
    using rls(2) by (fastforce simp: written_fields_def)
  have ok: "\<forall>l \<in> set ?ls. single_line l \<and> (\<exists>p \<in> set written_fields. has_prefix l p)"
    using sub single fields refs rls(2) by blast
  obtain rest where rest: "(if om_HTMLBody m = [] \<and> length (om_Attachments m) = 0 then Inr (renderPlain lib m)
      else if length (om_Attachments m) = 0 then renderAlternative lib m else renderMixed lib m) = Inr rest"
    "has_prefix rest ''Content-Type: ''"
    using rendered_rest by blast
  then have "RenderRFC5322 lib sender m now = Inr (of_lines ?ls @ rest)"
    by (simp add: RenderRFC5322_def rls(1))
  moreover have "RenderRFC5322 lib sender (m\<lparr>om_Bcc := bcc\<rparr>) now = RenderRFC5322 lib sender m now" for bcc
  proof -
    have "renderPlain lib (m\<lparr>om_Bcc := bcc\<rparr>) = renderPlain lib m"
      "renderAlternative lib (m\<lparr>om_Bcc := bcc\<rparr>) = renderAlternative lib m"
      "renderMixed lib (m\<lparr>om_Bcc := bcc\<rparr>) = renderMixed lib m"
      by (simp_all add: renderPlain_def renderAlternative_def renderMixed_def
          writeAlternativePart_def Let_def cong: if_cong sum.case_cong)
    then show ?thesis by (simp add: RenderRFC5322_def cong: if_cong)
  qed
  ultimately show ?thesis using ok rest(2) by blast
qed

definition plain_render :: render_lib where
  "plain_render = \<lparr>QEncode = filter (\<lambda>c. c \<notin> set line_breaks), QuotedPrintable = (\<lambda>s. s),
                   FormatAttachment = (\<lambda>f. ''attachment'')\<rparr>"

theorem rendered_headers_are_the_written_ones_witness:
  "\<exists>ls rest. RenderRFC5322 plain_render ''me@x''
       (empty_message\<lparr>om_To := [''a@b''], om_Bcc := [''s@x''], om_Body := ''hi''\<rparr>) ''now'' =
     Inr (of_lines ls @ rest) \<and> (\<forall>l \<in> set ls. single_line l)"
proof -
  let ?m = "empty_message\<lparr>om_To := [''a@b''], om_Bcc := [''s@x''], om_Body := ''hi''\<rparr>"
  have "Validate plain_mail ?m = None"
    by (simp add: Validate_def empty_message_def ValidateAddress_def contains_any_def
        line_breaks_def plain_mail_def MaxMessageBytes_def)
  moreover have "single_line ''me@x''" "single_line ''now''" "single_line (om_ID ?m)"
    "\<forall>s. single_line (QEncode plain_render s)"
    by (auto simp: line_breaks_def empty_message_def plain_render_def single_line_def)
  ultimately show ?thesis
    using rendered_headers_are_the_written_ones [of plain_mail ?m "''me@x''" "''now''" plain_render]
    by blast
qed

text \<open>an attachment is written as the base64 of its content in lines of at most 76
  characters, nothing lost at the line ends, and the boundary derived from any message id is
  one the multipart writer accepts.\<close>

theorem attachments_are_wrapped_base64:
  "(\<exists>ls. writeBase64Wrapped content = of_lines ls \<and> concat ls = base64 content \<and>
      (\<forall>l \<in> set ls. length l \<le> 76)) \<and>
   length (base64 content) = 4 * ((length content + 2) div 3) \<and>
   SetBoundary (boundary ''alt'' i) = None \<and> SetBoundary (boundary ''mixed'' i) = None"
proof -
  have "set (base64 content) \<inter> set crlf = {}"
    using base64_chars [of content] by (auto simp: list_all_iff crlf_def base64_alphabet_def)
  from wrap_lines_spec [OF this] show ?thesis
    by (simp add: writeBase64Wrapped_def base64_length)
qed

theorem attachments_are_wrapped_base64_witness:
  "\<exists>ls. writeBase64Wrapped ''hello'' = of_lines ls \<and> concat ls = ''aGVsbG8=''"
proof -
  have "base64 ''hello'' = ''aGVsbG8=''" by code_simp
  with attachments_are_wrapped_base64 [of "''hello''"] show ?thesis by metis
qed

end
