(* ===== verification/Maildir.thy ===== *)
theory Maildir
  imports Filesystem Service Render
begin

section \<open>The local mailbox (infrastructure/maildir/maildir.go, sender.go, mailheaders)\<close>

text \<open>
  The Maildir backend on the file system of theory Filesystem, with the bytes of a message as
  the content of a file.  A mailbox is the Go struct: its root, the root of the account it is
  a folder of, and the batch ceiling.  Every operation asks the context once at its door.
  Wrapped errors keep what \<open>errors.Is\<close> sees.  Symbolic links do not occur, so \<open>Lstat\<close> is
  \<open>Stat\<close>.
\<close>

type_synonym disk = "bytes fs"

record maildir =
  m_root :: path
  m_base :: path
  maxBulkIDs :: int

definition bad_id :: "string \<Rightarrow> error" where "bad_id i = Wraps ErrBadID [Str i]"

text \<open>Running an operation unless the context has ended.\<close>

definition at_the_door :: "'w ctx \<Rightarrow> ('w, 'a) effect \<Rightarrow> ('w, 'a) effect" where
  "at_the_door cx f w = (case cx w of Some e \<Rightarrow> (Inl e, w) | None \<Rightarrow> f w)"

subsection \<open>Construction\<close>

fun make_dirs :: "path list \<Rightarrow> (bytes, 'x) fs_scheme \<Rightarrow> (error + unit) \<times> (bytes, 'x) fs_scheme" where
  "make_dirs [] w = (Inr (), w)"
| "make_dirs (p # ps) w =
     (case MkdirAll p w of
        (Inl e, w1) \<Rightarrow> (Inl e, w1)
      | (Inr _, w1) \<Rightarrow> make_dirs ps w1)"

definition NewWithBulkLimit :: "path \<Rightarrow> int \<Rightarrow> (disk, maildir) effect" where
  "NewWithBulkLimit root limit w =
     (case make_dirs [root @ [''new''], root @ [''cur'']] w of
        (Inl e, w1) \<Rightarrow> (Inl e, w1)
      | (Inr _, w1) \<Rightarrow>
          (Inr \<lparr>m_root = root, m_base = root, maxBulkIDs = effective_limit limit\<rparr>, w1))"

definition New :: "path \<Rightarrow> (disk, maildir) effect" where
  "New root = NewWithBulkLimit root MaxBulkIDs"

definition BulkLimit :: "maildir \<Rightarrow> int" where "BulkLimit m = maxBulkIDs m"

definition SetBulkLimit :: "int \<Rightarrow> maildir \<Rightarrow> maildir" where
  "SetBulkLimit limit m = m\<lparr>maxBulkIDs := effective_limit limit\<rparr>"

subsection \<open>Naming a message\<close>

definition safePath :: "maildir \<Rightarrow> string \<Rightarrow> string \<Rightarrow> error + path" where
  "safePath m sub i =
     (if i = [] \<or> i \<noteq> base i \<or> has_prefix i ''.'' then Inl (bad_id i)
      else Inr (join_path (m_root m @ [sub]) i))"

definition locate :: "maildir \<Rightarrow> string \<Rightarrow> (disk, path) effect" where
  "locate m i w =
     (case safePath m ''new'' i of
        Inl e \<Rightarrow> (Inl e, w)
      | Inr newPath \<Rightarrow>
          (case Stat newPath w of
             (Inr _, w1) \<Rightarrow> (Inr newPath, w1)
           | (Inl _, w1) \<Rightarrow>
               (case safePath m ''cur'' i of
                  Inl e \<Rightarrow> (Inl e, w1)
                | Inr curPath \<Rightarrow>
                    (case Stat curPath w1 of
                       (Inr _, w2) \<Rightarrow> (Inr curPath, w2)
                     | (Inl _, w2) \<Rightarrow> (Inl (bad_id i), w2)))))"

subsection \<open>Listing\<close>

text \<open>One directory's entries: files only, each name once.\<close>

fun list_entries :: "string set \<Rightarrow> (string \<times> bool) list \<Rightarrow> ids \<times> string set" where
  "list_entries seen [] = ([], seen)"
| "list_entries seen ((n, is_dir) # es) =
     (if is_dir \<or> n \<in> seen then list_entries seen es
      else (case list_entries (insert n seen) es of (ns, s) \<Rightarrow> (n # ns, s)))"

fun list_subs :: "path \<Rightarrow> string set \<Rightarrow> string list \<Rightarrow> (disk, ids) effect" where
  "list_subs root seen [] w = (Inr [], w)"
| "list_subs root seen (sub # subs) w =
     (case ReadDir (root @ [sub]) w of
        (Inl e, w1) \<Rightarrow> (Inl e, w1)
      | (Inr entries, w1) \<Rightarrow>
          (case list_entries seen entries of
             (ns, seen1) \<Rightarrow>
               (case list_subs root seen1 subs w1 of
                  (Inl e, w2) \<Rightarrow> (Inl e, w2)
                | (Inr rest, w2) \<Rightarrow> (Inr (ns @ rest), w2))))"

definition scope_subs :: "scope \<Rightarrow> error + string list" where
  "scope_subs scope =
     (if scope = ScopeUnread then Inr [''new'']
      else if scope = ScopeRead then Inr [''cur'']
      else if scope = ScopeAll then Inr [''new'', ''cur'']
      else Inl (Wraps ErrBadScope [Str scope]))"

definition List :: "disk ctx \<Rightarrow> maildir \<Rightarrow> scope \<Rightarrow> (disk, ids) effect" where
  "List cx m scope =
     at_the_door cx (\<lambda>w.
       case scope_subs scope of
         Inl e \<Rightarrow> (Inl e, w)
       | Inr subs \<Rightarrow>
           (case list_subs (m_root m) {} subs w of
              (Inl e, w1) \<Rightarrow> (Inl e, w1)
            | (Inr ids, w1) \<Rightarrow> (Inr (sort ids), w1)))"

definition ListUnread :: "disk ctx \<Rightarrow> maildir \<Rightarrow> (disk, ids) effect" where
  "ListUnread cx m = List cx m ScopeUnread"

subsection \<open>Reading\<close>

fun fetch_subs :: "maildir \<Rightarrow> string list \<Rightarrow> string \<Rightarrow> (disk, bytes) effect" where
  "fetch_subs m [] i w = (Inl (bad_id i), w)"
| "fetch_subs m (sub # subs) i w =
     (case safePath m sub i of
        Inl e \<Rightarrow> (Inl e, w)
      | Inr p \<Rightarrow>
          (case ReadFile p w of
             (Inr raw, w1) \<Rightarrow> (Inr raw, w1)
           | (Inl e, w1) \<Rightarrow>
               (if errors_is e ErrNotExist then fetch_subs m subs i w1 else (Inl e, w1))))"

definition Fetch :: "disk ctx \<Rightarrow> maildir \<Rightarrow> string \<Rightarrow> (disk, bytes) effect" where
  "Fetch cx m i = at_the_door cx (fetch_subs m [''new'', ''cur''] i)"

definition header_value :: "mail_lib \<Rightarrow> raw_mail \<Rightarrow> string \<Rightarrow> string" where
  "header_value lib msg name =
     (case DecodeHeader lib (HeaderGet msg name) of
        Some d \<Rightarrow> d
      | None \<Rightarrow> HeaderGet msg name)"

definition Parse :: "mail_lib \<Rightarrow> bytes \<Rightarrow> message_headers" where
  "Parse lib raw =
     (case ReadMessage lib raw of
        None \<Rightarrow> \<lparr>From = [], To = [], Subject = [], Date = [], MessageID = []\<rparr>
      | Some msg \<Rightarrow>
          \<lparr>From = header_value lib msg ''From'', To = header_value lib msg ''To'',
           Subject = header_value lib msg ''Subject'', Date = HeaderGet msg ''Date'',
           MessageID = HeaderGet msg ''Message-Id''\<rparr>)"

definition FetchHeaders ::
  "mail_lib \<Rightarrow> disk ctx \<Rightarrow> maildir \<Rightarrow> string \<Rightarrow> (disk, message_headers) effect" where
  "FetchHeaders lib cx m i w =
     (case Fetch cx m i w of
        (Inl e, w1) \<Rightarrow> (Inl e, w1)
      | (Inr raw, w1) \<Rightarrow> (Inr (Parse lib raw), w1))"

fun headers_loop ::
  "mail_lib \<Rightarrow> disk ctx \<Rightarrow> maildir \<Rightarrow> headers_answer \<Rightarrow> ids \<Rightarrow> disk \<Rightarrow> headers_answer \<times> disk" where
  "headers_loop lib cx m ans [] w = (ans, w)"
| "headers_loop lib cx m (result, failures) (i # is) w =
     (case cx w of
        Some e \<Rightarrow> headers_loop lib cx m (result, failures(i \<mapsto> e)) is w
      | None \<Rightarrow>
          (case FetchHeaders lib cx m i w of
             (Inl e, w1) \<Rightarrow> headers_loop lib cx m (result, failures(i \<mapsto> e)) is w1
           | (Inr h, w1) \<Rightarrow> headers_loop lib cx m (result(i \<mapsto> h), failures) is w1))"

definition FetchHeadersMany ::
  "mail_lib \<Rightarrow> disk ctx \<Rightarrow> maildir \<Rightarrow> ids \<Rightarrow> disk \<Rightarrow> headers_answer \<times> disk" where
  "FetchHeadersMany lib cx m is = headers_loop lib cx m (Map.empty, Map.empty) is"

text \<open>The size on disk: of a file its length, of a directory what the file system says.\<close>

definition node_size :: "int64 \<Rightarrow> bytes node \<Rightarrow> int64" where
  "node_size dir_size n = (case n of File c \<Rightarrow> of_nat (length c) | Dir \<Rightarrow> dir_size)"

fun sizes_loop ::
  "int64 \<Rightarrow> maildir \<Rightarrow> (string \<rightharpoonup> int64) \<Rightarrow> ids \<Rightarrow> (disk, string \<rightharpoonup> int64) effect" where
  "sizes_loop ds m out [] w = (Inr out, w)"
| "sizes_loop ds m out (i # is) w =
     (case locate m i w of
        (Inl _, w1) \<Rightarrow> sizes_loop ds m out is w1
      | (Inr p, w1) \<Rightarrow>
          (case Stat p w1 of
             (Inl e, w2) \<Rightarrow>
               (if errors_is e ErrNotExist then sizes_loop ds m out is w2 else (Inl e, w2))
           | (Inr n, w2) \<Rightarrow> sizes_loop ds m (out(i \<mapsto> node_size ds n)) is w2))"

definition Sizes :: "int64 \<Rightarrow> disk ctx \<Rightarrow> maildir \<Rightarrow> ids \<Rightarrow> (disk, string \<rightharpoonup> int64) effect" where
  "Sizes ds cx m is = at_the_door cx (sizes_loop ds m Map.empty is)"

subsection \<open>Searching\<close>

fun search_loop :: "disk ctx \<Rightarrow> maildir \<Rightarrow> string \<Rightarrow> ids \<Rightarrow> (disk, ids) effect" where
  "search_loop cx m needle [] w = (Inr [], w)"
| "search_loop cx m needle (i # is) w =
     (case Fetch cx m i w of
        (Inl e, w1) \<Rightarrow>
          (if cx w1 \<noteq> None then (Inl e, w1) else search_loop cx m needle is w1)
      | (Inr raw, w1) \<Rightarrow>
          (case search_loop cx m needle is w1 of
             (Inl e, w2) \<Rightarrow> (Inl e, w2)
           | (Inr out, w2) \<Rightarrow>
               (Inr (if str_contains (to_lower raw) needle then i # out else out), w2)))"

definition SearchScope :: "disk ctx \<Rightarrow> maildir \<Rightarrow> scope \<Rightarrow> string \<Rightarrow> (disk, ids) effect" where
  "SearchScope cx m scope query w =
     (case List cx m scope w of
        (Inl e, w1) \<Rightarrow> (Inl e, w1)
      | (Inr is, w1) \<Rightarrow> search_loop cx m (to_lower query) is w1)"

definition Search :: "disk ctx \<Rightarrow> maildir \<Rightarrow> string \<Rightarrow> (disk, ids) effect" where
  "Search cx m query = SearchScope cx m ScopeUnread query"

fun sender_loop :: "mail_lib \<Rightarrow> disk ctx \<Rightarrow> maildir \<Rightarrow> string \<Rightarrow> ids \<Rightarrow> (disk, ids) effect" where
  "sender_loop lib cx m sender [] w = (Inr [], w)"
| "sender_loop lib cx m sender (i # is) w =
     (case FetchHeaders lib cx m i w of
        (Inl e, w1) \<Rightarrow> (Inl e, w1)
      | (Inr h, w1) \<Rightarrow>
          (case sender_loop lib cx m sender is w1 of
             (Inl e, w2) \<Rightarrow> (Inl e, w2)
           | (Inr out, w2) \<Rightarrow>
               (Inr (if str_contains (to_lower (From h)) (to_lower sender) then i # out else out),
                w2)))"

definition SearchFromScope ::
  "mail_lib \<Rightarrow> disk ctx \<Rightarrow> maildir \<Rightarrow> scope \<Rightarrow> string \<Rightarrow> string \<Rightarrow> (disk, ids) effect" where
  "SearchFromScope lib cx m scope query sender w =
     (case SearchScope cx m scope query w of
        (Inl e, w1) \<Rightarrow> (Inl e, w1)
      | (Inr is, w1) \<Rightarrow> sender_loop lib cx m sender is w1)"

subsection \<open>Changing read state\<close>

definition MarkSeen :: "disk ctx \<Rightarrow> maildir \<Rightarrow> string \<Rightarrow> (disk, unit) effect" where
  "MarkSeen cx m i =
     at_the_door cx (\<lambda>w.
       case safePath m ''new'' i of
         Inl e \<Rightarrow> (Inl e, w)
       | Inr src \<Rightarrow>
           (case safePath m ''cur'' i of
              Inl e \<Rightarrow> (Inl e, w)
            | Inr dst \<Rightarrow>
                (case Rename src dst w of
                   (Inr _, w1) \<Rightarrow> (Inr (), w1)
                 | (Inl e, w1) \<Rightarrow>
                     (if \<not> errors_is e ErrNotExist then (Inl e, w1)
                      else (case Stat dst w1 of
                              (Inr _, w2) \<Rightarrow> (Inr (), w2)
                            | (Inl _, w2) \<Rightarrow> (Inl (bad_id i), w2))))))"

subsection \<open>Folders\<close>

definition archiveFolder :: string where "archiveFolder = ''Archive''"
definition trashFolder :: string where "trashFolder = ''Trash''"
definition archiveDir :: string where "archiveDir = ''.archive''"
definition trashDir :: string where "trashDir = ''.trash''"

definition curatedFolders :: "(string \<times> string) list" where
  "curatedFolders = [(archiveFolder, archiveDir), (trashFolder, trashDir)]"

definition curatedDir :: "string \<Rightarrow> string option" where
  "curatedDir name =
     (case map_of curatedFolders name of
        Some dir \<Rightarrow> Some dir
      | None \<Rightarrow> if name \<in> snd ` set curatedFolders then Some name else None)"

definition curatedName :: "string \<Rightarrow> string option" where
  "curatedName dir = map_option fst (find (\<lambda>(name, d). d = dir) curatedFolders)"

lemmas curated_defs = curatedDir_def curatedName_def curatedFolders_def archiveFolder_def
  trashFolder_def archiveDir_def trashDir_def

text \<open>The name a directory of the root is listed under, if it may be listed at all.\<close>

definition folder_name :: "string \<Rightarrow> bool \<Rightarrow> string option" where
  "folder_name n is_dir =
     (if \<not> is_dir \<or> n = ''new'' \<or> n = ''cur'' then None
      else if has_prefix n ''.'' then curatedName n
      else if n \<in> fst ` set curatedFolders then None
      else Some n)"

fun folders_loop :: "path \<Rightarrow> (string \<times> bool) list \<Rightarrow> (disk, ids) effect" where
  "folders_loop root [] w = (Inr [], w)"
| "folders_loop root ((n, is_dir) # es) w =
     (case folder_name n is_dir of
        None \<Rightarrow> folders_loop root es w
      | Some name \<Rightarrow>
          (case Stat (root @ [n, ''new'']) w of
             (st, w1) \<Rightarrow>
               (case folders_loop root es w1 of
                  (Inl e, w2) \<Rightarrow> (Inl e, w2)
                | (Inr rest, w2) \<Rightarrow> (Inr (if st = Inr Dir then name # rest else rest), w2))))"

definition Folders :: "disk ctx \<Rightarrow> maildir \<Rightarrow> (disk, ids) effect" where
  "Folders cx m =
     at_the_door cx (\<lambda>w.
       case ReadDir (m_root m) w of
         (Inl e, w1) \<Rightarrow> (Inl e, w1)
       | (Inr entries, w1) \<Rightarrow>
           (case folders_loop (m_root m) entries w1 of
              (Inl e, w2) \<Rightarrow> (Inl e, w2)
            | (Inr names, w2) \<Rightarrow> (Inr (''INBOX'' # sort names), w2)))"

definition folder_box :: "maildir \<Rightarrow> path \<Rightarrow> (disk, maildir) effect" where
  "folder_box m root w =
     (case NewWithBulkLimit root (BulkLimit m) w of
        (Inl e, w1) \<Rightarrow> (Inl e, w1)
      | (Inr box, w1) \<Rightarrow> (Inr (box\<lparr>m_base := m_base m\<rparr>), w1))"

definition InFolder :: "disk ctx \<Rightarrow> maildir \<Rightarrow> string \<Rightarrow> (disk, maildir) effect" where
  "InFolder cx m name =
     at_the_door cx (\<lambda>w.
       if name = ''INBOX'' then (Inr m, w)
       else case curatedDir name of
         Some dir \<Rightarrow> folder_box m (m_root m @ [dir]) w
       | None \<Rightarrow>
           (if name = [] \<or> name \<noteq> base name \<or> has_prefix name ''.''
            then (Inl (Failure ''invalid folder''), w)
            else folder_box m (join_path (m_root m) name) w))"

text \<open>
  \<open>Move\<close>.  \<open>filepath.Dir\<close> never returns an empty path, so that check of the source has no
  branch here.
\<close>

definition move_target :: "string \<Rightarrow> error + string" where
  "move_target destination0 =
     (case CheckFolderName destination0 of
        Some e \<Rightarrow> Inl e
      | None \<Rightarrow>
          (let destination = (if destination0 = ''INBOX'' then [] else destination0) in
           if destination = [] then Inr []
           else if destination \<noteq> base destination \<or> has_prefix destination ''.''
             then Inl (Wraps ErrBadFolder [Str destination])
           else if curatedDir destination \<noteq> None
             then Inl (Wraps ErrFolderProtected [Str destination])
           else Inr destination))"

definition dir_base :: "path \<Rightarrow> string" where
  "dir_base p = (if butlast p = [] then ''/'' else last (butlast p))"

definition Move :: "disk ctx \<Rightarrow> maildir \<Rightarrow> string \<Rightarrow> string \<Rightarrow> (disk, unit) effect" where
  "Move cx m i destination0 =
     at_the_door cx (\<lambda>w.
       case move_target destination0 of
         Inl e \<Rightarrow> (Inl e, w)
       | Inr destination \<Rightarrow>
           (case locate m i w of
              (Inl e, w1) \<Rightarrow> (Inl e, w1)
            | (Inr src, w1) \<Rightarrow>
                (let targetRoot = (if destination = [] then m_base m
                                   else join_path (m_base m) destination) in
                 case Stat (targetRoot @ [''new'']) w1 of
                   (Inl _, w2) \<Rightarrow> (Inl (Failure ''destination folder does not exist''), w2)
                 | (Inr _, w2) \<Rightarrow>
                     (let dst = join_path (join_path targetRoot (dir_base src)) i in
                      case Stat dst w2 of
                        (Inr _, w3) \<Rightarrow> (Inl (Failure ''destination already contains message''), w3)
                      | (Inl e, w3) \<Rightarrow>
                          (if \<not> errors_is e ErrNotExist then (Inl e, w3)
                           else Rename src dst w3)))))"

definition MoveMany ::
  "disk ctx \<Rightarrow> maildir \<Rightarrow> ids \<Rightarrow> string \<Rightarrow> (disk, bulk_result) reporting" where
  "MoveMany cx m is destination w =
     (case CheckBulkIDsLimit is (BulkLimit m) of
        Some e \<Rightarrow> ((\<lparr>Succeeded = [], Failed = []\<rparr>, Some e), w)
      | None \<Rightarrow> bulk_loop cx (\<lambda>i. Move cx m i destination) NewBulkResult is w)"

definition maildirSubs :: "string list" where "maildirSubs = [''new'', ''cur'', ''tmp'']"

definition folderPath :: "maildir \<Rightarrow> string \<Rightarrow> error + path" where
  "folderPath m name =
     (case CheckFolderName name of
        Some e \<Rightarrow> Inl e
      | None \<Rightarrow>
          (if curatedDir name \<noteq> None then Inl (Wraps ErrFolderProtected [Str name])
           else if name \<noteq> base name \<or> has_prefix name ''.'' then Inl (Wraps ErrBadFolder [Str name])
           else Inr (join_path (m_root m) name)))"

definition CreateFolder :: "disk ctx \<Rightarrow> maildir \<Rightarrow> string \<Rightarrow> (disk, unit) effect" where
  "CreateFolder cx m name =
     at_the_door cx (\<lambda>w.
       if name = ''INBOX'' then (Inr (), w)
       else case folderPath m name of
         Inl e \<Rightarrow> (Inl e, w)
       | Inr dir \<Rightarrow> make_dirs (map (\<lambda>sub. dir @ [sub]) maildirSubs) w)"

definition the_plan :: curation_plan where
  "the_plan = \<lparr>Archive = \<lparr>Folder = archiveDir, Route = RouteFixed\<rparr>,
               Trash = \<lparr>Folder = trashDir, Route = RouteFixed\<rparr>\<rparr>"

definition CurationPlan :: "disk ctx \<Rightarrow> maildir \<Rightarrow> (disk, curation_plan) effect" where
  "CurationPlan cx m = at_the_door cx (\<lambda>w. (Inr the_plan, w))"

definition CurationCapabilities :: "disk ctx \<Rightarrow> maildir \<Rightarrow> (disk, curation_capabilities) effect" where
  "CurationCapabilities cx m =
     at_the_door cx (\<lambda>w. (Inr \<lparr>MoveMode = ''filesystem_rename'', PermanentDelete = False,
                               SourceRemovedOnMove = True\<rparr>, w))"

text \<open>What a folder holds: messages and stray files, and the folders inside it.\<close>

fun count_content :: "path \<Rightarrow> (string \<times> bool) list \<Rightarrow> (disk, nat \<times> ids) effect" where
  "count_content dir [] w = (Inr (0, []), w)"
| "count_content dir ((n, is_dir) # es) w =
     (if \<not> is_dir then
        (case count_content dir es w of
           (Inl e, w1) \<Rightarrow> (Inl e, w1)
         | (Inr (k, cs), w1) \<Rightarrow> (Inr (k + 1, cs), w1))
      else if n \<notin> set maildirSubs then
        (case count_content dir es w of
           (Inl e, w1) \<Rightarrow> (Inl e, w1)
         | (Inr (k, cs), w1) \<Rightarrow> (Inr (k, n # cs), w1))
      else
        (case ReadDir (dir @ [n]) w of
           (Inl e, w1) \<Rightarrow> (Inl e, w1)
         | (Inr held, w1) \<Rightarrow>
             (case count_content dir es w1 of
                (Inl e, w2) \<Rightarrow> (Inl e, w2)
              | (Inr (k, cs), w2) \<Rightarrow> (Inr (k + length held, cs), w2))))"

definition checkFolderEmpty :: "string \<Rightarrow> path \<Rightarrow> (disk, unit) effect" where
  "checkFolderEmpty name dir w =
     (case ReadDir dir w of
        (Inl e, w1) \<Rightarrow>
          (if errors_is e ErrNotExist then (Inl (Wraps ErrBadFolder [Str name]), w1) else (Inl e, w1))
      | (Inr entries, w1) \<Rightarrow>
          (case count_content dir entries w1 of
             (Inl e, w2) \<Rightarrow> (Inl e, w2)
           | (Inr (messages, children), w2) \<Rightarrow>
               (case CheckFolderChildless name children of
                  Some e \<Rightarrow> (Inl e, w2)
                | None \<Rightarrow>
                    (case CheckFolderEmpty name (int messages) of
                       Some e \<Rightarrow> (Inl e, w2)
                     | None \<Rightarrow> (Inr (), w2)))))"

fun remove_each :: "string \<Rightarrow> path list \<Rightarrow> (disk, unit) effect" where
  "remove_each name [] w = (Inr (), w)"
| "remove_each name (p # ps) w =
     (case Remove_path p w of
        (Inr _, w1) \<Rightarrow> remove_each name ps w1
      | (Inl e, w1) \<Rightarrow>
          (if errors_is e ErrNotExist then remove_each name ps w1
           else (case ReadDir p w1 of
                   (Inr held, w2) \<Rightarrow>
                     (if length held > 0
                      then (Inl (Wraps ErrFolderNotEmpty [Str name, Num (int (length held))]), w2)
                      else (Inl e, w2))
                 | (Inl _, w2) \<Rightarrow> (Inl e, w2))))"

definition removeFolder :: "string \<Rightarrow> path \<Rightarrow> (disk, unit) effect" where
  "removeFolder name dir =
     remove_each name (map (\<lambda>sub. join_path dir sub) (maildirSubs @ [''.'']))"

definition DeleteFolder :: "disk ctx \<Rightarrow> maildir \<Rightarrow> string \<Rightarrow> (disk, unit) effect" where
  "DeleteFolder cx m name =
     at_the_door cx (\<lambda>w.
       case CurationPlan cx m w of
         (Inl e, w1) \<Rightarrow> (Inl e, w1)
       | (Inr plan, w1) \<Rightarrow>
           (let resolved = (case curatedDir name of Some c \<Rightarrow> c | None \<Rightarrow> name) in
            case CheckFolderDeletable name resolved plan of
              Some e \<Rightarrow> (Inl e, w1)
            | None \<Rightarrow>
                (case folderPath m name of
                   Inl e \<Rightarrow> (Inl e, w1)
                 | Inr dir \<Rightarrow>
                     (case checkFolderEmpty name dir w1 of
                        (Inl e, w2) \<Rightarrow> (Inl e, w2)
                      | (Inr _, w2) \<Rightarrow> removeFolder name dir w2))))"

subsection \<open>Curation\<close>

definition moveTo :: "disk ctx \<Rightarrow> maildir \<Rightarrow> string \<Rightarrow> string \<Rightarrow> (disk, unit) effect" where
  "moveTo cx m sub i =
     at_the_door cx (\<lambda>w.
       case locate m i w of
         (Inl e, w1) \<Rightarrow> (Inl e, w1)
       | (Inr src, w1) \<Rightarrow>
           (let destDir = m_root m @ [sub, ''new''] in
            case MkdirAll destDir w1 of
              (Inl e, w2) \<Rightarrow> (Inl e, w2)
            | (Inr _, w2) \<Rightarrow> Rename src (join_path destDir i) w2))"

definition maildir_Archive :: "disk ctx \<Rightarrow> maildir \<Rightarrow> string \<Rightarrow> (disk, unit) effect" where
  "maildir_Archive cx m i = moveTo cx m archiveDir i"

definition maildir_Delete :: "disk ctx \<Rightarrow> maildir \<Rightarrow> string \<Rightarrow> (disk, unit) effect" where
  "maildir_Delete cx m i = moveTo cx m trashDir i"

subsection \<open>The backend as the use cases see it\<close>

text \<open>
  The method set of the Go type, with the ceiling already configured: the code sets it before
  it shares the mailbox.  A folder of a folder is not reached through a use case, so the box
  of a folder has no folders of its own here.
\<close>

definition maildir_ports :: "mail_lib \<Rightarrow> int64 \<Rightarrow> disk ctx \<Rightarrow> maildir \<Rightarrow> disk ports" where
  "maildir_ports lib ds cx m =
     \<lparr>ListUnreadOp = ListUnread cx m, FetchOp = Fetch cx m, MarkSeenOp = MarkSeen cx m,
      ScopedMailbox = Some (List cx m), Searcher = Some (Search cx m),
      ScopedSearcher = Some (SearchScope cx m), SenderSearcher = Some (SearchFromScope lib cx m),
      HeaderFetcher = Some (FetchHeaders lib cx m),
      BatchHeaderFetcher = Some (FetchHeadersMany lib cx m),
      FolderLister = Some (Folders cx m),
      FolderManager = Some \<lparr>CreateFolderOp = CreateFolder cx m, DeleteFolderOp = DeleteFolder cx m\<rparr>,
      Curator = Some \<lparr>ArchiveOne = maildir_Archive cx m, DeleteOne = maildir_Delete cx m\<rparr>,
      Mover = Some (Move cx m), MessageSizer = Some (Sizes ds cx m), BulkFetcher = None,
      BulkMailbox = None, BulkCurator = None, BulkMover = Some (MoveMany cx m),
      CurationInspector = Some (CurationPlan cx m),
      CapabilityProvider = Some (CurationCapabilities cx m),
      LimitProvider = Some (\<lambda>w. BulkLimit m), LimitSetter = None\<rparr>"

definition maildir_mailbox :: "mail_lib \<Rightarrow> int64 \<Rightarrow> disk ctx \<Rightarrow> maildir \<Rightarrow> disk mailbox" where
  "maildir_mailbox lib ds cx m =
     Mailbox (maildir_ports lib ds cx m)
       (Some (\<lambda>name w.
          case InFolder cx m name w of
            (Inl e, w1) \<Rightarrow> (Inl e, w1)
          | (Inr box, w1) \<Rightarrow> (Inr (Mailbox (maildir_ports lib ds cx box) None), w1)))"

subsection \<open>Delivery into a Maildir (sender.go)\<close>

record dir_sender =
  s_root :: path
  s_from :: string

definition NewSender :: "mail_lib \<Rightarrow> path \<Rightarrow> string \<Rightarrow> (disk, dir_sender) effect" where
  "NewSender lib root addr w =
     (if addr = [] then (Inl (Failure ''From address is required''), w)
      else case ValidateAddress lib addr of
        Some e \<Rightarrow> (Inl e, w)
      | None \<Rightarrow>
          (case make_dirs [root @ [''tmp''], root @ [''new'']] w of
             (Inl e, w1) \<Rightarrow> (Inl e, w1)
           | (Inr _, w1) \<Rightarrow> (Inr \<lparr>s_root = root, s_from = addr\<rparr>, w1)))"

text \<open>\<open>os.WriteFile\<close>: the file is closed even when the write failed.\<close>

definition WriteFile :: "path \<Rightarrow> bytes \<Rightarrow> (disk, unit) effect" where
  "WriteFile p c w =
     (case OpenTrunc [] p w of
        (Inl e, w1) \<Rightarrow> (Inl e, w1)
      | (Inr _, w1) \<Rightarrow>
          (case Write_bytes p c w1 of
             (r, w2) \<Rightarrow>
               (case Close w2 of
                  (r', w3) \<Rightarrow> ((case r of Inl e \<Rightarrow> Inl e | Inr _ \<Rightarrow> r'), w3))))"

definition dir_sender_From :: "dir_sender \<Rightarrow> string" where "dir_sender_From d = s_from d"

text \<open>\<open>Send\<close> renders with the time \<open>now\<close>, writes under \<open>tmp/\<close> and renames.\<close>

definition dir_Send :: "render_lib \<Rightarrow> string \<Rightarrow> dir_sender \<Rightarrow> outbound_message \<Rightarrow> (disk, unit) effect" where
  "dir_Send rl now d m w =
     (case RenderRFC5322 rl (s_from d) m now of
        Inl e \<Rightarrow> (Inl e, w)
      | Inr raw \<Rightarrow>
          (let tmp = join_path (s_root d @ [''tmp'']) (om_ID m @ ''.eml'') in
           case WriteFile tmp raw w of
             (Inl e, w1) \<Rightarrow> (Inl e, w1)
           | (Inr _, w1) \<Rightarrow> Rename tmp (join_path (s_root d @ [''new'']) (om_ID m @ ''.eml'')) w1))"

end
