(* ===== verification/Maildir_Facts.thy ===== *)
theory Maildir_Facts
  imports Maildir
begin

section \<open>What the local mailbox keeps\<close>

text \<open>
  The lemmas about the Maildir backend: which paths an id can name, what each operation leaves
  of the tree, the contracts of the use cases interpreted on it, and the properties.
\<close>

subsection \<open>Ids and paths\<close>

text \<open>A name that is one component of a path and not hidden.\<close>

definition plain_name :: "string \<Rightarrow> bool" where
  "plain_name i \<longleftrightarrow> i \<noteq> [] \<and> CHR ''/'' \<notin> set i \<and> \<not> has_prefix i ''.''"

lemma split_char_pieces: "q \<in> set (split_char c s) \<Longrightarrow> c \<notin> set q"
  by (induction s arbitrary: q) (auto split: list.splits if_splits)

lemma split_char_single: "c \<notin> set s \<Longrightarrow> split_char c s = [s]"
  by (induction s) auto

lemma base_no_slash:
  assumes "base i = i" "i \<noteq> ''/''"
  shows "CHR ''/'' \<notin> set i"
proof -
  define t where "t = rev (dropWhile (\<lambda>c. c = CHR ''/'') (rev i))"
  show ?thesis
  proof (cases "i = [] \<or> t = []")
    case True
    then have "i = [] \<or> base i = ''/''" by (auto simp: base_def t_def Let_def)
    with assms show ?thesis by auto
  next
    case False
    have "base i = (if i = [] then ''.'' else if t = [] then ''/'' else last (split_char (CHR ''/'') t))"
      unfolding base_def t_def Let_def ..
    with assms(1) False have "i = last (split_char (CHR ''/'') t)" by simp
    then have "i \<in> set (split_char (CHR ''/'') t)"
      by (metis last_in_set split_char_nonempty)
    then show ?thesis by (rule split_char_pieces)
  qed
qed

lemma base_plain: "i \<noteq> [] \<Longrightarrow> CHR ''/'' \<notin> set i \<Longrightarrow> base i = i"
proof -
  assume i: "i \<noteq> []" "CHR ''/'' \<notin> set i"
  then have "last i \<noteq> CHR ''/''" by (metis last_in_set)
  then have "dropWhile (\<lambda>c. c = CHR ''/'') (rev i) = rev i"
    using i by (cases i rule: rev_cases) auto
  with i show ?thesis by (simp add: base_def split_char_single)
qed

lemma join_plain: "plain_name i \<Longrightarrow> join_path p i = p @ [i]"
  by (auto simp: plain_name_def join_path_def split_char_single join_step_def has_prefix_def)

lemma join_slash: "join_path p ''/'' = p"
  by (simp add: join_path_def join_step_def)

lemma join_dot: "join_path p ''.'' = p"
  by (simp add: join_path_def join_step_def)

lemma valid_name_cases:
  assumes "i \<noteq> []" "i = base i" "\<not> has_prefix i ''.''"
  obtains "plain_name i" | "i = ''/''"
  using assms base_no_slash [of i] by (fastforce simp: plain_name_def)

lemma safePath_Inr_iff:
  "safePath m sub i = Inr p \<longleftrightarrow>
     (plain_name i \<and> p = m_root m @ [sub, i]) \<or> (i = ''/'' \<and> p = m_root m @ [sub])"
proof (cases "i = [] \<or> i \<noteq> base i \<or> has_prefix i ''.''")
  case True
  then have "\<not> plain_name i" by (metis base_plain plain_name_def)
  moreover have "i \<noteq> ''/''" using True by (auto simp: base_def has_prefix_def)
  ultimately show ?thesis using True by (simp add: safePath_def)
next
  case False
  then have ok: "safePath m sub i = Inr (join_path (m_root m @ [sub]) i)"
    by (simp add: safePath_def)
  from False consider (plain) "plain_name i" | (slash) "i = ''/''"
    by (metis valid_name_cases)
  then show ?thesis
  proof cases
    case plain
    moreover from this have "i \<noteq> ''/''" by (auto simp: plain_name_def)
    ultimately show ?thesis by (auto simp: ok join_plain)
  next
    case slash
    moreover from this have "\<not> plain_name i" by (simp add: plain_name_def)
    ultimately show ?thesis using ok join_slash by auto
  qed
qed

lemma safePath_plain [simp]: "plain_name i \<Longrightarrow> safePath m sub i = Inr (m_root m @ [sub, i])"
  by (simp add: safePath_Inr_iff)

lemma safePath_Inl: "safePath m sub i = Inl e \<Longrightarrow> e = bad_id i"
  by (auto simp: safePath_def split: if_splits)

lemma safePath_sub: "safePath m sub i = Inl e \<longleftrightarrow> safePath m sub' i = Inl e"
  by (auto simp: safePath_def)

subsection \<open>Reading leaves the disk alone\<close>

abbreviation reads :: "(disk \<Rightarrow> 'a \<times> disk) \<Rightarrow> bool" where
  "reads \<equiv> keeps_view look"

lemma readsI: "(\<And>w x w'. f w = (x, w') \<Longrightarrow> look w' = look w) \<Longrightarrow> reads f"
  unfolding keeps_view_def by (metis prod.collapse)

lemma call_reads:
  "Stat p w = (r1, w') \<Longrightarrow> look w' = look w"
  "ReadFile p w = (r2, w') \<Longrightarrow> look w' = look w"
  "ReadDir p w = (r3, w') \<Longrightarrow> look w' = look w"
  by (auto dest: Stat_law ReadFile_law ReadDir_law simp: same_disk_def)

lemma door_reads: "reads f \<Longrightarrow> reads (at_the_door cx f)"
  by (auto simp: keeps_view_def at_the_door_def split: option.splits)

lemma locate_reads: "locate m i w = (r, w') \<Longrightarrow> look w' = look w"
  by (auto simp: locate_def dest!: call_reads split: sum.splits prod.splits)

lemma list_subs_reads: "list_subs root seen subs w = (r, w') \<Longrightarrow> look w' = look w"
proof (induction subs arbitrary: seen w r w')
  case (Cons sub subs)
  obtain d w1 where d: "ReadDir (root @ [sub]) w = (d, w1)" by force
  show ?case
  proof (cases d)
    case (Inr es)
    obtain r2 w2 where "list_subs root (snd (list_entries seen es)) subs w1 = (r2, w2)" by force
    with Cons.IH [OF this] Cons.prems d Inr call_reads(3) [OF d] show ?thesis
      by (auto split: prod.splits sum.splits)
  qed (use Cons.prems d call_reads(3) [OF d] in auto)
qed auto

lemma List_reads: "reads (List cx m scope)"
  unfolding List_def
  by (rule door_reads, rule readsI) (auto dest!: list_subs_reads split: sum.splits prod.splits)

lemma fetch_subs_reads: "fetch_subs m subs i w = (r, w') \<Longrightarrow> look w' = look w"
  by (induction subs arbitrary: w)
    (auto dest!: call_reads(2) split: sum.splits prod.splits if_splits)

lemma Fetch_reads: "reads (Fetch cx m i)"
  unfolding Fetch_def by (rule door_reads, rule readsI) (rule fetch_subs_reads)

lemma FetchHeaders_reads: "FetchHeaders lib cx m i w = (r, w') \<Longrightarrow> look w' = look w"
  using keeps_viewD [OF Fetch_reads]
  by (fastforce simp: FetchHeaders_def split: sum.splits prod.splits)

lemma headers_loop_reads: "headers_loop lib cx m ans is w = (r, w') \<Longrightarrow> look w' = look w"
proof (induction "is" arbitrary: ans w)
  case (Cons i "is")
  obtain res fl where ans: "ans = (res, fl)" by force
  show ?case
  proof (cases "cx w")
    case None
    obtain h w1 where h: "FetchHeaders lib cx m i w = (h, w1)" by force
    from Cons.prems ans None h have "\<exists>ans'. headers_loop lib cx m ans' is w1 = (r, w')"
      by (cases h) auto
    with Cons.IH FetchHeaders_reads [OF h] show ?thesis by metis
  next
    case (Some e)
    with Cons.prems ans Cons.IH show ?thesis by simp
  qed
qed auto

lemma sizes_loop_reads: "sizes_loop ds m out is w = (r, w') \<Longrightarrow> look w' = look w"
proof (induction "is" arbitrary: out w)
  case (Cons i "is")
  obtain l w1 where l: "locate m i w = (l, w1)" by force
  note l1 = locate_reads [OF l]
  show ?case
  proof (cases l)
    case (Inl e)
    with Cons.prems l l1 Cons.IH show ?thesis by fastforce
  next
    case (Inr p)
    obtain s w2 where s: "Stat p w1 = (s, w2)" by force
    from call_reads(1) [OF s] l1 have "look w2 = look w" by simp
    moreover from Cons.prems l Inr s
    have "(\<exists>out'. sizes_loop ds m out' is w2 = (r, w')) \<or> w' = w2"
      by (auto split: sum.splits if_splits)
    ultimately show ?thesis using Cons.IH by metis
  qed
qed auto

lemma search_loop_reads: "search_loop cx m needle is w = (r, w') \<Longrightarrow> look w' = look w"
proof (induction "is" arbitrary: r w w')
  case (Cons i "is")
  obtain f w1 where f: "Fetch cx m i w = (f, w1)" by force
  note f1 = keeps_viewD [OF Fetch_reads f]
  obtain r2 w2 where r2: "search_loop cx m needle is w1 = (r2, w2)" by force
  note s2 = Cons.IH [OF r2]
  from Cons.prems f f1 r2 s2 show ?case by (auto split: sum.splits if_splits)
qed auto

lemma SearchScope_reads: "reads (SearchScope cx m scope query)"
proof (rule readsI)
  fix w x w' assume s: "SearchScope cx m scope query w = (x, w')"
  obtain l w1 where l: "List cx m scope w = (l, w1)" by force
  from s l keeps_viewD [OF List_reads l] show "look w' = look w"
    by (auto simp: SearchScope_def dest!: search_loop_reads split: sum.splits)
qed

lemma sender_loop_reads: "sender_loop lib cx m sender is w = (r, w') \<Longrightarrow> look w' = look w"
proof (induction "is" arbitrary: r w w')
  case (Cons i "is")
  obtain f w1 where f: "FetchHeaders lib cx m i w = (f, w1)" by force
  note f1 = FetchHeaders_reads [OF f]
  obtain r2 w2 where r2: "sender_loop lib cx m sender is w1 = (r2, w2)" by force
  note s2 = Cons.IH [OF r2]
  from Cons.prems f f1 r2 s2 show ?case by (auto split: sum.splits if_splits)
qed auto

lemma SearchFromScope_reads: "reads (SearchFromScope lib cx m scope query sender)"
proof (rule readsI)
  fix w x w' assume s: "SearchFromScope lib cx m scope query sender w = (x, w')"
  obtain l w1 where l: "SearchScope cx m scope query w = (l, w1)" by force
  from s l keeps_viewD [OF SearchScope_reads l] show "look w' = look w"
    by (auto simp: SearchFromScope_def dest!: sender_loop_reads split: sum.splits)
qed

lemma Sizes_reads: "reads (Sizes ds cx m is)"
  unfolding Sizes_def by (rule door_reads, rule readsI) (rule sizes_loop_reads)

lemma FetchHeadersMany_reads: "reads (FetchHeadersMany lib cx m is)"
  unfolding FetchHeadersMany_def by (rule readsI) (rule headers_loop_reads)

interpretation md: reading_ports "maildir_ports lib ds cx m" look
  for lib ds cx m
proof unfold_locales
qed (auto simp: maildir_ports_def ListUnread_def [abs_def] Search_def [abs_def]
    List_reads Fetch_reads SearchScope_reads Sizes_reads FetchHeadersMany_reads)

subsection \<open>What a rename does to the tree\<close>

abbreviation there :: "disk \<Rightarrow> path \<Rightarrow> bool" where
  "there w q \<equiv> look w q \<noteq> None"

definition under :: "path \<Rightarrow> path \<Rightarrow> bool" where
  "under a q \<longleftrightarrow> take (length a) q = a"

lemma under_iff: "under a q \<longleftrightarrow> q = a \<or> strict_below a q"
proof (cases "length a < length q")
  case False
  then have "take (length a) q = q" by simp
  with False show ?thesis by (auto simp: under_def strict_below_def)
next
  case True
  then show ?thesis by (auto simp: under_def strict_below_def)
qed

lemma under_append [simp]: "under a (a @ r)"
  by (simp add: under_def)

lemma under_self [simp]: "under a a"
  by (simp add: under_def)

definition reroot :: "path \<Rightarrow> path \<Rightarrow> path \<Rightarrow> path" where
  "reroot a b q = (if under a q then b @ drop (length a) q else q)"

lemma move_subtree_Cons:
  "move_subtree a b ((k, v) # t) =
     (if k = b then move_subtree a b t else (reroot a b k, v) # move_subtree a b t)"
  by (simp add: move_subtree_def reroot_def under_iff)

lemma move_subtree_Nil [simp]: "move_subtree a b [] = []"
  by (simp add: move_subtree_def)

lemma map_of_outside:
  assumes "\<not> under a q" "\<not> under b q"
  shows "map_of (move_subtree a b t) q = map_of t q"
proof (induction t)
  case (Cons x t)
  obtain k v where x: "x = (k, v)" by force
  have b: "q \<noteq> b" using assms(2) by auto
  have "reroot a b k = q \<longleftrightarrow> k = q" using assms by (auto simp: reroot_def)
  then show ?case using b Cons x by (cases "k = q") (auto simp: move_subtree_Cons)
qed simp

lemma dom_moved:
  "fst ` set (move_subtree a b t) = reroot a b ` (fst ` set t - {b})"
proof (induction t)
  case (Cons x t)
  obtain k v where x: "x = (k, v)" by force
  with Cons show ?case by (cases "k = b") (auto simp: move_subtree_Cons)
qed simp

lemma syscall_result:
  "syscall body w = (r, w') \<Longrightarrow>
     (\<exists>w0. same_disk w w0 \<and> body w0 = (r, w')) \<or>
     r = Inl io_error \<and> same_disk w w' \<or> r = Inl gone \<and> same_disk w w'"
  by (force simp: syscall_def split: if_splits list.splits fault.splits)

text \<open>Both kinds of rename at once.\<close>

definition renamed :: "path \<Rightarrow> path \<Rightarrow> disk \<Rightarrow> disk \<Rightarrow> bool" where
  "renamed a b w w' \<longleftrightarrow>
     there w a \<and> there w' b \<and> (\<not> under b a \<longrightarrow> \<not> there w' a) \<and> there w (butlast b) \<and>
     (\<forall>q. \<not> under a q \<and> \<not> under b q \<longrightarrow> look w' q = look w q) \<and>
     ((\<exists>n. there w (b @ [n])) \<longrightarrow> (\<forall>q. q \<noteq> a \<and> q \<noteq> b \<longrightarrow> look w' q = look w q)) \<and>
     (\<forall>c. look w a = Some (File c) \<longrightarrow> look w' = (look w)(a := None, b \<mapsto> File c))"

lemma Rename_cases:
  assumes "Rename a b w = (r, w')" "a \<noteq> b"
  obtains (fails) e where "r = Inl e" "look w' = look w"
    "errors_is e ErrNotExist \<longrightarrow> \<not> there w a \<or> \<not> there w (butlast b)"
  | (works) "r = Inr ()" "renamed a b w w'"
proof -
  have "(\<exists>e. r = Inl e \<and> look w' = look w \<and>
      (errors_is e ErrNotExist \<longrightarrow> \<not> there w a \<or> \<not> there w (butlast b))) \<or>
    r = Inr () \<and> renamed a b w w'"
  proof -
    have body: ?thesis if rb: "rename_body a b w0 = (r, w')" and l0: "look w0 = look w" for w0
    proof (cases "look w a")
      case None
      with rb l0 show ?thesis by (auto simp: rename_body_def)
    next
      case (Some n)
      show ?thesis
      proof (cases "r = Inr ()")
        case False
        with rb l0 Some show ?thesis
          by (auto simp: rename_body_def split: if_splits node.splits)
      next
        case True
        have par: "there w (butlast b)" using rb l0 Some True
          by (auto simp: rename_body_def split: if_splits)
        show ?thesis
        proof (cases n)
          case (File c)
          with rb l0 Some True assms(2)
          have "look w' = (look w)(a := None, b \<mapsto> File c)"
            by (auto simp: rename_body_def look_put_fun look_drop_fun split: if_splits)
          with True File Some par assms(2) show ?thesis
            by (auto simp: renamed_def under_iff)
        next
          case Dir
          from rb l0 Some True assms(2) Dir
          have sub: "w' = w0\<lparr>tree := move_subtree a b (tree w0)\<rparr>"
            and out: "\<not> strict_below a b" and nochild: "child_names w0 b = []"
            by (auto simp: rename_body_def split: if_splits)
          have none: "\<not> there w (b @ [n])" for n
            using nochild set_child_names [of w0 b] l0 by auto
          have ina: "a \<in> fst ` set (tree w0) - {b}"
            using Some l0 assms(2) by (metis DiffI look_def map_of_eq_None_iff option.distinct(1) singletonD)
          have dom: "there w' q \<longleftrightarrow>
              q \<in> reroot a b ` (fst ` set (tree w0) - {b})"
            for q unfolding sub by (simp add: look_def map_of_eq_None_iff dom_moved)
          have "there w' b" unfolding dom by (rule rev_image_eqI [OF ina]) (simp add: reroot_def)
          moreover have "\<not> there w' a" if "\<not> under b a"
          proof
            assume "there w' a"
            then obtain q where q: "a = reroot a b q" unfolding dom by blast
            show False
            proof (cases "under a q")
              case True
              with q that under_append [of b "drop (length a) q"] show False
                by (simp add: reroot_def)
            next
              case False
              with q show False by (simp add: reroot_def)
            qed
          qed
          moreover have "look w' q = look w q" if "\<not> under a q" "\<not> under b q" for q
            using map_of_outside [OF that, of "tree w0"] sub l0
            by (simp add: look_def fun_eq_iff)
          ultimately show ?thesis using True par Some Dir none by (simp add: renamed_def)
        qed
      qed
    qed
    from syscall_result [OF assms(1) [unfolded Rename_def]] show ?thesis
    proof (elim disjE exE conjE)
      fix w0 assume "same_disk w w0" "rename_body a b w0 = (r, w')"
      with body [of w0] show ?thesis by (simp add: same_disk_def)
    qed (auto simp: io_error_def gone_def same_disk_def)
  qed
  with fails works show thesis by blast
qed

subsection \<open>Directories are only added\<close>

definition dirs_added :: "disk \<Rightarrow> disk \<Rightarrow> bool" where
  "dirs_added w w' \<longleftrightarrow>
     (\<forall>q. look w' q = look w q \<or> look w q = None \<and> look w' q = Some Dir)"

lemma dirs_added_refl [simp]: "dirs_added w w"
  by (simp add: dirs_added_def)

lemma dirs_added_same: "look w' = look w \<Longrightarrow> dirs_added w w'"
  by (simp add: dirs_added_def)

lemma dirs_added_trans: "dirs_added w w1 \<Longrightarrow> dirs_added w1 w2 \<Longrightarrow> dirs_added w w2"
  unfolding dirs_added_def by metis

lemma dirs_addedD:
  assumes "dirs_added w w'"
  shows "there w q \<Longrightarrow> look w' q = look w q" "look w' q = Some (File c) \<Longrightarrow> look w q = Some (File c)"
  using assms unfolding dirs_added_def by (metis, metis node.distinct(1) option.inject)

lemma MkdirAll_law:
  assumes "MkdirAll p w = (r, w')"
  shows "dirs_added w w'" "r = Inr () \<Longrightarrow> look w' p = Some Dir"
    "r = Inr () \<Longrightarrow> q \<in> set (ancestors p) \<Longrightarrow> look w' q = Some Dir"
proof -
  have "dirs_added w w' \<and> (r = Inr () \<longrightarrow> (\<forall>q \<in> set (ancestors p @ [p]). look w' q = Some Dir))"
    using assms unfolding MkdirAll_def
  proof (cases rule: syscall_cases)
    case (runs w0)
    with mkdirs_law [of "ancestors p @ [p]" w0 r w'] show ?thesis
      by (auto simp: dirs_added_def same_disk_def)
  qed (auto simp: dirs_added_def same_disk_def)
  then show "dirs_added w w'" "r = Inr () \<Longrightarrow> look w' p = Some Dir"
    "r = Inr () \<Longrightarrow> q \<in> set (ancestors p) \<Longrightarrow> look w' q = Some Dir" by auto
qed

lemma make_dirs_law:
  "make_dirs ps w = (r, w') \<Longrightarrow>
     dirs_added w w' \<and> (r = Inr () \<longrightarrow> (\<forall>p \<in> set ps. look w' p = Some Dir))"
proof (induction ps arbitrary: w)
  case (Cons p ps)
  obtain r1 w1 where m: "MkdirAll p w = (r1, w1)" by force
  note m' = MkdirAll_law [OF m]
  show ?case
  proof (cases r1)
    case (Inl e)
    with Cons.prems m m'(1) show ?thesis by auto
  next
    case (Inr u)
    with Cons.prems m have "make_dirs ps w1 = (r, w')" by simp
    from Cons.IH [OF this] Inr m' show ?thesis
      using dirs_added_trans [OF m'(1)] dirs_addedD(1) [of w1 w' p] by fastforce
  qed
qed auto

lemma make_dirs_done:
  "\<forall>p \<in> set ps. \<forall>q \<in> set (ancestors p @ [p]). look w q = Some Dir \<Longrightarrow> healthy w \<Longrightarrow>
     make_dirs ps w = (Inr (), w)"
proof (induction ps)
  case (Cons p ps)
  have "mkdirs qs w = (Inr (), w)" if "\<forall>q \<in> set qs. look w q = Some Dir" for qs
    using that by (induction qs) auto
  with Cons show ?case by (simp add: MkdirAll_def syscall_healthy)
qed auto

subsection \<open>Finding a message\<close>

definition spot :: "maildir \<Rightarrow> disk \<Rightarrow> string \<Rightarrow> path \<Rightarrow> bool" where
  "spot m w i p \<longleftrightarrow> there w p \<and> (\<exists>sub \<in> {''new'', ''cur''}.
     plain_name i \<and> p = m_root m @ [sub, i] \<or> i = ''/'' \<and> p = m_root m @ [sub])"

lemma locate_law:
  assumes "locate m i w = (r, w')"
  shows "look w' = look w" "r = Inr p \<Longrightarrow> spot m w i p" "r = Inl e \<Longrightarrow> e = bad_id i"
proof -
  show "look w' = look w" using assms by (rule locate_reads)
  have st: "there w p" if "Stat p w1 = (Inr n, w2)" "look w1 = look w" for p w1 n w2
    using Stat_law [OF that(1)] that(2) by simp
  show "r = Inr p \<Longrightarrow> spot m w i p"
    using assms st call_reads(1)
    by (fastforce simp: locate_def spot_def safePath_Inr_iff split: sum.splits prod.splits)
  show "r = Inl e \<Longrightarrow> e = bad_id i"
    using assms by (auto simp: locate_def dest: safePath_Inl split: sum.splits prod.splits)
qed

end
