(* ===== verification/Maildir_Curation.thy ===== *)
theory Maildir_Curation
  imports Maildir_Facts
begin

section \<open>Acknowledging, filing and folders on the local mailbox\<close>

text \<open>
  What the operations that change the Maildir do: the batch contract \<open>id_operation\<close> of the use
  cases interpreted on acknowledging, archiving and deleting, and the properties of the backend.
\<close>

subsection \<open>Acknowledging\<close>

lemma MarkSeen_cases:
  assumes "MarkSeen cx m i w = (r, w')" "plain_name i"
  obtains (refused) e where "r = Inl e" "look w' = look w"
  | (moved) "r = Inr ()" "renamed (m_root m @ [''new'', i]) (m_root m @ [''cur'', i]) w w'"
  | (already) "r = Inr ()" "look w' = look w" "there w (m_root m @ [''cur'', i])"
      "\<not> there w (m_root m @ [''new'', i]) \<or> \<not> there w (m_root m @ [''cur''])"
proof (cases "cx w")
  case (Some e)
  with assms refused [of e] show ?thesis by (simp add: MarkSeen_def at_the_door_def)
next
  case None
  let ?a = "m_root m @ [''new'', i]" and ?b = "m_root m @ [''cur'', i]"
  have par: "butlast ?b = m_root m @ [''cur'']" by (simp add: butlast_append)
  obtain r1 w1 where rn: "Rename ?a ?b w = (r1, w1)" by force
  have "?a \<noteq> ?b" by simp
  with rn show ?thesis
  proof (cases rule: Rename_cases)
    case works
    with rn None assms moved show ?thesis by (simp add: MarkSeen_def at_the_door_def)
  next
    case (fails e)
    obtain s w2 where st: "Stat ?b w1 = (s, w2)" by force
    note s = Stat_law [OF st]
    from assms rn None fails st
    have "(r, w') = (if \<not> errors_is e ErrNotExist then (Inl e, w1)
        else case s of Inr _ \<Rightarrow> (Inr (), w2) | Inl _ \<Rightarrow> (Inl (bad_id i), w2))"
      by (auto simp: MarkSeen_def at_the_door_def split: sum.splits)
    with s fails(2, 3) par refused already show ?thesis
      by (auto simp: same_disk_def split: if_splits sum.splits)
  qed
qed

text \<open>The id that is a separator: it renames the directories themselves.\<close>

lemma MarkSeen_slash:
  assumes "MarkSeen cx m ''/'' w = (r, w')"
  shows "look w' = look w \<or> renamed (m_root m @ [''new'']) (m_root m @ [''cur'']) w w'"
proof (cases "cx w")
  case (Some e)
  with assms show ?thesis by (simp add: MarkSeen_def at_the_door_def)
next
  case None
  let ?a = "m_root m @ [''new'']" and ?b = "m_root m @ [''cur'']"
  have sp: "safePath m sub ''/'' = Inr (m_root m @ [sub])" for sub by (simp add: safePath_Inr_iff)
  obtain r1 w1 where rn: "Rename ?a ?b w = (r1, w1)" by force
  have "?a \<noteq> ?b" by simp
  with rn show ?thesis
  proof (cases rule: Rename_cases)
    case works
    with rn None assms show ?thesis by (simp add: MarkSeen_def at_the_door_def sp)
  next
    case (fails e)
    obtain s w2 where st: "Stat ?b w1 = (s, w2)" by force
    from Stat_law [OF st] fails(2) have "look w1 = look w" "look w2 = look w"
      by (auto simp: same_disk_def)
    with assms rn None fails st show ?thesis
      by (auto simp: MarkSeen_def at_the_door_def sp split: sum.splits if_splits)
  qed
qed

lemma MarkSeen_id:
  assumes "MarkSeen cx m i w = (r, w')"
  obtains "plain_name i" | "i = ''/''" | e where "r = Inl e" "w' = w"
proof -
  have "(\<exists>e. r = Inl e \<and> w' = w)" if "\<not> plain_name i" "i \<noteq> ''/''"
  proof -
    have "\<exists>e. safePath m ''new'' i = Inl e"
      using that safePath_Inr_iff [of m "''new''" i] by (cases "safePath m ''new'' i") auto
    with assms show ?thesis by (auto simp: MarkSeen_def at_the_door_def split: option.splits)
  qed
  with that show thesis by blast
qed

text \<open>A renaming of a message inside the root leaves every other message where it is.\<close>

lemma renamed_elsewhere:
  "renamed a b w w' \<Longrightarrow> \<not> under a q \<Longrightarrow> \<not> under b q \<Longrightarrow> look w' q = look w q"
  by (simp add: renamed_def)

lemma renamed_crowded:
  "renamed a b w w' \<Longrightarrow> there w (b @ [n]) \<Longrightarrow> q \<noteq> a \<Longrightarrow> q \<noteq> b \<Longrightarrow> look w' q = look w q"
  unfolding renamed_def by blast

lemma under_same_length: "length a = length q \<Longrightarrow> under a q \<longleftrightarrow> a = q"
  by (auto simp: under_def)

definition seen_mark :: "maildir \<Rightarrow> string \<Rightarrow> disk \<Rightarrow> bool" where
  "seen_mark m i w \<longleftrightarrow>
     (plain_name i \<longrightarrow> there w (m_root m @ [''cur'', i]) \<and> \<not> there w (m_root m @ [''new'', i]))"

lemma MarkSeen_stays:
  assumes mk: "seen_mark m i w" and run: "MarkSeen cx m j w = (r, w')"
  shows "seen_mark m i w'"
proof (cases "look w' = look w \<or> \<not> plain_name i")
  case True
  with mk show ?thesis by (auto simp: seen_mark_def)
next
  case False
  let ?n = "\<lambda>i. m_root m @ [''new'', i]" and ?c = "\<lambda>i. m_root m @ [''cur'', i]"
  from False mk have i: "plain_name i" "there w (?c i)" "\<not> there w (?n i)"
    by (auto simp: seen_mark_def)
  from run show ?thesis
  proof (cases rule: MarkSeen_id)
    case 1
    from run 1 False have rn: "renamed (?n j) (?c j) w w'"
      by (cases rule: MarkSeen_cases) auto
    show ?thesis
    proof (cases "i = j")
      case True
      with rn i(3) show ?thesis by (simp add: renamed_def)
    next
      case ne: False
      with renamed_elsewhere [OF rn, of "?n i"] renamed_elsewhere [OF rn, of "?c i"] i
      show ?thesis by (simp add: seen_mark_def under_same_length)
    qed
  next
    case 2
    with run False MarkSeen_slash have rn: "renamed (m_root m @ [''new'']) (m_root m @ [''cur'']) w w'"
      by blast
    have "there w ((m_root m @ [''cur'']) @ [i])" using i(2) by simp
    from renamed_crowded [OF rn this, of "?n i"] renamed_crowded [OF rn this, of "?c i"] i
    show ?thesis by (simp add: seen_mark_def)
  next
    case (3 e)
    with False show ?thesis by simp
  qed
qed

interpretation ms: id_operation "MarkSeen cx m" "\<lambda>w. there w (m_root m @ [''cur''])" "seen_mark m"
  for cx m
proof
  let ?cur = "m_root m @ [''cur'']"
  fix w i r w'
  assume inv: "there w ?cur" and run: "MarkSeen cx m i w = (r, w')"
  from run show "there w' ?cur"
  proof (cases rule: MarkSeen_id)
    case 1
    have nu: "\<not> under (m_root m @ [s, i]) ?cur" for s by (simp add: under_def)
    from run 1 show ?thesis
    proof (cases rule: MarkSeen_cases)
      case moved
      with renamed_elsewhere [OF moved(2) nu nu] inv show ?thesis by simp
    qed (use inv in auto)
  next
    case 2
    with run inv MarkSeen_slash [of cx m w r w'] show ?thesis by (auto simp: renamed_def)
  next
    case (3 e)
    with inv show ?thesis by simp
  qed
next
  fix w i u w'
  assume inv: "there w (m_root m @ [''cur''])" and run: "MarkSeen cx m i w = (Inr u, w')"
  show "seen_mark m i w'"
  proof (cases "plain_name i")
    case True
    from run True show ?thesis
    proof (cases rule: MarkSeen_cases)
      case moved
      then show ?thesis by (simp add: seen_mark_def renamed_def under_same_length)
    next
      case already
      with inv show ?thesis by (simp add: seen_mark_def)
    qed simp
  qed (simp add: seen_mark_def)
next
  fix w i j r w'
  assume "seen_mark m i w" "MarkSeen cx m j w = (r, w')"
  then show "seen_mark m i w'" by (rule MarkSeen_stays)
qed

subsection \<open>Filing\<close>

lemma moveTo_cases:
  assumes "moveTo cx m sub i w = (r, w')"
  obtains (refused) e where "r = Inl e" "dirs_added w w'"
  | (moved) src w1 where "r = Inr ()" "spot m w i src" "dirs_added w w1"
      "look w1 (m_root m @ [sub, ''new'']) = Some Dir"
      "renamed src (join_path (m_root m @ [sub, ''new'']) i) w1 w'"
proof (cases "cx w")
  case (Some e)
  with assms refused [of e] show ?thesis by (simp add: moveTo_def at_the_door_def)
next
  case None
  let ?d = "m_root m @ [sub, ''new'']"
  obtain l w1 where l: "locate m i w = (l, w1)" by force
  note lw = locate_law [OF l]
  show ?thesis
  proof (cases l)
    case (Inl e)
    with assms None l lw(1) refused [of e] show ?thesis
      by (simp add: moveTo_def at_the_door_def dirs_added_same)
  next
    case (Inr src)
    from lw(2) [OF Inr] have sp: "spot m w i src" .
    obtain k w2 where k: "MkdirAll ?d w1 = (k, w2)" by force
    have added: "dirs_added w w2"
      using MkdirAll_law(1) [OF k] dirs_added_same [OF lw(1)] by (rule dirs_added_trans [rotated])
    show ?thesis
    proof (cases k)
      case (Inl e)
      with assms None l Inr k added refused [of e] show ?thesis
        by (simp add: moveTo_def at_the_door_def Let_def \<open>l = Inr src\<close>)
    next
      case (Inr u)
      have rn: "Rename src (join_path ?d i) w2 = (r, w')"
        using assms None l \<open>l = Inr src\<close> k Inr by (simp add: moveTo_def at_the_door_def Let_def)
      have "src \<noteq> join_path ?d i"
        using sp by (auto simp: spot_def join_plain join_slash)
      with rn show ?thesis
      proof (cases rule: Rename_cases)
        case (fails e)
        with added refused [of e] show ?thesis by (auto simp: dirs_added_def)
      next
        case works
        with moved [OF _ sp added] MkdirAll_law(2) [OF k] Inr show ?thesis by auto
      qed
    qed
  qed
qed

definition filed_mark :: "maildir \<Rightarrow> string \<Rightarrow> string \<Rightarrow> disk \<Rightarrow> bool" where
  "filed_mark m sub i w \<longleftrightarrow> (plain_name i \<longrightarrow> there w (m_root m @ [sub, ''new'', i]))"

lemma moveTo_files:
  assumes "moveTo cx m sub i w = (Inr u, w')"
  shows "filed_mark m sub i w'"
  using assms
proof (cases rule: moveTo_cases)
  case (moved src w1)
  then show ?thesis by (auto simp: filed_mark_def join_plain renamed_def)
qed simp

lemma moveTo_stays:
  assumes mk: "filed_mark m sub i w" and run: "moveTo cx m sub j w = (r, w')"
    and sub: "sub \<notin> {''new'', ''cur''}"
  shows "filed_mark m sub i w'"
proof (cases "plain_name i")
  case True
  let ?q = "m_root m @ [sub, ''new'', i]"
  from mk True have q: "there w ?q" by (simp add: filed_mark_def)
  from run have "there w' ?q"
  proof (cases rule: moveTo_cases)
    case (refused e)
    with q show ?thesis by (metis dirs_addedD(1))
  next
    case (moved src w1)
    from moved(3) q have q1: "there w1 ?q" by (metis dirs_addedD(1))
    have src: "\<not> under src ?q"
      using moved(2) sub by (auto simp: spot_def under_def)
    show ?thesis
    proof (cases "under (join_path (m_root m @ [sub, ''new'']) j) ?q")
      case False
      with renamed_elsewhere [OF moved(5) src] q1 show ?thesis by simp
    next
      case True
      from moved(2) consider (plain) "plain_name j" | (slash) "j = ''/''" by (auto simp: spot_def)
      then show ?thesis
      proof cases
        case plain
        with True have "join_path (m_root m @ [sub, ''new'']) j = ?q"
          by (simp add: join_plain under_same_length)
        with moved(5) show ?thesis by (simp add: renamed_def)
      next
        case slash
        have "there w1 ((m_root m @ [sub, ''new'']) @ [i])" using q1 by simp
        moreover have "src \<noteq> ?q" using src by auto
        ultimately show ?thesis
          using renamed_crowded [OF moved(5), of i ?q] slash q1 by (simp add: join_slash)
      qed
    qed
  qed
  then show ?thesis by (simp add: filed_mark_def)
qed (simp add: filed_mark_def)

lemma curation_dirs: "archiveDir \<notin> {''new'', ''cur''}" "trashDir \<notin> {''new'', ''cur''}"
  by (simp_all add: archiveDir_def trashDir_def)

interpretation ar: id_operation "maildir_Archive cx m" "\<lambda>w. True" "filed_mark m archiveDir"
  for cx m
  using moveTo_stays [OF _ _ curation_dirs(1)]
  by unfold_locales (auto simp: maildir_Archive_def intro: moveTo_files)

interpretation de: id_operation "maildir_Delete cx m" "\<lambda>w. True" "filed_mark m trashDir"
  for cx m
  using moveTo_stays [OF _ _ curation_dirs(2)]
  by unfold_locales (auto simp: maildir_Delete_def intro: moveTo_files)

subsection \<open>Listing\<close>

lemma is_file_simps [simp]:
  "\<not> is_file None" "\<not> is_file (Some Dir)" "is_file (Some (File c))"
  by (simp_all add: is_file_def)

lemma list_entries_law:
  "list_entries seen es = (ns, s) \<Longrightarrow>
     distinct ns \<and> set ns = {n. (n, False) \<in> set es} - seen \<and> s = seen \<union> set ns"
proof (induction seen es arbitrary: ns s rule: list_entries.induct)
  case (2 seen n d es)
  show ?case
  proof (cases "d \<or> n \<in> seen")
    case True
    then have "list_entries seen es = (ns, s)" using 2(3) by simp
    from 2(1) [OF True this] True show ?thesis by auto
  next
    case False
    obtain ns1 s1 where l: "list_entries (insert n seen) es = (ns1, s1)" by force
    from 2(3) l False have r: "ns = n # ns1" "s = s1" by auto
    from 2(2) [OF False l] have "distinct ns1" "set ns1 = {k. (k, False) \<in> set es} - insert n seen"
      "s1 = insert n seen \<union> set ns1" by blast+
    with r False show ?thesis by auto
  qed
qed auto

lemma list_subs_law:
  "list_subs root seen subs w = (Inr ids, w') \<Longrightarrow>
     distinct ids \<and> set ids = {n. \<exists>sub \<in> set subs. is_file (look w (root @ [sub, n]))} - seen"
proof (induction subs arbitrary: seen w ids)
  case (Cons sub subs)
  from Cons.prems obtain es w1 where rd: "ReadDir (root @ [sub]) w = (Inr es, w1)"
    by (auto split: sum.splits prod.splits)
  obtain ns s where le: "list_entries seen es = (ns, s)" by force
  note le' = list_entries_law [OF le]
  from Cons.prems rd le obtain rest where rest: "list_subs root s subs w1 = (Inr rest, w')"
    "ids = ns @ rest" by (auto split: sum.splits prod.splits)
  have l1: "look w1 = look w" using ReadDir_law [OF rd] by (simp add: same_disk_def)
  have es: "(n, False) \<in> set es \<longleftrightarrow> is_file (look w (root @ [sub, n]))" for n
    using ReadDir_law [OF rd] by (cases "look w (root @ [sub, n])") auto
  from Cons.IH [OF rest(1)] le' es l1 rest(2) show ?case by auto
qed auto

text \<open>a listing is the sorted list, without repetition, of the files in the directories the
  scope names: \<open>new/\<close> for unread, \<open>cur/\<close> for read, both for all.  Directories
  are not listed.\<close>

theorem listing_is_the_directory:
  assumes "List cx m scope w = (Inr ids, w')"
  shows "sorted ids \<and> distinct ids \<and>
    (\<exists>subs. scope_subs scope = Inr subs \<and>
       set ids = {n. \<exists>sub \<in> set subs. is_file (look w (m_root m @ [sub, n]))})"
proof -
  from assms obtain subs ids0 w1 where "scope_subs scope = Inr subs"
      "list_subs (m_root m) {} subs w = (Inr ids0, w1)" "ids = sort ids0"
    by (auto simp: List_def at_the_door_def split: option.splits sum.splits prod.splits)
  with list_subs_law [of "m_root m" "{}" subs w ids0 w1] show ?thesis by simp
qed

text \<open>A small mailbox, for evaluation: one message in each directory, one name in both.\<close>

definition toy_maildir :: maildir where
  "toy_maildir = \<lparr>m_root = [''r''], m_base = [''r''], maxBulkIDs = 100\<rparr>"

definition toy_dirs :: "(path \<times> bytes node) list" where
  "toy_dirs = [([''r''], Dir), ([''r'', ''new''], Dir), ([''r'', ''cur''], Dir)]"

definition toy_disk :: "fault list \<Rightarrow> disk" where
  "toy_disk fs =
     \<lparr>tree = toy_dirs @ [([''r'', ''new'', ''b''], File ''bee''), ([''r'', ''cur'', ''a''], File ''ay''),
        ([''r'', ''cur'', ''c''], File ''old''), ([''r'', ''new'', ''c''], File ''new'')],
      faults = fs, crashed = False\<rparr>"

definition no_deadline :: "disk ctx" where "no_deadline w = None"

lemmas toy_maildir_defs = toy_maildir_def toy_dirs_def toy_disk_def no_deadline_def

theorem listing_is_the_directory_witness:
  "\<exists>w'. List no_deadline toy_maildir ScopeAll (toy_disk []) = (Inr [''a'', ''b'', ''c''], w') \<and>
     distinct [''a'', ''b'', ''c'']"
proof -
  have "fst (List no_deadline toy_maildir ScopeAll (toy_disk [])) = Inr [''a'', ''b'', ''c'']"
    by code_simp
  then obtain w' where l: "List no_deadline toy_maildir ScopeAll (toy_disk []) =
      (Inr [''a'', ''b'', ''c''], w')" by (metis prod.collapse)
  with listing_is_the_directory [OF l] show ?thesis by blast
qed

subsection \<open>Properties of reading\<close>

text \<open>listing, searching (text or sender) and fetching, one by one or as a batch through the
  use cases, never change the Maildir: no file or directory appears, disappears, moves or
  changes, whatever the file system answers.\<close>

theorem reading_leaves_the_maildir:
  "keeps_view look (listMailbox (maildir_mailbox lib ds cx m) scope) \<and>
   keeps_view look (searchMailbox cx (maildir_mailbox lib ds cx m) scope query) \<and>
   keeps_view look (searchFromFallback cx (maildir_mailbox lib ds cx m) scope query sender) \<and>
   keeps_view look (fetchMany cx (maildir_mailbox lib ds cx m) is limit) \<and>
   keeps_view look (SearchFromScope lib cx m scope query sender)"
  unfolding maildir_mailbox_def
  by (intro conjI md.listMailbox_reads md.searchMailbox_reads md.searchFromFallback_reads
      md.fetchMany_reads SearchFromScope_reads)

lemma search_loop_is_the_scan:
  "search_loop cx m needle is w = scan_loop cx (maildir_ports lib ds cx m) needle is w"
  by (induction "is" arbitrary: w) (auto simp: maildir_ports_def split: sum.splits prod.splits)

text \<open>the backend's own search gives, byte for byte and fault for fault, what the use case's
  generic scan gives on the backend without its searchers, as long as the listing is within the
  scan budget; past it the generic scan refuses where the backend still answers.\<close>

theorem local_search_is_the_generic_scan:
  assumes "List cx m scope w = (l, w1)"
    and "p = (maildir_ports lib ds cx m)\<lparr>Searcher := None, ScopedSearcher := None\<rparr>"
    and "\<forall>is. l = Inr is \<longrightarrow> int (length is) \<le> MaxScanMessages"
  shows "SearchScope cx m scope query w = searchMailbox cx (Mailbox p fo) scope query w"
proof -
  have lm: "listMailbox (Mailbox p fo) scope w = (l, w1)"
    using assms(1, 2) by (simp add: listMailbox_def maildir_ports_def)
  have "scan_loop cx p = scan_loop cx (maildir_ports lib ds cx m)"
  proof (intro ext)
    fix needle "is" v
    show "scan_loop cx p needle is v = scan_loop cx (maildir_ports lib ds cx m) needle is v"
      by (induction "is" arbitrary: v) (auto simp: assms(2) split: sum.splits prod.splits)
  qed
  then have scan: "scan_loop cx p needle is v = search_loop cx m needle is v" for needle "is" v
    by (simp add: search_loop_is_the_scan [of _ _ _ _ _ lib ds])
  have bare: "ScopedSearcher p = None" "Searcher p = None" by (simp_all add: assms(2))
  show ?thesis
  proof (cases l)
    case (Inl e)
    with assms(1) lm bare show ?thesis
      by (simp add: SearchScope_def searchMailbox_def cong: if_cong)
  next
    case (Inr "is")
    with assms(3) have "CheckScanBudget (length is) scope = None" by (simp add: check_simps)
    with assms(1) lm bare Inr scan show ?thesis
      by (simp add: SearchScope_def searchMailbox_def cong: if_cong)
  qed
qed

theorem local_search_is_the_generic_scan_witness:
  "SearchScope no_deadline toy_maildir ScopeAll ''E'' (toy_disk []) =
     searchMailbox no_deadline (Mailbox ((maildir_ports plain_mail 0 no_deadline toy_maildir)
        \<lparr>Searcher := None, ScopedSearcher := None\<rparr>) None) ScopeAll ''E'' (toy_disk [])"
proof -
  obtain l w1 where l: "List no_deadline toy_maildir ScopeAll (toy_disk []) = (l, w1)" by force
  have "fst (List no_deadline toy_maildir ScopeAll (toy_disk [])) = Inr [''a'', ''b'', ''c'']"
    by code_simp
  with l have "l = Inr [''a'', ''b'', ''c'']" by simp
  with local_search_is_the_generic_scan [OF l, of _ plain_mail 0 "''E''" None]
  show ?thesis by (simp add: MaxScanMessages_def)
qed

subsection \<open>Properties of acknowledging and filing\<close>

text \<open>acknowledging a message moves its file from \<open>new/\<close> to \<open>cur/\<close> with the
  same bytes and changes nothing else; for a message that is not in \<open>new/\<close> success means it
  is in \<open>cur/\<close> already and nothing changed, and a failure never changes anything.\<close>

theorem acknowledging_moves_or_confirms:
  assumes "plain_name i" "MarkSeen cx m i w = (r, w')" "there w (m_root m @ [''cur''])"
  shows "(\<forall>e. r = Inl e \<longrightarrow> look w' = look w) \<and>
    (\<forall>c. r = Inr () \<and> look w (m_root m @ [''new'', i]) = Some (File c) \<longrightarrow>
       look w' = (look w)(m_root m @ [''new'', i] := None,
                          m_root m @ [''cur'', i] \<mapsto> File c)) \<and>
    (r = Inr () \<and> look w (m_root m @ [''new'', i]) = None \<longrightarrow>
       look w' = look w \<and> there w (m_root m @ [''cur'', i]))"
  using assms(2, 1)
proof (cases rule: MarkSeen_cases)
  case (refused e)
  then show ?thesis by simp
next
  case moved
  then show ?thesis unfolding renamed_def by auto
next
  case already
  with assms(3) show ?thesis by auto
qed

theorem acknowledging_moves_or_confirms_witness:
  "\<exists>w'. MarkSeen no_deadline toy_maildir ''b'' (toy_disk []) = (Inr (), w') \<and>
     look w' = (look (toy_disk []))([''r'', ''new'', ''b''] := None,
       [''r'', ''cur'', ''b''] \<mapsto> File ''bee'')"
proof -
  have "fst (MarkSeen no_deadline toy_maildir ''b'' (toy_disk [])) = Inr ()" by code_simp
  then obtain w' where r: "MarkSeen no_deadline toy_maildir ''b'' (toy_disk []) = (Inr (), w')"
    by (metis prod.collapse)
  have "plain_name ''b''" by code_simp
  moreover have "look (toy_disk []) [''r'', ''new'', ''b''] = Some (File ''bee'')"
    "look (toy_disk []) [''r'', ''cur''] = Some Dir" by code_simp+
  moreover have "m_root toy_maildir = [''r'']" by (simp add: toy_maildir_def)
  ultimately show ?thesis
    using acknowledging_moves_or_confirms [OF _ r] r by (intro exI [of _ w']) simp
qed

text \<open>after a batch through the use cases, every id reported as acknowledged is in
  \<open>cur/\<close> and no longer in \<open>new/\<close>, and every id reported as archived or deleted
  is in the archive or the trash: a later id of the batch never undoes an earlier one.\<close>

theorem batches_leave_what_they_report:
  assumes "BulkLimit m = limit" "CheckBulkIDsLimit is limit = None"
    "there w (m_root m @ [''cur''])" "\<forall>i \<in> set is. plain_name i"
    and "mb = maildir_mailbox lib ds cx m" "act \<in> {actionArchive, actionDelete}"
  shows "(\<forall>res e w'. markSeenMany cx mb is limit w = ((res, e), w') \<longrightarrow>
       (\<forall>i \<in> set (Succeeded res). there w' (m_root m @ [''cur'', i]) \<and>
          \<not> there w' (m_root m @ [''new'', i]))) \<and>
    (\<forall>res e w'. curateMany cx mb is act limit w = ((res, e), w') \<longrightarrow>
       (\<forall>i \<in> set (Succeeded res). there w'
          (m_root m @ [if act = actionArchive then archiveDir else trashDir, ''new'', i])))"
proof -
  have bulk: "BulkMailbox (ops mb) = None" "BulkCurator (ops mb) = None"
    "MarkSeenOp (ops mb) = MarkSeen cx m"
    "Curator (ops mb) = Some \<lparr>ArchiveOne = maildir_Archive cx m, DeleteOne = maildir_Delete cx m\<rparr>"
    by (simp_all add: assms(5) maildir_mailbox_def maildir_ports_def)
  have named: "i \<in> set (Succeeded res) \<Longrightarrow> plain_name i"
    if "bulkEach cx is f w = ((res, e), w')" for f res e w' i
    using bulkEach_report [OF that] assms(2, 4) by (auto simp: check_simps reported_def)
  have seen: "seen_mark m i w'"
    if "bulkEach cx is (MarkSeen cx m) w = ((res, e), w')" "i \<in> set (Succeeded res)" for res e w' i
    using ms.bulkEach_marks [OF that(1) assms(3)] that(2) by blast
  have arch: "filed_mark m archiveDir i w'"
    if "bulkEach cx is (maildir_Archive cx m) w = ((res, e), w')" "i \<in> set (Succeeded res)" for res e w' i
    using ar.bulkEach_marks [OF that(1)] that(2) by blast
  have del: "filed_mark m trashDir i w'"
    if "bulkEach cx is (maildir_Delete cx m) w = ((res, e), w')" "i \<in> set (Succeeded res)" for res e w' i
    using de.bulkEach_marks [OF that(1)] that(2) by blast
  have ms: "markSeenMany cx mb is limit w = bulkEach cx is (MarkSeen cx m) w"
    using assms(2) bulk by (simp add: markSeenMany_def)
  have cu: "curateMany cx mb is act limit w =
      bulkEach cx is (if act = actionArchive then maildir_Archive cx m else maildir_Delete cx m) w"
    using assms(2) bulk by (simp add: curateMany_def)
  show ?thesis
  proof (intro conjI allI impI ballI)
    fix res e w' i
    assume r: "markSeenMany cx mb is limit w = ((res, e), w')" "i \<in> set (Succeeded res)"
    from r(1) ms have b: "bulkEach cx is (MarkSeen cx m) w = ((res, e), w')" by simp
    from seen [OF b r(2)] named [OF b r(2)]
    show "there w' (m_root m @ [''cur'', i])" "\<not> there w' (m_root m @ [''new'', i])"
      by (simp_all add: seen_mark_def)
  next
    fix res e w' i
    assume r: "curateMany cx mb is act limit w = ((res, e), w')" "i \<in> set (Succeeded res)"
    then have b: "bulkEach cx is (if act = actionArchive then maildir_Archive cx m
        else maildir_Delete cx m) w = ((res, e), w')" using cu by simp
    from named [OF b r(2)] r(2) b arch [of res e w' i] del [of res e w' i] show "there w'
        (m_root m @ [if act = actionArchive then archiveDir else trashDir, ''new'', i])"
      by (cases act) (simp_all add: filed_mark_def)
  qed
qed

theorem batches_leave_what_they_report_witness:
  "\<exists>res e w'. markSeenMany no_deadline (maildir_mailbox plain_mail 0 no_deadline toy_maildir)
       [''b'', ''c''] 100 (toy_disk [Works, IOError]) = ((res, e), w') \<and> Succeeded res = [''b''] \<and>
     there w' [''r'', ''cur'', ''b'']"
proof -
  let ?mb = "maildir_mailbox plain_mail 0 no_deadline toy_maildir"
  let ?run = "markSeenMany no_deadline ?mb [''b'', ''c''] 100 (toy_disk [Works, IOError])"
  have "Succeeded (fst (fst ?run)) = [''b'']" by code_simp
  moreover obtain res e w' where r: "?run = ((res, e), w')" by (metis surj_pair)
  ultimately have s: "Succeeded res = [''b'']" by simp
  have "CheckBulkIDsLimit [''b'', ''c''] 100 = None"
    by (simp add: check_simps effective_limit_def)
  moreover have "look (toy_disk [Works, IOError]) [''r'', ''cur''] \<noteq> None" by code_simp
  moreover have "plain_name ''b''" "plain_name ''c''" by code_simp+
  moreover have root: "m_root toy_maildir = [''r'']" "BulkLimit toy_maildir = 100"
    by (simp_all add: toy_maildir_def BulkLimit_def)
  ultimately have "\<forall>i \<in> set (Succeeded res). there w' (m_root toy_maildir @ [''cur'', i])"
    using batches_leave_what_they_report [of toy_maildir 100 "[''b'', ''c'']"
        "toy_disk [Works, IOError]" ?mb plain_mail 0 no_deadline actionArchive] r by simp
  with s root r show ?thesis by auto
qed



text \<open>A file of the same name that is already in the archive is replaced: its bytes are then
  nowhere on the disk, although both operations report success.\<close>

lemma archiving_a_namesake_destroys_the_first:
  "\<exists>w1 w2 w3. maildir_Archive no_deadline toy_maildir ''c'' (toy_disk []) = (Inr (), w1) \<and>
     maildir_Archive no_deadline toy_maildir ''c'' w1 = (Inr (), w2) \<and>
     look (toy_disk []) [''r'', ''new'', ''c''] = Some (File ''new'') \<and>
     list_all (\<lambda>(p, n). n \<noteq> File ''new'') (tree w2)"
proof -
  let ?a = "maildir_Archive no_deadline toy_maildir ''c''"
  have "fst (?a (toy_disk [])) = Inr ()" "fst (?a (snd (?a (toy_disk [])))) = Inr ()"
    "look (toy_disk []) [''r'', ''new'', ''c''] = Some (File ''new'')"
    "list_all (\<lambda>(p, n). n \<noteq> File ''new'') (tree (snd (?a (snd (?a (toy_disk []))))))"
    by code_simp+
  then show ?thesis by (metis prod.collapse)
qed

end
