(* ===== verification/Maildir_Folders.thy ===== *)
theory Maildir_Folders
  imports Maildir_Curation
begin

section \<open>Moving, folders, confinement and delivery on the local mailbox\<close>

text \<open>
  What moving a message, making and unmaking folders and delivering into a Maildir do, and that
  no name a caller gives leads outside the account's root.
\<close>

subsection \<open>Moving\<close>

lemma Stat_absent:
  assumes "Stat p w = (Inl e, w')" "errors_is e ErrNotExist"
  shows "look w p = None"
  using syscall_result [OF assms(1) [unfolded Stat_def]] assms(2)
  by (auto simp: io_error_def gone_def same_disk_def split: option.splits)

lemma move_target_cases:
  assumes "move_target d = Inr t"
  obtains (inbox) "d = ''INBOX''" "t = []" | (plain) "t = d" "plain_name d" "curatedDir d = None" "d \<noteq> ''INBOX''"
  | (slash) "d = ''/''" "t = d"
proof (cases "d = ''INBOX''")
  case True
  with assms inbox show ?thesis by (simp add: move_target_def split: option.splits)
next
  case False
  with assms have d: "t = d" "d \<noteq> [] \<longrightarrow> d = base d \<and> \<not> has_prefix d ''.'' \<and> curatedDir d = None"
    "CheckFolderName d = None"
    by (auto simp: move_target_def Let_def split: option.splits if_splits)
  then have "d \<noteq> []" by (auto simp: check_simps trim_space_def trim_left_def trim_right_def)
  with d have ne: "d \<noteq> []" "d = base d" "\<not> has_prefix d ''.''" "curatedDir d = None" by auto
  with d(1) False show ?thesis using valid_name_cases [of d] plain slash by metis
qed

text \<open>Where \<open>Move\<close> puts a message of the directory \<open>sub\<close>.\<close>

definition move_root :: "maildir \<Rightarrow> string \<Rightarrow> path" where
  "move_root m t = (if t = [] then m_base m else join_path (m_base m) t)"

lemma Move_cases:
  assumes "Move cx m i d w = (r, w')"
  obtains (refused) e where "r = Inl e" "look w' = look w"
  | (moved) t src dst where "r = Inr ()" "move_target d = Inr t" "spot m w i src"
      "there w (move_root m t @ [''new''])"
      "dst = join_path (join_path (move_root m t) (dir_base src)) i" "look w dst = None"
      "renamed src dst w w'"
proof (cases "cx w")
  case (Some e)
  with assms refused [of e] show ?thesis by (simp add: Move_def at_the_door_def)
next
  case None
  show ?thesis
  proof (cases "move_target d")
    case (Inl e)
    with assms None refused [of e] show ?thesis by (simp add: Move_def at_the_door_def)
  next
    case (Inr t)
    obtain l w1 where l: "locate m i w = (l, w1)" by force
    note lw = locate_law [OF l]
    show ?thesis
    proof (cases l)
      case (Inl e)
      with assms None \<open>move_target d = Inr t\<close> l lw(1) refused [of e] show ?thesis
        by (simp add: Move_def at_the_door_def)
    next
      case (Inr src)
      let ?dst = "join_path (join_path (move_root m t) (dir_base src)) i"
      obtain s w2 where st: "Stat (move_root m t @ [''new'']) w1 = (s, w2)" by force
      obtain s3 w3 where st3: "Stat ?dst w2 = (s3, w3)" by force
      have same: "look w2 = look w" "look w3 = look w"
        using call_reads(1) [OF st] call_reads(1) [OF st3] lw(1) by simp_all
      have run: "(r, w') = (case s of Inl _ \<Rightarrow> (Inl (Failure ''destination folder does not exist''), w2)
          | Inr _ \<Rightarrow> (case s3 of Inr _ \<Rightarrow> (Inl (Failure ''destination already contains message''), w3)
              | Inl e \<Rightarrow> if \<not> errors_is e ErrNotExist then (Inl e, w3) else Rename src ?dst w3))"
        using assms None \<open>move_target d = Inr t\<close> l Inr st st3
        by (auto simp: Move_def at_the_door_def move_root_def Let_def split: sum.splits)
      show ?thesis
      proof (cases "\<exists>n e. s = Inr n \<and> s3 = Inl e \<and> errors_is e ErrNotExist")
        case True
        then obtain n e where ok: "s = Inr n" "s3 = Inl e" "errors_is e ErrNotExist" by blast
        with run have rn: "Rename src ?dst w3 = (r, w')" by simp
        have new: "there w (move_root m t @ [''new''])"
          using Stat_law [OF st] ok(1) lw(1) by simp
        have free: "look w ?dst = None"
          using Stat_absent [of ?dst w2 e w3] st3 ok(2, 3) same(1) by simp
        have sp: "spot m w i src" using lw(2) Inr by blast
        then have "src \<noteq> ?dst" using free by (auto simp: spot_def)
        with rn show ?thesis
        proof (cases rule: Rename_cases)
          case (fails e)
          with refused [of e] same show ?thesis by simp
        next
          case works
          then have "renamed src ?dst w w'" using same by (simp add: renamed_def)
          with moved [OF works(1) \<open>move_target d = Inr t\<close> sp new refl free] show ?thesis .
        qed
      next
        case False
        with run refused same show ?thesis by (auto split: sum.splits if_splits)
      qed
    qed
  qed
qed

text \<open>C14: moving a message into a folder never replaces one: when it succeeds the file is in the
  folder of the destination, in the directory of its read state, under the same name and with
  the same bytes, that name was free there before, and nothing else changed; when it fails
  nothing changed at all.\<close>

theorem moving_never_overwrites:
  assumes "plain_name i" "(s, t) \<in> {(''new'', ''cur''), (''cur'', ''new'')}"
    and "look w (m_root m @ [s, i]) = Some (File c)" "look w (m_root m @ [t, i]) = None"
    and "d = ''INBOX'' \<and> target = m_base m \<or> plain_name d \<and> d \<noteq> ''INBOX'' \<and> target = m_base m @ [d]"
    and "Move cx m i d w = (r, w')"
  shows "(r = Inr () \<longrightarrow> look w (target @ [s, i]) = None \<and> there w (target @ [''new'']) \<and>
       look w' = (look w)(m_root m @ [s, i] := None, target @ [s, i] \<mapsto> File c)) \<and>
    (r \<noteq> Inr () \<longrightarrow> look w' = look w)"
  using assms(6)
proof (cases rule: Move_cases)
  case (refused e)
  then show ?thesis by simp
next
  case (moved tt src dst)
  from moved(3) assms(1, 2, 4) have src: "src = m_root m @ [s, i]"
    by (auto simp: spot_def plain_name_def)
  have target: "move_root m tt = target"
    using moved(2) assms(5)
    by (cases rule: move_target_cases) (auto simp: move_root_def join_plain plain_name_def)
  have "plain_name s" using assms(2) by (auto simp: plain_name_def has_prefix_def)
  then have "dst = target @ [s, i]"
    using moved(5) target src assms(1) by (simp add: dir_base_def butlast_append join_plain)
  with moved src target assms(3) show ?thesis unfolding renamed_def by auto
qed

definition toy_folder_disk :: "fault list \<Rightarrow> disk" where
  "toy_folder_disk fs = (toy_disk fs)\<lparr>tree := tree (toy_disk fs) @
     [([''r'', ''W''], Dir), ([''r'', ''W'', ''new''], Dir), ([''r'', ''W'', ''cur''], Dir)]\<rparr>"

theorem moving_never_overwrites_witness:
  "\<exists>w'. Move no_deadline toy_maildir ''a'' ''W'' (toy_folder_disk []) = (Inr (), w') \<and>
     look w' = (look (toy_folder_disk []))([''r'', ''cur'', ''a''] := None,
       [''r'', ''W'', ''cur'', ''a''] \<mapsto> File ''ay'')"
proof -
  have "fst (Move no_deadline toy_maildir ''a'' ''W'' (toy_folder_disk [])) = Inr ()" by code_simp
  then obtain w' where r: "Move no_deadline toy_maildir ''a'' ''W'' (toy_folder_disk []) = (Inr (), w')"
    by (metis prod.collapse)
  have "plain_name ''a''" "plain_name ''W''"
    "look (toy_folder_disk []) [''r'', ''cur'', ''a''] = Some (File ''ay'')"
    "look (toy_folder_disk []) [''r'', ''new'', ''a''] = None" by code_simp+
  moreover have "m_root toy_maildir = [''r'']" "m_base toy_maildir = [''r'']"
    by (simp_all add: toy_maildir_def)
  ultimately show ?thesis
    using moving_never_overwrites [OF _ _ _ _ _ r, of "''cur''" "''new''" "''ay''" "[''r'', ''W'']"] r
    by (intro exI [of _ w']) simp
qed

subsection \<open>Folders\<close>

lemma folderPath_cases:
  assumes "folderPath m name = Inr dir"
  obtains (plain) "plain_name name" "dir = m_root m @ [name]" "curatedDir name = None"
  | (slash) "name = ''/''" "dir = m_root m"
proof -
  from assms have n: "name = base name" "\<not> has_prefix name ''.''" "curatedDir name = None"
    "CheckFolderName name = None" "dir = join_path (m_root m) name"
    by (auto simp: folderPath_def split: option.splits if_splits)
  then have "name \<noteq> []" by (auto simp: check_simps trim_space_def trim_left_def trim_right_def)
  with n plain slash show ?thesis using valid_name_cases [of name] by (metis join_plain join_slash)
qed

lemma Remove_absent:
  assumes "Remove_path p w = (Inl e, w')" "errors_is e ErrNotExist"
  shows "look w p = None"
  using syscall_result [OF assms(1) [unfolded Remove_path_def]]
proof (elim disjE exE conjE)
  fix w0
  assume s: "same_disk w w0" and b: "(case look w0 p of None \<Rightarrow> (Inl (absent w0 p), w0)
      | Some Dir \<Rightarrow> if child_names w0 p = [] then (Inr (), drop_path p w0)
          else (Inl (Failure ''directory not empty''), w0)
      | Some (File c) \<Rightarrow> (Inr (), drop_path p w0)) = (Inl e, w')"
  show ?thesis
  proof (cases "look w0 p")
    case None
    with s show ?thesis by (simp add: same_disk_def)
  next
    case (Some n)
    with b assms(2) show ?thesis by (cases n) (auto split: if_splits)
  qed
qed (use assms(2) in \<open>auto simp: io_error_def gone_def\<close>)

lemma remove_each_law:
  "remove_each name ps w = (r, w') \<Longrightarrow>
     (\<forall>q. look w' q = look w q \<or> q \<in> set ps \<and> look w' q = None) \<and>
     (r = Inr () \<longrightarrow> (\<forall>p \<in> set ps. look w' p = None))"
proof (induction ps arbitrary: w)
  case (Cons p ps)
  obtain r1 w1 where rm: "Remove_path p w = (r1, w1)" by force
  from Remove_path_law [OF rm]
  have frame: "\<forall>q. look w1 q = look w q \<or> q = p \<and> look w1 q = None"
    by (auto simp: same_disk_def turned_def split: if_splits)
  have go: ?case if "remove_each name ps w1 = (r, w')" "look w1 p = None"
    using Cons.IH [OF that(1)] frame that(2) by (auto) metis+
  show ?case
  proof (cases r1)
    case (Inr u)
    with Remove_path_law [OF rm] have "look w1 p = None" by (auto simp: turned_def)
    with go Cons.prems rm Inr show ?thesis by simp
  next
    case (Inl e)
    show ?thesis
    proof (cases "errors_is e ErrNotExist")
      case True
      from Remove_absent [of p w e w1] rm Inl True frame have "look w1 p = None" by metis
      with go Cons.prems rm Inl True show ?thesis by simp
    next
      case False
      obtain h w2 where rd: "ReadDir p w1 = (h, w2)" by force
      from Cons.prems rm Inl False rd have "w' = w2" "r \<noteq> Inr ()"
        by (auto split: sum.splits if_splits)
      with call_reads(3) [OF rd] frame show ?thesis by auto
    qed
  qed
qed auto

lemma count_content_law:
  "count_content dir es w = (Inr (0, []), w') \<Longrightarrow>
     look w' = look w \<and> (\<forall>(n, d) \<in> set es. d \<and> n \<in> set maildirSubs)"
proof (induction es arbitrary: w)
  case (Cons e es)
  obtain n d where e: "e = (n, d)" by force
  show ?case
  proof (cases "d \<and> n \<in> set maildirSubs")
    case True
    obtain h w1 where rd: "ReadDir (dir @ [n]) w = (h, w1)" by force
    from Cons.prems e True rd have "count_content dir es w1 = (Inr (0, []), w')"
      by (auto split: sum.splits prod.splits)
    from Cons.IH [OF this] call_reads(3) [OF rd] e True show ?thesis by auto
  next
    case False
    with Cons.prems e show ?thesis by (auto split: sum.splits prod.splits if_splits)
  qed
qed auto

lemma checkFolderEmpty_law:
  assumes "checkFolderEmpty name dir w = (Inr (), w')"
  shows "look w' = look w" "look w dir = Some Dir"
    "is_file (look w (dir @ [n])) = False"
proof -
  from assms obtain es w1 where rd: "ReadDir dir w = (Inr es, w1)"
    by (auto simp: checkFolderEmpty_def split: sum.splits prod.splits if_splits)
  with assms have "count_content dir es w1 = (Inr (0, []), w')"
    by (auto simp: checkFolderEmpty_def check_simps split: sum.splits prod.splits option.splits)
  note content = count_content_law [OF this]
  have same: "look w1 = look w" "look w dir = Some Dir"
    and es: "(n, d) \<in> set es \<longleftrightarrow> there w (dir @ [n]) \<and> (d \<longleftrightarrow> \<not> is_file (look w (dir @ [n])))" for n d
    using ReadDir_law [OF rd] by (simp_all add: same_disk_def)
  show "look w' = look w" "look w dir = Some Dir" using content same by simp_all
  have "(n, False) \<notin> set es" using content by auto
  with es [of n False] show "is_file (look w (dir @ [n])) = False"
    by (cases "look w (dir @ [n])") auto
qed

lemma count_content_reads: "count_content dir es v = (x, v') \<Longrightarrow> look v' = look v"
proof (induction es arbitrary: v x v')
  case (Cons e es)
  obtain n d where e: "e = (n, d)" by force
  obtain h v1 where h: "ReadDir (dir @ [n]) v = (h, v1)" by force
  obtain y v2 where y: "count_content dir es v = (y, v2)" by force
  obtain z v3 where z: "count_content dir es v1 = (z, v3)" by force
  from Cons.prems e h y z Cons.IH [OF y] Cons.IH [OF z] call_reads(3) [OF h]
  show ?case by (auto split: sum.splits if_splits)
qed auto

lemma checkFolderEmpty_reads: "checkFolderEmpty name dir w = (k, w') \<Longrightarrow> look w' = look w"
proof -
  assume k: "checkFolderEmpty name dir w = (k, w')"
  obtain e1 w1 where rd: "ReadDir dir w = (e1, w1)" by force
  from k rd call_reads(3) [OF rd] show ?thesis
    by (auto simp: checkFolderEmpty_def dest!: count_content_reads
        split: sum.splits prod.splits option.splits if_splits)
qed

lemma DeleteFolder_cases:
  assumes "DeleteFolder cx m name w = (r, w')"
  obtains (refused) e where "r = Inl e" "look w' = look w"
  | (removes) dir w2 where "folderPath m name = Inr dir"
      "checkFolderEmpty name dir w = (Inr (), w2)" "removeFolder name dir w2 = (r, w')"
proof (cases "cx w \<noteq> None \<or> (\<exists>e. folderPath m name = Inl e) \<or>
    CheckFolderDeletable name (case curatedDir name of Some c \<Rightarrow> c | None \<Rightarrow> name) the_plan \<noteq> None")
  case True
  with assms have "\<exists>e. r = Inl e \<and> w' = w"
    by (auto simp: DeleteFolder_def at_the_door_def CurationPlan_def Let_def split: option.splits)
  with refused show ?thesis by blast
next
  case False
  then obtain dir where dir: "folderPath m name = Inr dir" by (cases "folderPath m name") auto
  obtain k w2 where k: "checkFolderEmpty name dir w = (k, w2)" by force
  have run: "(case k of Inl e \<Rightarrow> (Inl e, w2) | Inr _ \<Rightarrow> removeFolder name dir w2) = (r, w')"
    using assms False dir k
    by (auto simp: DeleteFolder_def at_the_door_def CurationPlan_def Let_def split: sum.splits)
  show ?thesis
  proof (cases k)
    case (Inl e)
    with run refused [of e] checkFolderEmpty_reads [OF k] show ?thesis by simp
  next
    case (Inr u)
    with run removes [OF dir] k show ?thesis by simp
  qed
qed

lemma removeFolder_law:
  assumes "removeFolder name dir v = (x, v')"
  shows "look v' q = look v q \<or>
      q \<in> {dir @ [''new''], dir @ [''cur''], dir @ [''tmp''], dir} \<and> look v' q = None"
    "x = Inr () \<Longrightarrow> look v' dir = None"
proof -
  have dirs: "map (\<lambda>sub. join_path dir sub) (maildirSubs @ [''.'']) =
      [dir @ [''new''], dir @ [''cur''], dir @ [''tmp''], dir]"
    by (simp add: maildirSubs_def join_dot join_plain plain_name_def has_prefix_def)
  note law = remove_each_law [OF assms [unfolded removeFolder_def dirs]]
  from law show "look v' q = look v q \<or>
      q \<in> {dir @ [''new''], dir @ [''cur''], dir @ [''tmp''], dir} \<and> look v' q = None" by auto
  from law show "x = Inr () \<Longrightarrow> look v' dir = None" by simp
qed

text \<open>C15: deleting a folder never takes mail with it: no file of the disk is removed or changed,
  on any path and whatever fails, and success means the folder's directory is gone.  Even the
  removal alone, started on a disk where mail arrived after the count, touches nothing but the
  folder's own four directories.\<close>

theorem deleting_a_folder_keeps_every_file:
  assumes "DeleteFolder cx m name w = (r, w')"
  shows "(\<forall>q. is_file (look w q) \<longrightarrow> look w' q = look w q) \<and>
    (r = Inr () \<longrightarrow> (\<exists>dir. folderPath m name = Inr dir \<and> look w dir = Some Dir \<and> look w' dir = None)) \<and>
    (\<forall>dir v x v'. removeFolder name dir v = (x, v') \<longrightarrow>
       (\<forall>q. q \<notin> {dir @ [''new''], dir @ [''cur''], dir @ [''tmp''], dir} \<longrightarrow> look v' q = look v q))"
proof -
  have "(\<forall>q. is_file (look w q) \<longrightarrow> look w' q = look w q) \<and>
    (r = Inr () \<longrightarrow> (\<exists>dir. folderPath m name = Inr dir \<and> look w dir = Some Dir \<and> look w' dir = None))"
    using assms
  proof (cases rule: DeleteFolder_cases)
    case (removes dir w2)
    note empty = checkFolderEmpty_law [OF removes(2)]
    have "look w' q = look w q" if "is_file (look w q)" for q
      using removeFolder_law(1) [OF removes(3), of q] empty that by auto
    with removeFolder_law(2) [OF removes(3)] removes(1) empty(2) show ?thesis by auto
  qed simp
  with removeFolder_law(1) show ?thesis by blast
qed

theorem deleting_a_folder_keeps_every_file_witness:
  "look (snd (DeleteFolder no_deadline toy_maildir ''W'' (toy_folder_disk []))) [''r'', ''W''] = None \<and>
   look (snd (DeleteFolder no_deadline toy_maildir ''W'' (toy_folder_disk []))) [''r'', ''new'', ''b''] =
     Some (File ''bee'')"
proof -
  have "fst (DeleteFolder no_deadline toy_maildir ''W'' (toy_folder_disk [])) = Inr ()" by code_simp
  then obtain w' where r: "DeleteFolder no_deadline toy_maildir ''W'' (toy_folder_disk []) = (Inr (), w')"
    by (metis prod.collapse)
  have "folderPath toy_maildir ''W'' = Inr [''r'', ''W'']" by code_simp
  moreover have "look (toy_folder_disk []) [''r'', ''new'', ''b''] = Some (File ''bee'')" by code_simp
  ultimately show ?thesis using deleting_a_folder_keeps_every_file [OF r] r by auto
qed

subsection \<open>Creating a folder\<close>

lemma MkdirAll_where:
  assumes "MkdirAll p w = (r, w')" "look w' q \<noteq> look w q"
  shows "look w q = None" "look w' q = Some Dir" "under q p"
proof -
  have "look w q = None \<and> look w' q = Some Dir \<and> q \<in> set (ancestors p @ [p])"
    using assms(1) unfolding MkdirAll_def
  proof (cases rule: syscall_cases)
    case (runs w0)
    with mkdirs_law [of "ancestors p @ [p]" w0 r w'] assms(2) show ?thesis
      unfolding same_disk_def by metis
  qed (use assms(2) in \<open>auto simp: same_disk_def\<close>)
  then show "look w q = None" "look w' q = Some Dir" "under q p"
    by (auto simp: ancestors_def under_def min_def)
qed

lemma make_dirs_where:
  "make_dirs ps (w :: disk) = (r, w') \<Longrightarrow> look w' q \<noteq> look w q \<Longrightarrow>
     look w q = None \<and> look w' q = Some Dir \<and> (\<exists>p \<in> set ps. under q p)"
proof (induction ps arbitrary: w)
  case (Cons p ps)
  obtain r1 w1 where m: "MkdirAll p w = (r1, w1)" by force
  show ?case
  proof (cases "r1 = Inr () \<and> look w1 q = look w q")
    case True
    with Cons.prems m have "make_dirs ps w1 = (r, w')" by simp
    from Cons.IH [OF this] Cons.prems(2) True show ?thesis by auto
  next
    case False
    have add: "dirs_added w1 w'"
      using Cons.prems(1) m make_dirs_law [of ps w1 r w'] by (cases r1) auto
    have ne: "look w1 q \<noteq> look w q"
      using False Cons.prems m by (cases r1) auto
    note mk = MkdirAll_where [OF m ne]
    from mk(2) have "look w' q = look w1 q" using dirs_addedD(1) [OF add] by simp
    with mk show ?thesis by simp
  qed
qed auto

lemma make_dirs_chain:
  "make_dirs ps (w :: disk) = (Inr (), w') \<Longrightarrow> p \<in> set ps \<Longrightarrow> q \<in> set (ancestors p @ [p]) \<Longrightarrow>
     look w' q = Some Dir"
proof (induction ps arbitrary: w)
  case (Cons x ps)
  obtain r1 w1 where m: "MkdirAll x w = (r1, w1)" by force
  with Cons.prems have r: "r1 = Inr ()" and go: "make_dirs ps w1 = (Inr (), w')"
    by (auto split: sum.splits)
  show ?case
  proof (cases "p \<in> set ps")
    case True
    with Cons.IH [OF go] Cons.prems show ?thesis by simp
  next
    case False
    with Cons.prems MkdirAll_law(2, 3) [OF m r] have "look w1 q = Some Dir" by auto
    with make_dirs_law [OF go] dirs_addedD(1) [of w1 w' q] show ?thesis by simp
  qed
qed simp

text \<open>creating a folder changes and removes nothing that exists, it only adds directories; on
  success the three directories of a Maildir are there, and creating it again on a working disk
  succeeds and changes nothing, whether the folder is new, was there before or is the inbox.\<close>

theorem creating_a_folder_is_idempotent:
  assumes "CreateFolder cx m name w = (r, w')"
  shows "(\<forall>q. there w q \<longrightarrow> look w' q = look w q) \<and>
    (r = Inr () \<and> name \<noteq> ''INBOX'' \<longrightarrow> (\<exists>dir. folderPath m name = Inr dir \<and>
       (\<forall>sub \<in> set maildirSubs. look w' (dir @ [sub]) = Some Dir))) \<and>
    (r = Inr () \<and> healthy w' \<and> cx w' = None \<longrightarrow> CreateFolder cx m name w' = (Inr (), w'))"
proof (cases "cx w \<noteq> None \<or> name = ''INBOX'' \<or> (\<exists>e. folderPath m name = Inl e)")
  case True
  with assms show ?thesis
    by (auto simp: CreateFolder_def at_the_door_def split: option.splits)
next
  case False
  then obtain dir where d: "folderPath m name = Inr dir" by (cases "folderPath m name") auto
  let ?ps = "map (\<lambda>sub. dir @ [sub]) maildirSubs"
  have mk: "make_dirs ?ps w = (r, w')"
    using assms False d by (simp add: CreateFolder_def at_the_door_def)
  note law = make_dirs_law [OF mk]
  have "CreateFolder cx m name w' = (Inr (), w')" if "r = Inr ()" "healthy w'" "cx w' = None"
  proof -
    have "make_dirs ?ps w' = (Inr (), w')"
      using make_dirs_chain [of ?ps w w'] mk that by (intro make_dirs_done) blast+
    with that d show ?thesis by (simp add: CreateFolder_def at_the_door_def)
  qed
  with law d dirs_addedD(1) [of w w'] show ?thesis by auto
qed

theorem creating_a_folder_is_idempotent_witness:
  "\<exists>w'. CreateFolder no_deadline toy_maildir ''W'' (toy_disk []) = (Inr (), w') \<and>
     CreateFolder no_deadline toy_maildir ''W'' w' = (Inr (), w')"
proof -
  let ?run = "CreateFolder no_deadline toy_maildir ''W'' (toy_disk [])"
  have "fst ?run = Inr ()" "faults (snd ?run) = []" "\<not> crashed (snd ?run)" by code_simp+
  then obtain w' where r: "?run = (Inr (), w')" "healthy w'"
    by (metis prod.collapse healthy_def)
  with creating_a_folder_is_idempotent [OF r(1)] show ?thesis by (simp add: no_deadline_def)
qed

subsection \<open>Confinement\<close>

definition clean :: "path \<Rightarrow> bool" where
  "clean p \<longleftrightarrow> (\<forall>c \<in> set p. c \<noteq> [] \<and> CHR ''/'' \<notin> set c \<and> c \<noteq> ''.'' \<and> c \<noteq> ''..'')"

lemma join_clean: "clean [c] \<Longrightarrow> join_path p c = p @ [c]"
  by (simp add: clean_def join_path_def split_char_single join_step_def)

lemma clean_last: "clean p \<Longrightarrow> p \<noteq> [] \<Longrightarrow> clean [last p]"
  by (simp add: clean_def)

lemma plain_clean: "plain_name i \<Longrightarrow> clean [i]"
  by (auto simp: plain_name_def clean_def has_prefix_def)

lemma under_trans: "under a b \<Longrightarrow> under b c \<Longrightarrow> under a c"
  unfolding under_def by (metis append_eq_conv_conj append_assoc append_take_drop_id)

lemma under_ext: "under a p \<Longrightarrow> under a (p @ r)"
  using under_trans under_append by blast

lemma under_prefixes: "under q (p @ r) \<Longrightarrow> under q p \<or> under p q"
proof (cases "length q \<le> length p")
  case False
  assume "under q (p @ r)"
  then have "take (length p) (take (length q) (p @ r)) = take (length p) q"
    by (simp add: under_def)
  with False show ?thesis by (simp add: under_def min_def)
qed (simp add: under_def)

lemma spot_under: "spot m w i src \<Longrightarrow> under (m_root m) src"
  by (auto simp: spot_def)

lemma dir_base_clean:
  assumes "spot m w i src" "clean (m_root m)"
  shows "clean [dir_base src] \<or> dir_base src = ''/''"
proof -
  have "clean [''new'']" "clean [''cur'']" by (simp_all add: clean_def)
  moreover have "dir_base (m_root m @ [sub, i]) = sub" for sub i
    by (simp add: dir_base_def butlast_append)
  moreover have "clean [dir_base (m_root m @ [sub])] \<or> dir_base (m_root m @ [sub]) = ''/''" for sub
    using clean_last [OF assms(2)] by (simp add: dir_base_def)
  ultimately show ?thesis using assms(1) unfolding spot_def by auto
qed

lemma moveTo_outside:
  assumes "moveTo cx m sub i w = (r, w')" "\<not> under (m_root m) q"
  shows "look w' q = look w q \<or> look w q = None \<and> look w' q = Some Dir \<and> under q (m_root m)"
proof (cases "cx w")
  case (Some e)
  with assms show ?thesis by (simp add: moveTo_def at_the_door_def)
next
  case None
  let ?d = "m_root m @ [sub, ''new'']"
  have out: "\<not> under (m_root m @ p) q" for p
    using assms(2) under_trans under_append by blast
  obtain l w1 where l: "locate m i w = (l, w1)" by force
  note lw = locate_law [OF l]
  show ?thesis
  proof (cases l)
    case (Inl e)
    with assms None l lw(1) show ?thesis by (simp add: moveTo_def at_the_door_def)
  next
    case (Inr src)
    obtain k w2 where k: "MkdirAll ?d w1 = (k, w2)" by force
    have mid: "look w2 q = look w q \<or> look w q = None \<and> look w2 q = Some Dir \<and> under q (m_root m)"
      using MkdirAll_where [OF k, of q] lw(1) under_prefixes assms(2) by metis
    show ?thesis
    proof (cases k)
      case (Inl e)
      with assms None l \<open>l = Inr src\<close> k mid show ?thesis
        by (simp add: moveTo_def at_the_door_def Let_def)
    next
      case (Inr u)
      have rn: "Rename src (join_path ?d i) w2 = (r, w')"
        using assms None l \<open>l = Inr src\<close> k Inr by (simp add: moveTo_def at_the_door_def Let_def)
      from lw(2) \<open>l = Inr src\<close> have sp: "spot m w i src" by blast
      have "src \<noteq> join_path ?d i" using sp by (auto simp: spot_def join_plain join_slash)
      with rn have "look w' q = look w2 q"
      proof (cases rule: Rename_cases)
        case works
        have "\<not> under src q" "\<not> under (join_path ?d i) q"
          using sp out by (auto simp: spot_def join_plain join_slash)
        with renamed_elsewhere [OF works(2)] show ?thesis by simp
      qed simp
      with mid show ?thesis by simp
    qed
  qed
qed

lemma DeleteFolder_outside:
  assumes "DeleteFolder cx m name w = (r, w')" "\<not> under (m_root m) q"
  shows "look w' q = look w q"
  using assms(1)
proof (cases rule: DeleteFolder_cases)
  case (removes dir w2)
  have "under (m_root m) dir" using removes(1) by (cases rule: folderPath_cases) auto
  then have "q \<notin> {dir @ [''new''], dir @ [''cur''], dir @ [''tmp''], dir}"
    using assms(2) under_ext by auto
  with removeFolder_law(1) [OF removes(3), of q] checkFolderEmpty_law(1) [OF removes(2)]
  show ?thesis by auto
qed simp

text \<open>C13: no id, destination or folder name reaches outside the account: whatever the strings
  are (with separators, dots or the separator alone), acknowledging, filing, moving, creating
  and deleting leave every path outside the root and the base as it was, except that creating
  directories may create missing parents of the root itself.\<close>

theorem names_stay_inside_the_account:
  assumes "(r, w') \<in> {MarkSeen cx m i w, maildir_Archive cx m i w, maildir_Delete cx m i w,
      Move cx m i d w, CreateFolder cx m d w, DeleteFolder cx m d w}"
    and "\<not> under (m_root m) q" "\<not> under (m_base m) q" "clean (m_root m)"
  shows "look w' q = look w q \<or> look w q = None \<and> look w' q = Some Dir \<and> under q (m_root m)"
proof -
  have out: "\<not> under (m_root m @ p) q" for p
    using assms(2) under_trans under_append by blast
  have one: "look w' q = look w q" if run: "MarkSeen cx m i w = (r, w')"
    using run
  proof (cases rule: MarkSeen_id)
    case 1
    from run 1 show ?thesis
    proof (cases rule: MarkSeen_cases)
      case moved
      show ?thesis by (rule renamed_elsewhere [OF moved(2) out out])
    qed simp_all
  next
    case 2
    with run have "look w' = look w \<or> renamed (m_root m @ [''new'']) (m_root m @ [''cur'']) w w'"
      by (simp add: MarkSeen_slash)
    then show ?thesis
    proof
      assume "renamed (m_root m @ [''new'']) (m_root m @ [''cur'']) w w'"
      then show ?thesis by (rule renamed_elsewhere [OF _ out out])
    qed simp
  next
    case (3 e)
    then show ?thesis by simp
  qed
  have two: ?thesis if run: "moveTo cx m sub i w = (r, w')" for sub
    by (rule moveTo_outside [OF run assms(2)])
  have three: ?thesis if run: "Move cx m i d w = (r, w')"
    using run
  proof (cases rule: Move_cases)
    case (moved t src dst)
    have src: "\<not> under src q" using spot_under [OF moved(3)] assms(2) under_trans by blast
    have rt: "under (m_base m) (move_root m t)"
      using moved(2) by (cases rule: move_target_cases)
        (auto simp: move_root_def join_plain join_slash)
    have "under (m_base m) (join_path (move_root m t) (dir_base src))"
      using dir_base_clean [OF moved(3) assms(4)] rt
      by (auto simp: join_clean join_slash under_ext)
    then have "under (m_base m) dst"
      using moved(3, 5) by (auto simp: spot_def join_plain join_slash under_ext)
    then have "\<not> under dst q" using assms(3) under_trans by blast
    with renamed_elsewhere [OF moved(7) src] show ?thesis by simp
  next
    case (refused e)
    then show ?thesis by simp
  qed
  have fp: "under (m_root m) dir" if "folderPath m d = Inr dir" for dir
    using that by (cases rule: folderPath_cases) auto
  have four: ?thesis if run: "CreateFolder cx m d w = (r, w')"
  proof (cases "look w' q = look w q")
    case False
    with run obtain dir where dir: "folderPath m d = Inr dir"
      "make_dirs (map (\<lambda>sub. dir @ [sub]) maildirSubs) w = (r, w')"
      by (auto simp: CreateFolder_def at_the_door_def split: option.splits if_splits sum.splits)
    from make_dirs_where [OF dir(2) False] obtain sub where
      "look w q = None" "look w' q = Some Dir" "under q (dir @ [sub])" by auto
    moreover from fp [OF dir(1)] obtain x where "dir @ [sub] = m_root m @ x"
      unfolding under_def by (metis append_assoc append_take_drop_id)
    ultimately show ?thesis using under_prefixes assms(2) by metis
  qed simp
  have five: "look w' q = look w q" if run: "DeleteFolder cx m d w = (r, w')"
    by (rule DeleteFolder_outside [OF run assms(2)])
  show ?thesis
    using assms(1) one two three four five
    unfolding maildir_Archive_def maildir_Delete_def insert_iff empty_iff by metis
qed

theorem names_stay_inside_the_account_witness:
  "look (snd (CreateFolder no_deadline toy_maildir ''../x'' (toy_disk []))) [''x''] = None"
proof -
  obtain r w' where run: "CreateFolder no_deadline toy_maildir ''../x'' (toy_disk []) = (r, w')"
    by force
  have "\<not> under (m_root toy_maildir) [''x'']" "\<not> under (m_base toy_maildir) [''x'']"
    "clean (m_root toy_maildir)" "\<not> under [''x''] (m_root toy_maildir)"
    by (simp_all add: under_def clean_def toy_maildir_def)
  moreover have "look (toy_disk []) [''x''] = None" by code_simp
  ultimately show ?thesis
    using names_stay_inside_the_account [of r w' no_deadline toy_maildir "''a''" "toy_disk []"
        "''../x''" "[''x'']"] run by simp
qed

text \<open>What the separator as an id does: acknowledging it files the whole unread backlog.\<close>

lemma separator_acknowledges_the_backlog:
  "\<exists>w'. MarkSeen no_deadline toy_maildir ''/''
       \<lparr>tree = toy_dirs @ [([''r'', ''new'', ''b''], File ''bee'')], faults = [], crashed = False\<rparr> =
       (Inr (), w') \<and> look w' [''r'', ''cur'', ''b''] = Some (File ''bee'') \<and>
     look w' [''r'', ''new''] = None"
proof -
  let ?run = "MarkSeen no_deadline toy_maildir ''/''
       \<lparr>tree = toy_dirs @ [([''r'', ''new'', ''b''], File ''bee'')], faults = [], crashed = False\<rparr>"
  have "fst ?run = Inr ()" "look (snd ?run) [''r'', ''cur'', ''b''] = Some (File ''bee'')"
    "look (snd ?run) [''r'', ''new''] = None" by code_simp+
  then show ?thesis by (metis prod.collapse)
qed

text \<open>The directories of the mailbox itself pass for folders: an empty \<open>new/\<close> can be deleted,
  and then listing the unread mail fails.\<close>

lemma own_directories_can_be_deleted:
  "\<exists>w' w''. DeleteFolder no_deadline toy_maildir ''new'' \<lparr>tree = toy_dirs, faults = [], crashed = False\<rparr> =
       (Inr (), w') \<and> look w' [''r'', ''new''] = None \<and>
     List no_deadline toy_maildir ScopeUnread w' = (Inl (Wraps ErrNotExist []), w'')"
proof -
  let ?run = "DeleteFolder no_deadline toy_maildir ''new'' \<lparr>tree = toy_dirs, faults = [], crashed = False\<rparr>"
  have "fst ?run = Inr ()" "look (snd ?run) [''r'', ''new''] = None"
    "fst (List no_deadline toy_maildir ScopeUnread (snd ?run)) = Inl (Wraps ErrNotExist [])"
    by code_simp+
  then show ?thesis by (metis prod.collapse)
qed

subsection \<open>Delivery\<close>

lemma WriteFile_law:
  assumes "WriteFile p c w = (r, w')"
  shows "q \<noteq> p \<Longrightarrow> look w' q = look w q" "r = Inr () \<Longrightarrow> look w' p = Some (File c)"
proof -
  obtain r1 w1 where o: "OpenTrunc [] p w = (r1, w1)" by force
  obtain r2 w2 where b: "Write_bytes p c w1 = (r2, w2)" by force
  obtain r3 w3 where x: "Close w2 = (r3, w3)" by force
  note laws = OpenTrunc_law [OF o] Write_bytes_law [OF b] Close_law [OF x]
  show "q \<noteq> p \<Longrightarrow> look w' q = look w q" "r = Inr () \<Longrightarrow> look w' p = Some (File c)"
    using assms o b x laws
    by (auto simp: WriteFile_def same_disk_def turned_def split: sum.splits)
qed

text \<open>delivery into a Maildir is atomic for a reader of \<open>new/\<close>: wherever the file system
  fails or the process dies, the delivered name holds either what it held before or the whole
  rendered message, success means the latter, and no other path than the staging file and the
  delivered name is touched.\<close>

theorem delivery_is_all_or_nothing:
  assumes "plain_name (om_ID msg @ ''.eml'')" "dir_Send rl now d msg w = (r, w')"
    and "tmp = s_root d @ [''tmp'', om_ID msg @ ''.eml'']"
    and "dst = s_root d @ [''new'', om_ID msg @ ''.eml'']"
  shows "(look w' dst = look w dst \<or>
      (\<exists>raw. RenderRFC5322 rl (s_from d) msg now = Inr raw \<and> look w' dst = Some (File raw))) \<and>
    (r = Inr () \<longrightarrow> (\<exists>raw. RenderRFC5322 rl (s_from d) msg now = Inr raw \<and>
       look w' dst = Some (File raw) \<and> look w' tmp = None)) \<and>
    (\<forall>q. q \<noteq> tmp \<and> q \<noteq> dst \<longrightarrow> look w' q = look w q)"
proof (cases "RenderRFC5322 rl (s_from d) msg now")
  case (Inl e)
  with assms(2) show ?thesis by (auto simp: dir_Send_def)
next
  case (Inr raw)
  have paths: "join_path (s_root d @ [''tmp'']) (om_ID msg @ ''.eml'') = tmp"
    "join_path (s_root d @ [''new'']) (om_ID msg @ ''.eml'') = dst"
    using assms(1, 3, 4) by (simp_all add: join_plain)
  have ne: "tmp \<noteq> dst" using assms(3, 4) by simp
  obtain r1 w1 where f: "WriteFile tmp raw w = (r1, w1)" by force
  note law = WriteFile_law [OF f]
  show ?thesis
  proof (cases r1)
    case (Inl e)
    with assms(2) Inr f paths have "w' = w1" "r \<noteq> Inr ()"
      by (auto simp: dir_Send_def Let_def)
    with law(1) ne show ?thesis by simp
  next
    case (Inr u)
    have rn: "Rename tmp dst w1 = (r, w')"
      using assms(2) \<open>RenderRFC5322 rl (s_from d) msg now = Inr raw\<close> f paths Inr
      by (simp add: dir_Send_def Let_def)
    have "look w1 tmp = Some (File raw)" using law(2) Inr by simp
    from Rename_file_law [OF rn this] show ?thesis
      using law(1) ne \<open>RenderRFC5322 rl (s_from d) msg now = Inr raw\<close>
      by (auto simp: same_disk_def turned_def)
  qed
qed

theorem delivery_is_all_or_nothing_witness:
  "look (snd (dir_Send plain_render ''now'' \<lparr>s_root = [''r''], s_from = ''me@x''\<rparr>
       (empty_message\<lparr>om_ID := ''m'', om_To := [''a@b'']\<rparr>)
       (toy_disk [Works, Crash]))) [''r'', ''new'', ''b''] = Some (File ''bee'')"
proof -
  let ?d = "\<lparr>s_root = [''r''], s_from = ''me@x''\<rparr>"
  let ?m = "empty_message\<lparr>om_ID := ''m'', om_To := [''a@b'']\<rparr>"
  obtain r w' where run: "dir_Send plain_render ''now'' ?d ?m (toy_disk [Works, Crash]) = (r, w')"
    by force
  have "plain_name ''m.eml''" by code_simp
  then have "plain_name (om_ID ?m @ ''.eml'')" by simp
  from delivery_is_all_or_nothing [OF this run refl refl]
  have "look w' [''r'', ''new'', ''b''] = look (toy_disk [Works, Crash]) [''r'', ''new'', ''b'']"
    by simp
  also have "\<dots> = Some (File ''bee'')" by code_simp
  finally show ?thesis using run by simp
qed

end
