(* ===== verification/Switchable.thy ===== *)
theory Switchable
  imports Service Outbox
begin

section \<open>Swappable backends (application/switchable.go, switchable_sender.go)\<close>

text \<open>
  The decorator through which the runtime replaces a backend or a transport while the tools hold
  on to it.  A value of \<open>switchable\<close> is what the read lock protects: the current backend.
  Every optional capability is implemented and forwards to the backend's own or to the fallback of
  the use cases.  An \<open>INBOX\<close> of a backend without folders is the decorator itself; a folder
  of a folder is not reached, so that box has no folders of its own here.
\<close>

record 'w switchable =
  sw_mb :: "'w mailbox"

definition NewSwitchable :: "'w mailbox \<Rightarrow> 'w switchable" where
  "NewSwitchable mb = \<lparr>sw_mb = mb\<rparr>"

definition Swap :: "'w mailbox \<Rightarrow> 'w switchable \<Rightarrow> 'w switchable" where
  "Swap mb s = s\<lparr>sw_mb := mb\<rparr>"

definition current :: "'w switchable \<Rightarrow> 'w mailbox" where "current s = sw_mb s"

abbreviation current_ops :: "'w switchable \<Rightarrow> 'w ports" where
  "current_ops s \<equiv> ops (current s)"

definition sw_BulkLimit :: "'w switchable \<Rightarrow> 'w \<Rightarrow> int" where
  "sw_BulkLimit s w =
     (case LimitProvider (current_ops s) of
        Some p \<Rightarrow> if p w > 0 then p w else MaxBulkIDs
      | None \<Rightarrow> MaxBulkIDs)"

definition sw_SetBulkLimit :: "'w switchable \<Rightarrow> int \<Rightarrow> 'w \<Rightarrow> 'w" where
  "sw_SetBulkLimit s limit w =
     (case LimitSetter (current_ops s) of Some f \<Rightarrow> f limit w | None \<Rightarrow> w)"

subsection \<open>Reading\<close>

definition sw_ListUnread :: "'w switchable \<Rightarrow> ('w, ids) effect" where
  "sw_ListUnread s = ListUnreadOp (current_ops s)"

definition sw_List :: "'w switchable \<Rightarrow> scope \<Rightarrow> ('w, ids) effect" where
  "sw_List s scope = listMailbox (current s) scope"

definition sw_Fetch :: "'w switchable \<Rightarrow> string \<Rightarrow> ('w, bytes) effect" where
  "sw_Fetch s i = FetchOp (current_ops s) i"

definition no_headers :: error where
  "no_headers = Failure ''backend cannot fetch message headers''"

definition sw_FetchHeaders :: "'w switchable \<Rightarrow> string \<Rightarrow> ('w, message_headers) effect" where
  "sw_FetchHeaders s i w =
     (case HeaderFetcher (current_ops s) of
        None \<Rightarrow> (Inl no_headers, w)
      | Some f \<Rightarrow> f i w)"

fun refuse_all :: "error \<Rightarrow> (string \<rightharpoonup> error) \<Rightarrow> ids \<Rightarrow> (string \<rightharpoonup> error)" where
  "refuse_all e fl [] = fl"
| "refuse_all e fl (i # is) = refuse_all e (fl(i \<mapsto> e)) is"

fun headers_each ::
  "(string \<Rightarrow> ('w, message_headers) effect) \<Rightarrow> headers_answer \<Rightarrow> ids \<Rightarrow> 'w \<Rightarrow> headers_answer \<times> 'w"
  where
  "headers_each f ans [] w = (ans, w)"
| "headers_each f (result, failures) (i # is) w =
     (case f i w of
        (Inl e, w1) \<Rightarrow> headers_each f (result, failures(i \<mapsto> e)) is w1
      | (Inr h, w1) \<Rightarrow> headers_each f (result(i \<mapsto> h), failures) is w1)"

definition sw_FetchHeadersMany :: "'w switchable \<Rightarrow> ids \<Rightarrow> 'w \<Rightarrow> headers_answer \<times> 'w" where
  "sw_FetchHeadersMany s is w =
     (case BatchHeaderFetcher (current_ops s) of
        Some f \<Rightarrow> f is w
      | None \<Rightarrow>
          (case HeaderFetcher (current_ops s) of
             None \<Rightarrow> ((Map.empty, refuse_all no_headers Map.empty is), w)
           | Some f \<Rightarrow> headers_each f (Map.empty, Map.empty) is w))"

definition sw_FetchMany :: "'w ctx \<Rightarrow> 'w switchable \<Rightarrow> ids \<Rightarrow> ('w, fetch_result) reporting" where
  "sw_FetchMany cx s is w = fetchMany cx (current s) is (sw_BulkLimit s w) w"

definition sw_Sizes :: "'w switchable \<Rightarrow> ids \<Rightarrow> ('w, string \<rightharpoonup> int64) effect" where
  "sw_Sizes s is w =
     (case MessageSizer (current_ops s) of
        None \<Rightarrow> (Inl (Failure ''backend cannot measure message sizes''), w)
      | Some f \<Rightarrow> f is w)"

definition sw_SearchScope :: "'w ctx \<Rightarrow> 'w switchable \<Rightarrow> scope \<Rightarrow> string \<Rightarrow> ('w, ids) effect" where
  "sw_SearchScope cx s scope query = searchMailbox cx (current s) scope query"

definition sw_Search :: "'w ctx \<Rightarrow> 'w switchable \<Rightarrow> string \<Rightarrow> ('w, ids) effect" where
  "sw_Search cx s query = searchMailbox cx (current s) ScopeUnread query"

definition sw_SearchFromScope ::
  "'w ctx \<Rightarrow> 'w switchable \<Rightarrow> scope \<Rightarrow> string \<Rightarrow> string \<Rightarrow> ('w, ids) effect" where
  "sw_SearchFromScope cx s scope query addr =
     (case SenderSearcher (current_ops s) of
        Some f \<Rightarrow> f scope query addr
      | None \<Rightarrow> searchFromFallback cx (current s) scope query addr)"

subsection \<open>Changing\<close>

definition sw_MarkSeen :: "'w switchable \<Rightarrow> string \<Rightarrow> ('w, unit) effect" where
  "sw_MarkSeen s i = MarkSeenOp (current_ops s) i"

definition sw_MarkSeenMany :: "'w ctx \<Rightarrow> 'w switchable \<Rightarrow> ids \<Rightarrow> ('w, bulk_result) reporting" where
  "sw_MarkSeenMany cx s is w = markSeenMany cx (current s) is (sw_BulkLimit s w) w"

definition sw_Folders :: "'w switchable \<Rightarrow> ('w, ids) effect" where
  "sw_Folders s w =
     (case FolderLister (current_ops s) of
        Some f \<Rightarrow> f w
      | None \<Rightarrow> (Inr [''INBOX''], w))"

definition no_folder_management :: error where
  "no_folder_management = Failure ''backend cannot create or delete folders''"

definition sw_CreateFolder :: "'w switchable \<Rightarrow> string \<Rightarrow> ('w, unit) effect" where
  "sw_CreateFolder s name w =
     (case FolderManager (current_ops s) of
        None \<Rightarrow> (Inl no_folder_management, w)
      | Some fm \<Rightarrow> CreateFolderOp fm name w)"

definition sw_DeleteFolder :: "'w switchable \<Rightarrow> string \<Rightarrow> ('w, unit) effect" where
  "sw_DeleteFolder s name w =
     (case FolderManager (current_ops s) of
        None \<Rightarrow> (Inl no_folder_management, w)
      | Some fm \<Rightarrow> DeleteFolderOp fm name w)"

definition no_curation :: error where
  "no_curation = Failure ''backend has no curation support''"

definition sw_Archive :: "'w switchable \<Rightarrow> string \<Rightarrow> ('w, unit) effect" where
  "sw_Archive s i w =
     (case Curator (current_ops s) of
        None \<Rightarrow> (Inl no_curation, w)
      | Some cu \<Rightarrow> ArchiveOne cu i w)"

definition sw_Delete :: "'w switchable \<Rightarrow> string \<Rightarrow> ('w, unit) effect" where
  "sw_Delete s i w =
     (case Curator (current_ops s) of
        None \<Rightarrow> (Inl no_curation, w)
      | Some cu \<Rightarrow> DeleteOne cu i w)"

definition sw_Move :: "'w switchable \<Rightarrow> string \<Rightarrow> string \<Rightarrow> ('w, unit) effect" where
  "sw_Move s i destination w =
     (case Mover (current_ops s) of
        None \<Rightarrow> (Inl (Failure ''backend has no move support''), w)
      | Some mv \<Rightarrow> mv i destination w)"

definition sw_ArchiveMany :: "'w ctx \<Rightarrow> 'w switchable \<Rightarrow> ids \<Rightarrow> ('w, bulk_result) reporting" where
  "sw_ArchiveMany cx s is w = curateMany cx (current s) is actionArchive (sw_BulkLimit s w) w"

definition sw_DeleteMany :: "'w ctx \<Rightarrow> 'w switchable \<Rightarrow> ids \<Rightarrow> ('w, bulk_result) reporting" where
  "sw_DeleteMany cx s is w = curateMany cx (current s) is actionDelete (sw_BulkLimit s w) w"

definition sw_MoveMany ::
  "'w ctx \<Rightarrow> 'w switchable \<Rightarrow> ids \<Rightarrow> string \<Rightarrow> ('w, bulk_result) reporting" where
  "sw_MoveMany cx s is destination w = moveMany cx (current s) is destination (sw_BulkLimit s w) w"

definition sw_CurationPlan :: "'w switchable \<Rightarrow> ('w, curation_plan) effect" where
  "sw_CurationPlan s w =
     (case CurationInspector (current_ops s) of
        None \<Rightarrow> (Inl (Failure ''backend cannot report curation destinations''), w)
      | Some f \<Rightarrow> f w)"

definition sw_CurationCapabilities :: "'w switchable \<Rightarrow> ('w, curation_capabilities) effect" where
  "sw_CurationCapabilities s w =
     (case CapabilityProvider (current_ops s) of
        None \<Rightarrow> (Inl (Failure ''backend cannot report curation capabilities''), w)
      | Some f \<Rightarrow> f w)"

subsection \<open>The decorator as a mailbox\<close>

definition sw_ports :: "'w ctx \<Rightarrow> 'w switchable \<Rightarrow> 'w ports" where
  "sw_ports cx s =
     \<lparr>ListUnreadOp = sw_ListUnread s, FetchOp = sw_Fetch s, MarkSeenOp = sw_MarkSeen s,
      ScopedMailbox = Some (sw_List s), Searcher = Some (sw_Search cx s),
      ScopedSearcher = Some (sw_SearchScope cx s), SenderSearcher = Some (sw_SearchFromScope cx s),
      HeaderFetcher = Some (sw_FetchHeaders s), BatchHeaderFetcher = Some (sw_FetchHeadersMany s),
      FolderLister = Some (sw_Folders s),
      FolderManager = Some \<lparr>CreateFolderOp = sw_CreateFolder s, DeleteFolderOp = sw_DeleteFolder s\<rparr>,
      Curator = Some \<lparr>ArchiveOne = sw_Archive s, DeleteOne = sw_Delete s\<rparr>,
      Mover = Some (sw_Move s), MessageSizer = Some (sw_Sizes s),
      BulkFetcher = Some (sw_FetchMany cx s), BulkMailbox = Some (sw_MarkSeenMany cx s),
      BulkCurator = Some \<lparr>ArchiveBatch = sw_ArchiveMany cx s, DeleteBatch = sw_DeleteMany cx s\<rparr>,
      BulkMover = Some (sw_MoveMany cx s), CurationInspector = Some (sw_CurationPlan s),
      CapabilityProvider = Some (sw_CurationCapabilities s),
      LimitProvider = Some (sw_BulkLimit s), LimitSetter = Some (sw_SetBulkLimit s)\<rparr>"

definition sw_InFolder :: "'w ctx \<Rightarrow> 'w switchable \<Rightarrow> string \<Rightarrow> ('w, 'w mailbox) effect" where
  "sw_InFolder cx s name w =
     (case in_folder (current s) of
        Some f \<Rightarrow> f name w
      | None \<Rightarrow>
          (if name = ''INBOX'' then (Inr (Mailbox (sw_ports cx s) None), w)
           else (Inl (Failure ''backend has no folder support''), w)))"

definition sw_mailbox :: "'w ctx \<Rightarrow> 'w switchable \<Rightarrow> 'w mailbox" where
  "sw_mailbox cx s = Mailbox (sw_ports cx s) (Some (sw_InFolder cx s))"

lemmas sw_defs = sw_mailbox_def sw_ports_def current_def NewSwitchable_def

subsection \<open>The swappable transport\<close>

record 'w switchable_sender =
  sw_sender :: "'w sender"

definition NewSwitchableSender :: "'w sender \<Rightarrow> 'w switchable_sender" where
  "NewSwitchableSender s = \<lparr>sw_sender = s\<rparr>"

definition SwapSender :: "'w sender \<Rightarrow> 'w switchable_sender \<Rightarrow> 'w switchable_sender" where
  "SwapSender next s = s\<lparr>sw_sender := next\<rparr>"

definition sw_Send :: "'w switchable_sender \<Rightarrow> outbound_message \<Rightarrow> ('w, unit) effect" where
  "sw_Send s m = Send (sw_sender s) m"

definition sw_From :: "'w switchable_sender \<Rightarrow> string" where
  "sw_From s = (case SelfAddress (sw_sender s) of Some a \<Rightarrow> a | None \<Rightarrow> [])"

definition sender_of :: "'w switchable_sender \<Rightarrow> 'w sender" where
  "sender_of s = \<lparr>Send = sw_Send s, SelfAddress = Some (sw_From s)\<rparr>"

subsection \<open>Transparency\<close>

text \<open>What a use case does for a search with a sender.\<close>

definition sender_search :: "'w ctx \<Rightarrow> 'w mailbox \<Rightarrow> scope \<Rightarrow> string \<Rightarrow> string \<Rightarrow> ('w, ids) effect" where
  "sender_search cx mb scope query addr =
     (case SenderSearcher (ops mb) of
        Some f \<Rightarrow> f scope query addr
      | None \<Rightarrow> searchFromFallback cx mb scope query addr)"

lemma SearchMessagesFrom_sender_search:
  "SearchMessagesFrom cx s account folder query addr scope offset limit inc w =
     (if trim_space addr = [] then SearchMessages cx s account folder query scope offset limit inc w
      else case Resolve s account folder w of
        (Inl e, w1) \<Rightarrow> (Inl e, w1)
      | (Inr box, w1) \<Rightarrow>
          (case sender_search cx box scope query addr w1 of
             (Inl e, w2) \<Rightarrow> (Inl e, w2)
           | (Inr is, w2) \<Rightarrow> messagePage s account folder scope is offset limit inc w2))"
  by (auto simp: SearchMessagesFrom_def sender_search_def split: option.splits sum.splits prod.splits)

lemma preflight_empty: "CheckBulkIDsLimit is limit = None \<Longrightarrow> is \<noteq> []"
  by (simp add: check_simps)

text \<open>the decorator is invisible: after any swap, listing, searching, searching by sender and
  every batch through it are those of the backend swapped in, capability by capability, with the
  backend's own batch ceiling, and so is the address its transport sends from.\<close>

theorem swapped_backends_answer_directly:
  assumes "box = sw_mailbox cx (Swap mb s)" "limit = sw_BulkLimit (Swap mb s) w"
  shows "listMailbox box scope = listMailbox mb scope \<and>
    searchMailbox cx box scope query = searchMailbox cx mb scope query \<and>
    sender_search cx box scope query addr = sender_search cx mb scope query addr \<and>
    fetchMany cx box is limit w = fetchMany cx mb is limit w \<and>
    markSeenMany cx box is limit w = markSeenMany cx mb is limit w \<and>
    curateMany cx box is act limit w = curateMany cx mb is act limit w \<and>
    moveMany cx box is dst limit w = moveMany cx mb is dst limit w \<and>
    outbox_From (NewOutbox st (sender_of (SwapSender next t))) = outbox_From (NewOutbox st next)"
proof -
  have cur: "current (Swap mb s) = mb" by (simp add: current_def Swap_def)
  have list: "listMailbox box scope = listMailbox mb scope"
    by (rule ext) (simp add: assms(1) listMailbox_def sw_mailbox_def sw_ports_def sw_List_def cur)
  have search: "searchMailbox cx box scope query = searchMailbox cx mb scope query"
    by (rule ext)
      (simp add: assms(1) searchMailbox_def [of cx box] sw_mailbox_def sw_ports_def sw_SearchScope_def cur
        searchMailbox_def [of cx "Mailbox p f" for p f])
  have sndr: "sender_search cx box scope query addr = sender_search cx mb scope query addr"
    by (simp add: assms(1) sender_search_def sw_mailbox_def sw_ports_def sw_SearchFromScope_def cur
        split: option.split)
  have fetch: "fetchMany cx box is limit w = fetchMany cx mb is limit w"
    by (simp add: assms fetchMany_def sw_mailbox_def sw_ports_def sw_FetchMany_def cur split: option.split)
  have mark: "markSeenMany cx box is limit w = markSeenMany cx mb is limit w"
    by (simp add: assms markSeenMany_def sw_mailbox_def sw_ports_def sw_MarkSeenMany_def cur
        split: option.split)
  have curate: "curateMany cx box is act limit w = curateMany cx mb is act limit w"
    by (cases act) (simp_all add: assms curateMany_def sw_mailbox_def sw_ports_def sw_ArchiveMany_def
        sw_DeleteMany_def cur split: option.split)
  have move: "moveMany cx box is dst limit w = moveMany cx mb is dst limit w"
    by (simp add: assms moveMany_def sw_mailbox_def sw_ports_def sw_MoveMany_def cur split: option.split)
  show ?thesis using list search sndr fetch mark curate move
    by (simp add: outbox_From_def NewOutbox_def sender_of_def sw_From_def SwapSender_def)
qed

theorem swapped_backends_answer_directly_witness:
  "markSeenMany (\<lambda>w. None) (sw_mailbox (\<lambda>w. None) (Swap toy_mailbox (NewSwitchable toy_mailbox)))
     [''b'', ''x''] 100 [''a'', ''b''] =
   markSeenMany (\<lambda>w. None) toy_mailbox [''b'', ''x''] 100 [''a'', ''b'']"
proof -
  have "sw_BulkLimit (Swap toy_mailbox (NewSwitchable toy_mailbox)) [''a'', ''b''] = 100"
    by (simp add: sw_BulkLimit_def current_def Swap_def toy_defs MaxBulkIDs_def)
  with swapped_backends_answer_directly [OF refl refl, where cx = "\<lambda>w. None" and mb = toy_mailbox
      and s = "NewSwitchable toy_mailbox" and w = "[''a'', ''b'']"] show ?thesis by metis
qed

end
