(* ===== verification/Resilience.thy ===== *)
theory Resilience
  imports Service
begin

section \<open>Resilience around a remote backend (infrastructure/resilience/resilience.go)\<close>

text \<open>
  The decorator that runs every backend call through a circuit breaker, a retry policy and a
  timeout.  The three come from a library: \<open>fortify\<close> has its three \<open>Execute\<close> methods, each
  given its configuration (what the breaker counts as a success, which errors the retry gives up
  on, the bound of one attempt), the caller's context and the function to run.  The library works
  on values of type \<open>any\<close>; a Go type assertion on what comes back panics when the type is
  another, which is the error \<open>assertion_panic\<close> here.  The library hands the function a context
  of its own, so a backend is a function of the context.
\<close>

subsection \<open>Values of any type\<close>

datatype any =
    AnyNil
  | AnyIds ids
  | AnyBytes bytes
  | AnyHeaders message_headers
  | AnyHeaderMaps headers_answer
  | AnyFetch fetch_result
  | AnySizes "string \<rightharpoonup> int64"
  | AnyBulk bulk_result
  | AnyPlan curation_plan
  | AnyCapabilities curation_capabilities

definition assertion_panic :: error where
  "assertion_panic = Failure ''interface conversion''"

definition the_ids :: "any \<Rightarrow> error + ids" where
  "the_ids v = (case v of AnyIds x \<Rightarrow> Inr x | _ \<Rightarrow> Inl assertion_panic)"
definition the_bytes :: "any \<Rightarrow> error + bytes" where
  "the_bytes v = (case v of AnyBytes x \<Rightarrow> Inr x | _ \<Rightarrow> Inl assertion_panic)"
definition the_headers :: "any \<Rightarrow> error + message_headers" where
  "the_headers v = (case v of AnyHeaders x \<Rightarrow> Inr x | _ \<Rightarrow> Inl assertion_panic)"
definition the_header_maps :: "any \<Rightarrow> error + headers_answer" where
  "the_header_maps v = (case v of AnyHeaderMaps x \<Rightarrow> Inr x | _ \<Rightarrow> Inl assertion_panic)"
definition the_fetch :: "any \<Rightarrow> error + fetch_result" where
  "the_fetch v = (case v of AnyFetch x \<Rightarrow> Inr x | _ \<Rightarrow> Inl assertion_panic)"
definition the_sizes :: "any \<Rightarrow> error + (string \<rightharpoonup> int64)" where
  "the_sizes v = (case v of AnySizes x \<Rightarrow> Inr x | _ \<Rightarrow> Inl assertion_panic)"
definition the_bulk :: "any \<Rightarrow> error + bulk_result" where
  "the_bulk v = (case v of AnyBulk x \<Rightarrow> Inr x | _ \<Rightarrow> Inl assertion_panic)"
definition the_plan :: "any \<Rightarrow> error + curation_plan" where
  "the_plan v = (case v of AnyPlan x \<Rightarrow> Inr x | _ \<Rightarrow> Inl assertion_panic)"
definition the_capabilities :: "any \<Rightarrow> error + curation_capabilities" where
  "the_capabilities v = (case v of AnyCapabilities x \<Rightarrow> Inr x | _ \<Rightarrow> Inl assertion_panic)"

lemmas assertion_defs = the_ids_def the_bytes_def the_headers_def the_header_maps_def the_fetch_def
  the_sizes_def the_bulk_def the_plan_def the_capabilities_def

subsection \<open>The pipeline\<close>

type_synonym 'w call = "'w ctx \<Rightarrow> ('w, any) reporting"

record retry_config =
  MaxAttempts :: int
  InitialDelay :: int
  NonRetryableErrors :: "sentinel list"
  Jitter :: bool

record 'w fortify =
  BreakerExecute :: "(error option \<Rightarrow> bool) \<Rightarrow> 'w ctx \<Rightarrow> 'w call \<Rightarrow> ('w, any) reporting"
  RetryExecute :: "retry_config \<Rightarrow> 'w ctx \<Rightarrow> 'w call \<Rightarrow> ('w, any) reporting"
  TimeoutExecute :: "int \<Rightarrow> 'w ctx \<Rightarrow> 'w call \<Rightarrow> ('w, any) reporting"

record config =
  OpTimeout :: int
  cfg_MaxAttempts :: int
  cfg_InitialDelay :: int

record 'w resilient =
  res_mb :: "'w ctx \<Rightarrow> 'w mailbox"
  res_ok :: "error option \<Rightarrow> bool"
  res_retry :: retry_config
  res_op :: int

definition IsSuccessful :: "error option \<Rightarrow> bool" where
  "IsSuccessful err =
     (case err of
        None \<Rightarrow> True
      | Some e \<Rightarrow> errors_is e ErrBadID \<or> errors_is e ErrBulkSize \<or> errors_is e ErrFetchTooLarge \<or>
          errors_is e ErrBadFolder \<or> errors_is e ErrFolderNotEmpty \<or> errors_is e ErrFolderProtected \<or>
          errors_is e Canceled)"

definition non_retryable :: "sentinel list" where
  "non_retryable =
     [ErrBadID, ErrBulkSize, ErrFetchTooLarge, ErrBadFolder, ErrFolderNotEmpty, ErrFolderProtected,
      DeadlineExceeded, Canceled]"

text \<open>Thirty seconds, in nanoseconds.\<close>

definition default_timeout :: int where "default_timeout = 30 * 10 ^ 9"

definition Wrap :: "('w ctx \<Rightarrow> 'w mailbox) \<Rightarrow> config \<Rightarrow> 'w resilient" where
  "Wrap mb cfg =
     \<lparr>res_mb = mb, res_ok = IsSuccessful,
      res_retry = \<lparr>MaxAttempts = cfg_MaxAttempts cfg, InitialDelay = cfg_InitialDelay cfg,
                   NonRetryableErrors = non_retryable, Jitter = True\<rparr>,
      res_op = (if OpTimeout cfg \<le> 0 then default_timeout else OpTimeout cfg)\<rparr>"

definition execute :: "'w fortify \<Rightarrow> 'w resilient \<Rightarrow> 'w ctx \<Rightarrow> 'w call \<Rightarrow> ('w, any) reporting" where
  "execute L r cx fn =
     BreakerExecute L (res_ok r) cx
       (\<lambda>cx1. RetryExecute L (res_retry r) cx1 (\<lambda>cx2. TimeoutExecute L (res_op r) cx2 fn))"

text \<open>
  How the methods use it: the error first, else the value through its type assertion; and how an
  operation is put in: its result as a value of type \<open>any\<close>.
\<close>

definition finish :: "(any \<Rightarrow> error + 'a) \<Rightarrow> (any \<times> error option) \<times> 'w \<Rightarrow> (error + 'a) \<times> 'w" where
  "finish as r = (case r of ((v, Some e), w) \<Rightarrow> (Inl e, w) | ((v, None), w) \<Rightarrow> (as v, w))"

definition finish_reporting ::
  "(any \<Rightarrow> error + 'a) \<Rightarrow> 'a \<Rightarrow> (any \<times> error option) \<times> 'w \<Rightarrow> ('a \<times> error option) \<times> 'w" where
  "finish_reporting as z r =
     (case r of
        ((v, Some e), w) \<Rightarrow> ((z, Some e), w)
      | ((v, None), w) \<Rightarrow> (case as v of Inl e \<Rightarrow> ((z, Some e), w) | Inr x \<Rightarrow> ((x, None), w)))"

definition boxed :: "('a \<Rightarrow> any) \<Rightarrow> ('w, 'a) effect \<Rightarrow> ('w, any) reporting" where
  "boxed into f w = (case f w of (Inl e, w1) \<Rightarrow> ((AnyNil, Some e), w1) | (Inr x, w1) \<Rightarrow> ((into x, None), w1))"

definition boxed_reporting :: "('a \<Rightarrow> any) \<Rightarrow> ('w, 'a) reporting \<Rightarrow> ('w, any) reporting" where
  "boxed_reporting into f w = (case f w of ((x, e), w1) \<Rightarrow> ((into x, e), w1))"

subsection \<open>The fallbacks\<close>

definition listFallback :: "'w mailbox \<Rightarrow> scope \<Rightarrow> ('w, ids) effect" where
  "listFallback mb scope w =
     (case ScopedMailbox (ops mb) of
        Some f \<Rightarrow> f scope w
      | None \<Rightarrow>
          (if scope \<noteq> ScopeUnread then (Inl (Failure ''backend lists unread mail only''), w)
           else ListUnreadOp (ops mb) w))"

fun size_total :: "(string \<rightharpoonup> int64) \<Rightarrow> int64 \<Rightarrow> nat \<Rightarrow> ids \<Rightarrow> int64 \<times> nat" where
  "size_total sizes tot measured [] = (tot, measured)"
| "size_total sizes tot measured (i # is) =
     (case sizes i of
        None \<Rightarrow> size_total sizes tot measured is
      | Some b \<Rightarrow> size_total sizes (tot + b) (measured + 1) is)"

definition preflightFetchFallback :: "'w mailbox \<Rightarrow> ids \<Rightarrow> ('w, unit) effect" where
  "preflightFetchFallback mb is w =
     (case MessageSizer (ops mb) of
        None \<Rightarrow> (Inl (Failure ''backend cannot measure message sizes''), w)
      | Some f \<Rightarrow>
          (case f is w of
             (Inl e, w1) \<Rightarrow> (Inl e, w1)
           | (Inr sizes, w1) \<Rightarrow>
               (case size_total sizes 0 0 is of
                  (tot, measured) \<Rightarrow>
                    (case CheckFetchBudget tot measured of
                       Some e \<Rightarrow> (Inl e, w1)
                     | None \<Rightarrow> (Inr (), w1)))))"

fun fetch_each ::
  "'w ctx \<Rightarrow> 'w ports \<Rightarrow> fetch_result \<Rightarrow> ids \<Rightarrow> ('w, fetch_result) reporting" where
  "fetch_each cx p res [] w = ((res, None), w)"
| "fetch_each cx p res (i # is) w =
     (case cx w of
        Some e \<Rightarrow> ((res, Some e), w)
      | None \<Rightarrow>
          (case FetchOp p i w of
             (Inl e, w1) \<Rightarrow> fetch_each cx p (fetch_Fail i e res) is w1
           | (Inr raw, w1) \<Rightarrow> fetch_each cx p (fetch_Add i raw res) is w1))"

definition fetchManyFallback :: "'w ctx \<Rightarrow> 'w mailbox \<Rightarrow> ids \<Rightarrow> int \<Rightarrow> ('w, fetch_result) reporting" where
  "fetchManyFallback cx mb is limit w =
     (case CheckBulkIDsLimit is limit of
        Some e \<Rightarrow> ((no_fetch, Some e), w)
      | None \<Rightarrow>
          (case BulkFetcher (ops mb) of
             Some f \<Rightarrow> f is w
           | None \<Rightarrow>
               (case preflightFetchFallback mb is w of
                  (Inl e, w1) \<Rightarrow> ((no_fetch, Some e), w1)
                | (Inr _, w1) \<Rightarrow> fetch_each cx (ops mb) NewFetchResult is w1)))"

fun bulk_each ::
  "'w ctx \<Rightarrow> (string \<Rightarrow> ('w, unit) effect) \<Rightarrow> bulk_result \<Rightarrow> ids \<Rightarrow> ('w, bulk_result) reporting"
  where
  "bulk_each cx f res [] w = ((res, None), w)"
| "bulk_each cx f res (i # is) w =
     (case cx w of
        Some e \<Rightarrow> ((res, Some e), w)
      | None \<Rightarrow>
          (case f i w of
             (Inl e, w1) \<Rightarrow> bulk_each cx f (Fail i e res) is w1
           | (Inr _, w1) \<Rightarrow> bulk_each cx f (Succeed i res) is w1))"

definition bulkEachFallback ::
  "'w ctx \<Rightarrow> ids \<Rightarrow> (string \<Rightarrow> ('w, unit) effect) \<Rightarrow> ('w, bulk_result) reporting" where
  "bulkEachFallback cx is f = bulk_each cx f NewBulkResult is"

definition markSeenManyFallback ::
  "'w ctx \<Rightarrow> 'w mailbox \<Rightarrow> ids \<Rightarrow> int \<Rightarrow> ('w, bulk_result) reporting" where
  "markSeenManyFallback cx mb is limit w =
     (case CheckBulkIDsLimit is limit of
        Some e \<Rightarrow> ((no_result, Some e), w)
      | None \<Rightarrow>
          (case BulkMailbox (ops mb) of
             Some f \<Rightarrow> f is w
           | None \<Rightarrow> bulkEachFallback cx is (MarkSeenOp (ops mb)) w))"

definition curateManyFallback ::
  "'w ctx \<Rightarrow> 'w mailbox \<Rightarrow> ids \<Rightarrow> bool \<Rightarrow> int \<Rightarrow> ('w, bulk_result) reporting" where
  "curateManyFallback cx mb is trash limit w =
     (case CheckBulkIDsLimit is limit of
        Some e \<Rightarrow> ((no_result, Some e), w)
      | None \<Rightarrow>
          (case BulkCurator (ops mb) of
             Some bc \<Rightarrow> (if trash then DeleteBatch bc is w else ArchiveBatch bc is w)
           | None \<Rightarrow>
               (case Curator (ops mb) of
                  None \<Rightarrow> ((no_result, Some (Failure ''backend has no curation support'')), w)
                | Some cu \<Rightarrow>
                    (if trash then bulkEachFallback cx is (DeleteOne cu) w
                     else bulkEachFallback cx is (ArchiveOne cu) w))))"

definition moveManyFallback ::
  "'w ctx \<Rightarrow> 'w mailbox \<Rightarrow> ids \<Rightarrow> string \<Rightarrow> int \<Rightarrow> ('w, bulk_result) reporting" where
  "moveManyFallback cx mb is destination limit w =
     (case CheckBulkIDsLimit is limit of
        Some e \<Rightarrow> ((no_result, Some e), w)
      | None \<Rightarrow>
          (case BulkMover (ops mb) of
             Some f \<Rightarrow> f is destination w
           | None \<Rightarrow>
               (case Mover (ops mb) of
                  None \<Rightarrow> ((no_result, Some (Failure ''backend has no move support'')), w)
                | Some mv \<Rightarrow> bulkEachFallback cx is (\<lambda>i. mv i destination) w)))"

text \<open>The scan collects the matches in \<open>out\<close>.\<close>

fun scan_each :: "'w ctx \<Rightarrow> 'w ports \<Rightarrow> string \<Rightarrow> ids \<Rightarrow> ids \<Rightarrow> ('w, ids) effect" where
  "scan_each cx p needle out [] w = (Inr out, w)"
| "scan_each cx p needle out (i # is) w =
     (case FetchOp p i w of
        (Inl e, w1) \<Rightarrow>
          (if cx w1 \<noteq> None then (Inl e, w1) else scan_each cx p needle out is w1)
      | (Inr raw, w1) \<Rightarrow>
          scan_each cx p needle (if str_contains (to_lower raw) needle then out @ [i] else out) is w1)"

definition searchFallback :: "'w ctx \<Rightarrow> 'w mailbox \<Rightarrow> scope \<Rightarrow> string \<Rightarrow> ('w, ids) effect" where
  "searchFallback cx mb scope query w =
     (case ScopedSearcher (ops mb) of
        Some f \<Rightarrow> f scope query w
      | None \<Rightarrow>
          (case (if scope = ScopeUnread then Searcher (ops mb) else None) of
             Some f \<Rightarrow> f query w
           | None \<Rightarrow>
               (case listFallback mb scope w of
                  (Inl e, w1) \<Rightarrow> (Inl e, w1)
                | (Inr is, w1) \<Rightarrow>
                    (case CheckScanBudget (length is) scope of
                       Some e \<Rightarrow> (Inl e, w1)
                     | None \<Rightarrow> scan_each cx (ops mb) (to_lower query) [] is w1))))"

text \<open>One batch of the sender filter, and the batches.\<close>

fun sender_batch :: "headers_answer \<Rightarrow> string \<Rightarrow> ids \<Rightarrow> ids \<Rightarrow> error + ids" where
  "sender_batch ans addr out [] = Inr out"
| "sender_batch ans addr out (i # is) =
     (case snd ans i of
        Some e \<Rightarrow> Inl e
      | None \<Rightarrow>
          (case fst ans i of
             None \<Rightarrow> Inl (Failure ''no headers returned'')
           | Some h \<Rightarrow>
               sender_batch ans addr
                 (if str_contains (to_lower (From h)) (to_lower (trim_space addr)) then out @ [i] else out)
                 is))"

function sender_batches ::
  "(ids \<Rightarrow> 'w \<Rightarrow> headers_answer \<times> 'w) \<Rightarrow> string \<Rightarrow> ids \<Rightarrow> ids \<Rightarrow> nat \<Rightarrow> ('w, ids) effect" where
  "sender_batches f addr is out start w =
     (if length is \<le> start then (Inr out, w)
      else
        (let batch = take (nat MaxBulkIDs) (drop start is) in
         case f batch w of
           (ans, w1) \<Rightarrow>
             (case sender_batch ans addr out batch of
                Inl e \<Rightarrow> (Inl e, w1)
              | Inr out1 \<Rightarrow> sender_batches f addr is out1 (start + nat MaxBulkIDs) w1)))"
  by pat_completeness auto

termination sender_batches
  by (relation "measure (\<lambda>(f, addr, is, out, start, w). length is - start)")
    (auto simp: MaxBulkIDs_def)

declare sender_batches.simps [simp del]

definition res_searchFromFallback ::
  "'w ctx \<Rightarrow> 'w mailbox \<Rightarrow> scope \<Rightarrow> string \<Rightarrow> string \<Rightarrow> ('w, ids) effect" where
  "res_searchFromFallback cx mb scope query addr w =
     (case searchFallback cx mb scope query w of
        (Inl e, w1) \<Rightarrow> (Inl e, w1)
      | (Inr is, w1) \<Rightarrow>
          (case BatchHeaderFetcher (ops mb) of
             None \<Rightarrow> (Inl (Failure ''backend cannot fetch message headers in a batch''), w1)
           | Some f \<Rightarrow> sender_batches f addr is [] 0 w1))"

subsection \<open>The decorated operations\<close>

definition res_BulkLimit :: "'w resilient \<Rightarrow> 'w ctx \<Rightarrow> 'w \<Rightarrow> int" where
  "res_BulkLimit r cx w =
     (case LimitProvider (ops (res_mb r cx)) of
        Some p \<Rightarrow> if p w > 0 then p w else MaxBulkIDs
      | None \<Rightarrow> MaxBulkIDs)"

definition res_SetBulkLimit :: "'w resilient \<Rightarrow> 'w ctx \<Rightarrow> int \<Rightarrow> 'w \<Rightarrow> 'w" where
  "res_SetBulkLimit r cx limit w =
     (case LimitSetter (ops (res_mb r cx)) of Some f \<Rightarrow> f limit w | None \<Rightarrow> w)"

definition res_ListUnread :: "'w fortify \<Rightarrow> 'w resilient \<Rightarrow> 'w ctx \<Rightarrow> ('w, ids) effect" where
  "res_ListUnread L r cx w =
     finish the_ids (execute L r cx (\<lambda>c. boxed AnyIds (ListUnreadOp (ops (res_mb r c)))) w)"

definition res_Fetch :: "'w fortify \<Rightarrow> 'w resilient \<Rightarrow> 'w ctx \<Rightarrow> string \<Rightarrow> ('w, bytes) effect" where
  "res_Fetch L r cx i w =
     finish the_bytes (execute L r cx (\<lambda>c. boxed AnyBytes (FetchOp (ops (res_mb r c)) i)) w)"

text \<open>An optional capability: refused when the backend lacks it, else through the pipeline.\<close>

definition res_FetchHeaders ::
  "'w fortify \<Rightarrow> 'w resilient \<Rightarrow> 'w ctx \<Rightarrow> string \<Rightarrow> ('w, message_headers) effect" where
  "res_FetchHeaders L r cx i w =
     (case HeaderFetcher (ops (res_mb r cx)) of
        None \<Rightarrow> (Inl (Failure ''backend cannot fetch message headers''), w)
      | Some _ \<Rightarrow>
          finish the_headers (execute L r cx
            (\<lambda>c. boxed AnyHeaders (the (HeaderFetcher (ops (res_mb r c))) i)) w))"

fun fail_all :: "error \<Rightarrow> (string \<rightharpoonup> error) \<Rightarrow> ids \<Rightarrow> (string \<rightharpoonup> error)" where
  "fail_all e fl [] = fl"
| "fail_all e fl (i # is) = fail_all e (fl(i \<mapsto> e)) is"

definition res_FetchHeadersMany ::
  "'w fortify \<Rightarrow> 'w resilient \<Rightarrow> 'w ctx \<Rightarrow> ids \<Rightarrow> 'w \<Rightarrow> headers_answer \<times> 'w" where
  "res_FetchHeadersMany L r cx is w =
     (case BatchHeaderFetcher (ops (res_mb r cx)) of
        None \<Rightarrow>
          ((Map.empty,
            fail_all (Failure ''backend cannot fetch message headers in a batch'') Map.empty is), w)
      | Some _ \<Rightarrow>
          (case finish the_header_maps (execute L r cx
              (\<lambda>c v. case the (BatchHeaderFetcher (ops (res_mb r c))) is v of
                       (ans, v1) \<Rightarrow> ((AnyHeaderMaps ans, None), v1)) w) of
             (Inl e, w1) \<Rightarrow> ((Map.empty, fail_all e Map.empty is), w1)
           | (Inr ans, w1) \<Rightarrow> (ans, w1)))"

definition res_FetchMany ::
  "'w fortify \<Rightarrow> 'w resilient \<Rightarrow> 'w ctx \<Rightarrow> ids \<Rightarrow> ('w, fetch_result) reporting" where
  "res_FetchMany L r cx is w =
     finish_reporting the_fetch no_fetch (execute L r cx
       (\<lambda>c v. boxed_reporting AnyFetch (fetchManyFallback c (res_mb r c) is (res_BulkLimit r c v)) v) w)"

definition res_Sizes ::
  "'w fortify \<Rightarrow> 'w resilient \<Rightarrow> 'w ctx \<Rightarrow> ids \<Rightarrow> ('w, string \<rightharpoonup> int64) effect" where
  "res_Sizes L r cx is w =
     (case MessageSizer (ops (res_mb r cx)) of
        None \<Rightarrow> (Inl (Failure ''backend cannot measure message sizes''), w)
      | Some _ \<Rightarrow>
          finish the_sizes (execute L r cx
            (\<lambda>c. boxed AnySizes (the (MessageSizer (ops (res_mb r c))) is)) w))"

text \<open>An operation without a result: only the error comes back.\<close>

definition done_with :: "(any \<times> error option) \<times> 'w \<Rightarrow> (error + unit) \<times> 'w" where
  "done_with r = (case r of ((v, Some e), w) \<Rightarrow> (Inl e, w) | ((v, None), w) \<Rightarrow> (Inr (), w))"

definition res_MarkSeen :: "'w fortify \<Rightarrow> 'w resilient \<Rightarrow> 'w ctx \<Rightarrow> string \<Rightarrow> ('w, unit) effect" where
  "res_MarkSeen L r cx i w =
     done_with (execute L r cx (\<lambda>c. boxed (\<lambda>_. AnyNil) (MarkSeenOp (ops (res_mb r c)) i)) w)"

definition res_bulk ::
  "'w fortify \<Rightarrow> 'w resilient \<Rightarrow> 'w ctx \<Rightarrow> ('w ctx \<Rightarrow> ('w, bulk_result) reporting) \<Rightarrow>
   ('w, bulk_result) reporting" where
  "res_bulk L r cx fn w =
     finish_reporting the_bulk no_result (execute L r cx (\<lambda>c. boxed_reporting AnyBulk (fn c)) w)"

definition res_MarkSeenMany ::
  "'w fortify \<Rightarrow> 'w resilient \<Rightarrow> 'w ctx \<Rightarrow> ids \<Rightarrow> ('w, bulk_result) reporting" where
  "res_MarkSeenMany L r cx is =
     res_bulk L r cx (\<lambda>c v. markSeenManyFallback c (res_mb r c) is (res_BulkLimit r c v) v)"

definition res_ArchiveMany ::
  "'w fortify \<Rightarrow> 'w resilient \<Rightarrow> 'w ctx \<Rightarrow> ids \<Rightarrow> ('w, bulk_result) reporting" where
  "res_ArchiveMany L r cx is =
     res_bulk L r cx (\<lambda>c v. curateManyFallback c (res_mb r c) is False (res_BulkLimit r c v) v)"

definition res_DeleteMany ::
  "'w fortify \<Rightarrow> 'w resilient \<Rightarrow> 'w ctx \<Rightarrow> ids \<Rightarrow> ('w, bulk_result) reporting" where
  "res_DeleteMany L r cx is =
     res_bulk L r cx (\<lambda>c v. curateManyFallback c (res_mb r c) is True (res_BulkLimit r c v) v)"

definition res_List :: "'w fortify \<Rightarrow> 'w resilient \<Rightarrow> 'w ctx \<Rightarrow> scope \<Rightarrow> ('w, ids) effect" where
  "res_List L r cx scope w =
     finish the_ids (execute L r cx (\<lambda>c. boxed AnyIds (listFallback (res_mb r c) scope)) w)"

definition res_SearchScope ::
  "'w fortify \<Rightarrow> 'w resilient \<Rightarrow> 'w ctx \<Rightarrow> scope \<Rightarrow> string \<Rightarrow> ('w, ids) effect" where
  "res_SearchScope L r cx scope query w =
     finish the_ids (execute L r cx (\<lambda>c. boxed AnyIds (searchFallback c (res_mb r c) scope query)) w)"

definition res_Search :: "'w fortify \<Rightarrow> 'w resilient \<Rightarrow> 'w ctx \<Rightarrow> string \<Rightarrow> ('w, ids) effect" where
  "res_Search L r cx query = res_SearchScope L r cx ScopeUnread query"

definition res_SearchFromScope ::
  "'w fortify \<Rightarrow> 'w resilient \<Rightarrow> 'w ctx \<Rightarrow> scope \<Rightarrow> string \<Rightarrow> string \<Rightarrow> ('w, ids) effect" where
  "res_SearchFromScope L r cx scope query addr w =
     finish the_ids (execute L r cx
       (\<lambda>c. boxed AnyIds
          (case SenderSearcher (ops (res_mb r c)) of
             Some f \<Rightarrow> f scope query addr
           | None \<Rightarrow> res_searchFromFallback c (res_mb r c) scope query addr)) w)"

definition res_Folders :: "'w fortify \<Rightarrow> 'w resilient \<Rightarrow> 'w ctx \<Rightarrow> ('w, ids) effect" where
  "res_Folders L r cx w =
     (case FolderLister (ops (res_mb r cx)) of
        None \<Rightarrow> (Inr [''INBOX''], w)
      | Some _ \<Rightarrow>
          finish the_ids (execute L r cx
            (\<lambda>c. boxed AnyIds (the (FolderLister (ops (res_mb r c))))) w))"

definition res_no_folder_management :: error where
  "res_no_folder_management = Failure ''backend cannot create or delete folders''"

definition res_CreateFolder :: "'w fortify \<Rightarrow> 'w resilient \<Rightarrow> 'w ctx \<Rightarrow> string \<Rightarrow> ('w, unit) effect" where
  "res_CreateFolder L r cx name w =
     (case FolderManager (ops (res_mb r cx)) of
        None \<Rightarrow> (Inl res_no_folder_management, w)
      | Some _ \<Rightarrow>
          done_with (execute L r cx
            (\<lambda>c. boxed (\<lambda>_. AnyNil) (CreateFolderOp (the (FolderManager (ops (res_mb r c)))) name)) w))"

definition res_DeleteFolder :: "'w fortify \<Rightarrow> 'w resilient \<Rightarrow> 'w ctx \<Rightarrow> string \<Rightarrow> ('w, unit) effect" where
  "res_DeleteFolder L r cx name w =
     (case FolderManager (ops (res_mb r cx)) of
        None \<Rightarrow> (Inl res_no_folder_management, w)
      | Some _ \<Rightarrow>
          done_with (execute L r cx
            (\<lambda>c. boxed (\<lambda>_. AnyNil) (DeleteFolderOp (the (FolderManager (ops (res_mb r c)))) name)) w))"

definition res_no_curation :: error where
  "res_no_curation = Failure ''backend has no curation support''"

definition res_Archive :: "'w fortify \<Rightarrow> 'w resilient \<Rightarrow> 'w ctx \<Rightarrow> string \<Rightarrow> ('w, unit) effect" where
  "res_Archive L r cx i w =
     (case Curator (ops (res_mb r cx)) of
        None \<Rightarrow> (Inl res_no_curation, w)
      | Some _ \<Rightarrow>
          done_with (execute L r cx
            (\<lambda>c. boxed (\<lambda>_. AnyNil) (ArchiveOne (the (Curator (ops (res_mb r c)))) i)) w))"

definition res_Delete :: "'w fortify \<Rightarrow> 'w resilient \<Rightarrow> 'w ctx \<Rightarrow> string \<Rightarrow> ('w, unit) effect" where
  "res_Delete L r cx i w =
     (case Curator (ops (res_mb r cx)) of
        None \<Rightarrow> (Inl res_no_curation, w)
      | Some _ \<Rightarrow>
          done_with (execute L r cx
            (\<lambda>c. boxed (\<lambda>_. AnyNil) (DeleteOne (the (Curator (ops (res_mb r c)))) i)) w))"

definition res_Move ::
  "'w fortify \<Rightarrow> 'w resilient \<Rightarrow> 'w ctx \<Rightarrow> string \<Rightarrow> string \<Rightarrow> ('w, unit) effect" where
  "res_Move L r cx i destination w =
     (case Mover (ops (res_mb r cx)) of
        None \<Rightarrow> (Inl (Failure ''backend has no move support''), w)
      | Some _ \<Rightarrow>
          done_with (execute L r cx
            (\<lambda>c. boxed (\<lambda>_. AnyNil) (the (Mover (ops (res_mb r c))) i destination)) w))"

definition res_MoveMany ::
  "'w fortify \<Rightarrow> 'w resilient \<Rightarrow> 'w ctx \<Rightarrow> ids \<Rightarrow> string \<Rightarrow> ('w, bulk_result) reporting" where
  "res_MoveMany L r cx is destination w =
     finish_reporting the_bulk no_result (execute L r cx
       (\<lambda>c v. boxed_reporting AnyBulk
          (moveManyFallback c (res_mb r c) is destination (res_BulkLimit r c v)) v) w)"

definition res_CurationPlan :: "'w fortify \<Rightarrow> 'w resilient \<Rightarrow> 'w ctx \<Rightarrow> ('w, curation_plan) effect" where
  "res_CurationPlan L r cx w =
     (case CurationInspector (ops (res_mb r cx)) of
        None \<Rightarrow> (Inl (Failure ''backend cannot report curation destinations''), w)
      | Some _ \<Rightarrow>
          finish the_plan (execute L r cx
            (\<lambda>c. boxed AnyPlan (the (CurationInspector (ops (res_mb r c))))) w))"

definition res_CurationCapabilities ::
  "'w fortify \<Rightarrow> 'w resilient \<Rightarrow> 'w ctx \<Rightarrow> ('w, curation_capabilities) effect" where
  "res_CurationCapabilities L r cx w =
     (case CapabilityProvider (ops (res_mb r cx)) of
        None \<Rightarrow> (Inl (Failure ''backend cannot report curation capabilities''), w)
      | Some _ \<Rightarrow>
          finish the_capabilities (execute L r cx
            (\<lambda>c. boxed AnyCapabilities (the (CapabilityProvider (ops (res_mb r c))))) w))"

text \<open>
  The decorator as a mailbox, for one context; a folder of it is the backend's folder wrapped
  with the default configuration.  A folder of a folder is not reached.
\<close>

definition res_ports :: "'w fortify \<Rightarrow> 'w resilient \<Rightarrow> 'w ctx \<Rightarrow> 'w ports" where
  "res_ports L r cx =
     \<lparr>ListUnreadOp = res_ListUnread L r cx, FetchOp = res_Fetch L r cx,
      MarkSeenOp = res_MarkSeen L r cx, ScopedMailbox = Some (res_List L r cx),
      Searcher = Some (res_Search L r cx), ScopedSearcher = Some (res_SearchScope L r cx),
      SenderSearcher = Some (res_SearchFromScope L r cx),
      HeaderFetcher = Some (res_FetchHeaders L r cx),
      BatchHeaderFetcher = Some (res_FetchHeadersMany L r cx),
      FolderLister = Some (res_Folders L r cx),
      FolderManager = Some \<lparr>CreateFolderOp = res_CreateFolder L r cx,
                            DeleteFolderOp = res_DeleteFolder L r cx\<rparr>,
      Curator = Some \<lparr>ArchiveOne = res_Archive L r cx, DeleteOne = res_Delete L r cx\<rparr>,
      Mover = Some (res_Move L r cx), MessageSizer = Some (res_Sizes L r cx),
      BulkFetcher = Some (res_FetchMany L r cx), BulkMailbox = Some (res_MarkSeenMany L r cx),
      BulkCurator = Some \<lparr>ArchiveBatch = res_ArchiveMany L r cx, DeleteBatch = res_DeleteMany L r cx\<rparr>,
      BulkMover = Some (res_MoveMany L r cx), CurationInspector = Some (res_CurationPlan L r cx),
      CapabilityProvider = Some (res_CurationCapabilities L r cx),
      LimitProvider = Some (res_BulkLimit r cx), LimitSetter = Some (res_SetBulkLimit r cx)\<rparr>"

definition default_config :: config where
  "default_config = \<lparr>OpTimeout = 0, cfg_MaxAttempts = 0, cfg_InitialDelay = 0\<rparr>"

definition res_InFolder ::
  "'w fortify \<Rightarrow> 'w resilient \<Rightarrow> 'w ctx \<Rightarrow> string \<Rightarrow> ('w, 'w mailbox) effect" where
  "res_InFolder L r cx name w =
     (case in_folder (res_mb r cx) of
        None \<Rightarrow>
          (if name = ''INBOX'' then (Inr (Mailbox (res_ports L r cx) None), w)
           else (Inl (Failure ''backend has no folder support''), w))
      | Some f \<Rightarrow>
          (case f name w of
             (Inl e, w1) \<Rightarrow> (Inl e, w1)
           | (Inr box, w1) \<Rightarrow>
               (Inr (Mailbox (res_ports L (Wrap (\<lambda>c. box) default_config) cx) None), w1)))"

definition res_mailbox :: "'w fortify \<Rightarrow> 'w resilient \<Rightarrow> 'w ctx \<Rightarrow> 'w mailbox" where
  "res_mailbox L r cx = Mailbox (res_ports L r cx) (Some (res_InFolder L r cx))"

end
