(* ===== verification/Resilience_Facts.thy ===== *)
theory Resilience_Facts
  imports Resilience
begin

section \<open>What the resilience decorator promises\<close>

text \<open>
  The copies of the fallbacks are the fallbacks of the use cases; which errors the breaker and the
  retry policy leave alone; that what comes back through the pipeline is what the backend
  answered; and that on a calm pipeline the decorator is the backend, partial reports aside.
\<close>

subsection \<open>The copies of the fallbacks\<close>

lemma listFallback_eq: "listFallback mb scope = listMailbox mb scope"
  by (rule ext) (simp add: listFallback_def listMailbox_def)

lemma size_total_eq:
  "size_total sizes t n is = (case sum_sizes sizes is of (t', n') \<Rightarrow> (t + t', n + n'))"
  by (induction "is" arbitrary: t n) (auto split: prod.splits option.splits)

lemma preflight_eq: "preflightFetchFallback mb is = preflightFetch mb is"
  by (rule ext) (simp add: preflightFetchFallback_def preflightFetch_def size_total_eq
      split: option.split sum.split prod.split)

lemma fetch_each_eq: "fetch_each cx p res is w = fetch_loop cx (FetchOp p) res is w"
  by (induction "is" arbitrary: res w) (auto split: option.splits sum.splits prod.splits)

lemma fetchManyFallback_eq: "fetchManyFallback cx mb is limit w = fetchMany cx mb is limit w"
  by (simp add: fetchManyFallback_def fetchMany_def preflight_eq fetch_each_eq fetchEach_def
      split: option.split sum.split prod.split)

lemma bulk_each_eq: "bulk_each cx f res is w = bulk_loop cx f res is w"
  by (induction "is" arbitrary: res w) (auto split: option.splits sum.splits prod.splits)

lemma bulkEachFallback_eq: "bulkEachFallback cx is f = bulkEach cx is f"
  by (rule ext) (simp add: bulkEachFallback_def bulkEach_def bulk_each_eq)

lemma markSeenManyFallback_eq: "markSeenManyFallback cx mb is limit w = markSeenMany cx mb is limit w"
  by (simp add: markSeenManyFallback_def markSeenMany_def bulkEachFallback_eq split: option.split)

lemma curateManyFallback_eq:
  "curateManyFallback cx mb is trash limit w =
     curateMany cx mb is (if trash then actionDelete else actionArchive) limit w"
  by (simp add: curateManyFallback_def curateMany_def bulkEachFallback_eq split: option.split)

lemma moveManyFallback_eq:
  "CheckFolderName d = None \<Longrightarrow> moveManyFallback cx mb is d limit w = moveMany cx mb is d limit w"
  by (simp add: moveManyFallback_def moveMany_def bulkEachFallback_eq split: option.split)

lemma scan_each_eq:
  "scan_each cx p needle out is w =
     (case scan_loop cx p needle is w of
        (Inl e, w1) \<Rightarrow> (Inl e, w1)
      | (Inr found, w1) \<Rightarrow> (Inr (out @ found), w1))"
  by (induction "is" arbitrary: out w) (auto split: sum.splits prod.splits)

lemma searchFallback_eq: "searchFallback cx mb scope query = searchMailbox cx mb scope query"
  by (rule ext) (auto simp: searchFallback_def searchMailbox_def listFallback_eq scan_each_eq
      split: option.split sum.split prod.split)

lemma sender_batch_eq:
  "sender_batch ans addr out is =
     (case filter_from ans (to_lower (trim_space addr)) is of Inl e \<Rightarrow> Inl e | Inr x \<Rightarrow> Inr (out @ x))"
  by (induction "is" arbitrary: out) (auto simp: header_of_def split: option.splits sum.splits)

lemma sender_batches_eq:
  "sender_batches f addr is out start w =
     (case from_loop f (to_lower (trim_space addr)) (drop start is) w of
        (Inl e, w1) \<Rightarrow> (Inl e, w1)
      | (Inr x, w1) \<Rightarrow> (Inr (out @ x), w1))"
proof (induction f addr "is" out start w rule: sender_batches.induct)
  case (1 f addr "is" out start w)
  show ?case
  proof (cases "length is \<le> start")
    case True
    then show ?thesis by (simp add: sender_batches.simps from_loop.simps)
  next
    case False
    let ?batch = "take (nat MaxBulkIDs) (drop start is)"
    obtain ans w1 where f: "f ?batch w = (ans, w1)" by (metis surj_pair)
    have ne: "drop start is \<noteq> []" using False by simp
    show ?thesis
    proof (cases "filter_from ans (to_lower (trim_space addr)) ?batch")
      case (Inl e)
      with False f ne show ?thesis
        by (simp add: sender_batches.simps [of f addr "is" out start] from_loop.simps [of f _ "drop start is"]
            sender_batch_eq Let_def)
    next
      case (Inr x)
      then have "sender_batch ans addr out ?batch = Inr (out @ x)" by (simp add: sender_batch_eq)
      note IH = 1 [OF False refl f [symmetric] this]
      from False f ne Inr IH show ?thesis
        by (simp add: sender_batches.simps [of f addr "is" out start] from_loop.simps [of f _ "drop start is"]
            sender_batch_eq Let_def add.commute split: sum.split prod.split)
    qed
  qed
qed

lemma searchFromFallback_eq:
  "res_searchFromFallback cx mb scope query addr = searchFromFallback cx mb scope query addr"
  by (rule ext) (simp add: res_searchFromFallback_def searchFromFallback_def searchFallback_eq
      sender_batches_eq split: option.split sum.split prod.split)


subsection \<open>Whose fault an error is\<close>

definition retried :: "'w resilient \<Rightarrow> error \<Rightarrow> bool" where
  "retried r e \<longleftrightarrow> \<not> (\<exists>k \<in> set (NonRetryableErrors (res_retry r)). errors_is e k)"

lemma check_refusals:
  "CheckBulkIDsLimit is n = Some e \<Longrightarrow> errors_is e ErrBulkSize"
  "CheckFetchBudget t k = Some e \<Longrightarrow> errors_is e ErrFetchTooLarge"
  "CheckFolderName d = Some e \<Longrightarrow> errors_is e ErrBadFolder"
  "CheckFolderEmpty d j = Some e \<Longrightarrow> errors_is e ErrFolderNotEmpty"
  "CheckFolderChildless d cs = Some e \<Longrightarrow> errors_is e ErrFolderNotEmpty"
  "CheckFolderDeletable d rs plan = Some e \<Longrightarrow> errors_is e ErrFolderProtected"
  by (auto simp: bulk_limit_Some_is CheckFetchBudget_def CheckFolderName_def CheckFolderEmpty_def
      CheckFolderChildless_def CheckFolderDeletable_def protected_error_def dest: deletable_loop_Some_is split: if_splits)

text \<open>a refusal of a batch, of a fetch over the budget or of a folder, made by the rules of
  the domain, counts as a success for the breaker and is never retried; whatever the breaker
  forgives is not retried, and of what is not retried only running out of time counts against
  the backend.\<close>

theorem refusals_are_not_held_against_the_backend:
  assumes "r = Wrap mb cfg"
  shows "(CheckBulkIDsLimit is n = Some e \<or> CheckFetchBudget t k = Some e \<or> CheckFolderName d = Some e \<or>
      CheckFolderEmpty d j = Some e \<or> CheckFolderChildless d cs = Some e \<or>
      CheckFolderDeletable d rs plan = Some e \<longrightarrow> res_ok r (Some e) \<and> \<not> retried r e) \<and>
    (res_ok r (Some x) \<longrightarrow> \<not> retried r x) \<and>
    (\<not> retried r x \<and> \<not> res_ok r (Some x) \<longrightarrow> errors_is x DeadlineExceeded)"
  using check_refusals
  by (auto simp: assms Wrap_def IsSuccessful_def retried_def non_retryable_def)

theorem refusals_are_not_held_against_the_backend_witness:
  "\<exists>e. CheckFolderName [] = Some e \<and> res_ok (Wrap (\<lambda>c. toy_mailbox) default_config) (Some e)"
proof -
  obtain e where e: "CheckFolderName [] = Some e"
    using folder_name_None_iff [of "[]"] by (cases "CheckFolderName []") (auto simp: trim_space_def
        trim_left_def trim_right_def)
  with refusals_are_not_held_against_the_backend [OF refl, of "[]" 0 e 0 0 "[]" 0 "[]" "[]"]
  show ?thesis by blast
qed

text \<open>The two refusals the lists leave out: a scan over its budget and a bad scope are retried
  and count as failures of the backend.\<close>

lemma scan_refusals_are_retried_and_counted:
  assumes "r = Wrap mb cfg" "CheckScanBudget n s = Some e"
  shows "\<not> res_ok r (Some e) \<and> retried r e"
  using assms
  by (auto simp: Wrap_def IsSuccessful_def retried_def non_retryable_def CheckScanBudget_def
      split: if_splits)

lemma bad_scopes_are_retried_and_counted:
  assumes "r = Wrap mb cfg" "ParseScope s = Inl e"
  shows "\<not> res_ok r (Some e) \<and> retried r e"
  using assms
  by (auto simp: Wrap_def IsSuccessful_def retried_def non_retryable_def ParseScope_def
      split: if_splits)

subsection \<open>What comes back\<close>

text \<open>
  What the library documents of its \<open>Execute\<close> methods: a value without an error is one the
  function returned without an error, in some run under some context.
\<close>

definition answers_honestly :: "('w ctx \<Rightarrow> 'w call \<Rightarrow> ('w, any) reporting) \<Rightarrow> bool" where
  "answers_honestly F \<longleftrightarrow>
     (\<forall>cx fn w v w'. F cx fn w = ((v, None), w') \<longrightarrow> (\<exists>c w1 w2. fn c w1 = ((v, None), w2)))"

definition fortify_documented :: "'w fortify \<Rightarrow> bool" where
  "fortify_documented L \<longleftrightarrow>
     (\<forall>ok. answers_honestly (BreakerExecute L ok)) \<and> (\<forall>c. answers_honestly (RetryExecute L c)) \<and>
     (\<forall>d. answers_honestly (TimeoutExecute L d))"

lemma answers_honestlyD:
  "answers_honestly F \<Longrightarrow> F cx fn w = ((v, None), w') \<Longrightarrow> \<exists>c w1 w2. fn c w1 = ((v, None), w2)"
  unfolding answers_honestly_def by blast

lemma execute_honest:
  assumes "fortify_documented L" "execute L r cx fn w = ((v, None), w')"
  shows "\<exists>c w1 w2. fn c w1 = ((v, None), w2)"
proof -
  have b: "answers_honestly (BreakerExecute L (res_ok r))" "answers_honestly (RetryExecute L (res_retry r))"
    "answers_honestly (TimeoutExecute L (res_op r))"
    using assms(1) by (simp_all add: fortify_documented_def)
  from answers_honestlyD [OF b(1) assms(2) [unfolded execute_def]] obtain c1 w1 w2 where
    "RetryExecute L (res_retry r) c1 (\<lambda>cx2. TimeoutExecute L (res_op r) cx2 fn) w1 = ((v, None), w2)"
    by blast
  from answers_honestlyD [OF b(2) this] obtain c2 w3 w4 where
    "TimeoutExecute L (res_op r) c2 fn w3 = ((v, None), w4)" by blast
  from answers_honestlyD [OF b(3) this] show ?thesis .
qed

lemma finish_boxed:
  assumes "fortify_documented L" "\<And>x. as (into x) = Inr x"
    and "finish as (execute L r cx (\<lambda>c. boxed into (g c)) w) = (res, w')"
  shows "(\<exists>x c w1 w2. res = Inr x \<and> g c w1 = (Inr x, w2)) \<or>
    (\<exists>e v. res = Inl e \<and> execute L r cx (\<lambda>c. boxed into (g c)) w = ((v, Some e), w'))"
proof -
  obtain v e0 w0 where x: "execute L r cx (\<lambda>c. boxed into (g c)) w = ((v, e0), w0)"
    by (metis surj_pair)
  show ?thesis
  proof (cases e0)
    case None
    from execute_honest [OF assms(1) x [unfolded None]] obtain c w1 w2 where
      run: "boxed into (g c) w1 = ((v, None), w2)" by blast
    then obtain y where "g c w1 = (Inr y, w2)" "v = into y"
      by (auto simp: boxed_def split: sum.splits prod.splits)
    with assms(2, 3) x None show ?thesis by (auto simp: finish_def)
  next
    case (Some e)
    with x assms(3) show ?thesis by (auto simp: finish_def)
  qed
qed

lemma finish_boxed_reporting:
  assumes "fortify_documented L" "\<And>x. as (into x) = Inr x"
    and "finish_reporting as z (execute L r cx (\<lambda>c. boxed_reporting into (g c)) w) = ((x, e), w')"
  shows "(e = None \<longrightarrow> (\<exists>c w1 w2. g c w1 = ((x, None), w2))) \<and>
    (e \<noteq> None \<longrightarrow> (\<exists>v. execute L r cx (\<lambda>c. boxed_reporting into (g c)) w = ((v, e), w')))"
proof -
  obtain v e0 w0 where ex: "execute L r cx (\<lambda>c. boxed_reporting into (g c)) w = ((v, e0), w0)"
    by (metis surj_pair)
  show ?thesis
  proof (cases e0)
    case None
    from execute_honest [OF assms(1) ex [unfolded None]] obtain c w1 w2 where
      "boxed_reporting into (g c) w1 = ((v, None), w2)" by blast
    then obtain y where "g c w1 = ((y, None), w2)" "v = into y"
      by (auto simp: boxed_reporting_def split: prod.splits)
    with assms(2, 3) ex None show ?thesis by (auto simp: finish_reporting_def)
  next
    case (Some e1)
    with ex assms(3) show ?thesis by (auto simp: finish_reporting_def)
  qed
qed

lemma assertions_hold [simp]:
  "the_ids (AnyIds x1) = Inr x1" "the_bytes (AnyBytes x2) = Inr x2"
  "the_headers (AnyHeaders x3) = Inr x3" "the_header_maps (AnyHeaderMaps x4) = Inr x4"
  "the_fetch (AnyFetch x5) = Inr x5" "the_sizes (AnySizes x6) = Inr x6"
  "the_bulk (AnyBulk x7) = Inr x7" "the_plan (AnyPlan x8) = Inr x8"
  "the_capabilities (AnyCapabilities x9) = Inr x9"
  by (simp_all add: assertion_defs)


subsection \<open>A calm pipeline\<close>

text \<open>A pipeline in which nothing goes wrong runs the function once, under the caller's context.\<close>

definition calm :: "'w fortify \<Rightarrow> bool" where
  "calm L \<longleftrightarrow>
     (\<forall>ok cx fn. BreakerExecute L ok cx fn = fn cx) \<and> (\<forall>c cx fn. RetryExecute L c cx fn = fn cx) \<and>
     (\<forall>d cx fn. TimeoutExecute L d cx fn = fn cx)"

definition still_fortify :: "'w fortify" where
  "still_fortify = \<lparr>BreakerExecute = (\<lambda>ok cx fn. fn cx), RetryExecute = (\<lambda>c cx fn. fn cx),
                    TimeoutExecute = (\<lambda>d cx fn. fn cx)\<rparr>"

lemma still_calm: "calm still_fortify"
  by (simp add: calm_def still_fortify_def)

lemma still_documented: "fortify_documented still_fortify"
  unfolding fortify_documented_def answers_honestly_def still_fortify_def
  by simp blast


lemma calm_execute: "calm L \<Longrightarrow> execute L r cx fn = fn cx"
  by (rule ext) (simp add: execute_def calm_def)

lemma finish_boxed_id: "(\<And>x. as (into x) = Inr x) \<Longrightarrow> finish as (boxed into f w) = f w"
  by (auto simp: finish_def boxed_def split: sum.splits prod.splits)

definition without_partial :: "'a \<Rightarrow> ('a \<times> error option) \<times> 'w \<Rightarrow> ('a \<times> error option) \<times> 'w" where
  "without_partial z r = (case r of ((x, None), w) \<Rightarrow> ((x, None), w) | ((x, Some e), w) \<Rightarrow> ((z, Some e), w))"

lemma finish_reporting_boxed_id:
  "(\<And>x. as (into x) = Inr x) \<Longrightarrow>
     finish_reporting as z (boxed_reporting into f w) = without_partial z (f w)"
  by (auto simp: finish_reporting_def boxed_reporting_def without_partial_def
      split: prod.splits option.splits)

text \<open>C19: on a calm pipeline the decorated backend serves every use case as the bare one does: it
  lists, searches and reads the same and its batches do and report the same, except that a batch
  cut short by an error reports the error alone: the outcomes it had already collected are
  dropped.\<close>

theorem wrapping_is_transparent_but_for_partial_reports:
  assumes "calm L" "r = Wrap mb cfg" "box = res_mailbox L r cx" "limit = res_BulkLimit r cx w"
  shows "listMailbox box scope w = listMailbox (mb cx) scope w \<and>
    searchMailbox cx box scope query w = searchMailbox cx (mb cx) scope query w \<and>
    FetchOp (ops box) i w = FetchOp (ops (mb cx)) i w \<and>
    fetchMany cx box is limit w = without_partial no_fetch (fetchMany cx (mb cx) is limit w) \<and>
    markSeenMany cx box is limit w = without_partial no_result (markSeenMany cx (mb cx) is limit w) \<and>
    curateMany cx box is act limit w = without_partial no_result (curateMany cx (mb cx) is act limit w)"
proof -
  have mb: "res_mb r = mb" by (simp add: assms(2) Wrap_def)
  note ex = calm_execute [OF assms(1)]
  have "listMailbox box scope w = res_List L r cx scope w"
    unfolding listMailbox_def assms(3) res_mailbox_def by (simp add: res_ports_def)
  then have list: "listMailbox box scope w = listMailbox (mb cx) scope w"
    by (simp add: res_List_def ex mb finish_boxed_id listFallback_eq)
  have "searchMailbox cx box scope query w = res_SearchScope L r cx scope query w"
    unfolding searchMailbox_def assms(3) res_mailbox_def by (simp add: res_ports_def)
  then have search: "searchMailbox cx box scope query w = searchMailbox cx (mb cx) scope query w"
    by (simp add: res_SearchScope_def ex mb finish_boxed_id searchFallback_eq)
  have fetch1: "FetchOp (ops box) i w = FetchOp (ops (mb cx)) i w"
    by (simp add: assms(3) res_mailbox_def res_ports_def res_Fetch_def ex mb finish_boxed_id)
  have refused: "fetchMany cx (mb cx) is limit w = ((no_fetch, Some e), w)"
      "markSeenMany cx (mb cx) is limit w = ((no_result, Some e), w)"
      "curateMany cx (mb cx) is act limit w = ((no_result, Some e), w)"
    if "CheckBulkIDsLimit is limit = Some e" for e
    using that by (simp_all add: fetchMany_def markSeenMany_def curateMany_def)
  have fetch: "fetchMany cx box is limit w = without_partial no_fetch (fetchMany cx (mb cx) is limit w)"
  proof (cases "CheckBulkIDsLimit is limit")
    case (Some e)
    with refused(1) [OF Some] show ?thesis by (simp add: fetchMany_def [of cx box] without_partial_def)
  next
    case None
    then have "fetchMany cx box is limit w = res_FetchMany L r cx is w"
      unfolding fetchMany_def assms(3) res_mailbox_def by (simp add: res_ports_def)
    also have "\<dots> = finish_reporting the_fetch no_fetch (boxed_reporting AnyFetch
        (\<lambda>v. fetchMany cx (mb cx) is (res_BulkLimit r cx v) v) w)"
      by (simp add: res_FetchMany_def ex mb fetchManyFallback_eq boxed_reporting_def [abs_def])
    finally show ?thesis by (simp add: finish_reporting_boxed_id assms(4))
  qed
  have mark: "markSeenMany cx box is limit w =
      without_partial no_result (markSeenMany cx (mb cx) is limit w)"
  proof (cases "CheckBulkIDsLimit is limit")
    case (Some e)
    with refused(2) [OF Some] show ?thesis by (simp add: markSeenMany_def [of cx box] without_partial_def)
  next
    case None
    then have "markSeenMany cx box is limit w = res_MarkSeenMany L r cx is w"
      unfolding markSeenMany_def assms(3) res_mailbox_def by (simp add: res_ports_def)
    then show ?thesis
      by (simp add: res_MarkSeenMany_def res_bulk_def ex mb markSeenManyFallback_eq
          finish_reporting_boxed_id assms(4))
  qed
  have curate: "curateMany cx box is act limit w =
      without_partial no_result (curateMany cx (mb cx) is act limit w)"
  proof (cases "CheckBulkIDsLimit is limit")
    case (Some e)
    with refused(3) [OF Some] show ?thesis by (simp add: curateMany_def [of cx box] without_partial_def)
  next
    case None
    then have "curateMany cx box is act limit w =
        (if act = actionArchive then res_ArchiveMany L r cx is w else res_DeleteMany L r cx is w)"
      unfolding curateMany_def assms(3) res_mailbox_def by (simp add: res_ports_def)
    then show ?thesis
      by (cases act) (simp_all add: res_ArchiveMany_def res_DeleteMany_def res_bulk_def ex mb
          curateManyFallback_eq finish_reporting_boxed_id assms(4))
  qed
  from list search fetch1 fetch mark curate show ?thesis by simp
qed

theorem wrapping_is_transparent_but_for_partial_reports_witness:
  "markSeenMany (\<lambda>w. None) (res_mailbox still_fortify (Wrap (\<lambda>c. toy_mailbox) default_config) (\<lambda>w. None))
      [''b'', ''x''] 100 [''a'', ''b''] =
   without_partial no_result (markSeenMany (\<lambda>w. None) toy_mailbox [''b'', ''x''] 100 [''a'', ''b''])"
proof -
  have "res_BulkLimit (Wrap (\<lambda>c. toy_mailbox) default_config) (\<lambda>w. None) [''a'', ''b''] = 100"
    by (simp add: res_BulkLimit_def Wrap_def toy_defs MaxBulkIDs_def)
  with wrapping_is_transparent_but_for_partial_reports [OF still_calm refl refl refl,
      where mb = "\<lambda>c. toy_mailbox" and cfg = default_config and cx = "\<lambda>w. None" and w = "[''a'', ''b'']"]
  show ?thesis by metis
qed

end
