(* ===== verification/Basic_Auth.thy ===== *)
theory Basic_Auth
  imports Mail_Domain "HOL-Library.AList"
begin

section \<open>Basic authentication and its attempt limiter (infrastructure/mcpserver/basicauth.go)\<close>

text \<open>
  The middleware that asks every call for a basic credential, and the limiter that bounds how
  often a client may cost the server a password hash.  Times and durations are nanoseconds,
  the zero time is 0.  The table of clients is an association list; the order in which Go walks
  a map is the argument \<open>ord\<close>, a permutation of the table.  The base64 decoder and the password
  verifier are parameters, and the ghost field \<open>hashed\<close> logs every password the verifier has
  been asked about.
\<close>

subsection \<open>The limiter\<close>

type_synonym time = int

definition second :: time where "second = 10 ^ 9"

definition authFailureThreshold :: int where "authFailureThreshold = 5"
definition authBackoffBase :: time where "authBackoffBase = second"
definition authBackoffMax :: time where "authBackoffMax = 60 * second"
definition authEntryTTL :: time where "authEntryTTL = 15 * 60 * second"
definition maxTrackedClients :: nat where "maxTrackedClients = 4096"

lemmas tuning_defs = second_def authFailureThreshold_def authBackoffBase_def authBackoffMax_def
  authEntryTTL_def maxTrackedClients_def

record auth_attempt =
  failures :: int
  lockedUntil :: time
  lastSeen :: time

type_synonym clients = "(string \<times> auth_attempt) list"
type_synonym walk = "clients \<Rightarrow> clients"

definition newAttemptLimiter :: clients where "newAttemptLimiter = []"

definition allow :: "time \<Rightarrow> string \<Rightarrow> clients \<Rightarrow> bool \<times> clients" where
  "allow now key cl =
     (case map_of cl key of
        None \<Rightarrow> (True, cl)
      | Some entry \<Rightarrow>
          (if now < lockedUntil entry then (False, cl)
           else (True, AList.update key (entry\<lparr>lastSeen := now\<rparr>) cl)))"

text \<open>A duration is an \<open>int64\<close>, so the shift is one of 64-bit words.\<close>

definition backoffFor :: "int \<Rightarrow> time" where
  "backoffFor n =
     (let shift = (if n - authFailureThreshold < 0 then 0 else n - authFailureThreshold) in
      if shift > 16 then authBackoffMax
      else
        (let d = sint (push_bit (nat shift) (word_of_int authBackoffBase :: int64)) in
         if d \<le> 0 \<or> d > authBackoffMax then authBackoffMax else d))"

text \<open>The sample: the first idle entry goes at once, else the oldest of eight.\<close>

fun evict_sample ::
  "time \<Rightarrow> clients \<Rightarrow> (string \<times> time) option \<Rightarrow> nat \<Rightarrow> string option" where
  "evict_sample now [] victim seen = map_option fst victim"
| "evict_sample now ((k, entry) # rest) victim seen =
     (if now - lastSeen entry \<ge> authEntryTTL \<and> \<not> now < lockedUntil entry then Some k
      else
        (let victim1 = (case victim of
               None \<Rightarrow> Some (k, lastSeen entry)
             | Some (v, oldest) \<Rightarrow>
                 if lastSeen entry < oldest then Some (k, lastSeen entry) else Some (v, oldest)) in
         if seen + 1 \<ge> 8 then map_option fst victim1
         else evict_sample now rest victim1 (seen + 1)))"

definition evictLocked :: "walk \<Rightarrow> time \<Rightarrow> clients \<Rightarrow> clients" where
  "evictLocked ord now cl =
     (if length cl < maxTrackedClients then cl
      else case evict_sample now (ord cl) None 0 of
        None \<Rightarrow> cl
      | Some v \<Rightarrow> AList.delete v cl)"

definition recordFailure :: "walk \<Rightarrow> time \<Rightarrow> string \<Rightarrow> clients \<Rightarrow> clients" where
  "recordFailure ord now key cl =
     (let (entry, cl1) = (case map_of cl key of
            Some e \<Rightarrow> (e, cl)
          | None \<Rightarrow> (\<lparr>failures = 0, lockedUntil = 0, lastSeen = 0\<rparr>, evictLocked ord now cl));
          entry1 = entry\<lparr>failures := failures entry + 1, lastSeen := now\<rparr>;
          entry2 = (if failures entry1 \<ge> authFailureThreshold
                    then entry1\<lparr>lockedUntil := now + backoffFor (failures entry1)\<rparr> else entry1) in
      AList.update key entry2 cl1)"

definition recordSuccess :: "string \<Rightarrow> clients \<Rightarrow> clients" where
  "recordSuccess key cl = AList.delete key cl"

subsection \<open>The credential\<close>

record request =
  Method :: string
  Meta :: "string \<Rightarrow> string"
  ClientAddr :: "string option"

definition unknownClientKey :: string where "unknownClientKey = ''unknown''"

definition clientKey :: "request \<Rightarrow> string" where
  "clientKey r = (case ClientAddr r of Some v \<Rightarrow> if v \<noteq> [] then v else unknownClientKey
                                     | None \<Rightarrow> unknownClientKey)"

text \<open>\<open>net.SplitHostPort\<close> is a parameter: the host, or none when the address has no port.\<close>

definition peerIP :: "(string \<Rightarrow> string option) \<Rightarrow> string \<Rightarrow> string" where
  "peerIP split remoteAddr = (case split remoteAddr of Some host \<Rightarrow> host | None \<Rightarrow> remoteAddr)"

definition authRequestContext ::
  "(string \<Rightarrow> string option) \<Rightarrow> request \<Rightarrow> (string \<Rightarrow> string) \<Rightarrow> string \<Rightarrow> request" where
  "authRequestContext split ctx header remoteAddr =
     (let v = header ''Authorization'';
          ctx1 = (if v \<noteq> [] then ctx\<lparr>Meta := (Meta ctx)(''Authorization'' := v)\<rparr> else ctx) in
      ctx1\<lparr>ClientAddr := Some (peerIP split remoteAddr)\<rparr>)"

text \<open>\<open>strings.Cut\<close>.\<close>

fun cut_at :: "char \<Rightarrow> string \<Rightarrow> (string \<times> string) option" where
  "cut_at c [] = None"
| "cut_at c (x # xs) =
     (if x = c then Some ([], xs)
      else case cut_at c xs of None \<Rightarrow> None | Some (a, b) \<Rightarrow> Some (x # a, b))"

record authenticator =
  wantUser :: string
  verify :: "string \<Rightarrow> error option"
  decode64 :: "string \<Rightarrow> string option"

record auth_world =
  limiter :: clients
  hashed :: "string list"

definition newBasicAuthenticator ::
  "string \<Rightarrow> (string \<Rightarrow> error option) \<Rightarrow> (string \<Rightarrow> string option) \<Rightarrow> authenticator" where
  "newBasicAuthenticator username ver dec = \<lparr>wantUser = username, verify = ver, decode64 = dec\<rparr>"

definition credentialsValid :: "authenticator \<Rightarrow> request \<Rightarrow> auth_world \<Rightarrow> bool \<times> auth_world" where
  "credentialsValid a r w =
     (let auth = (if Meta r ''Authorization'' = [] then Meta r ''authorization''
                  else Meta r ''Authorization'') in
      if \<not> has_prefix auth ''Basic '' then (False, w)
      else case decode64 a (drop (length ''Basic '') auth) of
        None \<Rightarrow> (False, w)
      | Some raw \<Rightarrow>
          (case cut_at (CHR '':'') raw of
             None \<Rightarrow> (False, w)
           | Some (user, pass) \<Rightarrow>
               (user = wantUser a \<and> verify a pass = None, w\<lparr>hashed := hashed w @ [pass]\<rparr>)))"

definition basicAuthExemptMethods :: "string \<Rightarrow> bool" where
  "basicAuthExemptMethods m \<longleftrightarrow> m \<in> {''initialize'', ''ping''}"

definition errUnauthorized :: error where
  "errUnauthorized = Failure ''valid basic credentials required''"

text \<open>
  One request, alone: \<open>t1\<close> and \<open>t2\<close> are the two readings of the clock; the handler
  behind the middleware answers when the request is let through.
\<close>

definition auth_middleware ::
  "walk \<Rightarrow> authenticator \<Rightarrow> (request \<Rightarrow> 'r) \<Rightarrow> time \<Rightarrow> time \<Rightarrow> request \<Rightarrow> auth_world \<Rightarrow>
   (error + 'r) \<times> auth_world" where
  "auth_middleware ord a next_handler t1 t2 r w =
     (if basicAuthExemptMethods (Method r) then (Inr (next_handler r), w)
      else
        (let key = clientKey r; (ok, cl) = allow t1 key (limiter w); w1 = w\<lparr>limiter := cl\<rparr> in
         if \<not> ok then (Inl errUnauthorized, w1)
         else
           (let (valid, w2) = credentialsValid a r w1 in
            if \<not> valid
            then (Inl errUnauthorized, w2\<lparr>limiter := recordFailure ord t2 key (limiter w2)\<rparr>)
            else (Inr (next_handler r), w2\<lparr>limiter := recordSuccess key (limiter w2)\<rparr>))))"

subsection \<open>Concurrent requests\<close>

text \<open>
  Requests run concurrently and the limiter's lock covers each of its operations only, so what
  the table goes through is any sequence of these steps, under a clock that does not go back.
\<close>

inductive auth_step :: "time \<times> clients \<Rightarrow> time \<times> clients \<Rightarrow> bool" where
  asks: "t \<le> now \<Longrightarrow> allow now key cl = (ok, cl') \<Longrightarrow> auth_step (t, cl) (now, cl')"
| fails: "t \<le> now \<Longrightarrow> mset (ord cl) = mset cl \<Longrightarrow>
    auth_step (t, cl) (now, recordFailure ord now key cl)"
| succeeds: "auth_step (t, cl) (t, recordSuccess key cl)"

inductive_cases auth_stepE: "auth_step s s'"

inductive auth_reachable :: "time \<times> clients \<Rightarrow> bool" where
  start: "0 \<le> t \<Longrightarrow> auth_reachable (t, newAttemptLimiter)"
| step: "auth_reachable s \<Longrightarrow> auth_step s s' \<Longrightarrow> auth_reachable s'"

subsection \<open>The backoff\<close>

lemma backoffFor_exact:
  "backoffFor n = (if n \<le> 5 then second else if n < 11 then 2 ^ nat (n - 5) * second else 60 * second)"
proof (cases "n \<le> 21")
  case False
  then show ?thesis by (simp add: backoffFor_def tuning_defs)
next
  case True
  show ?thesis
  proof (cases "n \<le> 5")
    case True
    then have "(if n - authFailureThreshold < 0 then 0 else n - authFailureThreshold) = 0"
      by (simp add: tuning_defs)
    with True show ?thesis by (simp add: backoffFor_def tuning_defs)
  next
    case False
    have all: "\<forall>n \<in> set [6..21]. backoffFor n =
        (if n \<le> 5 then second else if n < 11 then 2 ^ nat (n - 5) * second else 60 * second)"
      by code_simp
    from False True have "6 \<le> n \<and> n \<le> 21" by arith
    then have "n \<in> set [6..21]" by (simp only: set_upto atLeastAtMost_iff)
    with all show ?thesis by blast
  qed
qed

lemma backoffFor_bounds: "second \<le> backoffFor n" "backoffFor n \<le> authBackoffMax"
proof -
  have "second \<le> backoffFor n \<and> backoffFor n \<le> authBackoffMax"
  proof (cases "5 < n \<and> n < 11")
    case True
    then have "nat (n - 5) \<le> 5" by arith
    then have "(2::int) ^ nat (n - 5) \<le> 2 ^ 5" by (rule power_increasing) simp
    moreover have "(1::int) \<le> 2 ^ nat (n - 5)" by simp
    ultimately show ?thesis using True by (simp add: backoffFor_exact tuning_defs)
  next
    case False
    then show ?thesis by (auto simp: backoffFor_exact tuning_defs)
  qed
  then show "second \<le> backoffFor n" "backoffFor n \<le> authBackoffMax" by simp_all
qed

subsection \<open>What the table keeps\<close>

text \<open>
  Every client has one entry, the entries are at most as many as the cap, each stands for at
  least one failure, is not from the future, and its lock ends at most the longest backoff after
  the client was last seen.
\<close>

definition entry_ok :: "time \<Rightarrow> auth_attempt \<Rightarrow> bool" where
  "entry_ok t e \<longleftrightarrow> 1 \<le> failures e \<and> lastSeen e \<le> t \<and> 0 \<le> lastSeen e \<and>
     lockedUntil e \<le> lastSeen e + authBackoffMax \<and>
     (failures e < authFailureThreshold \<longrightarrow> lockedUntil e = 0)"

definition table_ok :: "time \<Rightarrow> clients \<Rightarrow> bool" where
  "table_ok t cl \<longleftrightarrow> distinct (map fst cl) \<and> length cl \<le> maxTrackedClients \<and>
     (\<forall>(k, e) \<in> set cl. entry_ok t e)"

lemma entry_ok_mono: "entry_ok t e \<Longrightarrow> t \<le> t' \<Longrightarrow> entry_ok t' e"
  by (simp add: entry_ok_def)

lemma set_update_subset: "set (AList.update k v al) \<subseteq> insert (k, v) (set al)"
  by (induction al) auto

lemma length_update: "length (AList.update k v al) = (if k \<in> fst ` set al then length al else length al + 1)"
  by (induction al) auto

lemma length_delete_le: "length (AList.delete k al) \<le> length al"
  by (simp add: AList.delete_eq)

lemma length_delete_less: "k \<in> fst ` set al \<Longrightarrow> length (AList.delete k al) < length al"
proof -
  assume "k \<in> fst ` set al"
  then obtain v where "(k, v) \<in> set al" by auto
  then show ?thesis unfolding AList.delete_eq by (rule length_filter_less) simp
qed

lemma table_ok_update:
  assumes "table_ok t cl" "entry_ok t' e" "t \<le> t'"
    "k \<in> fst ` set cl \<or> length cl < maxTrackedClients"
  shows "table_ok t' (AList.update k e cl)"
proof -
  have "entry_ok t' y" if "(x, y) \<in> set (AList.update k e cl)" for x y
  proof -
    have "(x, y) = (k, e) \<or> (x, y) \<in> set cl" using that set_update_subset [of k e cl] by fast
    then show ?thesis using assms(1, 2) entry_ok_mono [OF _ assms(3)] by (auto simp: table_ok_def)
  qed
  with assms(1, 4) show ?thesis
    by (auto simp: table_ok_def length_update distinct_update)
qed

lemma table_ok_delete: "table_ok t cl \<Longrightarrow> table_ok t (AList.delete k cl)"
proof -
  assume t: "table_ok t cl"
  have "set (AList.delete k cl) \<subseteq> set cl" by (auto simp: AList.delete_eq)
  moreover have "distinct (map fst (AList.delete k cl))"
    using t by (simp add: table_ok_def distinct_delete)
  ultimately show ?thesis
    using t length_delete_le [of k cl] unfolding table_ok_def by auto
qed

lemma table_ok_mono: "table_ok t cl \<Longrightarrow> t \<le> t' \<Longrightarrow> table_ok t' cl"
  by (auto simp: table_ok_def intro: entry_ok_mono)

lemma evict_sample_some:
  "es \<noteq> [] \<or> victim \<noteq> None \<Longrightarrow>
     \<exists>v. evict_sample now es victim seen = Some v \<and> (v \<in> fst ` set es \<or> v \<in> fst ` set_option victim)"
proof (induction now es victim seen rule: evict_sample.induct)
  case (1 now victim seen)
  then show ?case by (cases victim) auto
next
  case (2 now k entry rest victim seen)
  let ?v = "case victim of None \<Rightarrow> Some (k, lastSeen entry)
      | Some (v, oldest) \<Rightarrow> if lastSeen entry < oldest then Some (k, lastSeen entry) else Some (v, oldest)"
  have v: "?v \<noteq> None" "fst ` set_option ?v \<subseteq> insert k (fst ` set_option victim)"
    by (auto split: option.splits if_splits)
  show ?case
  proof (cases "now - lastSeen entry \<ge> authEntryTTL \<and> \<not> now < lockedUntil entry")
    case True
    then show ?thesis by simp
  next
    case False
    show ?thesis
    proof (cases "seen + 1 \<ge> 8")
      case True
      with False v show ?thesis
        by (cases ?v) (auto simp: Let_def)
    next
      case no: False
      from 2(1) [OF False refl no] v(1) obtain u where
        "evict_sample now rest ?v (seen + 1) = Some u" "u \<in> fst ` set rest \<or> u \<in> fst ` set_option ?v"
        by auto
      with v(2) False no show ?thesis by (auto simp: Let_def)
    qed
  qed
qed

lemma evictLocked_room:
  assumes "table_ok t cl" "mset (ord cl) = mset cl"
  shows "table_ok t (evictLocked ord now cl) \<and> length (evictLocked ord now cl) < maxTrackedClients"
proof (cases "length cl < maxTrackedClients")
  case True
  with assms(1) show ?thesis by (simp add: evictLocked_def)
next
  case False
  then have "ord cl \<noteq> []" using mset_eq_length [OF assms(2)] by (auto simp: maxTrackedClients_def)
  then obtain v where v: "evict_sample now (ord cl) None 0 = Some v" "v \<in> fst ` set (ord cl)"
    using evict_sample_some [of "ord cl" None now 0] by auto
  then have "v \<in> fst ` set cl" using mset_eq_setD [OF assms(2)] by simp
  then have "length (AList.delete v cl) < maxTrackedClients"
    using length_delete_less [of v cl] assms(1) by (simp add: table_ok_def)
  with v(1) False table_ok_delete [OF assms(1)] show ?thesis by (simp add: evictLocked_def)
qed

lemma map_of_evicted: "map_of cl k = None \<Longrightarrow> map_of (evictLocked ord now cl) k = None"
  by (auto simp: evictLocked_def AList.delete_conv' split: option.splits)

lemma recordFailure_ok:
  assumes "table_ok t cl" "mset (ord cl) = mset cl" "t \<le> now" "0 \<le> now"
  shows "table_ok now (recordFailure ord now key cl)"
proof (cases "map_of cl key")
  case None
  have room: "table_ok t (evictLocked ord now cl)" "length (evictLocked ord now cl) < maxTrackedClients"
    using evictLocked_room [of t cl ord now, OF assms(1, 2)] by simp_all
  have e: "entry_ok now \<lparr>failures = 1, lockedUntil = 0, lastSeen = now\<rparr>"
    using assms(4) by (simp add: entry_ok_def tuning_defs)
  show ?thesis
    using table_ok_update [OF room(1) e assms(3)] room(2) None
    by (simp add: recordFailure_def Let_def tuning_defs)
next
  case (Some entry)
  then have mem: "(key, entry) \<in> set cl" by (rule map_of_SomeD)
  with assms(1) have old: "entry_ok t entry" by (auto simp: table_ok_def)
  define e1 where "e1 = entry\<lparr>failures := failures entry + 1, lastSeen := now\<rparr>"
  define e2 where "e2 = (if failures e1 \<ge> authFailureThreshold
      then e1\<lparr>lockedUntil := now + backoffFor (failures e1)\<rparr> else e1)"
  have "entry_ok now e2"
    using old assms(3, 4) backoffFor_bounds(2) [of "failures e1"]
    by (auto simp: e2_def e1_def entry_ok_def tuning_defs)
  moreover have "key \<in> fst ` set cl" using mem by force
  ultimately have "table_ok now (AList.update key e2 cl)"
    using table_ok_update [OF assms(1)] assms(3) by blast
  moreover have "recordFailure ord now key cl = AList.update key e2 cl"
    unfolding recordFailure_def Some Let_def e2_def e1_def by simp
  ultimately show ?thesis by simp
qed

lemma allow_ok:
  assumes "table_ok t cl" "t \<le> now" "0 \<le> t" "allow now key cl = (ok, cl')"
  shows "table_ok now cl'"
proof (cases "map_of cl key")
  case None
  with assms table_ok_mono show ?thesis by (auto simp: allow_def)
next
  case (Some e)
  then have mem: "(key, e) \<in> set cl" by (rule map_of_SomeD)
  with assms(1) have old: "entry_ok t e" by (auto simp: table_ok_def)
  have "entry_ok now (e\<lparr>lastSeen := now\<rparr>)"
    using old assms(2, 3) by (auto simp: entry_ok_def)
  moreover have "key \<in> fst ` set cl" using mem by force
  ultimately show ?thesis
    using assms Some table_ok_mono [OF assms(1, 2)] table_ok_update [OF assms(1) _ assms(2)]
    by (auto simp: allow_def split: if_splits)
qed

text \<open>C17: however concurrent requests interleave, the table of the limiter never exceeds its cap,
  holds one entry per client, each for at least one failure, locks nobody before the fifth
  consecutive failure and nobody for more than a minute past the last time they were seen.\<close>

theorem limiter_stays_bounded:
  assumes "auth_reachable (t, cl)"
  shows "distinct (map fst cl) \<and> length cl \<le> 4096 \<and>
    (\<forall>(k, e) \<in> set cl. 1 \<le> failures e \<and> lockedUntil e \<le> lastSeen e + 60 * second \<and> lastSeen e \<le> t \<and>
       (failures e < 5 \<longrightarrow> lockedUntil e = 0))"
proof -
  have "0 \<le> fst s \<and> table_ok (fst s) (snd s)" if "auth_reachable s" for s
    using that
  proof induction
    case (start t)
    then show ?case by (simp add: newAttemptLimiter_def table_ok_def)
  next
    case (step s s')
    from step(2) show ?case
    proof cases
      case (asks t now key cl ok cl')
      with step(3) allow_ok [of t cl now key ok cl'] show ?thesis by simp
    next
      case (fails t now ord cl key)
      with step(3) recordFailure_ok [of t cl ord now key] show ?thesis by simp
    next
      case (succeeds t cl key)
      with step(3) table_ok_delete [of t cl key] show ?thesis by (simp add: recordSuccess_def)
    qed
  qed
  from this [OF assms] show ?thesis
    by (auto simp: table_ok_def entry_ok_def tuning_defs)
qed

theorem limiter_stays_bounded_witness:
  "lockedUntil (snd (hd (recordFailure id 7 ''c'' []))) = 0"
proof -
  have "auth_step (0, newAttemptLimiter) (7, recordFailure id 7 ''c'' newAttemptLimiter)"
    by (rule fails) simp_all
  then have "auth_reachable (7, recordFailure id 7 ''c'' newAttemptLimiter)"
    using auth_reachable.intros by (metis order_refl)
  from limiter_stays_bounded [OF this]
  show ?thesis by (auto simp: recordFailure_def newAttemptLimiter_def evictLocked_def tuning_defs)
qed

text \<open>One client's attempts and another's record.\<close>

lemma map_of_recordFailure_other:
  "k \<noteq> key \<Longrightarrow> length cl < maxTrackedClients \<Longrightarrow> map_of (recordFailure ord now key cl) k = map_of cl k"
  by (auto simp: recordFailure_def evictLocked_def update_conv' Let_def split: option.splits prod.splits)

lemma map_of_allow_other: "k \<noteq> key \<Longrightarrow> map_of (snd (allow now key cl)) k = map_of cl k"
  by (simp add: allow_def update_conv' split: option.split)


definition demo_auth :: authenticator where
  "demo_auth = newBasicAuthenticator ''u'' (\<lambda>p. if p = ''p'' then None else Some errUnauthorized) Some"

definition demo_request :: "string \<Rightarrow> request" where
  "demo_request cred = \<lparr>Method = ''tools/call'', Meta = (\<lambda>k. if k = ''Authorization'' then cred else []),
                        ClientAddr = None\<rparr>"


text \<open>
  The check and the count are two steps, so requests that arrive together are all let through to
  the hash before the first of them is counted: the bound per client does not hold for a burst.
\<close>

lemma a_burst_is_not_throttled:
  "fst (allow t key cl) \<Longrightarrow>
     list_all (\<lambda>x. x) (map (\<lambda>n. fst (allow t key (((snd \<circ> allow t key) ^^ n) cl))) [0..<k])"
proof -
  assume a: "fst (allow t key cl)"
  have "fst (allow t key (((snd \<circ> allow t key) ^^ n) cl))" for n
  proof (induction n)
    case (Suc n)
    let ?c = "((snd \<circ> allow t key) ^^ n) cl"
    from Suc show ?case
      by (auto simp: allow_def update_conv' split: option.splits if_splits)
  qed (use a in simp)
  then show ?thesis by (simp add: list_all_iff)
qed

end
