(* ===== verification/Oauth.thy ===== *)
theory Oauth
  imports Maildir Outbox_Store
begin

section \<open>Tokens and credentials files (infrastructure/auth/oauth.go)\<close>

text \<open>
  OAuth2 settings are shared by pointer: the live configuration, a candidate for its replacement
  and the backends built from either may hold the same settings, and loading a credentials file
  fills them in place.  So the settings live in a heap and a configuration holds addresses.
  A token source is what it asks and with which secrets; minting a token is a function of the
  \<open>google_lib\<close>, which also has the library's readers of a credentials file.
\<close>

subsection \<open>Settings and the heap\<close>

datatype token_source =
    Impersonation bytes string
  | Refreshing string string string string

record oauth2_settings =
  ClientID :: string
  ClientSecret :: string
  RefreshToken :: string
  TokenURL :: string
  AccessToken :: string
  Mechanism :: string
  CredentialsFile :: string
  CredentialsJSON :: bytes
  hydratedClientID :: bool
  hydratedClientSecret :: bool
  hydratedTokenURL :: bool
  source :: "token_source option"

definition no_settings :: oauth2_settings where
  "no_settings =
     \<lparr>ClientID = [], ClientSecret = [], RefreshToken = [], TokenURL = [], AccessToken = [],
      Mechanism = [], CredentialsFile = [], CredentialsJSON = [], hydratedClientID = False,
      hydratedClientSecret = False, hydratedTokenURL = False, source = None\<rparr>"

type_synonym addr = nat

record heap =
  obj :: "addr \<Rightarrow> oauth2_settings"
  next_obj :: addr

definition assign :: "addr \<Rightarrow> oauth2_settings \<Rightarrow> heap \<Rightarrow> heap" where
  "assign a st h = h\<lparr>obj := (obj h)(a := st)\<rparr>"

definition alloc :: "oauth2_settings \<Rightarrow> heap \<Rightarrow> addr \<times> heap" where
  "alloc st h = (next_obj h, h\<lparr>obj := (obj h)(next_obj h := st), next_obj := next_obj h + 1\<rparr>)"

text \<open>The process a configuration lives in: its disk with the mail, the directory of its
  outbox, its heap, and what its connections see.\<close>

record 'n host =
  h_disk :: disk
  h_records :: outbox_world
  h_heap :: heap
  h_net :: 'n

definition on_disk :: "(disk, 'a) effect \<Rightarrow> ('n host, 'a) effect" where
  "on_disk f w = (case f (h_disk w) of (r, d) \<Rightarrow> (r, w\<lparr>h_disk := d\<rparr>))"

definition on_records :: "(outbox_world, 'a) effect \<Rightarrow> ('n host, 'a) effect" where
  "on_records f w = (case f (h_records w) of (r, d) \<Rightarrow> (r, w\<lparr>h_records := d\<rparr>))"

definition set_obj :: "addr \<Rightarrow> oauth2_settings \<Rightarrow> 'n host \<Rightarrow> 'n host" where
  "set_obj a st w = w\<lparr>h_heap := assign a st (h_heap w)\<rparr>"

text \<open>A path of the configuration, as the kernel resolves it from the directory \<open>cwd\<close>.\<close>

definition path_of :: "path \<Rightarrow> string \<Rightarrow> path" where
  "path_of cwd s = join_path (if has_prefix s ''/'' then [] else cwd) s"

subsection \<open>Loading credentials\<close>

record probe =
  pr_Type :: string
  pr_Web :: bool
  pr_Installed :: bool

record 'n google_lib =
  Unmarshal_probe :: "bytes \<Rightarrow> error + probe"
  JWTConfigFromJSON :: "bytes \<Rightarrow> error + unit"
  ConfigFromJSON :: "bytes \<Rightarrow> error + string \<times> string \<times> string"
  Mint :: "token_source \<Rightarrow> 'n host \<Rightarrow> (error + string) \<times> 'n host"

definition WithoutHydrated :: "oauth2_settings option \<Rightarrow> oauth2_settings option" where
  "WithoutHydrated x =
     (case x of
        None \<Rightarrow> None
      | Some st \<Rightarrow>
          Some (st\<lparr>ClientID := (if hydratedClientID st then [] else ClientID st),
                  ClientSecret := (if hydratedClientSecret st then [] else ClientSecret st),
                  TokenURL := (if hydratedTokenURL st then [] else TokenURL st)\<rparr>))"

text \<open>The blanks an OAuth client secret fills, each with its mark.\<close>

definition hydrate :: "string \<times> string \<times> string \<Rightarrow> oauth2_settings \<Rightarrow> oauth2_settings" where
  "hydrate cfg st =
     (let (cid, csecret, turl) = cfg;
          o1 = (if ClientID st = [] then st\<lparr>ClientID := cid, hydratedClientID := True\<rparr> else st);
          o2 = (if ClientSecret o1 = [] then o1\<lparr>ClientSecret := csecret, hydratedClientSecret := True\<rparr>
                else o1) in
      if TokenURL o2 = [] then o2\<lparr>TokenURL := turl, hydratedTokenURL := True\<rparr> else o2)"

definition credential_bytes :: "path \<Rightarrow> oauth2_settings \<Rightarrow> ('n host, bytes option) effect" where
  "credential_bytes cwd st w =
     (if CredentialsJSON st \<noteq> [] then (Inr (Some (CredentialsJSON st)), w)
      else if CredentialsFile st = [] then (Inr None, w)
      else case on_disk (ReadFile (path_of cwd (CredentialsFile st))) w of
             (Inl e, w1) \<Rightarrow> (Inl e, w1)
           | (Inr b, w1) \<Rightarrow> (Inr (Some b), w1))"

definition LoadCredentials :: "'n google_lib \<Rightarrow> path \<Rightarrow> addr \<Rightarrow> string \<Rightarrow> ('n host, unit) effect" where
  "LoadCredentials g cwd a user w =
     (case credential_bytes cwd (obj (h_heap w) a) w of
        (Inl e, w1) \<Rightarrow> (Inl e, w1)
      | (Inr None, w1) \<Rightarrow> (Inr (), w1)
      | (Inr (Some raw), w1) \<Rightarrow>
          (let st = obj (h_heap w1) a in
           case Unmarshal_probe g raw of
             Inl e \<Rightarrow> (Inl e, w1)
           | Inr p \<Rightarrow>
               (if pr_Type p = ''service_account'' then
                  (if user = [] then
                     (Inl (Failure ''a service-account credentials file requires a username''), w1)
                   else case JWTConfigFromJSON g raw of
                     Inl e \<Rightarrow> (Inl e, w1)
                   | Inr _ \<Rightarrow> (Inr (), set_obj a (st\<lparr>source := Some (Impersonation raw user)\<rparr>) w1))
                else if pr_Web p \<or> pr_Installed p then
                  (case ConfigFromJSON g raw of
                     Inl e \<Rightarrow> (Inl e, w1)
                   | Inr c \<Rightarrow> (Inr (), set_obj a (hydrate c st) w1))
                else (Inl (Failure ''unrecognised credentials file''), w1))))"

subsection \<open>Tokens and mechanisms\<close>

definition token_source_of :: "oauth2_settings \<Rightarrow> token_source option" where
  "token_source_of st =
     (if source st = None \<and> RefreshToken st \<noteq> []
      then Some (Refreshing (ClientID st) (ClientSecret st) (TokenURL st) (RefreshToken st))
      else source st)"

definition Token :: "'n google_lib \<Rightarrow> addr \<Rightarrow> ('n host, string) effect" where
  "Token g a w =
     (let st = obj (h_heap w) a; w1 = set_obj a (st\<lparr>source := token_source_of st\<rparr>) w in
      case token_source_of st of
        Some s \<Rightarrow> Mint g s w1
      | None \<Rightarrow>
          (if AccessToken st \<noteq> [] then (Inr (AccessToken st), w1)
           else (Inl (Failure ''access_token, refresh_token, or a credentials file required''), w1)))"

datatype sasl_client =
    XOAuth2 string string bool
  | OAuthBearer string string string int

definition NewXOAuth2Client :: "string \<Rightarrow> string \<Rightarrow> sasl_client" where
  "NewXOAuth2Client username token = XOAuth2 username token False"

definition SASLClient ::
  "'n google_lib \<Rightarrow> addr \<Rightarrow> string \<Rightarrow> string \<Rightarrow> int \<Rightarrow> ('n host, sasl_client) effect" where
  "SASLClient g a username hostname port w =
     (case Token g a w of
        (Inl e, w1) \<Rightarrow> (Inl e, w1)
      | (Inr tok, w1) \<Rightarrow>
          (let mech = Mechanism (obj (h_heap w1) a) in
           if mech = [] \<or> mech = ''xoauth2'' then (Inr (NewXOAuth2Client username tok), w1)
           else if mech = ''oauthbearer'' then (Inr (OAuthBearer username tok hostname port), w1)
           else (Inl (Failure ''unknown mechanism''), w1)))"

text \<open>
  The exchange of XOAUTH2: one initial response, then an empty answer to the first challenge and
  an error to any other.
\<close>

definition xoauth2_Start :: "string \<Rightarrow> string \<Rightarrow> string \<times> bytes" where
  "xoauth2_Start username token =
     (''XOAUTH2'', ''user='' @ username @ [CHR 0x01] @ ''auth=Bearer '' @ token @ [CHR 0x01, CHR 0x01])"

definition xoauth2_Next :: "bool \<Rightarrow> bytes \<Rightarrow> (error + bytes) \<times> bool" where
  "xoauth2_Next failed challenge =
     (if failed then (Inl (Failure (''xoauth2: authentication failed: '' @ challenge)), failed)
      else (Inr [], True))"

text \<open>\<open>strconv.Atoi\<close> on a 64-bit machine, and the address splitter of package \<open>net\<close> as a parameter.\<close>

definition digit_value :: "char \<Rightarrow> int option" where
  "digit_value c =
     (if 48 \<le> (of_char c :: int) \<and> (of_char c :: int) \<le> 57 then Some (of_char c - 48) else None)"

fun digits_value :: "int \<Rightarrow> string \<Rightarrow> int option" where
  "digits_value n [] = Some n"
| "digits_value n (c # cs) =
     (case digit_value c of None \<Rightarrow> None | Some d \<Rightarrow> digits_value (10 * n + d) cs)"

definition atoi :: "string \<Rightarrow> int option" where
  "atoi s =
     (let (neg, ds) = (case s of c # cs \<Rightarrow>
                         if c = CHR ''-'' then (True, cs)
                         else if c = CHR ''+'' then (False, cs) else (False, s)
                       | [] \<Rightarrow> (False, [])) in
      if ds = [] then None
      else case digits_value 0 ds of
             None \<Rightarrow> None
           | Some n \<Rightarrow>
               (let v = (if neg then - n else n) in
                if - (2 ^ 63) \<le> v \<and> v < 2 ^ 63 then Some v else None))"

definition SplitHostPort ::
  "(string \<Rightarrow> (string \<times> string) option) \<Rightarrow> string \<Rightarrow> int \<Rightarrow> string \<times> int" where
  "SplitHostPort net_split address defaultPort =
     (case net_split address of
        None \<Rightarrow> (address, defaultPort)
      | Some (hostname, portStr) \<Rightarrow>
          (case atoi portStr of
             None \<Rightarrow> (hostname, defaultPort)
           | Some port \<Rightarrow> (hostname, port)))"

end
