(* ===== verification/Smtp.thy ===== *)
theory Smtp
  imports Oauth Resilience
begin

section \<open>The SMTP transport (infrastructure/smtp/smtp.go)\<close>

text \<open>
  One delivery attempt over a client library, and \<open>Send\<close>, which runs it under the timeout and
  the retry policy of the resilience library.  The variable \<open>accepted\<close> that the closures
  share is the second component of the world they run in.
\<close>

subsection \<open>Configuration and errors\<close>

record smtp_config =
  sc_Addr :: string
  sc_From :: string
  sc_Username :: string
  sc_Password :: string
  sc_ImplicitTLS :: bool
  sc_Insecure :: bool
  sc_OAuth2 :: "addr option"

datatype smtp_error = SMTPError int | Transport error

definition plain_error :: "smtp_error \<Rightarrow> error" where
  "plain_error e = (case e of SMTPError code \<Rightarrow> Failure ''smtp reply'' | Transport x \<Rightarrow> x)"

definition permanent :: "error \<Rightarrow> error" where
  "permanent e = Joined [Wraps ErrPermanent [], e]"

definition classify :: "smtp_error \<Rightarrow> error" where
  "classify e =
     (case e of
        SMTPError code \<Rightarrow>
          if 500 \<le> code \<and> code < 600 then permanent (plain_error e) else plain_error e
      | Transport x \<Rightarrow> x)"

subsection \<open>The client library\<close>

datatype dial_mode = Dial | DialTLS | DialStartTLS

datatype smtp_auth = ByToken sasl_client | ByPassword string string

record ('n, 'c) smtp_lib =
  Connect :: "dial_mode \<Rightarrow> string \<Rightarrow> 'n host \<Rightarrow> (error + 'c) \<times> 'n host"
  Auth :: "'c \<Rightarrow> smtp_auth \<Rightarrow> 'n host \<Rightarrow> (smtp_error + unit) \<times> 'n host"
  SendMail :: "'c \<Rightarrow> string \<Rightarrow> ids \<Rightarrow> string \<Rightarrow> 'n host \<Rightarrow> (smtp_error + unit) \<times> 'n host"
  Quit :: "'c \<Rightarrow> 'n host \<Rightarrow> 'n host"
  Hangup :: "'c \<Rightarrow> 'n host \<Rightarrow> 'n host"

record smtp_sender =
  sm_cfg :: smtp_config
  sm_retry :: retry_config

definition smtp_retry :: retry_config where
  "smtp_retry =
     \<lparr>MaxAttempts = 3, InitialDelay = 200 * 10 ^ 6, NonRetryableErrors = [ErrPermanent], Jitter = True\<rparr>"

definition NewSMTPSender :: "mail_lib \<Rightarrow> smtp_config \<Rightarrow> error + smtp_sender" where
  "NewSMTPSender lib cfg =
     (if sc_Addr cfg = [] then Inl (Failure ''smtp: Addr is required'')
      else if sc_From cfg = [] then Inl (Failure ''smtp: From is required'')
      else case ValidateAddress lib (sc_From cfg) of
             Some e \<Rightarrow> Inl e
           | None \<Rightarrow> Inr \<lparr>sm_cfg = cfg, sm_retry = smtp_retry\<rparr>)"

definition dial :: "('n, 'c) smtp_lib \<Rightarrow> smtp_config \<Rightarrow> ('n host, 'c) effect" where
  "dial sl cfg =
     Connect sl (if sc_Insecure cfg then Dial else if sc_ImplicitTLS cfg then DialTLS else DialStartTLS)
       (sc_Addr cfg)"

definition smtp_From :: "smtp_sender \<Rightarrow> string" where "smtp_From s = sc_From (sm_cfg s)"

subsection \<open>One attempt\<close>

definition authenticate ::
  "(string \<Rightarrow> (string \<times> string) option) \<Rightarrow> 'n google_lib \<Rightarrow> ('n, 'c) smtp_lib \<Rightarrow> smtp_config \<Rightarrow> 'c \<Rightarrow>
   ('n host, unit) effect" where
  "authenticate ns g sl cfg c w =
     (case sc_OAuth2 cfg of
        Some a \<Rightarrow>
          (let (hostname, port) = SplitHostPort ns (sc_Addr cfg) 587 in
           case SASLClient g a (sc_Username cfg) hostname port w of
             (Inl e, w1) \<Rightarrow> (Inl e, w1)
           | (Inr sasl, w1) \<Rightarrow>
               (case Auth sl c (ByToken sasl) w1 of
                  (Inl e, w2) \<Rightarrow> (Inl (classify e), w2)
                | (Inr _, w2) \<Rightarrow> (Inr (), w2)))
      | None \<Rightarrow>
          (if sc_Username cfg \<noteq> [] then
             (case Auth sl c (ByPassword (sc_Username cfg) (sc_Password cfg)) w of
                (Inl e, w1) \<Rightarrow> (Inl (classify e), w1)
              | (Inr _, w1) \<Rightarrow> (Inr (), w1))
           else (Inr (), w)))"

definition smtp_deliver ::
  "mail_lib \<Rightarrow> render_lib \<Rightarrow> (string \<Rightarrow> (string \<times> string) option) \<Rightarrow> 'n google_lib \<Rightarrow>
   ('n, 'c) smtp_lib \<Rightarrow> ('n host \<Rightarrow> string) \<Rightarrow> smtp_sender \<Rightarrow> outbound_message \<Rightarrow>
   ('n host, bool) reporting" where
  "smtp_deliver lib rl ns g sl now s m w =
     (let cfg = sm_cfg s in
      case RenderRFC5322 rl (sc_From cfg) m (now w) of
        Inl e \<Rightarrow> ((False, Some (permanent e)), w)
      | Inr raw \<Rightarrow>
          (case dial sl cfg w of
             (Inl e, w1) \<Rightarrow> ((False, Some e), w1)
           | (Inr c, w1) \<Rightarrow>
               (case authenticate ns g sl cfg c w1 of
                  (Inl e, w2) \<Rightarrow> ((False, Some e), Hangup sl c w2)
                | (Inr _, w2) \<Rightarrow>
                    (case SendMail sl c (sc_From cfg) (Recipients lib m) raw w2 of
                       (Inl e, w3) \<Rightarrow> ((False, Some (classify e)), Hangup sl c w3)
                     | (Inr _, w3) \<Rightarrow> ((True, None), Hangup sl c (Quit sl c w3))))))"

subsection \<open>Sending\<close>

text \<open>Thirty seconds for one attempt, in nanoseconds.\<close>

definition attempt_limit :: int where "attempt_limit = 30 * 10 ^ 9"

definition smtp_attempt ::
  "('n host \<times> bool) fortify \<Rightarrow> ('n host, bool) reporting \<Rightarrow> ('n host \<times> bool) call" where
  "smtp_attempt L attempt cx v =
     (case TimeoutExecute L attempt_limit cx
             (\<lambda>cx1 (w, accepted).
                case attempt w of ((acc, derr), w1) \<Rightarrow> ((AnyNil, derr), (w1, acc))) v of
        ((x, err), (w1, accepted)) \<Rightarrow>
          (if err \<noteq> None \<and> accepted then ((AnyNil, None), (w1, accepted))
           else ((AnyNil, err), (w1, accepted))))"

definition smtp_Send ::
  "('n host \<times> bool) fortify \<Rightarrow> mail_lib \<Rightarrow> render_lib \<Rightarrow> (string \<Rightarrow> (string \<times> string) option) \<Rightarrow>
   'n google_lib \<Rightarrow> ('n, 'c) smtp_lib \<Rightarrow> ('n host \<Rightarrow> string) \<Rightarrow> ('n host \<times> bool) ctx \<Rightarrow>
   smtp_sender \<Rightarrow> outbound_message \<Rightarrow> ('n host, unit) effect" where
  "smtp_Send L lib rl ns g sl now cx s m w =
     (case RetryExecute L (sm_retry s) cx (smtp_attempt L (smtp_deliver lib rl ns g sl now s m)) (w, False) of
        ((x, Some e), (w1, accepted)) \<Rightarrow> (Inl e, w1)
      | ((x, None), (w1, accepted)) \<Rightarrow> (Inr (), w1))"

subsection \<open>What the libraries are relied on for\<close>

text \<open>
  A retry policy runs the function again and again: it returns the first success, and may give up
  with an error at any point, before the first attempt too.  A timeout runs the function to its
  end at most once, and may then answer with an error of its own.  A mail server holds a message
  exactly when \<open>SendMail\<close> succeeded; \<open>held\<close> counts the messages it holds.
\<close>

inductive attempts :: "('w ctx \<Rightarrow> ('w, any) reporting) \<Rightarrow> 'w \<Rightarrow> (any \<times> error option) \<times> 'w \<Rightarrow> bool"
  for f where
  gave_up: "attempts f w ((x, Some e), w)"
| succeeded: "f cx w = ((x, None), w1) \<Longrightarrow> attempts f w ((x, None), w1)"
| tried: "f cx w = ((x, Some e), w1) \<Longrightarrow> attempts f w1 r \<Longrightarrow> attempts f w r"

definition retries_until_success :: "'w fortify \<Rightarrow> bool" where
  "retries_until_success L \<longleftrightarrow> (\<forall>cfg cx f w. attempts f w (RetryExecute L cfg cx f w))"

definition runs_at_most_once :: "'w fortify \<Rightarrow> bool" where
  "runs_at_most_once L \<longleftrightarrow>
     (\<forall>d cx f w. (\<exists>e. TimeoutExecute L d cx f w = ((AnyNil, Some e), w)) \<or>
        (\<exists>cx1 v. f cx1 w = v \<and> snd (TimeoutExecute L d cx f w) = snd v \<and>
           (fst (TimeoutExecute L d cx f w) = fst v \<or>
            (\<exists>e. fst (TimeoutExecute L d cx f w) = (AnyNil, Some e)))))"

definition counts_messages :: "('n, 'c) smtp_lib \<Rightarrow> 'n google_lib \<Rightarrow> ('n \<Rightarrow> nat) \<Rightarrow> bool" where
  "counts_messages sl g held \<longleftrightarrow>
     (\<forall>c a to raw w. case SendMail sl c a to raw w of
          (Inr _, w1) \<Rightarrow> held (h_net w1) = held (h_net w) + 1
        | (Inl _, w1) \<Rightarrow> held (h_net w1) = held (h_net w)) \<and>
     (\<forall>mode a w. held (h_net (snd (Connect sl mode a w))) = held (h_net w)) \<and>
     (\<forall>c a w. held (h_net (snd (Auth sl c a w))) = held (h_net w)) \<and>
     (\<forall>c w. held (h_net (Quit sl c w)) = held (h_net w)) \<and>
     (\<forall>c w. held (h_net (Hangup sl c w)) = held (h_net w)) \<and>
     (\<forall>s w. held (h_net (snd (Mint g s w))) = held (h_net w))"

lemma counts_messagesD:
  assumes "counts_messages sl g held"
  shows "SendMail sl c a to raw w = (Inr u, w1) \<Longrightarrow> held (h_net w1) = held (h_net w) + 1"
    and "SendMail sl c a to raw w = (Inl e, w1) \<Longrightarrow> held (h_net w1) = held (h_net w)"
    and "Connect sl mode a w = (r, w1) \<Longrightarrow> held (h_net w1) = held (h_net w)"
    and "Auth sl c auth w = (r2, w1) \<Longrightarrow> held (h_net w1) = held (h_net w)"
    and "held (h_net (Quit sl c w)) = held (h_net w)"
    and "held (h_net (Hangup sl c w)) = held (h_net w)"
    and "Mint g s w = (r3, w1) \<Longrightarrow> held (h_net w1) = held (h_net w)"
  using assms by (auto simp: counts_messages_def split: prod.splits sum.splits) (metis snd_conv)+

lemma h_net_set_obj [simp]: "h_net (set_obj a x w) = h_net w"
  by (simp add: set_obj_def)

lemma Token_keeps_held:
  assumes "counts_messages sl g held" "Token g a w = (r, w1)"
  shows "held (h_net w1) = held (h_net w)"
  using assms(2) counts_messagesD(7) [OF assms(1)]
  by (fastforce simp: Token_def Let_def split: option.splits if_splits)

lemma SASLClient_keeps_held:
  assumes "counts_messages sl g held" "SASLClient g a u hn port w = (r, w1)"
  shows "held (h_net w1) = held (h_net w)"
  using assms(2) Token_keeps_held [OF assms(1)]
  by (auto simp: SASLClient_def Let_def split: prod.splits sum.splits if_splits)

lemma authenticate_keeps_held:
  assumes "counts_messages sl g held" "authenticate ns g sl cfg c w = (r, w1)"
  shows "held (h_net w1) = held (h_net w)"
  using assms(2) SASLClient_keeps_held [OF assms(1)] counts_messagesD(4) [OF assms(1)]
  by (fastforce simp: authenticate_def Let_def split: option.splits prod.splits sum.splits if_splits)

text \<open>An attempt reports acceptance exactly when the server holds one message more.\<close>

lemma deliver_counts:
  assumes "counts_messages sl g held"
    and "smtp_deliver lib rl ns g sl now s m w = ((acc, err), w1)"
  shows "acc \<longleftrightarrow> err = None" and "held (h_net w1) = held (h_net w) + (if acc then 1 else 0)"
  using assms(2)
  by (auto simp: smtp_deliver_def dial_def Let_def counts_messagesD(5,6) [OF assms(1)]
      dest!: authenticate_keeps_held [OF assms(1)] counts_messagesD(1-3) [OF assms(1)]
      split: prod.splits sum.splits)

lemma run_once_cases:
  assumes "runs_at_most_once L" "TimeoutExecute L d cx f w = ((y, e), w2)"
  obtains (not_run) "e \<noteq> None" "w2 = w"
    | (run) cx1 y1 e1 where "f cx1 w = ((y1, e1), w2)" "e = e1 \<or> e \<noteq> None"
proof -
  have "(\<exists>e. TimeoutExecute L d cx f w = ((AnyNil, Some e), w)) \<or>
        (\<exists>cx1 v. f cx1 w = v \<and> snd (TimeoutExecute L d cx f w) = snd v \<and>
           (fst (TimeoutExecute L d cx f w) = fst v \<or>
            (\<exists>e. fst (TimeoutExecute L d cx f w) = (AnyNil, Some e))))"
    using assms(1) unfolding runs_at_most_once_def by blast
  then show thesis
  proof (elim disjE exE conjE)
    fix e' assume "TimeoutExecute L d cx f w = ((AnyNil, Some e'), w)"
    with assms(2) show thesis by (intro not_run) auto
  next
    fix cx1 v
    assume "f cx1 w = v" "snd (TimeoutExecute L d cx f w) = snd v"
      "fst (TimeoutExecute L d cx f w) = fst v"
    with assms(2) show thesis by (intro run [of cx1 y e]) (auto simp: prod_eq_iff)
  next
    fix cx1 v e'
    assume "f cx1 w = v" "snd (TimeoutExecute L d cx f w) = snd v"
      "fst (TimeoutExecute L d cx f w) = (AnyNil, Some e')"
    with assms(2) show thesis by (intro run [of cx1 "fst (fst v)" "snd (fst v)"]) (auto simp: prod_eq_iff)
  qed
qed

lemma attempt_counts:
  assumes "counts_messages sl g held" "runs_at_most_once L"
    and "smtp_attempt L (smtp_deliver lib rl ns g sl now s m) cx (w, False) = ((x, err), (w1, acc))"
  shows "(acc \<longleftrightarrow> err = None) \<and> held (h_net w1) = held (h_net w) + (if acc then 1 else 0)"
proof -
  let ?f = "\<lambda>cx1 (w, accepted :: bool).
    case smtp_deliver lib rl ns g sl now s m w of ((acc, derr), w1) \<Rightarrow> ((AnyNil, derr), (w1, acc))"
  obtain y e w2 acc2 where t: "TimeoutExecute L attempt_limit cx ?f (w, False) = ((y, e), (w2, acc2))"
    by (metis prod.collapse)
  from assms(3) t have out: "w1 = w2" "acc = acc2" "err = (if e \<noteq> None \<and> acc2 then None else e)"
    by (auto simp: smtp_attempt_def split: if_splits)
  from assms(2) t show ?thesis
  proof (cases rule: run_once_cases)
    case not_run
    with out show ?thesis by auto
  next
    case (run cx1 y1 e1)
    then obtain acc3 where "smtp_deliver lib rl ns g sl now s m w = ((acc3, e1), w2)" "acc2 = acc3"
      by (auto split: prod.splits)
    with deliver_counts [OF assms(1), of lib rl ns now s m w acc3 e1 w2] run(2) out
    show ?thesis by auto
  qed
qed

lemma attempts_count:
  assumes "attempts (smtp_attempt L (smtp_deliver lib rl ns g sl now s m)) v r"
    and "counts_messages sl g held" "runs_at_most_once L" "v = (w, False)"
  shows "held (h_net (fst (snd r))) = held (h_net w) + (if snd (fst r) = None then 1 else 0)"
  using assms(1,4)
proof (induction arbitrary: w)
  case (gave_up v x e)
  then show ?case by simp
next
  case (succeeded cx v x w1)
  obtain w2 acc where "w1 = (w2, acc)" by (cases w1)
  with attempt_counts [OF assms(2,3), of lib rl ns now s m cx w x None w2 acc] succeeded
  show ?case by simp
next
  case (tried cx v x e w1 r)
  obtain w2 acc where w1: "w1 = (w2, acc)" by (cases w1)
  with attempt_counts [OF assms(2,3), of lib rl ns now s m cx w x "Some e" w2 acc] tried
  have "\<not> acc" "held (h_net w2) = held (h_net w)" by auto
  with tried.IH w1 show ?case by simp
qed

subsection \<open>A policy, a timeout and a server\<close>

text \<open>
  A policy that tries as often as its configuration says and gives up early on what cannot be
  retried; a timeout that never fires; a server that answers by a script of replies.
\<close>

fun retry_loop :: "nat \<Rightarrow> sentinel list \<Rightarrow> 'w ctx \<Rightarrow> 'w call \<Rightarrow> ('w, any) reporting" where
  "retry_loop 0 stops cx f w = ((AnyNil, Some (Failure ''retry: attempts exhausted'')), w)"
| "retry_loop (Suc n) stops cx f w =
     (case f cx w of
        ((x, None), w1) \<Rightarrow> ((x, None), w1)
      | ((x, Some e), w1) \<Rightarrow>
          (if n = 0 \<or> list_ex (errors_is e) stops then ((x, Some e), w1)
           else retry_loop n stops cx f w1))"

definition plain_fortify :: "'w fortify" where
  "plain_fortify =
     \<lparr>BreakerExecute = (\<lambda>ok cx f. f cx),
      RetryExecute = (\<lambda>cfg. retry_loop (nat (MaxAttempts cfg)) (NonRetryableErrors cfg)),
      TimeoutExecute = (\<lambda>d cx f. f cx)\<rparr>"

record smtp_server =
  replies :: "int list"
  inbox :: "(ids \<times> string) list"

definition scripted_smtp :: "(smtp_server, unit) smtp_lib" where
  "scripted_smtp =
     \<lparr>Connect = (\<lambda>mode a w. (Inr (), w)), Auth = (\<lambda>c a w. (Inr (), w)),
      SendMail = (\<lambda>c a to raw w.
        case replies (h_net w) of
          code # rest \<Rightarrow> (Inl (SMTPError code), w\<lparr>h_net := (h_net w)\<lparr>replies := rest\<rparr>\<rparr>)
        | [] \<Rightarrow> (Inr (), w\<lparr>h_net := (h_net w)\<lparr>inbox := (to, raw) # inbox (h_net w)\<rparr>\<rparr>)),
      Quit = (\<lambda>c w. w), Hangup = (\<lambda>c w. w)\<rparr>"

definition no_google :: "'n google_lib" where
  "no_google =
     \<lparr>Unmarshal_probe = (\<lambda>b. Inl (Failure ''not JSON'')), JWTConfigFromJSON = (\<lambda>b. Inl (Failure ''no key'')),
      ConfigFromJSON = (\<lambda>b. Inl (Failure ''no client'')), Mint = (\<lambda>s w. (Inl (Failure ''offline''), w))\<rparr>"

lemma attempts_retry_loop: "attempts f w (retry_loop n stops cx f w)"
proof (induction n arbitrary: w)
  case 0
  show ?case by (simp add: gave_up)
next
  case (Suc n)
  obtain x err w1 where f: "f cx w = ((x, err), w1)" by (metis prod.collapse)
  show ?case
  proof (cases err)
    case None
    with f show ?thesis by (auto intro: succeeded)
  next
    case (Some e)
    with f Suc show ?thesis by (auto intro: gave_up tried)
  qed
qed

lemma plain_fortify_laws: "retries_until_success plain_fortify" "runs_at_most_once plain_fortify"
  by (auto simp: retries_until_success_def runs_at_most_once_def plain_fortify_def attempts_retry_loop)

lemma scripted_smtp_counts: "counts_messages scripted_smtp no_google (\<lambda>n. length (inbox n))"
  by (auto simp: counts_messages_def scripted_smtp_def no_google_def split: list.splits)

definition demo_sender :: smtp_sender where
  "demo_sender =
     \<lparr>sm_cfg = \<lparr>sc_Addr = ''mx:587'', sc_From = ''me@x'', sc_Username = [], sc_Password = [],
                sc_ImplicitTLS = False, sc_Insecure = False, sc_OAuth2 = None\<rparr>,
      sm_retry = smtp_retry\<rparr>"

definition demo_host :: "int list \<Rightarrow> smtp_server host" where
  "demo_host codes =
     \<lparr>h_disk = \<lparr>tree = [], faults = [], crashed = False\<rparr>,
      h_records = \<lparr>tree = [], faults = [], crashed = False, wire = [], verdicts = [], flocks = []\<rparr>,
      h_heap = \<lparr>obj = (\<lambda>a. no_settings), next_obj = 0\<rparr>,
      h_net = \<lparr>replies = codes, inbox = []\<rparr>\<rparr>"

definition demo_send :: "int list \<Rightarrow> (error + unit) \<times> smtp_server host" where
  "demo_send codes =
     smtp_Send plain_fortify plain_mail plain_render (\<lambda>s. None) no_google scripted_smtp (\<lambda>w. ''now'')
       (\<lambda>v. None) demo_sender (empty_message\<lparr>om_ID := ''1'', om_To := [''a@b''], om_Body := ''hi''\<rparr>)
       (demo_host codes)"

lemma transient_replies_are_retried:
  "fst (demo_send [451, 421]) = Inr ()" "map fst (inbox (h_net (snd (demo_send [451, 421])))) = [[''a@b'']]"
  by code_simp+

lemma permanent_replies_are_not_retried:
  "fst (demo_send [550]) = Inl (Joined [Wraps ErrPermanent [], Failure ''smtp reply''])"
  "replies (h_net (snd (demo_send [550, 451]))) = [451]"
  by code_simp+

subsection \<open>Properties\<close>

text \<open>C25: However often the policy retries, one \<open>Send\<close> hands the message to the server at most once:
  exactly once when it reports success, not at all when it reports an error.\<close>

theorem sending_hands_over_once:
  assumes "retries_until_success L" "runs_at_most_once L" "counts_messages sl g held"
  shows "case smtp_Send L lib rl ns g sl now cx s m w of
           (Inr _, w1) \<Rightarrow> held (h_net w1) = held (h_net w) + 1
         | (Inl _, w1) \<Rightarrow> held (h_net w1) = held (h_net w)"
proof -
  let ?f = "smtp_attempt L (smtp_deliver lib rl ns g sl now s m)"
  obtain x err w1 acc where r: "RetryExecute L (sm_retry s) cx ?f (w, False) = ((x, err), (w1, acc))"
    by (metis prod.collapse)
  have "attempts ?f (w, False) ((x, err), (w1, acc))"
    using assms(1) r unfolding retries_until_success_def by metis
  from attempts_count [OF this assms(3,2) refl] r show ?thesis
    by (auto simp: smtp_Send_def split: option.splits)
qed

theorem sending_hands_over_once_witness:
  "(case demo_send [451] of
      (Inr _, w1) \<Rightarrow> length (inbox (h_net w1)) = length (inbox (h_net (demo_host [451]))) + 1
    | (Inl _, w1) \<Rightarrow> length (inbox (h_net w1)) = length (inbox (h_net (demo_host [451])))) \<and>
   fst (demo_send [451]) = Inr ()"
proof
  show "case demo_send [451] of
      (Inr _, w1) \<Rightarrow> length (inbox (h_net w1)) = length (inbox (h_net (demo_host [451]))) + 1
    | (Inl _, w1) \<Rightarrow> length (inbox (h_net w1)) = length (inbox (h_net (demo_host [451])))"
    unfolding demo_send_def
    by (rule sending_hands_over_once [OF plain_fortify_laws scripted_smtp_counts])
  show "fst (demo_send [451]) = Inr ()" by code_simp
qed

end
