(* ===== verification/Imap.thy ===== *)
theory Imap
  imports Oauth
begin

section \<open>The IMAP mailbox as it is configured (infrastructure/imap/imap.go)\<close>

text \<open>The configuration of the IMAP backend, its construction and its batch ceiling.\<close>

record imap_config =
  ic_MaxBulkIDs :: int
  ic_Addr :: string
  ic_Username :: string
  ic_Password :: string
  ic_Mailbox :: string
  ic_ArchiveFolder :: string
  ic_TrashFolder :: string
  ic_Insecure :: bool
  ic_OAuth2 :: "addr option"

record imap_mailbox =
  im_cfg :: imap_config

definition imap_BulkLimit :: "'a imap_mailbox_scheme \<Rightarrow> int" where
  "imap_BulkLimit m = (if ic_MaxBulkIDs (im_cfg m) > 0 then ic_MaxBulkIDs (im_cfg m) else MaxBulkIDs)"

definition imap_SetBulkLimit :: "int \<Rightarrow> 'a imap_mailbox_scheme \<Rightarrow> 'a imap_mailbox_scheme" where
  "imap_SetBulkLimit limit m =
     m\<lparr>im_cfg := (im_cfg m)\<lparr>ic_MaxBulkIDs := (if limit \<le> 0 then MaxBulkIDs else limit)\<rparr>\<rparr>"

definition imap_New :: "imap_config \<Rightarrow> error + imap_mailbox" where
  "imap_New cfg =
     (if ic_Addr cfg = [] then Inl (Failure ''imap: Addr is required'')
      else Inr \<lparr>im_cfg = (if ic_Mailbox cfg = [] then cfg\<lparr>ic_Mailbox := ''INBOX''\<rparr> else cfg)\<rparr>)"

end
