(* ===== verification/Config.thy ===== *)
theory Config
  imports Smtp Imap Basic_Auth
begin

section \<open>Configuration (config.go, and the configuration of the IMAP backend)\<close>

text \<open>
  The configuration with its defaults, file and environment, and what is built from it.  A
  configuration holds its OAuth2 settings by address while it lives and by value in the file;
  the type of that reference is the parameter \<open>'s\<close> of the records.  Reading and writing YAML is the
  \<open>yaml\<close> library.  A map of accounts or profiles is an association list; the order in which
  Go walks it is an argument.
\<close>

subsection \<open>The settings\<close>

record 's imap_settings =
  i_Addr :: string
  i_Username :: string
  i_Password :: string
  i_Mailbox :: string
  i_Insecure :: bool
  i_OAuth2 :: "'s option"
  i_ArchiveFolder :: string
  i_TrashFolder :: string

record 's smtp_settings =
  t_Addr :: string
  t_Username :: string
  t_Password :: string
  t_ImplicitTLS :: bool
  t_Insecure :: bool
  t_OAuth2 :: "'s option"

record 's outbox_settings =
  x_Dir :: string
  x_From :: string
  x_DeliverDir :: string
  x_SMTP :: "'s smtp_settings"

record basic_settings =
  b_Username :: string
  b_Password :: string
  b_PasswordHash :: string

record 's account_settings =
  a_Backend :: string
  a_Maildir :: string
  a_IMAP :: "'s imap_settings"

record 's profile_settings =
  p_Backend :: string
  p_Maildir :: string
  p_IMAP :: "'s imap_settings"
  p_Outbox :: "'s outbox_settings option"

record 's server_config =
  c_BulkLimit :: int
  c_Transport :: string
  c_Addr :: string
  c_Backend :: string
  c_Maildir :: string
  c_IMAP :: "'s imap_settings"
  c_Outbox :: "'s outbox_settings"
  c_Accounts :: "(string \<times> 's account_settings) list"
  c_Profiles :: "(string \<times> 's profile_settings) list"
  c_RuntimeConfig :: bool
  c_Auth :: basic_settings
  c_path :: string
  c_envSecrets :: "string set"

definition no_imap :: "'s imap_settings" where
  "no_imap =
     \<lparr>i_Addr = [], i_Username = [], i_Password = [], i_Mailbox = [], i_Insecure = False,
      i_OAuth2 = None, i_ArchiveFolder = [], i_TrashFolder = []\<rparr>"

definition no_outbox :: "'s outbox_settings" where
  "no_outbox =
     \<lparr>x_Dir = [], x_From = [], x_DeliverDir = [],
      x_SMTP = \<lparr>t_Addr = [], t_Username = [], t_Password = [], t_ImplicitTLS = False,
                t_Insecure = False, t_OAuth2 = None\<rparr>\<rparr>"

definition default_config :: "'s server_config" where
  "default_config =
     \<lparr>c_BulkLimit = 0, c_Transport = [], c_Addr = '':8090'', c_Backend = [], c_Maildir = ''./maildir'',
      c_IMAP = no_imap, c_Outbox = no_outbox, c_Accounts = [], c_Profiles = [],
      c_RuntimeConfig = False, c_Auth = \<lparr>b_Username = [], b_Password = [], b_PasswordHash = []\<rparr>,
      c_path = [], c_envSecrets = {}\<rparr>"

definition effectiveBulkLimit :: "'s server_config \<Rightarrow> int" where
  "effectiveBulkLimit c = (if c_BulkLimit c \<le> 0 then MaxBulkIDs else c_BulkLimit c)"

definition Enabled :: "basic_settings \<Rightarrow> bool" where
  "Enabled b \<longleftrightarrow> b_Username b \<noteq> [] \<and> (b_Password b \<noteq> [] \<or> b_PasswordHash b \<noteq> [])"

definition ResolvedTransport :: "'s server_config \<Rightarrow> string" where
  "ResolvedTransport c = (if c_Transport c = [] then ''http'' else c_Transport c)"

definition ValidateTransport :: "'s server_config \<Rightarrow> check" where
  "ValidateTransport c =
     (if ResolvedTransport c \<in> {''http'', ''stdio'', ''grpc''} then None
      else Some (Failure ''unknown transport''))"

definition LogWriterName :: "'s server_config \<Rightarrow> string" where
  "LogWriterName c = (if ResolvedTransport c = ''stdio'' then ''stderr'' else ''stdout'')"

definition ResolvedBackend :: "'s server_config \<Rightarrow> string" where
  "ResolvedBackend c =
     (if c_Backend c \<noteq> [] then c_Backend c
      else if i_Addr (c_IMAP c) \<noteq> [] then ''imap'' else ''maildir'')"

text \<open>A profile replaces the settings of the mailbox, and of the outbox when it has any.\<close>

definition cfg_applyProfile :: "'s server_config \<Rightarrow> 's profile_settings \<Rightarrow> 's server_config" where
  "cfg_applyProfile c p =
     (let n = c\<lparr>c_Backend := p_Backend p, c_Maildir := p_Maildir p, c_IMAP := p_IMAP p\<rparr> in
      case p_Outbox p of None \<Rightarrow> n | Some x \<Rightarrow> n\<lparr>c_Outbox := x\<rparr>)"

definition ProfileNames :: "'s server_config \<Rightarrow> string list" where
  "ProfileNames c = sort (map fst (c_Profiles c))"

subsection \<open>The environment\<close>

type_synonym environment = "string \<Rightarrow> string"

definition overlay :: "environment \<Rightarrow> string \<Rightarrow> string \<Rightarrow> string" where
  "overlay env key old = (if env key \<noteq> [] then env key else old)"

definition overlay_flag :: "environment \<Rightarrow> string \<Rightarrow> bool \<Rightarrow> bool" where
  "overlay_flag env key old =
     (if env key \<noteq> [] then env key = ''1'' \<or> env key = ''true'' else old)"

definition overlay_limit :: "environment \<Rightarrow> int \<Rightarrow> int" where
  "overlay_limit env old =
     (if env ''BRIEFKASTEN_BULK_LIMIT'' \<noteq> [] then
        (case atoi (env ''BRIEFKASTEN_BULK_LIMIT'') of Some n \<Rightarrow> n | None \<Rightarrow> old)
      else old)"

definition overlaySecret :: "environment \<Rightarrow> string \<Rightarrow> string \<times> string set \<Rightarrow> string \<times> string set" where
  "overlaySecret env key v =
     (if env key = [] then v else (env key, insert key (snd v)))"

text \<open>The credentials file is written into the settings in place, into new ones where there are none.\<close>

definition overlayCredentialsFile ::
  "environment \<Rightarrow> string \<Rightarrow> addr option \<Rightarrow> heap \<Rightarrow> addr option \<times> heap" where
  "overlayCredentialsFile env key ref h =
     (if env key = [] then (ref, h)
      else case ref of
             None \<Rightarrow> (case alloc (no_settings\<lparr>CredentialsFile := env key\<rparr>) h of (a, h1) \<Rightarrow> (Some a, h1))
           | Some a \<Rightarrow> (Some a, assign a ((obj h a)\<lparr>CredentialsFile := env key\<rparr>) h))"

definition overlay_imap :: "environment \<Rightarrow> string \<times> string set \<Rightarrow> 's imap_settings \<Rightarrow> 's imap_settings"
  where
  "overlay_imap env pw i =
     i\<lparr>i_Addr := overlay env ''BRIEFKASTEN_IMAP_ADDR'' (i_Addr i),
       i_Username := overlay env ''BRIEFKASTEN_IMAP_USER'' (i_Username i),
       i_Password := fst pw,
       i_Mailbox := overlay env ''BRIEFKASTEN_IMAP_MAILBOX'' (i_Mailbox i),
       i_Insecure := overlay_flag env ''BRIEFKASTEN_IMAP_INSECURE'' (i_Insecure i)\<rparr>"

definition overlay_outbox ::
  "environment \<Rightarrow> string \<times> string set \<Rightarrow> 's outbox_settings \<Rightarrow> 's outbox_settings" where
  "overlay_outbox env pw x =
     x\<lparr>x_Dir := overlay env ''BRIEFKASTEN_OUTBOX_DIR'' (x_Dir x),
       x_From := overlay env ''BRIEFKASTEN_OUTBOX_FROM'' (x_From x),
       x_DeliverDir := overlay env ''BRIEFKASTEN_OUTBOX_DELIVER_DIR'' (x_DeliverDir x),
       x_SMTP := (x_SMTP x)\<lparr>
         t_Addr := overlay env ''BRIEFKASTEN_SMTP_ADDR'' (t_Addr (x_SMTP x)),
         t_Username := overlay env ''BRIEFKASTEN_SMTP_USER'' (t_Username (x_SMTP x)),
         t_Password := fst pw,
         t_Insecure := overlay_flag env ''BRIEFKASTEN_SMTP_INSECURE'' (t_Insecure (x_SMTP x))\<rparr>\<rparr>"

definition ApplyEnv :: "environment \<Rightarrow> addr server_config \<Rightarrow> heap \<Rightarrow> addr server_config \<times> heap" where
  "ApplyEnv env c h =
     (let imap_pw = overlaySecret env ''BRIEFKASTEN_IMAP_PASSWORD'' (i_Password (c_IMAP c), c_envSecrets c);
          smtp_pw = overlaySecret env ''BRIEFKASTEN_SMTP_PASSWORD''
                      (t_Password (x_SMTP (c_Outbox c)), snd imap_pw);
          imap = overlay_imap env imap_pw (c_IMAP c);
          outbox = overlay_outbox env smtp_pw (c_Outbox c);
          (imap_ref, h1) = overlayCredentialsFile env ''BRIEFKASTEN_IMAP_OAUTH2_CREDENTIALS_FILE''
                             (i_OAuth2 imap) h;
          (smtp_ref, h2) = overlayCredentialsFile env ''BRIEFKASTEN_SMTP_OAUTH2_CREDENTIALS_FILE''
                             (t_OAuth2 (x_SMTP outbox)) h1;
          auth_pw = overlaySecret env ''BRIEFKASTEN_AUTH_PASSWORD'' (b_Password (c_Auth c), snd smtp_pw);
          auth_hash = overlaySecret env ''BRIEFKASTEN_AUTH_PASSWORD_HASH''
                        (b_PasswordHash (c_Auth c), snd auth_pw) in
      (c\<lparr>c_BulkLimit := overlay_limit env (c_BulkLimit c),
         c_Transport := overlay env ''BRIEFKASTEN_TRANSPORT'' (c_Transport c),
         c_Addr := overlay env ''BRIEFKASTEN_ADDR'' (c_Addr c),
         c_Backend := overlay env ''BRIEFKASTEN_BACKEND'' (c_Backend c),
         c_Maildir := overlay env ''BRIEFKASTEN_MAILDIR'' (c_Maildir c),
         c_IMAP := imap\<lparr>i_OAuth2 := imap_ref\<rparr>,
         c_Outbox := outbox\<lparr>x_SMTP := (x_SMTP outbox)\<lparr>t_OAuth2 := smtp_ref\<rparr>\<rparr>,
         c_RuntimeConfig := overlay_flag env ''BRIEFKASTEN_RUNTIME_CONFIG'' (c_RuntimeConfig c),
         c_Auth := \<lparr>b_Username = overlay env ''BRIEFKASTEN_AUTH_USER'' (b_Username (c_Auth c)),
                    b_Password = fst auth_pw, b_PasswordHash = fst auth_hash\<rparr>,
         c_envSecrets := snd auth_hash\<rparr>, h2))"

subsection \<open>The file\<close>

text \<open>The same settings with another kind of reference.\<close>

definition imap_with :: "'t option \<Rightarrow> 's imap_settings \<Rightarrow> 't imap_settings" where
  "imap_with r i =
     \<lparr>i_Addr = i_Addr i, i_Username = i_Username i, i_Password = i_Password i,
      i_Mailbox = i_Mailbox i, i_Insecure = i_Insecure i, i_OAuth2 = r,
      i_ArchiveFolder = i_ArchiveFolder i, i_TrashFolder = i_TrashFolder i\<rparr>"

definition outbox_with :: "'t option \<Rightarrow> 's outbox_settings \<Rightarrow> 't outbox_settings" where
  "outbox_with r x =
     \<lparr>x_Dir = x_Dir x, x_From = x_From x, x_DeliverDir = x_DeliverDir x,
      x_SMTP = \<lparr>t_Addr = t_Addr (x_SMTP x), t_Username = t_Username (x_SMTP x),
                t_Password = t_Password (x_SMTP x), t_ImplicitTLS = t_ImplicitTLS (x_SMTP x),
                t_Insecure = t_Insecure (x_SMTP x), t_OAuth2 = r\<rparr>\<rparr>"

definition account_with :: "'t option \<Rightarrow> 's account_settings \<Rightarrow> 't account_settings" where
  "account_with r a =
     \<lparr>a_Backend = a_Backend a, a_Maildir = a_Maildir a, a_IMAP = imap_with r (a_IMAP a)\<rparr>"

definition profile_with :: "'t option \<Rightarrow> 't option \<Rightarrow> 's profile_settings \<Rightarrow> 't profile_settings" where
  "profile_with r q p =
     \<lparr>p_Backend = p_Backend p, p_Maildir = p_Maildir p, p_IMAP = imap_with r (p_IMAP p),
      p_Outbox = map_option (outbox_with q) (p_Outbox p)\<rparr>"

definition config_with ::
  "'t imap_settings \<Rightarrow> 't outbox_settings \<Rightarrow> (string \<times> 't account_settings) list \<Rightarrow>
   (string \<times> 't profile_settings) list \<Rightarrow> 's server_config \<Rightarrow> 't server_config" where
  "config_with i x as ps c =
     \<lparr>c_BulkLimit = c_BulkLimit c, c_Transport = c_Transport c, c_Addr = c_Addr c,
      c_Backend = c_Backend c, c_Maildir = c_Maildir c, c_IMAP = i, c_Outbox = x, c_Accounts = as,
      c_Profiles = ps, c_RuntimeConfig = c_RuntimeConfig c, c_Auth = c_Auth c, c_path = c_path c,
      c_envSecrets = c_envSecrets c\<rparr>"

definition account_ref :: "'s account_settings \<Rightarrow> 's option" where
  "account_ref a = i_OAuth2 (a_IMAP a)"

definition profile_outbox_ref :: "'s profile_settings \<Rightarrow> 's option" where
  "profile_outbox_ref p = Option.bind (p_Outbox p) (\<lambda>x. t_OAuth2 (x_SMTP x))"

definition map_refs :: "('s \<Rightarrow> 't) \<Rightarrow> 's server_config \<Rightarrow> 't server_config" where
  "map_refs f c =
     config_with
       (imap_with (map_option f (i_OAuth2 (c_IMAP c))) (c_IMAP c))
       (outbox_with (map_option f (t_OAuth2 (x_SMTP (c_Outbox c)))) (c_Outbox c))
       (map (\<lambda>(n, a). (n, account_with (map_option f (account_ref a)) a)) (c_Accounts c))
       (map (\<lambda>(n, p). (n, profile_with (map_option f (i_OAuth2 (p_IMAP p)))
                             (map_option f (profile_outbox_ref p)) p)) (c_Profiles c))
       c"

text \<open>
  \<open>forSave\<close>: the configuration without the secrets that are kept elsewhere.  The pointers are
  followed here, so what it returns is what the encoder reads through them.
\<close>

definition unless_env :: "'s server_config \<Rightarrow> string \<Rightarrow> string \<Rightarrow> string" where
  "unless_env c key v = (if key \<in> c_envSecrets c then [] else v)"

definition forSave :: "heap \<Rightarrow> addr server_config \<Rightarrow> oauth2_settings server_config" where
  "forSave h c =
     (let out = map_refs (obj h) c; i = c_IMAP out; x = c_Outbox out; t = x_SMTP x; b = c_Auth out in
      out\<lparr>c_IMAP := i\<lparr>i_Password := unless_env c ''BRIEFKASTEN_IMAP_PASSWORD'' (i_Password i),
                      i_OAuth2 := WithoutHydrated (i_OAuth2 i)\<rparr>,
          c_Outbox := x\<lparr>x_SMTP :=
            t\<lparr>t_Password := unless_env c ''BRIEFKASTEN_SMTP_PASSWORD'' (t_Password t),
              t_OAuth2 := WithoutHydrated (t_OAuth2 t)\<rparr>\<rparr>,
          c_Auth := b\<lparr>b_Password := unless_env c ''BRIEFKASTEN_AUTH_PASSWORD'' (b_Password b),
                      b_PasswordHash :=
                        unless_env c ''BRIEFKASTEN_AUTH_PASSWORD_HASH'' (b_PasswordHash b)\<rparr>\<rparr>)"

text \<open>What YAML sees: the fields with a tag.\<close>

definition tagged :: "oauth2_settings \<Rightarrow> oauth2_settings" where
  "tagged st =
     st\<lparr>CredentialsJSON := [], hydratedClientID := False, hydratedClientSecret := False,
        hydratedTokenURL := False, source := None\<rparr>"

definition yaml_view :: "oauth2_settings server_config \<Rightarrow> oauth2_settings server_config" where
  "yaml_view c = (map_refs tagged c)\<lparr>c_path := [], c_envSecrets := {}\<rparr>"

record yaml =
  Marshal :: "oauth2_settings server_config \<Rightarrow> error + bytes"
  Unmarshal :: "bytes \<Rightarrow> oauth2_settings server_config \<Rightarrow> error + oauth2_settings server_config"

definition Save :: "yaml \<Rightarrow> path \<Rightarrow> addr server_config \<Rightarrow> ('n host, unit) effect" where
  "Save y cwd c w =
     (if c_path c = [] then (Inl (Failure ''no config file to save to''), w)
      else case Marshal y (yaml_view (forSave (h_heap w) c)) of
             Inl e \<Rightarrow> (Inl e, w)
           | Inr raw \<Rightarrow> on_disk (WriteFile (path_of cwd (c_path c)) raw) w)"

text \<open>The decoder allocates every block of OAuth2 settings it meets.\<close>

definition load_ref :: "oauth2_settings option \<Rightarrow> heap \<Rightarrow> addr option \<times> heap" where
  "load_ref r h =
     (case r of None \<Rightarrow> (None, h) | Some st \<Rightarrow> (case alloc st h of (a, h1) \<Rightarrow> (Some a, h1)))"

fun load_accounts ::
  "(string \<times> oauth2_settings account_settings) list \<Rightarrow> heap \<Rightarrow>
   (string \<times> addr account_settings) list \<times> heap" where
  "load_accounts [] h = ([], h)"
| "load_accounts ((n, a) # as) h =
     (case load_ref (account_ref a) h of
        (r, h1) \<Rightarrow> (case load_accounts as h1 of (bs, h2) \<Rightarrow> ((n, account_with r a) # bs, h2)))"

fun load_profiles ::
  "(string \<times> oauth2_settings profile_settings) list \<Rightarrow> heap \<Rightarrow>
   (string \<times> addr profile_settings) list \<times> heap" where
  "load_profiles [] h = ([], h)"
| "load_profiles ((n, p) # ps) h =
     (case load_ref (i_OAuth2 (p_IMAP p)) h of
        (r, h1) \<Rightarrow>
          (case load_ref (profile_outbox_ref p) h1 of
             (q, h2) \<Rightarrow>
               (case load_profiles ps h2 of (qs, h3) \<Rightarrow> ((n, profile_with r q p) # qs, h3))))"

definition load_refs :: "oauth2_settings server_config \<Rightarrow> heap \<Rightarrow> addr server_config \<times> heap" where
  "load_refs c h =
     (case load_ref (i_OAuth2 (c_IMAP c)) h of
        (r, h1) \<Rightarrow>
          (case load_ref (t_OAuth2 (x_SMTP (c_Outbox c))) h1 of
             (q, h2) \<Rightarrow>
               (case load_accounts (c_Accounts c) h2 of
                  (as, h3) \<Rightarrow>
                    (case load_profiles (c_Profiles c) h3 of
                       (ps, h4) \<Rightarrow>
                         (config_with (imap_with r (c_IMAP c)) (outbox_with q (c_Outbox c)) as ps c, h4)))))"

definition LoadConfig :: "yaml \<Rightarrow> path \<Rightarrow> string \<Rightarrow> ('n host, addr server_config) effect" where
  "LoadConfig y cwd p w =
     (if p = [] then (Inr default_config, w)
      else case on_disk (ReadFile (path_of cwd p)) w of
             (Inl e, w1) \<Rightarrow> (Inl e, w1)
           | (Inr raw, w1) \<Rightarrow>
               (case Unmarshal y raw default_config of
                  Inl e \<Rightarrow> (Inl e, w1)
                | Inr c \<Rightarrow>
                    (case load_refs c (h_heap w1) of
                       (d, h1) \<Rightarrow> (Inr (d\<lparr>c_path := p\<rparr>), w1\<lparr>h_heap := h1\<rparr>))))"

subsection \<open>What is built from it\<close>

text \<open>
  A backend by what it was built from: a Maildir, an IMAP mailbox behind the resilience decorator
  with its default configuration, or the stand-in for an account that is gone.  Likewise for the
  transports and the watchers.
\<close>

datatype backend = DirBackend maildir | ResilientIMAP imap_mailbox | Revoked string

datatype transport = DirTransport dir_sender | SMTPTransport smtp_sender

datatype mail_watcher = DirWatcher path | IMAPWatcher imap_config

record 'n toolbox =
  tb_mail :: mail_lib
  tb_google :: "'n google_lib"
  tb_yaml :: yaml
  tb_cwd :: path

definition load_if :: "'n toolbox \<Rightarrow> addr option \<Rightarrow> string \<Rightarrow> ('n host, unit) effect" where
  "load_if tb r user w =
     (case r of None \<Rightarrow> (Inr (), w) | Some a \<Rightarrow> LoadCredentials (tb_google tb) (tb_cwd tb) a user w)"

definition imap_config_of :: "addr server_config \<Rightarrow> imap_config" where
  "imap_config_of c =
     (let i = c_IMAP c in
      \<lparr>ic_MaxBulkIDs = effectiveBulkLimit c, ic_Addr = i_Addr i, ic_Username = i_Username i,
       ic_Password = i_Password i, ic_Mailbox = i_Mailbox i, ic_ArchiveFolder = i_ArchiveFolder i,
       ic_TrashFolder = i_TrashFolder i, ic_Insecure = i_Insecure i, ic_OAuth2 = i_OAuth2 i\<rparr>)"

definition BuildMailbox :: "'n toolbox \<Rightarrow> addr server_config \<Rightarrow> ('n host, backend \<times> string) effect" where
  "BuildMailbox tb c w =
     (if c_BulkLimit c < 0 then (Inl (Failure ''bulk_limit must be positive or omitted''), w)
      else if ResolvedBackend c = ''maildir'' then
        (case on_disk (NewWithBulkLimit (path_of (tb_cwd tb) (c_Maildir c)) (effectiveBulkLimit c)) w of
           (Inl e, w1) \<Rightarrow> (Inl e, w1)
         | (Inr mb, w1) \<Rightarrow> (Inr (DirBackend mb, ''maildir '' @ c_Maildir c), w1))
      else if ResolvedBackend c = ''imap'' then
        (case load_if tb (i_OAuth2 (c_IMAP c)) (i_Username (c_IMAP c)) w of
           (Inl e, w1) \<Rightarrow> (Inl e, w1)
         | (Inr _, w1) \<Rightarrow>
             (case imap_New (imap_config_of c) of
                Inl e \<Rightarrow> (Inl e, w1)
              | Inr mb \<Rightarrow> (Inr (ResilientIMAP mb, ''imap '' @ i_Addr (c_IMAP c)), w1)))
      else (Inl (Failure ''unknown backend''), w))"

text \<open>Accounts, in the order the map is walked; each is built from its own block alone.\<close>

definition sub_config :: "addr server_config \<Rightarrow> addr account_settings \<Rightarrow> addr server_config" where
  "sub_config c a =
     default_config\<lparr>c_Addr := [], c_Backend := a_Backend a, c_Maildir := a_Maildir a,
                    c_IMAP := a_IMAP a, c_BulkLimit := c_BulkLimit c\<rparr>"

fun build_accounts ::
  "'n toolbox \<Rightarrow> addr server_config \<Rightarrow> (string \<times> addr account_settings) list \<Rightarrow>
   ('n host, (string \<times> backend) list) effect" where
  "build_accounts tb c [] w = (Inr [], w)"
| "build_accounts tb c ((n, a) # as) w =
     (case BuildMailbox tb (sub_config c a) w of
        (Inl e, w1) \<Rightarrow> (Inl e, w1)
      | (Inr (mb, _), w1) \<Rightarrow>
          (case build_accounts tb c as w1 of
             (Inl e, w2) \<Rightarrow> (Inl e, w2)
           | (Inr out, w2) \<Rightarrow> (Inr ((n, mb) # out), w2)))"

type_synonym account_walk =
  "(string \<times> addr account_settings) list \<Rightarrow> (string \<times> addr account_settings) list"

definition BuildAccounts ::
  "'n toolbox \<Rightarrow> account_walk \<Rightarrow> addr server_config \<Rightarrow> ('n host, (string \<times> backend) list) effect"
  where
  "BuildAccounts tb ord c = build_accounts tb c (ord (c_Accounts c))"

definition BuildWatcher :: "'n toolbox \<Rightarrow> addr server_config \<Rightarrow> mail_watcher option" where
  "BuildWatcher tb c =
     (if ResolvedBackend c = ''maildir'' then Some (DirWatcher (path_of (tb_cwd tb) (c_Maildir c)))
      else if ResolvedBackend c = ''imap'' then
        Some (IMAPWatcher ((imap_config_of c)\<lparr>ic_MaxBulkIDs := 0, ic_ArchiveFolder := [],
                                               ic_TrashFolder := []\<rparr>))
      else None)"

definition smtp_config_of :: "addr outbox_settings \<Rightarrow> smtp_config" where
  "smtp_config_of x =
     (let t = x_SMTP x in
      \<lparr>sc_Addr = t_Addr t, sc_From = x_From x, sc_Username = t_Username t, sc_Password = t_Password t,
       sc_ImplicitTLS = t_ImplicitTLS t, sc_Insecure = t_Insecure t, sc_OAuth2 = t_OAuth2 t\<rparr>)"

definition buildSender :: "'n toolbox \<Rightarrow> addr server_config \<Rightarrow> ('n host, transport \<times> string) effect" where
  "buildSender tb c w =
     (let x = c_Outbox c; t = x_SMTP x in
      if t_Addr t \<noteq> [] then
        (case load_if tb (t_OAuth2 t) (t_Username t) w of
           (Inl e, w1) \<Rightarrow> (Inl e, w1)
         | (Inr _, w1) \<Rightarrow>
             (case NewSMTPSender (tb_mail tb) (smtp_config_of x) of
                Inl e \<Rightarrow> (Inl e, w1)
              | Inr s \<Rightarrow> (Inr (SMTPTransport s, ''smtp '' @ t_Addr t), w1)))
      else
        (case on_disk (NewSender (tb_mail tb) (path_of (tb_cwd tb) (x_DeliverDir x)) (x_From x)) w of
           (Inl e, w1) \<Rightarrow> (Inl e, w1)
         | (Inr s, w1) \<Rightarrow> (Inr (DirTransport s, ''dir '' @ x_DeliverDir x), w1)))"

text \<open>The password hash is the library's: read from its text, or computed from a password.\<close>

definition BuildAuthMiddleware ::
  "(string \<Rightarrow> error + 'h) \<Rightarrow> (string \<Rightarrow> error + 'h) \<Rightarrow> ('h \<Rightarrow> string \<Rightarrow> error option) \<Rightarrow>
   (string \<Rightarrow> string option) \<Rightarrow> 's server_config \<Rightarrow> error + authenticator option" where
  "BuildAuthMiddleware hash_of_text hash_password verify_hash dec c =
     (let b = c_Auth c in
      if \<not> Enabled b then Inr None
      else case (if b_PasswordHash b \<noteq> [] then hash_of_text (b_PasswordHash b)
                 else hash_password (b_Password b)) of
             Inl e \<Rightarrow> Inl e
           | Inr h \<Rightarrow> Inr (Some (newBasicAuthenticator (b_Username b) (verify_hash h) dec)))"

end
