(* ===== verification/Config_Restart.thy ===== *)
theory Config_Restart
  imports Config Maildir_Folders
begin

section \<open>Saving the configuration and starting again from it\<close>

text \<open>
  What \<open>Save\<close> writes, what \<open>LoadConfig\<close> makes of it, and what the environment adds on top: the
  round trip of a restart, and which secrets come back with it.
\<close>

subsection \<open>The decoder of YAML\<close>

text \<open>Decoding what was encoded, over the defaults, gives it back.\<close>

definition yaml_faithful :: "yaml \<Rightarrow> bool" where
  "yaml_faithful y \<longleftrightarrow>
     (\<forall>c raw. Marshal y (yaml_view c) = Inr raw \<longrightarrow> Unmarshal y raw default_config = Inr (yaml_view c))"

subsection \<open>Loading allocates\<close>

definition grows :: "heap \<Rightarrow> heap \<Rightarrow> bool" where
  "grows h h1 \<longleftrightarrow> next_obj h \<le> next_obj h1 \<and> (\<forall>a < next_obj h. obj h1 a = obj h a)"

lemma grows_refl [simp]: "grows h h"
  by (simp add: grows_def)

lemma grows_trans: "grows h h1 \<Longrightarrow> grows h1 h2 \<Longrightarrow> grows h h2"
  by (auto simp: grows_def)

definition names_object :: "heap \<Rightarrow> oauth2_settings option \<Rightarrow> addr option \<Rightarrow> bool" where
  "names_object h v r \<longleftrightarrow> map_option (obj h) r = v \<and> (\<forall>a. r = Some a \<longrightarrow> a < next_obj h)"

lemma names_object_later: "names_object h v r \<Longrightarrow> grows h h1 \<Longrightarrow> names_object h1 v r"
  by (cases r) (auto simp: names_object_def grows_def)

lemma resolves: "names_object h v r \<Longrightarrow> grows h h1 \<Longrightarrow> grows h1 h2 \<Longrightarrow> map_option (obj h2) r = v"
  using names_object_later grows_trans names_object_def by metis

lemma load_ref_law: "load_ref v h = (r, h1) \<Longrightarrow> grows h h1 \<and> names_object h1 v r"
  by (auto simp: load_ref_def alloc_def grows_def names_object_def split: option.splits)

lemma account_with_with [simp]: "account_with r (account_with q a) = account_with r a"
  by (simp add: account_with_def imap_with_def)

lemma account_ref_with [simp]: "account_ref (account_with r a) = r"
  by (simp add: account_ref_def account_with_def imap_with_def)

lemma account_with_own [simp]: "account_with (account_ref a) a = a"
  by (simp add: account_with_def account_ref_def imap_with_def)

lemma imap_with_own [simp]: "imap_with (i_OAuth2 i) i = i"
  by (simp add: imap_with_def)

lemma imap_with_simps [simp]:
  "imap_with r (imap_with q i) = imap_with r i" "i_OAuth2 (imap_with r i) = r"
  by (simp_all add: imap_with_def)

lemma outbox_with_simps [simp]:
  "outbox_with r (outbox_with q x) = outbox_with r x" "t_OAuth2 (x_SMTP (outbox_with r x)) = r"
  "outbox_with (t_OAuth2 (x_SMTP x)) x = x"
  by (simp_all add: outbox_with_def)

lemma profile_with_simps:
  "profile_with r q (profile_with r' q' p) = profile_with r q p"
  "i_OAuth2 (p_IMAP (profile_with r q p)) = r"
  "profile_outbox_ref (profile_with r q p) = (if p_Outbox p = None then None else q)"
  "profile_with (i_OAuth2 (p_IMAP p)) (profile_outbox_ref p) p = p"
  by (cases p; cases "p_Outbox p"; simp add: profile_with_def profile_outbox_ref_def)+

lemma load_accounts_law:
  "load_accounts as h = (bs, h1) \<Longrightarrow> grows h h1 \<and>
     (\<forall>h2. grows h1 h2 \<longrightarrow>
        map (\<lambda>(n, a). (n, account_with (map_option (obj h2) (account_ref a)) a)) bs = as)"
proof (induction as arbitrary: h bs)
  case (Cons x as)
  obtain n a where x: "x = (n, a)" by force
  obtain r h2 where r: "load_ref (account_ref a) h = (r, h2)" by force
  obtain bs2 h3 where bs2: "load_accounts as h2 = (bs2, h3)" by force
  have out: "bs = (n, account_with r a) # bs2" "h1 = h3" using Cons.prems x r bs2 by auto
  note IH = Cons.IH [OF bs2 [folded out(2)]] and ref = load_ref_law [OF r]
  have "map_option (obj h4) r = account_ref a" if "grows h1 h4" for h4
    using resolves [OF _ _ that] IH ref by blast
  with IH ref out x show ?case by (auto intro: grows_trans)
qed simp

lemma load_profiles_law:
  "load_profiles ps h = (qs, h1) \<Longrightarrow> grows h h1 \<and>
     (\<forall>h2. grows h1 h2 \<longrightarrow>
        map (\<lambda>(n, p). (n, profile_with (map_option (obj h2) (i_OAuth2 (p_IMAP p)))
                             (map_option (obj h2) (profile_outbox_ref p)) p)) qs = ps)"
proof (induction ps arbitrary: h qs)
  case (Cons x ps)
  obtain n p where x: "x = (n, p)" by force
  obtain r h2 where r: "load_ref (i_OAuth2 (p_IMAP p)) h = (r, h2)" by force
  obtain q h3 where q: "load_ref (profile_outbox_ref p) h2 = (q, h3)" by force
  obtain qs2 h4 where qs2: "load_profiles ps h3 = (qs2, h4)" by force
  have out: "qs = (n, profile_with r q p) # qs2" "h1 = h4" using Cons.prems x r q qs2 by auto
  note IH = Cons.IH [OF qs2 [folded out(2)]] and ref = load_ref_law [OF r] load_ref_law [OF q]
  have "map_option (obj h5) r = i_OAuth2 (p_IMAP p)" "map_option (obj h5) q = profile_outbox_ref p"
    if "grows h1 h5" for h5
    using resolves [OF _ _ that] IH ref grows_trans by blast+
  moreover have "profile_with (i_OAuth2 (p_IMAP p)) (if p_Outbox p = None then None else profile_outbox_ref p) p = p"
    using profile_with_simps(4) [of p] by (cases "p_Outbox p") (simp_all add: profile_outbox_ref_def)
  ultimately show ?case
    using IH ref out x
    by (auto simp: profile_with_simps intro: grows_trans split: if_splits)
qed simp

lemma config_with_simps [simp]:
  "config_with i x as ps (config_with i' x' as' ps' c) = config_with i x as ps c"
  "c_IMAP (config_with i x as ps c) = i" "c_Outbox (config_with i x as ps c) = x"
  "c_Accounts (config_with i x as ps c) = as" "c_Profiles (config_with i x as ps c) = ps"
  "config_with (c_IMAP c) (c_Outbox c) (c_Accounts c) (c_Profiles c) c = c"
  by (simp_all add: config_with_def)

lemma load_refs_law:
  assumes "load_refs c h = (d, h1)"
  shows "map_refs (obj h1) d = c"
proof -
  obtain r h2 where r: "load_ref (i_OAuth2 (c_IMAP c)) h = (r, h2)" by force
  obtain q h3 where q: "load_ref (t_OAuth2 (x_SMTP (c_Outbox c))) h2 = (q, h3)" by force
  obtain as h4 where as: "load_accounts (c_Accounts c) h3 = (as, h4)" by force
  obtain ps h5 where ps: "load_profiles (c_Profiles c) h4 = (ps, h5)" by force
  have d: "d = config_with (imap_with r (c_IMAP c)) (outbox_with q (c_Outbox c)) as ps c" "h5 = h1"
    using assms r q as ps by (auto simp: load_refs_def)
  note laws = load_ref_law [OF r] load_ref_law [OF q] load_accounts_law [OF as] load_profiles_law [OF ps]
  have up: "grows h2 h1" "grows h3 h1" "grows h4 h1" using laws d(2) grows_trans by blast+
  have "map_option (obj h1) r = i_OAuth2 (c_IMAP c)"
    "map_option (obj h1) q = t_OAuth2 (x_SMTP (c_Outbox c))"
    using laws up resolves grows_refl by blast+
  with laws up d show ?thesis by (simp add: map_refs_def)
qed

subsection \<open>Saving and loading\<close>

lemma Save_law:
  assumes "Save y cwd c w = (Inr (), w1)"
  obtains raw where "Marshal y (yaml_view (forSave (h_heap w) c)) = Inr raw" "c_path c \<noteq> []"
    "look (h_disk w1) (path_of cwd (c_path c)) = Some (File raw)" "h_heap w1 = h_heap w"
  using assms
  by (auto simp: Save_def on_disk_def turned_def dest!: WriteFile_law split: if_splits sum.splits prod.splits)

lemma LoadConfig_law:
  assumes "LoadConfig y cwd p w = (Inr c, w1)" "p \<noteq> []"
  obtains raw d where "look (h_disk w) (path_of cwd p) = Some (File raw)"
    "Unmarshal y raw default_config = Inr d" "map_refs (obj (h_heap w1)) c = d\<lparr>c_path := p\<rparr>"
proof -
  obtain raw d e h where "look (h_disk w) (path_of cwd p) = Some (File raw)"
    "Unmarshal y raw default_config = Inr d" "load_refs d (h_heap w) = (e, h)" "c = e\<lparr>c_path := p\<rparr>"
    "h_heap w1 = h"
    using assms
    by (auto simp: LoadConfig_def on_disk_def dest!: ReadFile_law split: sum.splits prod.splits)
  with load_refs_law [of d "h_heap w" e h] show thesis
    by (intro that [of raw d]) (auto simp: map_refs_def config_with_def)
qed

lemma reload:
  assumes "yaml_faithful y" "Save y cwd c w = (Inr (), w1)" "LoadConfig y cwd (c_path c) w1 = (Inr c1, w2)"
  shows "map_refs (obj (h_heap w2)) c1 = (yaml_view (forSave (h_heap w) c))\<lparr>c_path := c_path c\<rparr>"
proof -
  obtain raw where raw: "Marshal y (yaml_view (forSave (h_heap w) c)) = Inr raw" "c_path c \<noteq> []"
    "look (h_disk w1) (path_of cwd (c_path c)) = Some (File raw)"
    using assms(2) by (rule Save_law)
  from assms(3) raw(2) obtain raw' d where "look (h_disk w1) (path_of cwd (c_path c)) = Some (File raw')"
    "Unmarshal y raw' default_config = Inr d" "map_refs (obj (h_heap w2)) c1 = d\<lparr>c_path := c_path c\<rparr>"
    by (rule LoadConfig_law)
  with raw assms(1) show ?thesis by (simp add: yaml_faithful_def)
qed

text \<open>A restart: the configuration is saved, and the next process loads it and reads the environment.\<close>

definition restart_with ::
  "yaml \<Rightarrow> path \<Rightarrow> environment \<Rightarrow> addr server_config \<Rightarrow> ('n host, addr server_config) effect" where
  "restart_with y cwd env c w =
     (case Save y cwd c w of
        (Inl e, w1) \<Rightarrow> (Inl e, w1)
      | (Inr _, w1) \<Rightarrow>
          (case LoadConfig y cwd (c_path c) w1 of
             (Inl e, w2) \<Rightarrow> (Inl e, w2)
           | (Inr c1, w2) \<Rightarrow>
               (case ApplyEnv env c1 (h_heap w2) of (c2, h2) \<Rightarrow> (Inr c2, w2\<lparr>h_heap := h2\<rparr>))))"

lemma restart_steps:
  assumes "yaml_faithful y" "restart_with y cwd env c w = (Inr c2, w2)"
  obtains c1 h1 where "map_refs (obj h1) c1 = (yaml_view (forSave (h_heap w) c))\<lparr>c_path := c_path c\<rparr>"
    "ApplyEnv env c1 h1 = (c2, h_heap w2)"
proof -
  obtain w1 where s: "Save y cwd c w = (Inr (), w1)"
    using assms(2) by (auto simp: restart_with_def split: prod.splits sum.splits)
  with assms(2) obtain c1 w3 where l: "LoadConfig y cwd (c_path c) w1 = (Inr c1, w3)"
    by (auto simp: restart_with_def split: prod.splits sum.splits)
  have "ApplyEnv env c1 (h_heap w3) = (c2, h_heap w2)"
    using assms(2) s l by (auto simp: restart_with_def split: prod.splits)
  with reload [OF assms(1) s l] show thesis by (rule that)
qed

text \<open>The fields of the loaded configuration.\<close>

lemma map_refs_fields:
  "c_BulkLimit (map_refs f c) = c_BulkLimit c" "c_Transport (map_refs f c) = c_Transport c"
  "c_Addr (map_refs f c) = c_Addr c" "c_Backend (map_refs f c) = c_Backend c"
  "c_Maildir (map_refs f c) = c_Maildir c" "c_RuntimeConfig (map_refs f c) = c_RuntimeConfig c"
  "c_Auth (map_refs f c) = c_Auth c" "c_path (map_refs f c) = c_path c"
  "c_envSecrets (map_refs f c) = c_envSecrets c"
  "c_IMAP (map_refs f c) = imap_with (map_option f (i_OAuth2 (c_IMAP c))) (c_IMAP c)"
  "c_Outbox (map_refs f c) = outbox_with (map_option f (t_OAuth2 (x_SMTP (c_Outbox c)))) (c_Outbox c)"
  by (simp_all add: map_refs_def config_with_def)

lemma imap_with_fields [simp]:
  "i_Addr (imap_with r i) = i_Addr i" "i_Username (imap_with r i) = i_Username i"
  "i_Password (imap_with r i) = i_Password i" "i_Mailbox (imap_with r i) = i_Mailbox i"
  "i_Insecure (imap_with r i) = i_Insecure i"
  by (simp_all add: imap_with_def)

lemma outbox_with_fields [simp]:
  "x_Dir (outbox_with r x) = x_Dir x" "x_From (outbox_with r x) = x_From x"
  "x_DeliverDir (outbox_with r x) = x_DeliverDir x"
  "t_Addr (x_SMTP (outbox_with r x)) = t_Addr (x_SMTP x)"
  "t_Username (x_SMTP (outbox_with r x)) = t_Username (x_SMTP x)"
  "t_Password (x_SMTP (outbox_with r x)) = t_Password (x_SMTP x)"
  "t_ImplicitTLS (x_SMTP (outbox_with r x)) = t_ImplicitTLS (x_SMTP x)"
  "t_Insecure (x_SMTP (outbox_with r x)) = t_Insecure (x_SMTP x)"
  by (simp_all add: outbox_with_def)

subsection \<open>Properties\<close>

text \<open>A password that came from the environment comes back at a restart with whatever address is
  configured by then: moving the address at run time, with a password of its own, does not keep the
  old password from the new address.\<close>

theorem environment_password_outlives_its_address:
  assumes "yaml_faithful y" "restart_with y cwd env c w = (Inr c2, w2)"
    and "env ''BRIEFKASTEN_IMAP_PASSWORD'' \<noteq> []" "env ''BRIEFKASTEN_IMAP_ADDR'' = []"
  shows "i_Addr (c_IMAP c2) = i_Addr (c_IMAP c) \<and>
    i_Password (c_IMAP c2) = env ''BRIEFKASTEN_IMAP_PASSWORD''"
proof -
  obtain c1 h1 where c1: "map_refs (obj h1) c1 = (yaml_view (forSave (h_heap w) c))\<lparr>c_path := c_path c\<rparr>"
    and e: "ApplyEnv env c1 h1 = (c2, h_heap w2)"
    using assms(1,2) by (rule restart_steps)
  have "i_Addr (c_IMAP c1) = i_Addr (c_IMAP (map_refs (obj h1) c1))"
    by (simp add: map_refs_fields)
  also have "\<dots> = i_Addr (c_IMAP c)"
    unfolding c1 by (simp add: yaml_view_def forSave_def map_refs_fields Let_def)
  finally show ?thesis
    using e assms(3,4)
    by (auto simp: ApplyEnv_def Let_def overlay_imap_def overlay_def overlaySecret_def split: prod.splits)
qed

text \<open>
  A configuration in step with the environment: reading the environment again changes nothing, the
  secrets noted as the environment's are those set there, and the two blocks of OAuth2 settings are
  not one object.
\<close>

definition secret_keys :: "string set" where
  "secret_keys = {''BRIEFKASTEN_IMAP_PASSWORD'', ''BRIEFKASTEN_SMTP_PASSWORD'',
                  ''BRIEFKASTEN_AUTH_PASSWORD'', ''BRIEFKASTEN_AUTH_PASSWORD_HASH''}"

definition in_env :: "environment \<Rightarrow> heap \<Rightarrow> addr server_config \<Rightarrow> bool" where
  "in_env env h c \<longleftrightarrow>
     ApplyEnv env c h = (c, h) \<and> c_envSecrets c = {k \<in> secret_keys. env k \<noteq> []} \<and>
     (i_OAuth2 (c_IMAP c) \<noteq> None \<longrightarrow> i_OAuth2 (c_IMAP c) \<noteq> t_OAuth2 (x_SMTP (c_Outbox c)))"

text \<open>What there is to save when no secret is left out.\<close>

definition full_view :: "heap \<Rightarrow> addr server_config \<Rightarrow> oauth2_settings server_config" where
  "full_view h c = yaml_view (forSave h (c\<lparr>c_envSecrets := {}\<rparr>))"

text \<open>The fields after the environment has been read.\<close>

lemma overlaySecret_fst: "fst (overlaySecret env key v) = overlay env key (fst v)"
  by (simp add: overlaySecret_def overlay_def)

lemma overlaySecret_snd: "snd (overlaySecret env key v) = {k \<in> {key}. env k \<noteq> []} \<union> snd v"
  by (auto simp: overlaySecret_def)

lemma env_fields:
  fixes env c h
  defines "d \<equiv> fst (ApplyEnv env c h)"
  shows "c_BulkLimit d = overlay_limit env (c_BulkLimit c)"
    "c_Transport d = overlay env ''BRIEFKASTEN_TRANSPORT'' (c_Transport c)"
    "c_Addr d = overlay env ''BRIEFKASTEN_ADDR'' (c_Addr c)"
    "c_Backend d = overlay env ''BRIEFKASTEN_BACKEND'' (c_Backend c)"
    "c_Maildir d = overlay env ''BRIEFKASTEN_MAILDIR'' (c_Maildir c)"
    "c_RuntimeConfig d = overlay_flag env ''BRIEFKASTEN_RUNTIME_CONFIG'' (c_RuntimeConfig c)"
    "c_Accounts d = c_Accounts c" "c_Profiles d = c_Profiles c" "c_path d = c_path c"
    "c_Auth d = \<lparr>b_Username = overlay env ''BRIEFKASTEN_AUTH_USER'' (b_Username (c_Auth c)),
       b_Password = overlay env ''BRIEFKASTEN_AUTH_PASSWORD'' (b_Password (c_Auth c)),
       b_PasswordHash = overlay env ''BRIEFKASTEN_AUTH_PASSWORD_HASH'' (b_PasswordHash (c_Auth c))\<rparr>"
    "c_envSecrets d = {k \<in> secret_keys. env k \<noteq> []} \<union> c_envSecrets c"
  unfolding d_def
  by (auto simp: ApplyEnv_def Let_def case_prod_beta overlaySecret_fst overlaySecret_snd secret_keys_def)

lemma env_imap:
  "c_IMAP (fst (ApplyEnv env c h)) =
     (overlay_imap env (overlay env ''BRIEFKASTEN_IMAP_PASSWORD'' (i_Password (c_IMAP c)), {}) (c_IMAP c))
       \<lparr>i_OAuth2 := fst (overlayCredentialsFile env ''BRIEFKASTEN_IMAP_OAUTH2_CREDENTIALS_FILE''
                            (i_OAuth2 (c_IMAP c)) h)\<rparr>"
  by (simp add: ApplyEnv_def Let_def case_prod_beta overlaySecret_fst overlay_imap_def)

lemma env_outbox:
  "c_Outbox (fst (ApplyEnv env c h)) =
     (let x = overlay_outbox env
                (overlay env ''BRIEFKASTEN_SMTP_PASSWORD'' (t_Password (x_SMTP (c_Outbox c))), {}) (c_Outbox c);
          h1 = snd (overlayCredentialsFile env ''BRIEFKASTEN_IMAP_OAUTH2_CREDENTIALS_FILE''
                      (i_OAuth2 (c_IMAP c)) h) in
      x\<lparr>x_SMTP := (x_SMTP x)\<lparr>t_OAuth2 :=
        fst (overlayCredentialsFile env ''BRIEFKASTEN_SMTP_OAUTH2_CREDENTIALS_FILE''
               (t_OAuth2 (x_SMTP (c_Outbox c))) h1)\<rparr>\<rparr>)"
  by (simp add: ApplyEnv_def Let_def case_prod_beta overlaySecret_fst overlay_outbox_def overlay_imap_def)

lemma env_heap:
  "snd (ApplyEnv env c h) =
     snd (overlayCredentialsFile env ''BRIEFKASTEN_SMTP_OAUTH2_CREDENTIALS_FILE''
            (t_OAuth2 (x_SMTP (c_Outbox c)))
            (snd (overlayCredentialsFile env ''BRIEFKASTEN_IMAP_OAUTH2_CREDENTIALS_FILE''
                    (i_OAuth2 (c_IMAP c)) h)))"
  by (simp add: ApplyEnv_def Let_def case_prod_beta overlay_outbox_def overlay_imap_def)

text \<open>A block of settings that names the credentials file of the environment is left as it is.\<close>

definition creds_in_env :: "environment \<Rightarrow> string \<Rightarrow> heap \<Rightarrow> addr option \<Rightarrow> bool" where
  "creds_in_env env key h r \<longleftrightarrow>
     env key = [] \<or> (\<exists>a. r = Some a \<and> CredentialsFile (obj h a) = env key)"

lemma same_file [simp]: "CredentialsFile st = v \<Longrightarrow> st\<lparr>CredentialsFile := v\<rparr> = st"
  by (cases st) auto

lemma same_object [simp]: "assign a (obj h a) h = h"
  by (cases h) (simp add: assign_def)

lemma creds_kept: "creds_in_env env key h r \<Longrightarrow> overlayCredentialsFile env key r h = (r, h)"
  by (auto simp: creds_in_env_def overlayCredentialsFile_def)

lemma in_env_creds:
  assumes "in_env env h c"
  shows "creds_in_env env ''BRIEFKASTEN_IMAP_OAUTH2_CREDENTIALS_FILE'' h (i_OAuth2 (c_IMAP c))"
    and "creds_in_env env ''BRIEFKASTEN_SMTP_OAUTH2_CREDENTIALS_FILE'' h (t_OAuth2 (x_SMTP (c_Outbox c)))"
proof -
  let ?I = "''BRIEFKASTEN_IMAP_OAUTH2_CREDENTIALS_FILE''"
  let ?S = "''BRIEFKASTEN_SMTP_OAUTH2_CREDENTIALS_FILE''"
  let ?i = "i_OAuth2 (c_IMAP c)" and ?t = "t_OAuth2 (x_SMTP (c_Outbox c))"
  define h1 where "h1 = snd (overlayCredentialsFile env ?I ?i h)"
  have e: "fst (ApplyEnv env c h) = c" "snd (ApplyEnv env c h) = h"
    and apart: "?i \<noteq> None \<longrightarrow> ?i \<noteq> ?t"
    using assms by (auto simp: in_env_def)
  have i: "fst (overlayCredentialsFile env ?I ?i h) = ?i"
    using arg_cong [OF e(1), of "\<lambda>c. i_OAuth2 (c_IMAP c)"] by (simp add: env_imap)
  have t: "fst (overlayCredentialsFile env ?S ?t h1) = ?t"
    using arg_cong [OF e(1), of "\<lambda>c. t_OAuth2 (x_SMTP (c_Outbox c))"] by (simp add: env_outbox Let_def h1_def)
  have hh: "snd (overlayCredentialsFile env ?S ?t h1) = h"
    using e(2) by (simp add: env_heap h1_def)
  have obj: "obj h1 a = obj h a" if "?t \<noteq> Some a" for a
    using hh that t by (auto simp: overlayCredentialsFile_def assign_def alloc_def split: if_splits option.splits)
  show "creds_in_env env ?I h ?i"
  proof (cases "env ?I = []")
    case False
    with i obtain a where a: "?i = Some a"
      by (cases ?i) (auto simp: overlayCredentialsFile_def alloc_def)
    with False have "obj h1 a = (obj h a)\<lparr>CredentialsFile := env ?I\<rparr>"
      by (simp add: h1_def overlayCredentialsFile_def assign_def)
    with obj apart a have "(obj h a)\<lparr>CredentialsFile := env ?I\<rparr> = obj h a" by auto
    then have "CredentialsFile ((obj h a)\<lparr>CredentialsFile := env ?I\<rparr>) = CredentialsFile (obj h a)" by simp
    with a show ?thesis by (simp add: creds_in_env_def)
  qed (simp add: creds_in_env_def)
  show "creds_in_env env ?S h ?t"
  proof (cases "env ?S = []")
    case False
    with t obtain a where a: "?t = Some a"
      by (cases ?t) (auto simp: overlayCredentialsFile_def alloc_def)
    with False hh have "h = assign a ((obj h1 a)\<lparr>CredentialsFile := env ?S\<rparr>) h1"
      by (simp add: overlayCredentialsFile_def)
    then have "obj h a = (obj h1 a)\<lparr>CredentialsFile := env ?S\<rparr>" by (simp add: assign_def)
    with a show ?thesis by (simp add: creds_in_env_def)
  qed (simp add: creds_in_env_def)
qed

lemma in_env_secret:
  assumes "in_env env h c" "key \<in> secret_keys" "overlay env key v = v"
  shows "overlay env key (unless_env c key v) = v"
  using assms by (auto simp: in_env_def unless_env_def overlay_def split: if_splits)

lemma map_refs_lists:
  "c_Accounts c = c_Accounts d \<Longrightarrow> c_Accounts (map_refs f c) = c_Accounts (map_refs f d)"
  "c_Profiles c = c_Profiles d \<Longrightarrow> c_Profiles (map_refs f c) = c_Profiles (map_refs f d)"
  by (simp_all add: map_refs_def config_with_def)

lemma forSave_fields:
  "c_Accounts (yaml_view (forSave h c)) = c_Accounts (yaml_view (map_refs (obj h) c))"
  "c_Profiles (yaml_view (forSave h c)) = c_Profiles (yaml_view (map_refs (obj h) c))"
  "c_IMAP (yaml_view (forSave h c)) =
     (imap_with (map_option tagged (WithoutHydrated (map_option (obj h) (i_OAuth2 (c_IMAP c))))) (c_IMAP c))
       \<lparr>i_Password := unless_env c ''BRIEFKASTEN_IMAP_PASSWORD'' (i_Password (c_IMAP c))\<rparr>"
  "c_Outbox (yaml_view (forSave h c)) =
     (let x = outbox_with (map_option tagged (WithoutHydrated
                (map_option (obj h) (t_OAuth2 (x_SMTP (c_Outbox c)))))) (c_Outbox c) in
      x\<lparr>x_SMTP := (x_SMTP x)\<lparr>t_Password :=
        unless_env c ''BRIEFKASTEN_SMTP_PASSWORD'' (t_Password (x_SMTP (c_Outbox c)))\<rparr>\<rparr>)"
  "c_Auth (yaml_view (forSave h c)) =
     \<lparr>b_Username = b_Username (c_Auth c),
      b_Password = unless_env c ''BRIEFKASTEN_AUTH_PASSWORD'' (b_Password (c_Auth c)),
      b_PasswordHash = unless_env c ''BRIEFKASTEN_AUTH_PASSWORD_HASH'' (b_PasswordHash (c_Auth c))\<rparr>"
  by (simp_all add: yaml_view_def forSave_def map_refs_def config_with_def imap_with_def outbox_with_def Let_def)

lemma secretless_lists:
  "c_Accounts (yaml_view (map_refs f (c\<lparr>c_envSecrets := S\<rparr>))) = c_Accounts (yaml_view (map_refs f c))"
  "c_Profiles (yaml_view (map_refs f (c\<lparr>c_envSecrets := S\<rparr>))) = c_Profiles (yaml_view (map_refs f c))"
  by (simp_all add: yaml_view_def map_refs_def config_with_def)

lemma plain_fields:
  "c_BulkLimit (yaml_view (forSave h c)) = c_BulkLimit c" "c_Transport (yaml_view (forSave h c)) = c_Transport c"
  "c_Addr (yaml_view (forSave h c)) = c_Addr c" "c_Backend (yaml_view (forSave h c)) = c_Backend c"
  "c_Maildir (yaml_view (forSave h c)) = c_Maildir c"
  "c_RuntimeConfig (yaml_view (forSave h c)) = c_RuntimeConfig c"
  "c_path (yaml_view (forSave h c)) = []" "c_envSecrets (yaml_view (forSave h c)) = {}"
  by (simp_all add: yaml_view_def forSave_def map_refs_def config_with_def Let_def)

text \<open>In step with the environment, every overlay is the identity.\<close>

lemma in_env_overlays:
  assumes "in_env env h c"
  shows "overlay_limit env (c_BulkLimit c) = c_BulkLimit c"
    "overlay env ''BRIEFKASTEN_TRANSPORT'' (c_Transport c) = c_Transport c"
    "overlay env ''BRIEFKASTEN_ADDR'' (c_Addr c) = c_Addr c"
    "overlay env ''BRIEFKASTEN_BACKEND'' (c_Backend c) = c_Backend c"
    "overlay env ''BRIEFKASTEN_MAILDIR'' (c_Maildir c) = c_Maildir c"
    "overlay_flag env ''BRIEFKASTEN_RUNTIME_CONFIG'' (c_RuntimeConfig c) = c_RuntimeConfig c"
    "overlay env ''BRIEFKASTEN_AUTH_USER'' (b_Username (c_Auth c)) = b_Username (c_Auth c)"
    "overlay env ''BRIEFKASTEN_AUTH_PASSWORD'' (b_Password (c_Auth c)) = b_Password (c_Auth c)"
    "overlay env ''BRIEFKASTEN_AUTH_PASSWORD_HASH'' (b_PasswordHash (c_Auth c)) = b_PasswordHash (c_Auth c)"
proof -
  have c: "fst (ApplyEnv env c h) = c" using assms by (simp add: in_env_def)
  note f = env_fields [of env c h, unfolded c]
  show "overlay_limit env (c_BulkLimit c) = c_BulkLimit c"
    "overlay env ''BRIEFKASTEN_TRANSPORT'' (c_Transport c) = c_Transport c"
    "overlay env ''BRIEFKASTEN_ADDR'' (c_Addr c) = c_Addr c"
    "overlay env ''BRIEFKASTEN_BACKEND'' (c_Backend c) = c_Backend c"
    "overlay env ''BRIEFKASTEN_MAILDIR'' (c_Maildir c) = c_Maildir c"
    "overlay_flag env ''BRIEFKASTEN_RUNTIME_CONFIG'' (c_RuntimeConfig c) = c_RuntimeConfig c"
    using f(1-6) by simp_all
  show "overlay env ''BRIEFKASTEN_AUTH_USER'' (b_Username (c_Auth c)) = b_Username (c_Auth c)"
    "overlay env ''BRIEFKASTEN_AUTH_PASSWORD'' (b_Password (c_Auth c)) = b_Password (c_Auth c)"
    "overlay env ''BRIEFKASTEN_AUTH_PASSWORD_HASH'' (b_PasswordHash (c_Auth c)) = b_PasswordHash (c_Auth c)"
    using f(10) by (metis basic_settings.select_convs)+
qed

lemma in_env_imap:
  assumes "in_env env h c"
  shows "overlay env ''BRIEFKASTEN_IMAP_ADDR'' (i_Addr (c_IMAP c)) = i_Addr (c_IMAP c)"
    "overlay env ''BRIEFKASTEN_IMAP_USER'' (i_Username (c_IMAP c)) = i_Username (c_IMAP c)"
    "overlay env ''BRIEFKASTEN_IMAP_PASSWORD'' (i_Password (c_IMAP c)) = i_Password (c_IMAP c)"
    "overlay env ''BRIEFKASTEN_IMAP_MAILBOX'' (i_Mailbox (c_IMAP c)) = i_Mailbox (c_IMAP c)"
    "overlay_flag env ''BRIEFKASTEN_IMAP_INSECURE'' (i_Insecure (c_IMAP c)) = i_Insecure (c_IMAP c)"
proof -
  have c: "fst (ApplyEnv env c h) = c" using assms by (simp add: in_env_def)
  note f = env_imap [of env c h, unfolded c]
  show "overlay env ''BRIEFKASTEN_IMAP_ADDR'' (i_Addr (c_IMAP c)) = i_Addr (c_IMAP c)"
    using arg_cong [OF f, of i_Addr] by (simp add: overlay_imap_def)
  show "overlay env ''BRIEFKASTEN_IMAP_USER'' (i_Username (c_IMAP c)) = i_Username (c_IMAP c)"
    using arg_cong [OF f, of i_Username] by (simp add: overlay_imap_def)
  show "overlay env ''BRIEFKASTEN_IMAP_PASSWORD'' (i_Password (c_IMAP c)) = i_Password (c_IMAP c)"
    using arg_cong [OF f, of i_Password] by (simp add: overlay_imap_def)
  show "overlay env ''BRIEFKASTEN_IMAP_MAILBOX'' (i_Mailbox (c_IMAP c)) = i_Mailbox (c_IMAP c)"
    using arg_cong [OF f, of i_Mailbox] by (simp add: overlay_imap_def)
  show "overlay_flag env ''BRIEFKASTEN_IMAP_INSECURE'' (i_Insecure (c_IMAP c)) = i_Insecure (c_IMAP c)"
    using arg_cong [OF f, of i_Insecure] by (simp add: overlay_imap_def)
qed

lemma in_env_outbox:
  assumes "in_env env h c"
  defines "x \<equiv> c_Outbox c"
  shows "overlay env ''BRIEFKASTEN_OUTBOX_DIR'' (x_Dir x) = x_Dir x"
    "overlay env ''BRIEFKASTEN_OUTBOX_FROM'' (x_From x) = x_From x"
    "overlay env ''BRIEFKASTEN_OUTBOX_DELIVER_DIR'' (x_DeliverDir x) = x_DeliverDir x"
    "overlay env ''BRIEFKASTEN_SMTP_ADDR'' (t_Addr (x_SMTP x)) = t_Addr (x_SMTP x)"
    "overlay env ''BRIEFKASTEN_SMTP_USER'' (t_Username (x_SMTP x)) = t_Username (x_SMTP x)"
    "overlay env ''BRIEFKASTEN_SMTP_PASSWORD'' (t_Password (x_SMTP x)) = t_Password (x_SMTP x)"
    "overlay_flag env ''BRIEFKASTEN_SMTP_INSECURE'' (t_Insecure (x_SMTP x)) = t_Insecure (x_SMTP x)"
proof -
  have c: "fst (ApplyEnv env c h) = c" using assms by (simp add: in_env_def)
  note f = env_outbox [of env c h, unfolded c Let_def, folded x_def]
  note d = overlay_outbox_def x_def
  show "overlay env ''BRIEFKASTEN_OUTBOX_DIR'' (x_Dir x) = x_Dir x"
    using arg_cong [OF f, of x_Dir] by (simp add: d)
  show "overlay env ''BRIEFKASTEN_OUTBOX_FROM'' (x_From x) = x_From x"
    using arg_cong [OF f, of x_From] by (simp add: d)
  show "overlay env ''BRIEFKASTEN_OUTBOX_DELIVER_DIR'' (x_DeliverDir x) = x_DeliverDir x"
    using arg_cong [OF f, of x_DeliverDir] by (simp add: d)
  show "overlay env ''BRIEFKASTEN_SMTP_ADDR'' (t_Addr (x_SMTP x)) = t_Addr (x_SMTP x)"
    using arg_cong [OF f, of "\<lambda>x. t_Addr (x_SMTP x)"] by (simp add: d)
  show "overlay env ''BRIEFKASTEN_SMTP_USER'' (t_Username (x_SMTP x)) = t_Username (x_SMTP x)"
    using arg_cong [OF f, of "\<lambda>x. t_Username (x_SMTP x)"] by (simp add: d)
  show "overlay env ''BRIEFKASTEN_SMTP_PASSWORD'' (t_Password (x_SMTP x)) = t_Password (x_SMTP x)"
    using arg_cong [OF f, of "\<lambda>x. t_Password (x_SMTP x)"] by (simp add: d)
  show "overlay_flag env ''BRIEFKASTEN_SMTP_INSECURE'' (t_Insecure (x_SMTP x)) = t_Insecure (x_SMTP x)"
    using arg_cong [OF f, of "\<lambda>x. t_Insecure (x_SMTP x)"] by (simp add: d)
qed

lemma creds_in_env_iff:
  "creds_in_env env key h r \<longleftrightarrow>
     env key = [] \<or> map_option CredentialsFile (map_option (obj h) r) = Some (env key)"
  by (auto simp: creds_in_env_def)

lemma files_kept:
  "map_option CredentialsFile (map_option tagged v) = map_option CredentialsFile v"
  "map_option CredentialsFile (WithoutHydrated v) = map_option CredentialsFile v"
  by (cases v; simp add: tagged_def WithoutHydrated_def)+

lemma creds_reloaded:
  assumes "creds_in_env env key h r"
    and "map_option (obj h1) r1 = map_option tagged (WithoutHydrated (map_option (obj h) r))"
  shows "creds_in_env env key h1 r1"
  using assms(1) arg_cong [OF assms(2), of "map_option CredentialsFile"]
  unfolding creds_in_env_iff files_kept by simp

lemma restart_fields:
  assumes c1: "map_refs (obj h1) c1 = (yaml_view (forSave h c))\<lparr>c_path := p\<rparr>" and "in_env env h c"
  shows "c_IMAP (fst (ApplyEnv env c1 h1)) = overlay_imap env
       (overlay env ''BRIEFKASTEN_IMAP_PASSWORD'' (i_Password (c_IMAP c1)), {}) (c_IMAP c1)"
    and "c_Outbox (fst (ApplyEnv env c1 h1)) = overlay_outbox env
       (overlay env ''BRIEFKASTEN_SMTP_PASSWORD'' (t_Password (x_SMTP (c_Outbox c1))), {}) (c_Outbox c1)"
    and "snd (ApplyEnv env c1 h1) = h1"
proof -
  have "map_option (obj h1) (i_OAuth2 (c_IMAP c1)) = i_OAuth2 (c_IMAP (map_refs (obj h1) c1))"
    "map_option (obj h1) (t_OAuth2 (x_SMTP (c_Outbox c1))) = t_OAuth2 (x_SMTP (c_Outbox (map_refs (obj h1) c1)))"
    by (simp_all add: map_refs_fields)
  then have r: "map_option (obj h1) (i_OAuth2 (c_IMAP c1)) =
      map_option tagged (WithoutHydrated (map_option (obj h) (i_OAuth2 (c_IMAP c))))"
    "map_option (obj h1) (t_OAuth2 (x_SMTP (c_Outbox c1))) =
      map_option tagged (WithoutHydrated (map_option (obj h) (t_OAuth2 (x_SMTP (c_Outbox c)))))"
    unfolding c1 by (simp_all add: forSave_fields Let_def imap_with_def outbox_with_def)
  note k = creds_kept [OF creds_reloaded [OF in_env_creds(1) [OF assms(2)] r(1)]]
    creds_kept [OF creds_reloaded [OF in_env_creds(2) [OF assms(2)] r(2)]]
  show "c_IMAP (fst (ApplyEnv env c1 h1)) = overlay_imap env
       (overlay env ''BRIEFKASTEN_IMAP_PASSWORD'' (i_Password (c_IMAP c1)), {}) (c_IMAP c1)"
    unfolding env_imap k by (simp add: overlay_imap_def)
  show "c_Outbox (fst (ApplyEnv env c1 h1)) = overlay_outbox env
       (overlay env ''BRIEFKASTEN_SMTP_PASSWORD'' (t_Password (x_SMTP (c_Outbox c1))), {}) (c_Outbox c1)"
    unfolding env_outbox k Let_def fst_conv snd_conv by (simp add: overlay_outbox_def)
  show "snd (ApplyEnv env c1 h1) = h1" unfolding env_heap k by (simp add: k)
qed


text \<open>The configuration with other values for the secrets noted as the environment's.\<close>

definition with_secrets :: "(string \<Rightarrow> string) \<Rightarrow> 's server_config \<Rightarrow> 's server_config" where
  "with_secrets f c =
     (let other = (\<lambda>key old. if key \<in> c_envSecrets c then f key else old);
          i = c_IMAP c; x = c_Outbox c; b = c_Auth c in
      c\<lparr>c_IMAP := i\<lparr>i_Password := other ''BRIEFKASTEN_IMAP_PASSWORD'' (i_Password i)\<rparr>,
        c_Outbox := x\<lparr>x_SMTP := (x_SMTP x)\<lparr>t_Password :=
          other ''BRIEFKASTEN_SMTP_PASSWORD'' (t_Password (x_SMTP x))\<rparr>\<rparr>,
        c_Auth := b\<lparr>b_Password := other ''BRIEFKASTEN_AUTH_PASSWORD'' (b_Password b),
                    b_PasswordHash := other ''BRIEFKASTEN_AUTH_PASSWORD_HASH'' (b_PasswordHash b)\<rparr>\<rparr>)"

lemma forSave_with_secrets: "forSave h (with_secrets f c) = forSave h c"
proof -
  have lists: "c_Accounts (with_secrets f c) = c_Accounts c" "c_Profiles (with_secrets f c) = c_Profiles c"
    by (simp_all add: with_secrets_def Let_def)
  have "c_Accounts (forSave h d) = c_Accounts (map_refs (obj h) d)"
    "c_Profiles (forSave h d) = c_Profiles (map_refs (obj h) d)" for d
    by (simp_all add: forSave_def Let_def)
  then have l: "c_Accounts (forSave h (with_secrets f c)) = c_Accounts (forSave h c)"
    "c_Profiles (forSave h (with_secrets f c)) = c_Profiles (forSave h c)"
    using map_refs_lists lists by metis+
  show ?thesis
    by (rule server_config.equality; (rule l)?)
      (simp_all add: forSave_def with_secrets_def Let_def map_refs_fields imap_with_def outbox_with_def
        unless_env_def)
qed

text \<open>What is written to the configuration file does not depend on a secret that came from the
  environment: with any other value in its place the same bytes are written.\<close>

theorem saving_reveals_no_environment_secret:
  "Save y cwd (with_secrets f c) w = Save y cwd c w"
proof -
  have "c_path (with_secrets f c) = c_path c" by (simp add: with_secrets_def Let_def)
  then show ?thesis unfolding Save_def forSave_with_secrets by (simp only:)
qed

text \<open>The client secret a credentials file filled in for an account is written to the file all the same.\<close>

lemma account_secrets_are_saved:
  assumes "(n, a) \<in> set (c_Accounts c)" "account_ref a = Some r"
  shows "\<exists>b. (n, b) \<in> set (c_Accounts (yaml_view (forSave h c))) \<and>
    account_ref b = Some (tagged (obj h r)) \<and> ClientSecret (tagged (obj h r)) = ClientSecret (obj h r)"
proof -
  have "(n, account_with (Some (obj h r)) a) \<in> set (c_Accounts (map_refs (obj h) c))"
    using assms by (force simp: map_refs_def)
  then have "(n, account_with (Some (tagged (obj h r))) (account_with (Some (obj h r)) a)) \<in>
      set (c_Accounts (yaml_view (map_refs (obj h) c)))"
    by (force simp: yaml_view_def map_refs_def [of tagged])
  then show ?thesis by (auto simp: forSave_fields tagged_def intro!: exI)
qed

subsection \<open>A configuration and its file\<close>

definition one_file :: "oauth2_settings server_config \<Rightarrow> yaml" where
  "one_file v =
     \<lparr>Marshal = (\<lambda>c. if c = v then Inr ''saved'' else Inl (Failure ''cannot encode'')),
      Unmarshal = (\<lambda>raw d. if raw = ''saved'' then Inr v else Inl (Failure ''cannot decode''))\<rparr>"

lemma one_file_faithful: "yaml_faithful (one_file v)"
  by (simp add: yaml_faithful_def one_file_def)

definition demo_env :: environment where
  "demo_env k = (if k = ''BRIEFKASTEN_IMAP_PASSWORD'' then ''s3cret'' else [])"

definition demo_config :: "addr server_config" where
  "demo_config =
     default_config\<lparr>c_IMAP := no_imap\<lparr>i_Addr := ''imap:993'', i_Username := ''me'', i_Password := ''s3cret''\<rparr>,
       c_path := ''/c.yaml'', c_envSecrets := {''BRIEFKASTEN_IMAP_PASSWORD''}\<rparr>"

definition demo_machine :: "unit host" where
  "demo_machine =
     \<lparr>h_disk = \<lparr>tree = [([], Dir)], faults = [], crashed = False\<rparr>,
      h_records = \<lparr>tree = [], faults = [], crashed = False, wire = [], verdicts = [], flocks = []\<rparr>,
      h_heap = \<lparr>obj = (\<lambda>a. no_settings), next_obj = 0\<rparr>, h_net = ()\<rparr>"

lemma demo_in_env: "in_env demo_env (h_heap demo_machine) demo_config"
  by (simp add: in_env_def demo_env_def demo_config_def ApplyEnv_def Let_def overlaySecret_def overlay_def
      overlay_flag_def overlay_limit_def overlay_imap_def overlay_outbox_def overlayCredentialsFile_def
      default_config_def no_imap_def no_outbox_def secret_keys_def)

definition demo_file :: "addr server_config \<Rightarrow> yaml" where
  "demo_file c = one_file (yaml_view (forSave (h_heap demo_machine) c))"

text \<open>The same configuration after a request moved the address, with a password for it.\<close>

definition moved_config :: "addr server_config" where
  "moved_config =
     demo_config\<lparr>c_IMAP := (c_IMAP demo_config)\<lparr>i_Addr := ''other:993'', i_Password := ''new''\<rparr>\<rparr>"

definition demo_saved :: disk where
  "demo_saved = \<lparr>tree = [([], Dir), ([''c.yaml''], File ''saved'')], faults = [], crashed = False\<rparr>"

lemma demo_path: "path_of [] ''/c.yaml'' = [''c.yaml'']"
  by code_simp

lemma demo_calls:
  "WriteFile [''c.yaml''] ''saved'' (h_disk demo_machine) = (Inr (), demo_saved)"
  "ReadFile [''c.yaml''] demo_saved = (Inr ''saved'', demo_saved)"
  by code_simp+

lemma demo_restarts:
  assumes path: "c_path c = ''/c.yaml''"
  shows "\<exists>c2 w2. restart_with (demo_file c) [] demo_env c demo_machine = (Inr c2, w2)"
proof -
  have "Save (demo_file c) [] c demo_machine = (Inr (), demo_machine\<lparr>h_disk := demo_saved\<rparr>)"
    by (simp add: Save_def demo_file_def one_file_def path demo_path on_disk_def demo_calls)
  moreover have "\<exists>c1 w2. LoadConfig (demo_file c) [] ''/c.yaml'' (demo_machine\<lparr>h_disk := demo_saved\<rparr>) = (Inr c1, w2)"
    by (simp add: LoadConfig_def demo_file_def one_file_def demo_path on_disk_def demo_calls split: prod.split)
  ultimately show ?thesis by (auto simp: restart_with_def path split: prod.split)
qed

theorem environment_password_outlives_its_address_witness:
  "\<exists>c2 w2. restart_with (demo_file moved_config) [] demo_env moved_config demo_machine = (Inr c2, w2) \<and>
     i_Addr (c_IMAP c2) = ''other:993'' \<and> i_Password (c_IMAP c2) = ''s3cret''"
proof -
  have "c_path moved_config = ''/c.yaml''" by (simp add: moved_config_def demo_config_def)
  then obtain c2 w2 where
    r: "restart_with (demo_file moved_config) [] demo_env moved_config demo_machine = (Inr c2, w2)"
    using demo_restarts by blast
  have "yaml_faithful (demo_file moved_config)" by (simp add: demo_file_def one_file_faithful)
  from this r have "i_Addr (c_IMAP c2) = i_Addr (c_IMAP moved_config) \<and>
      i_Password (c_IMAP c2) = demo_env ''BRIEFKASTEN_IMAP_PASSWORD''"
    by (rule environment_password_outlives_its_address) (simp_all add: demo_env_def)
  with r show ?thesis by (simp add: moved_config_def demo_env_def)
qed


end
