(* ===== verification/Runtime.thy ===== *)
theory Runtime
  imports Config Outbox_Histories
begin

section \<open>Reconfiguration while the server runs (runtime.go, briefkasten.go)\<close>

text \<open>
  The configuration tools and the live state they change: the configuration, the backend in the
  switchable slot of the default mailbox and of every account, and the transport of the outbox.
  A handler runs under the mutex of the tools, so it is a function of the live state.  Texts shown
  to the user are lists of details.
\<close>

subsection \<open>Patches\<close>

record oauth2_patch =
  q_CredentialsFile :: string
  q_ClientID :: string
  q_ClientSecret :: string
  q_RefreshToken :: string
  q_TokenURL :: string
  q_AccessToken :: string
  q_Mechanism :: string

record imap_patch =
  ip_Addr :: string
  ip_Username :: string
  ip_Password :: string
  ip_Mailbox :: string
  ip_Insecure :: "bool option"
  ip_OAuth2 :: "oauth2_patch option"
  ip_ClearCredentials :: bool

record smtp_patch =
  sp_Addr :: string
  sp_Username :: string
  sp_Password :: string
  sp_ImplicitTLS :: "bool option"
  sp_Insecure :: "bool option"
  sp_OAuth2 :: "oauth2_patch option"
  sp_ClearCredentials :: bool

record outbox_patch =
  op_From :: string
  op_DeliverDir :: string
  op_SMTP :: "smtp_patch option"

record set_request =
  rq_Profile :: string
  rq_Backend :: string
  rq_Maildir :: string
  rq_BulkLimit :: "int option"
  rq_IMAP :: "imap_patch option"
  rq_Outbox :: "outbox_patch option"
  rq_Confirm :: bool

subsection \<open>Asking the user\<close>

datatype elicitation = NoSession | ElicitationFailed error | Answered string

type_synonym asking = "detail list \<Rightarrow> elicitation"

definition ConfirmAction :: "asking \<Rightarrow> bool \<Rightarrow> detail list \<Rightarrow> check" where
  "ConfirmAction ask confirmed what =
     (if confirmed then None
      else case ask what of
             NoSession \<Rightarrow> Some (Failure ''confirmation required'')
           | ElicitationFailed e \<Rightarrow> Some e
           | Answered action \<Rightarrow>
               (if action = ''accept'' then None else Some (Failure ''declined by user'')))"

definition reconfigure_target :: "set_request \<Rightarrow> detail list" where
  "reconfigure_target rq =
     (case (case rq_IMAP rq of Some p \<Rightarrow> ip_Addr p | None \<Rightarrow> []) of
        a # addr \<Rightarrow> [Str ''the IMAP server to '', Str (a # addr)]
      | [] \<Rightarrow>
          (if rq_Maildir rq \<noteq> [] then [Str ''the maildir to '', Str (rq_Maildir rq)]
           else if rq_Backend rq \<noteq> [] then [Str ''the backend to '', Str (rq_Backend rq)]
           else case rq_BulkLimit rq of
                  Some n \<Rightarrow> [Str ''the bulk operation limit to '', Num (if n = 0 then MaxBulkIDs else n)]
                | None \<Rightarrow> [Str ''the mailbox configuration'']))"

definition confirmReconfigure :: "asking \<Rightarrow> set_request \<Rightarrow> check" where
  "confirmReconfigure ask rq =
     ConfirmAction ask (rq_Confirm rq) (Str ''reconfigure '' # reconfigure_target rq)"

subsection \<open>The guards\<close>

text \<open>\<open>filepath.Rel\<close> of two clean absolute paths, as its components.\<close>

fun rel_path :: "path \<Rightarrow> path \<Rightarrow> path" where
  "rel_path (b # bs) (t # ts) = (if b = t then rel_path bs ts else map (\<lambda>_. ''..'') (b # bs) @ t # ts)"
| "rel_path bs ts = map (\<lambda>_. ''..'') bs @ ts"

definition checkMaildirConfinement :: "path \<Rightarrow> string \<Rightarrow> string \<Rightarrow> check" where
  "checkMaildirConfinement cwd startup nxt =
     (if startup = [] then Some (Failure ''the server did not start with a maildir'')
      else case rel_path (path_of cwd startup) (path_of cwd nxt) of
             [] \<Rightarrow> None
           | c # cs \<Rightarrow>
               (if c = ''..'' then Some (Failure ''maildir is outside the startup maildir'') else None))"

definition errCredentialBinding :: error where
  "errCredentialBinding = Failure ''the configured credentials do not carry over''"

definition hasCredentials :: "string \<Rightarrow> string \<Rightarrow> oauth2_patch option \<Rightarrow> bool" where
  "hasCredentials username password q \<longleftrightarrow> username \<noteq> [] \<or> password \<noteq> [] \<or> q \<noteq> None"

definition given :: "string \<Rightarrow> string \<Rightarrow> string" where
  "given new old = (if new \<noteq> [] then new else old)"

definition applyOAuth2Patch :: "oauth2_settings option \<Rightarrow> oauth2_patch \<Rightarrow> oauth2_settings" where
  "applyOAuth2Patch cur q =
     (let n = (case cur of
                 None \<Rightarrow> no_settings
               | Some c \<Rightarrow> no_settings\<lparr>ClientID := ClientID c, ClientSecret := ClientSecret c,
                             RefreshToken := RefreshToken c, TokenURL := TokenURL c,
                             AccessToken := AccessToken c, Mechanism := Mechanism c,
                             CredentialsFile := CredentialsFile c\<rparr>);
          n1 = (if q_CredentialsFile q \<noteq> [] \<and> q_CredentialsFile q \<noteq> CredentialsFile n
                then n\<lparr>ClientID := [], ClientSecret := [], TokenURL := [],
                       CredentialsFile := q_CredentialsFile q\<rparr>
                else n) in
      n1\<lparr>ClientID := given (q_ClientID q) (ClientID n1),
         ClientSecret := given (q_ClientSecret q) (ClientSecret n1),
         RefreshToken := given (q_RefreshToken q) (RefreshToken n1),
         TokenURL := given (q_TokenURL q) (TokenURL n1),
         AccessToken := given (q_AccessToken q) (AccessToken n1),
         Mechanism := given (q_Mechanism q) (Mechanism n1)\<rparr>)"

definition patch_ref :: "oauth2_patch option \<Rightarrow> addr option \<Rightarrow> heap \<Rightarrow> addr option \<times> heap" where
  "patch_ref q ref h =
     (case q of
        None \<Rightarrow> (ref, h)
      | Some p \<Rightarrow> (case alloc (applyOAuth2Patch (map_option (obj h) ref) p) h of (a, h1) \<Rightarrow> (Some a, h1)))"

text \<open>TLS is one-way: a patch may turn it on, never off.\<close>

definition patch_insecure :: "bool option \<Rightarrow> bool \<Rightarrow> error + bool" where
  "patch_insecure p old =
     (case p of
        None \<Rightarrow> Inr old
      | Some b \<Rightarrow>
          if b \<and> \<not> old then Inl (Failure ''insecure cannot be enabled at runtime'') else Inr b)"

subsection \<open>Merging a patch\<close>

definition patch_imap :: "imap_patch \<Rightarrow> addr imap_settings \<Rightarrow> heap \<Rightarrow> (error + addr imap_settings) \<times> heap"
  where
  "patch_imap p i h =
     (let moves = (ip_Addr p \<noteq> [] \<and> ip_Addr p \<noteq> i_Addr i) in
      if moves \<and> \<not> ip_ClearCredentials p \<and> \<not> hasCredentials (ip_Username p) (ip_Password p) (ip_OAuth2 p)
      then (Inl errCredentialBinding, h)
      else
        (let i1 = (if moves then i\<lparr>i_Username := [], i_Password := [], i_OAuth2 := None,
                                   i_Addr := ip_Addr p\<rparr> else i);
             i2 = i1\<lparr>i_Username := given (ip_Username p) (i_Username i1),
                     i_Password := given (ip_Password p) (i_Password i1),
                     i_Mailbox := given (ip_Mailbox p) (i_Mailbox i1)\<rparr> in
         case patch_insecure (ip_Insecure p) (i_Insecure i) of
           Inl e \<Rightarrow> (Inl e, h)
         | Inr b \<Rightarrow>
             (case patch_ref (ip_OAuth2 p) (i_OAuth2 i2) h of
                (r, h1) \<Rightarrow> (Inr (i2\<lparr>i_Insecure := b, i_OAuth2 := r\<rparr>), h1))))"

definition patch_smtp :: "smtp_patch \<Rightarrow> addr smtp_settings \<Rightarrow> heap \<Rightarrow> (error + addr smtp_settings) \<times> heap"
  where
  "patch_smtp p t h =
     (let moves = (sp_Addr p \<noteq> [] \<and> sp_Addr p \<noteq> t_Addr t) in
      if moves \<and> \<not> sp_ClearCredentials p \<and> \<not> hasCredentials (sp_Username p) (sp_Password p) (sp_OAuth2 p)
      then (Inl errCredentialBinding, h)
      else
        (let t1 = (if moves then t\<lparr>t_Username := [], t_Password := [], t_OAuth2 := None,
                                   t_Addr := sp_Addr p\<rparr> else t);
             t2 = t1\<lparr>t_Username := given (sp_Username p) (t_Username t1),
                     t_Password := given (sp_Password p) (t_Password t1),
                     t_ImplicitTLS := (case sp_ImplicitTLS p of Some b \<Rightarrow> b | None \<Rightarrow> t_ImplicitTLS t1)\<rparr> in
         case patch_insecure (sp_Insecure p) (t_Insecure t) of
           Inl e \<Rightarrow> (Inl e, h)
         | Inr b \<Rightarrow>
             (case patch_ref (sp_OAuth2 p) (t_OAuth2 t2) h of
                (r, h1) \<Rightarrow> (Inr (t2\<lparr>t_Insecure := b, t_OAuth2 := r\<rparr>), h1))))"

definition patch_outbox ::
  "outbox_patch \<Rightarrow> addr outbox_settings \<Rightarrow> heap \<Rightarrow> (error + addr outbox_settings) \<times> heap" where
  "patch_outbox p x h =
     (let x1 = x\<lparr>x_From := given (op_From p) (x_From x),
                 x_DeliverDir := given (op_DeliverDir p) (x_DeliverDir x)\<rparr> in
      case op_SMTP p of
        None \<Rightarrow> (Inr x1, h)
      | Some sp \<Rightarrow>
          (case patch_smtp sp (x_SMTP x) h of
             (Inl e, h1) \<Rightarrow> (Inl e, h1)
           | (Inr t, h1) \<Rightarrow> (Inr (x1\<lparr>x_SMTP := t\<rparr>), h1)))"

definition patch_limit :: "int option \<Rightarrow> int \<Rightarrow> error + int" where
  "patch_limit p old =
     (case p of
        None \<Rightarrow> Inr old
      | Some n \<Rightarrow> if n < 0 then Inl (Failure ''bulk_limit must be positive or omitted'') else Inr n)"

definition patch_maildir :: "path \<Rightarrow> string \<Rightarrow> string \<Rightarrow> string \<Rightarrow> error + string" where
  "patch_maildir cwd startup p old =
     (if p \<noteq> [] \<and> p \<noteq> old then
        (case checkMaildirConfinement cwd startup p of Some e \<Rightarrow> Inl e | None \<Rightarrow> Inr p)
      else Inr old)"

text \<open>The candidate: the patch merged onto a copy of the configuration, in the order of the code.\<close>

definition merge_patch ::
  "path \<Rightarrow> string \<Rightarrow> set_request \<Rightarrow> addr server_config \<Rightarrow> heap \<Rightarrow> (error + addr server_config) \<times> heap" where
  "merge_patch cwd startup rq c h =
     (case patch_limit (rq_BulkLimit rq) (c_BulkLimit c) of
        Inl e \<Rightarrow> (Inl e, h)
      | Inr limit \<Rightarrow>
          (case patch_maildir cwd startup (rq_Maildir rq) (c_Maildir c) of
             Inl e \<Rightarrow> (Inl e, h)
           | Inr dir \<Rightarrow>
               (case (case rq_IMAP rq of None \<Rightarrow> (Inr (c_IMAP c), h) | Some p \<Rightarrow> patch_imap p (c_IMAP c) h) of
                  (Inl e, h1) \<Rightarrow> (Inl e, h1)
                | (Inr i, h1) \<Rightarrow>
                    (case (case rq_Outbox rq of None \<Rightarrow> (Inr (c_Outbox c), h1)
                           | Some p \<Rightarrow> patch_outbox p (c_Outbox c) h1) of
                       (Inl e, h2) \<Rightarrow> (Inl e, h2)
                     | (Inr x, h2) \<Rightarrow>
                         (Inr (c\<lparr>c_Backend := given (rq_Backend rq) (c_Backend c), c_BulkLimit := limit,
                                 c_Maildir := dir, c_IMAP := i, c_Outbox := x\<rparr>), h2)))))"

subsection \<open>The live state\<close>

record 'n live =
  lv_startup :: string
  lv_config :: "addr server_config"
  lv_mailbox :: backend
  lv_sender :: "transport option"
  lv_accounts :: "(string \<times> backend) list"
  lv_host :: "'n host"

record set_result =
  sr_backend :: string
  sr_bulk_limit :: int
  sr_sender :: string
  sr_accounts_rebuilt :: "string list"
  sr_accounts_diverged :: "string list"
  sr_persisted :: bool
  sr_persist_error :: "error option"
  sr_profile :: string

definition liveAccountNames :: "(string \<times> backend) list \<Rightarrow> string list" where
  "liveAccountNames live = sort (map fst live)"

definition divergedAccounts :: "'s server_config \<Rightarrow> (string \<times> backend) list \<Rightarrow> string list" where
  "divergedAccounts c live =
     sort (filter (\<lambda>n. n \<notin> fst ` set live) (map fst (c_Accounts c)) @
           filter (\<lambda>n. n \<notin> fst ` set (c_Accounts c)) (map fst live))"

definition buildAccountSwaps ::
  "'n toolbox \<Rightarrow> account_walk \<Rightarrow> addr server_config \<Rightarrow> (string \<times> backend) list \<Rightarrow>
   ('n host, (string \<times> backend) list) effect" where
  "buildAccountSwaps tb ord nxt live w =
     (if live = [] \<and> c_Accounts nxt = [] then (Inr [], w)
      else case BuildAccounts tb ord nxt w of
             (Inl e, w1) \<Rightarrow> (Inl e, w1)
           | (Inr built, w1) \<Rightarrow>
               (Inr (map (\<lambda>(n, _). (n, case map_of built n of Some mb \<Rightarrow> mb | None \<Rightarrow> Revoked n)) live), w1))"

definition swap_all :: "(string \<times> backend) list \<Rightarrow> (string \<times> backend) list \<Rightarrow> (string \<times> backend) list" where
  "swap_all swaps live =
     map (\<lambda>(n, old). (n, case map_of swaps n of Some mb \<Rightarrow> mb | None \<Rightarrow> old)) live"

text \<open>Building every part of a candidate; nothing live changes here but what the heap holds.\<close>

definition build_sender_if ::
  "'n toolbox \<Rightarrow> transport option \<Rightarrow> addr server_config \<Rightarrow> ('n host, (transport \<times> string) option) effect"
  where
  "build_sender_if tb old nxt w =
     (if old \<noteq> None \<and> x_Dir (c_Outbox nxt) \<noteq> [] then
        (case buildSender tb nxt w of (Inl e, w1) \<Rightarrow> (Inl e, w1) | (Inr p, w1) \<Rightarrow> (Inr (Some p), w1))
      else (Inr None, w))"

definition build_all ::
  "'n toolbox \<Rightarrow> account_walk \<Rightarrow> addr server_config \<Rightarrow> transport option \<Rightarrow> (string \<times> backend) list \<Rightarrow>
   ('n host, (backend \<times> string) \<times> (transport \<times> string) option \<times> (string \<times> backend) list) effect" where
  "build_all tb ord nxt old live w =
     (case BuildMailbox tb nxt w of
        (Inl e, w1) \<Rightarrow> (Inl e, w1)
      | (Inr mb, w1) \<Rightarrow>
          (case build_sender_if tb old nxt w1 of
             (Inl e, w2) \<Rightarrow> (Inl e, w2)
           | (Inr sd, w2) \<Rightarrow>
               (case buildAccountSwaps tb ord nxt live w2 of
                  (Inl e, w3) \<Rightarrow> (Inl e, w3)
                | (Inr swaps, w3) \<Rightarrow> (Inr (mb, sd, swaps), w3))))"

definition commitConfig ::
  "'n toolbox \<Rightarrow> account_walk \<Rightarrow> addr server_config \<Rightarrow> ('n live, set_result) effect" where
  "commitConfig tb ord nxt lv =
     (case build_all tb ord nxt (lv_sender lv) (lv_accounts lv) (lv_host lv) of
        (Inl e, w1) \<Rightarrow> (Inl e, lv\<lparr>lv_host := w1\<rparr>)
      | (Inr ((mb, mdesc), sd, swaps), w1) \<Rightarrow>
          (let lv1 = lv\<lparr>lv_config := nxt, lv_mailbox := mb,
                        lv_sender := (case sd of Some (s, _) \<Rightarrow> Some s | None \<Rightarrow> lv_sender lv),
                        lv_accounts := swap_all swaps (lv_accounts lv), lv_host := w1\<rparr>;
               result = \<lparr>sr_backend = mdesc, sr_bulk_limit = effectiveBulkLimit nxt,
                         sr_sender = (case sd of Some (_, d) \<Rightarrow> d | None \<Rightarrow> []),
                         sr_accounts_rebuilt = (if swaps \<noteq> [] then liveAccountNames (lv_accounts lv) else []),
                         sr_accounts_diverged = divergedAccounts nxt (lv_accounts lv),
                         sr_persisted = False, sr_persist_error = None, sr_profile = []\<rparr> in
           if c_path nxt = [] then (Inr result, lv1)
           else case Save (tb_yaml tb) (tb_cwd tb) nxt (lv_host lv1) of
                  (Inl e, w2) \<Rightarrow> (Inr (result\<lparr>sr_persist_error := Some e\<rparr>), lv1\<lparr>lv_host := w2\<rparr>)
                | (Inr _, w2) \<Rightarrow> (Inr (result\<lparr>sr_persisted := True\<rparr>), lv1\<lparr>lv_host := w2\<rparr>)))"

subsection \<open>The tools\<close>

definition applyProfile ::
  "'n toolbox \<Rightarrow> account_walk \<Rightarrow> asking \<Rightarrow> string \<Rightarrow> bool \<Rightarrow> ('n live, set_result) effect" where
  "applyProfile tb ord ask name confirmed lv =
     (case map_of (c_Profiles (lv_config lv)) name of
        None \<Rightarrow> (Inl (Failure ''unknown profile''), lv)
      | Some p \<Rightarrow>
          (case ConfirmAction ask confirmed [Str ''switch to profile '', Str name] of
             Some e \<Rightarrow> (Inl e, lv)
           | None \<Rightarrow>
               (case commitConfig tb ord (cfg_applyProfile (lv_config lv) p) lv of
                  (Inl e, lv1) \<Rightarrow> (Inl e, lv1)
                | (Inr r, lv1) \<Rightarrow> (Inr (r\<lparr>sr_profile := name\<rparr>), lv1))))"

definition config_set ::
  "'n toolbox \<Rightarrow> account_walk \<Rightarrow> asking \<Rightarrow> set_request \<Rightarrow> ('n live, set_result) effect" where
  "config_set tb ord ask rq lv =
     (if rq_Profile rq \<noteq> [] then
        (if rq_Backend rq \<noteq> [] \<or> rq_Maildir rq \<noteq> [] \<or> rq_IMAP rq \<noteq> None \<or> rq_Outbox rq \<noteq> None
         then (Inl (Failure ''profile cannot be combined with field-level settings''), lv)
         else applyProfile tb ord ask (rq_Profile rq) (rq_Confirm rq) lv)
      else case confirmReconfigure ask rq of
             Some e \<Rightarrow> (Inl e, lv)
           | None \<Rightarrow>
               (case merge_patch (tb_cwd tb) (lv_startup lv) rq (lv_config lv) (h_heap (lv_host lv)) of
                  (Inl e, h) \<Rightarrow> (Inl e, lv\<lparr>lv_host := (lv_host lv)\<lparr>h_heap := h\<rparr>\<rparr>)
                | (Inr nxt, h) \<Rightarrow>
                    commitConfig tb ord nxt (lv\<lparr>lv_host := (lv_host lv)\<lparr>h_heap := h\<rparr>\<rparr>)))"

text \<open>What \<open>config.get\<close> shows.\<close>

record account_info =
  ai_name :: string
  ai_backend :: string
  ai_addr :: string
  ai_username :: string
  ai_insecure :: bool
  ai_maildir :: string
  ai_served :: bool

record config_info =
  ci_backend :: string
  ci_maildir :: string
  ci_bulk_limit :: int
  ci_addr :: string
  ci_username :: string
  ci_mailbox :: string
  ci_insecure :: bool
  ci_sending :: bool
  ci_profiles :: "string list"
  ci_accounts :: "account_info list"
  ci_diverged :: "string list"
  ci_config_file :: string

definition account_info_of :: "(string \<times> backend) list \<Rightarrow> string \<Rightarrow> addr account_settings \<Rightarrow> account_info" where
  "account_info_of live n a =
     (let b = ResolvedBackend (sub_config default_config a); remote = (b = ''imap''); i = a_IMAP a in
      \<lparr>ai_name = n, ai_backend = b,
       ai_addr = (if remote then i_Addr i else []), ai_username = (if remote then i_Username i else []),
       ai_insecure = (remote \<and> i_Insecure i), ai_maildir = (if remote then [] else a_Maildir a),
       ai_served = (n \<in> fst ` set live)\<rparr>)"

definition accountsInfo :: "addr server_config \<Rightarrow> (string \<times> backend) list \<Rightarrow> account_info list" where
  "accountsInfo c live =
     map (\<lambda>n. account_info_of live n (the (map_of (c_Accounts c) n))) (sort (map fst (c_Accounts c)))"

definition config_get :: "'n live \<Rightarrow> config_info" where
  "config_get lv =
     (let c = lv_config lv; i = c_IMAP c in
      \<lparr>ci_backend = ResolvedBackend c, ci_maildir = c_Maildir c, ci_bulk_limit = effectiveBulkLimit c,
       ci_addr = i_Addr i, ci_username = i_Username i, ci_mailbox = i_Mailbox i,
       ci_insecure = i_Insecure i, ci_sending = (lv_sender lv \<noteq> None), ci_profiles = ProfileNames c,
       ci_accounts = accountsInfo c (lv_accounts lv), ci_diverged = divergedAccounts c (lv_accounts lv),
       ci_config_file = c_path c\<rparr>)"

text \<open>The stand-in for an account that is no longer configured refuses every call.\<close>

definition revoked_err :: "string \<Rightarrow> error" where
  "revoked_err name = Failure (''account '' @ name @ '' is no longer configured'')"

definition revoked_mailbox :: "string \<Rightarrow> 'w mailbox" where
  "revoked_mailbox name =
     Mailbox
       \<lparr>ListUnreadOp = (\<lambda>w. (Inl (revoked_err name), w)),
        FetchOp = (\<lambda>i w. (Inl (revoked_err name), w)), MarkSeenOp = (\<lambda>i w. (Inl (revoked_err name), w)),
        ScopedMailbox = Some (\<lambda>s w. (Inl (revoked_err name), w)), Searcher = None,
        ScopedSearcher = None, SenderSearcher = None, HeaderFetcher = None, BatchHeaderFetcher = None,
        FolderLister = None, FolderManager = None, Curator = None, Mover = None, MessageSizer = None,
        BulkFetcher = None, BulkMailbox = None, BulkCurator = None, BulkMover = None,
        CurationInspector = None, CapabilityProvider = None, LimitProvider = None, LimitSetter = None\<rparr>
       None"

subsection \<open>Starting up\<close>

definition NewClientOutbox :: "path \<Rightarrow> outbox_world sender \<Rightarrow> (outbox_world, outbox_world outbox) effect" where
  "NewClientOutbox root sd w =
     (case NewOutboxStore root w of
        (Inl e, w1) \<Rightarrow> (Inl e, w1)
      | (Inr st, w1) \<Rightarrow> (Inr (NewOutbox (OutboxStore st) sd), w1))"

definition NewServerOutbox ::
  "map_order \<Rightarrow> statekit \<Rightarrow> path \<Rightarrow> outbox_world sender \<Rightarrow> (outbox_world, outbox_world outbox) effect" where
  "NewServerOutbox ord sk root sd w =
     (case NewClientOutbox root sd w of
        (Inl e, w1) \<Rightarrow> (Inl e, w1)
      | (Inr ob, w1) \<Rightarrow>
          (case Recover ord sk ob w1 of
             (None, w2) \<Rightarrow> (Inr ob, w2)
           | (Some e, w2) \<Rightarrow> if errors_is e ErrOutboxBusy then (Inr ob, w2) else (Inl e, w2)))"

text \<open>How a transport looks to the outbox that holds it, \<open>carrier\<close>, is a parameter.\<close>

definition BuildOutbox ::
  "'n toolbox \<Rightarrow> (transport \<Rightarrow> outbox_world sender) \<Rightarrow>
   (path \<Rightarrow> outbox_world sender \<Rightarrow> (outbox_world, outbox_world outbox) effect) \<Rightarrow> addr server_config \<Rightarrow>
   ('n host, (outbox_world outbox \<times> string) option) effect" where
  "BuildOutbox tb carrier open_outbox c w =
     (if x_Dir (c_Outbox c) = [] then (Inr None, w)
      else case buildSender tb c w of
             (Inl e, w1) \<Rightarrow> (Inl e, w1)
           | (Inr (s, d), w1) \<Rightarrow>
               (case on_records (open_outbox (path_of (tb_cwd tb) (x_Dir (c_Outbox c))) (carrier s)) w1 of
                  (Inl e, w2) \<Rightarrow> (Inl e, w2)
                | (Inr ob, w2) \<Rightarrow> (Inr (Some (ob, d)), w2)))"

definition NewConfigServer ::
  "'n toolbox \<Rightarrow> account_walk \<Rightarrow> map_order \<Rightarrow> statekit \<Rightarrow> (transport \<Rightarrow> outbox_world sender) \<Rightarrow>
   addr server_config \<Rightarrow> ('n host, 'n live) effect" where
  "NewConfigServer tb ord mo sk carrier c w =
     (case BuildMailbox tb c w of
        (Inl e, w1) \<Rightarrow> (Inl e, w1)
      | (Inr (mb, _), w1) \<Rightarrow>
          (case BuildAccounts tb ord c w1 of
             (Inl e, w2) \<Rightarrow> (Inl e, w2)
           | (Inr accs, w2) \<Rightarrow>
               (let start = (\<lambda>sd w. (Inr \<lparr>lv_startup = c_Maildir c, lv_config = c, lv_mailbox = mb,
                       lv_sender = sd, lv_accounts = (if c_RuntimeConfig c then accs else []),
                       lv_host = w\<rparr>, w)) in
                if x_Dir (c_Outbox c) = [] then start None w2
                else case buildSender tb c w2 of
                       (Inl e, w3) \<Rightarrow> (Inl e, w3)
                     | (Inr (s, _), w3) \<Rightarrow>
                         (case on_records (NewServerOutbox mo sk (path_of (tb_cwd tb) (x_Dir (c_Outbox c)))
                                              (carrier s)) w3 of
                            (Inl e, w4) \<Rightarrow> (Inl e, w4)
                          | (Inr ob, w4) \<Rightarrow> start (Some s) w4))))"

end
