(* ===== verification/Runtime_Facts.thy ===== *)
theory Runtime_Facts
  imports Runtime Maildir_Facts
begin

section \<open>What reconfiguration keeps\<close>

text \<open>
  The live slots are a function of the configuration, at the start and after every request; a
  refused request changes none of them; what a request can make of the endpoint, its credentials,
  TLS and the Maildir; what is written to the file and what a restart makes of it; and what
  \<open>config.get\<close> can show.
\<close>

subsection \<open>What a configuration describes\<close>

text \<open>The specification: the backend, the transport and the account slots a configuration names.\<close>

definition spec_backend :: "path \<Rightarrow> addr server_config \<Rightarrow> backend" where
  "spec_backend cwd c =
     (if ResolvedBackend c = ''maildir'' then
        DirBackend \<lparr>m_root = path_of cwd (c_Maildir c), m_base = path_of cwd (c_Maildir c),
                    maxBulkIDs = effectiveBulkLimit c\<rparr>
      else
        ResilientIMAP \<lparr>im_cfg = (imap_config_of c)\<lparr>ic_Mailbox :=
          (if i_Mailbox (c_IMAP c) = [] then ''INBOX'' else i_Mailbox (c_IMAP c))\<rparr>\<rparr>)"

definition spec_transport :: "path \<Rightarrow> addr server_config \<Rightarrow> transport" where
  "spec_transport cwd c =
     (let x = c_Outbox c in
      if t_Addr (x_SMTP x) \<noteq> [] then SMTPTransport \<lparr>sm_cfg = smtp_config_of x, sm_retry = smtp_retry\<rparr>
      else DirTransport \<lparr>s_root = path_of cwd (x_DeliverDir x), s_from = x_From x\<rparr>)"

definition spec_account :: "path \<Rightarrow> addr server_config \<Rightarrow> string \<Rightarrow> backend" where
  "spec_account cwd c n =
     (case map_of (c_Accounts c) n of Some a \<Rightarrow> spec_backend cwd (sub_config c a) | None \<Rightarrow> Revoked n)"

definition in_step :: "path \<Rightarrow> 'n live \<Rightarrow> bool" where
  "in_step cwd lv \<longleftrightarrow>
     lv_mailbox lv = spec_backend cwd (lv_config lv) \<and>
     (lv_sender lv \<noteq> None \<and> x_Dir (c_Outbox (lv_config lv)) \<noteq> [] \<longrightarrow>
        lv_sender lv = Some (spec_transport cwd (lv_config lv))) \<and>
     (\<forall>(n, b) \<in> set (lv_accounts lv). b = spec_account cwd (lv_config lv) n) \<and>
     distinct (map fst (c_Accounts (lv_config lv))) \<and>
     fst ` set (lv_accounts lv) = fst ` set (c_Accounts (lv_config lv))"

text \<open>Go walks a map in some order.\<close>

definition walks :: "account_walk \<Rightarrow> bool" where
  "walks ord \<longleftrightarrow> (\<forall>as. mset (ord as) = mset as)"

lemma effectiveBulkLimit_positive: "effective_limit (effectiveBulkLimit c) = effectiveBulkLimit c"
  by (simp add: effective_limit_def effectiveBulkLimit_def MaxBulkIDs_def)

lemma NewWithBulkLimit_result:
  "NewWithBulkLimit root limit w = (Inr m, w1) \<Longrightarrow>
   m = \<lparr>m_root = root, m_base = root, maxBulkIDs = effective_limit limit\<rparr>"
  by (auto simp: NewWithBulkLimit_def split: prod.splits sum.splits)

lemma on_disk_Inr:
  "on_disk f w = (Inr x, w1) \<longleftrightarrow>
   (\<exists>d. f (h_disk w) = (Inr x, d) \<and> w1 = w\<lparr>h_disk := d\<rparr>)"
  by (auto simp: on_disk_def split: prod.splits)

lemma BuildMailbox_result:
  "BuildMailbox tb c w = (Inr (b, d), w1) \<Longrightarrow> b = spec_backend (tb_cwd tb) c"
  by (auto simp: BuildMailbox_def spec_backend_def on_disk_Inr imap_New_def imap_config_of_def Let_def
      effectiveBulkLimit_positive dest!: NewWithBulkLimit_result split: prod.splits sum.splits if_splits)

lemma buildSender_result:
  "buildSender tb c w = (Inr (s, d), w1) \<Longrightarrow> s = spec_transport (tb_cwd tb) c"
  by (auto simp: buildSender_def spec_transport_def on_disk_Inr NewSMTPSender_def NewSender_def Let_def
      split: prod.splits sum.splits if_splits option.splits)

lemma build_accounts_result:
  "build_accounts tb c as w = (Inr out, w1) \<Longrightarrow>
   out = map (\<lambda>(n, a). (n, spec_backend (tb_cwd tb) (sub_config c a))) as"
  by (induction tb c as w arbitrary: out w1 rule: build_accounts.induct)
    (auto dest!: BuildMailbox_result split: prod.splits sum.splits)

lemma map_of_walk:
  assumes "walks ord" "distinct (map fst as)"
  shows "map_of (ord as) = map_of as"
proof -
  have m: "mset (ord as) = mset as" using assms(1) by (simp add: walks_def)
  then have "mset (map fst (ord as)) = mset (map fst as)" by simp
  then have "distinct (map fst (ord as))" using assms(2) mset_eq_imp_distinct_iff by blast
  then show ?thesis using map_of_inject_set [OF _ assms(2)] mset_eq_setD [OF m] by blast
qed

lemma map_of_map_snd: "map_of (map (\<lambda>(n, a). (n, f a)) as) n = map_option f (map_of as n)"
  by (induction as) auto

lemma BuildAccounts_result:
  assumes "walks ord" "distinct (map fst (c_Accounts c))"
    and "BuildAccounts tb ord c w = (Inr built, w1)"
  shows "map_of built n = map_option (\<lambda>a. spec_backend (tb_cwd tb) (sub_config c a)) (map_of (c_Accounts c) n)"
  using build_accounts_result [OF assms(3) [unfolded BuildAccounts_def]]
  by (simp add: map_of_map_snd map_of_walk [OF assms(1,2)])

lemma buildAccountSwaps_result:
  assumes "walks ord" "distinct (map fst (c_Accounts c))"
    and "buildAccountSwaps tb ord c live w = (Inr swaps, w1)"
  shows "swaps = map (\<lambda>(n, _). (n, spec_account (tb_cwd tb) c n)) live"
proof (cases "live = [] \<and> c_Accounts c = []")
  case True
  with assms(3) show ?thesis by (simp add: buildAccountSwaps_def)
next
  case False
  with assms(3) obtain built where b: "BuildAccounts tb ord c w = (Inr built, w1)"
    and s: "swaps = map (\<lambda>(n, _). (n, case map_of built n of Some mb \<Rightarrow> mb | None \<Rightarrow> Revoked n)) live"
    by (auto simp: buildAccountSwaps_def split: prod.splits sum.splits)
  have "(case map_of built n of Some mb \<Rightarrow> mb | None \<Rightarrow> Revoked n) = spec_account (tb_cwd tb) c n" for n
    by (simp add: BuildAccounts_result [OF assms(1,2) b] spec_account_def split: option.split)
  with s show ?thesis by simp
qed

lemma swap_all_keyed: "swap_all (map (\<lambda>(n, _). (n, f n)) live) live = map (\<lambda>(n, _). (n, f n)) live"
proof -
  let ?s = "map (\<lambda>(n, _). (n, f n)) live"
  have found: "(n, b) \<in> set live \<Longrightarrow> map_of ?s n = Some (f n)" for n b
    by (induction live) auto
  have "(case map_of ?s n of Some mb \<Rightarrow> mb | None \<Rightarrow> b) = f n" if "(n, b) \<in> set live" for n b
    using found [OF that] by simp
  then show ?thesis unfolding swap_all_def by (intro map_cong refl) auto
qed

lemma build_all_result:
  assumes "walks ord" "distinct (map fst (c_Accounts c))"
    and "build_all tb ord c old live w = (Inr ((mb, md), sd, swaps), w1)"
  shows "mb = spec_backend (tb_cwd tb) c"
    and "sd = None \<and> (old = None \<or> x_Dir (c_Outbox c) = []) \<or>
         (\<exists>d. sd = Some (spec_transport (tb_cwd tb) c, d) \<and> old \<noteq> None \<and> x_Dir (c_Outbox c) \<noteq> [])"
    and "swaps = map (\<lambda>(n, _). (n, spec_account (tb_cwd tb) c n)) live"
  using assms(3) buildAccountSwaps_result [OF assms(1,2)]
  by (auto simp: build_all_def build_sender_if_def dest!: BuildMailbox_result buildSender_result
      split: prod.splits sum.splits if_splits)

subsection \<open>What a request does to the live state\<close>

lemma commitConfig_refused:
  "commitConfig tb ord nxt lv = (Inl e, lv1) \<Longrightarrow> \<exists>w. lv1 = lv\<lparr>lv_host := w\<rparr>"
  by (auto simp: commitConfig_def Let_def split: prod.splits sum.splits if_splits)

lemma commitConfig_done:
  assumes "walks ord" "distinct (map fst (c_Accounts nxt))" "commitConfig tb ord nxt lv = (Inr r, lv1)"
  shows "lv_config lv1 = nxt" "lv_startup lv1 = lv_startup lv"
    "lv_mailbox lv1 = spec_backend (tb_cwd tb) nxt"
    "lv_sender lv1 = (if lv_sender lv = None \<or> x_Dir (c_Outbox nxt) = [] then lv_sender lv
                      else Some (spec_transport (tb_cwd tb) nxt))"
    "lv_accounts lv1 = map (\<lambda>(n, _). (n, spec_account (tb_cwd tb) nxt n)) (lv_accounts lv)"
proof -
  obtain mb md sd swaps w1 where
    b: "build_all tb ord nxt (lv_sender lv) (lv_accounts lv) (lv_host lv) = (Inr ((mb, md), sd, swaps), w1)"
    using assms(3) by (auto simp: commitConfig_def split: prod.splits sum.splits)
  note parts = build_all_result [OF assms(1,2) b]
  let ?lv = "lv\<lparr>lv_config := nxt, lv_mailbox := mb,
      lv_sender := (case sd of Some (s, _) \<Rightarrow> Some s | None \<Rightarrow> lv_sender lv),
      lv_accounts := swap_all swaps (lv_accounts lv), lv_host := w1\<rparr>"
  have "\<exists>w. lv1 = ?lv\<lparr>lv_host := w\<rparr>"
    using assms(3) b by (auto simp: commitConfig_def Let_def split: prod.splits sum.splits if_splits)
  then obtain w where "lv1 = ?lv\<lparr>lv_host := w\<rparr>" by blast
  with parts show "lv_config lv1 = nxt" "lv_startup lv1 = lv_startup lv"
    "lv_mailbox lv1 = spec_backend (tb_cwd tb) nxt"
    "lv_sender lv1 = (if lv_sender lv = None \<or> x_Dir (c_Outbox nxt) = [] then lv_sender lv
                      else Some (spec_transport (tb_cwd tb) nxt))"
    "lv_accounts lv1 = map (\<lambda>(n, _). (n, spec_account (tb_cwd tb) nxt n)) (lv_accounts lv)"
    by (auto simp: swap_all_keyed)
qed

text \<open>The candidate of a request: the profile's configuration, or the merged patch.\<close>

definition candidate :: "path \<Rightarrow> set_request \<Rightarrow> 'n live \<Rightarrow> addr server_config \<Rightarrow> bool" where
  "candidate cwd rq lv nxt \<longleftrightarrow>
     (if rq_Profile rq \<noteq> [] then
        \<exists>p. map_of (c_Profiles (lv_config lv)) (rq_Profile rq) = Some p \<and>
            nxt = cfg_applyProfile (lv_config lv) p
      else \<exists>h. merge_patch cwd (lv_startup lv) rq (lv_config lv) (h_heap (lv_host lv)) = (Inr nxt, h))"

lemma config_set_cases:
  assumes "config_set tb ord ask rq lv = (res, lv1)"
  obtains (refused) e w where "res = Inl e" "lv1 = lv\<lparr>lv_host := w\<rparr>"
    | (committed) nxt r r' w where "candidate (tb_cwd tb) rq lv nxt" "res = Inr r"
        "commitConfig tb ord nxt (lv\<lparr>lv_host := w\<rparr>) = (Inr r', lv1)"
proof (cases "rq_Profile rq = []")
  case False
  with assms consider "\<exists>e. res = Inl e \<and> lv1 = lv"
    | p where "map_of (c_Profiles (lv_config lv)) (rq_Profile rq) = Some p"
      "(case commitConfig tb ord (cfg_applyProfile (lv_config lv) p) lv of
          (Inl e, lv1) \<Rightarrow> (Inl e, lv1)
        | (Inr r, lv1) \<Rightarrow> (Inr (r\<lparr>sr_profile := rq_Profile rq\<rparr>), lv1)) = (res, lv1)"
    by (auto simp: config_set_def applyProfile_def split: option.splits if_splits)
  then show thesis
  proof cases
    case 1
    then show thesis using refused [of _ "lv_host lv"] by auto
  next
    case (2 p)
    show thesis
    proof (cases "fst (commitConfig tb ord (cfg_applyProfile (lv_config lv) p) lv)")
      case (Inl e)
      with 2 have "commitConfig tb ord (cfg_applyProfile (lv_config lv) p) lv = (Inl e, lv1)"
        "res = Inl e"
        by (auto split: prod.splits sum.splits)
      with commitConfig_refused show thesis by (metis refused)
    next
      case (Inr r)
      with 2 have "commitConfig tb ord (cfg_applyProfile (lv_config lv) p) lv = (Inr r, lv1)"
        "res = Inr (r\<lparr>sr_profile := rq_Profile rq\<rparr>)"
        by (auto split: prod.splits sum.splits)
      with committed [of "cfg_applyProfile (lv_config lv) p" _ "lv_host lv" r] 2(1) False
      show thesis by (simp add: candidate_def)
    qed
  qed
next
  case True
  show thesis
  proof (cases "confirmReconfigure ask rq")
    case (Some e)
    with True assms show thesis using refused [of e "lv_host lv"] by (auto simp: config_set_def)
  next
    case None
    obtain m h where m: "merge_patch (tb_cwd tb) (lv_startup lv) rq (lv_config lv) (h_heap (lv_host lv)) = (m, h)"
      by (metis prod.collapse)
    let ?w = "(lv_host lv)\<lparr>h_heap := h\<rparr>"
    show thesis
    proof (cases m)
      case (Inl e)
      with True None m assms show thesis by (intro refused [of e ?w]) (auto simp: config_set_def)
    next
      case (Inr nxt)
      then have c: "commitConfig tb ord nxt (lv\<lparr>lv_host := ?w\<rparr>) = (res, lv1)"
        using True None m assms by (simp add: config_set_def)
      show thesis
      proof (cases res)
        case (Inl e)
        with c commitConfig_refused obtain w where "lv1 = lv\<lparr>lv_host := ?w\<rparr>\<lparr>lv_host := w\<rparr>" by metis
        with Inl show thesis by (intro refused [of e w]) auto
      next
        case (Inr r)
        with c m \<open>m = Inr nxt\<close> True show thesis by (intro committed [of nxt r ?w r]) (auto simp: candidate_def)
      qed
    qed
  qed
qed

lemma candidate_keeps:
  assumes "candidate cwd rq lv nxt"
  shows "c_Accounts nxt = c_Accounts (lv_config lv)" "c_Profiles nxt = c_Profiles (lv_config lv)"
    "c_path nxt = c_path (lv_config lv)" "c_envSecrets nxt = c_envSecrets (lv_config lv)"
    "c_Auth nxt = c_Auth (lv_config lv)" "c_Transport nxt = c_Transport (lv_config lv)"
    "c_RuntimeConfig nxt = c_RuntimeConfig (lv_config lv)" "c_Addr nxt = c_Addr (lv_config lv)"
  using assms
  by (auto simp: candidate_def cfg_applyProfile_def merge_patch_def Let_def
      split: if_splits option.splits prod.splits sum.splits)

subsection \<open>Building touches no file and no grant\<close>

text \<open>
  Building may add directories, and loading credentials may fill in what identifies the client and
  set a token source; files, and the tokens somebody granted, stay as they are.
\<close>

definition grants :: "oauth2_settings \<Rightarrow> string \<times> string \<times> string \<times> string" where
  "grants st = (RefreshToken st, AccessToken st, CredentialsFile st, Mechanism st)"

definition grants_kept :: "heap \<Rightarrow> heap \<Rightarrow> bool" where
  "grants_kept h h1 \<longleftrightarrow>
     next_obj h \<le> next_obj h1 \<and> (\<forall>a < next_obj h. grants (obj h1 a) = grants (obj h a))"

definition mild :: "'n host \<Rightarrow> 'n host \<Rightarrow> bool" where
  "mild w w1 \<longleftrightarrow> dirs_added (h_disk w) (h_disk w1) \<and> grants_kept (h_heap w) (h_heap w1)"

lemma grants_kept_refl [simp]: "grants_kept h h"
  by (simp add: grants_kept_def)

lemma grants_kept_trans: "grants_kept h h1 \<Longrightarrow> grants_kept h1 h2 \<Longrightarrow> grants_kept h h2"
  by (auto simp: grants_kept_def)

lemma grants_kept_alloc: "alloc st h = (a, h1) \<Longrightarrow> grants_kept h h1 \<and> obj h1 a = st \<and> a = next_obj h \<and> a < next_obj h1"
  by (auto simp: alloc_def grants_kept_def)

lemma mild_refl [simp]: "mild w w"
  by (simp add: mild_def)

lemma mild_trans: "mild w w1 \<Longrightarrow> mild w1 w2 \<Longrightarrow> mild w w2"
  by (auto simp: mild_def intro: dirs_added_trans grants_kept_trans)

lemma mild_disk [simp]: "mild w (w\<lparr>h_disk := d\<rparr>) \<longleftrightarrow> dirs_added (h_disk w) d"
  by (simp add: mild_def)

lemma mild_heap [simp]: "mild w (w\<lparr>h_heap := h\<rparr>) \<longleftrightarrow> grants_kept (h_heap w) h"
  by (simp add: mild_def)

lemma mild_set_obj: "grants st = grants (obj (h_heap w) a) \<Longrightarrow> mild w (set_obj a st w)"
  by (simp add: mild_def set_obj_def assign_def grants_kept_def)

lemma grants_hydrate: "grants (hydrate c st) = grants st"
  by (simp add: hydrate_def grants_def Let_def split: prod.splits)

lemma on_disk_eq: "on_disk f w = (r, w1) \<Longrightarrow> \<exists>d. f (h_disk w) = (r, d) \<and> w1 = w\<lparr>h_disk := d\<rparr>"
  by (auto simp: on_disk_def split: prod.splits)

lemma credential_bytes_mild:
  "credential_bytes cwd st w = (q, w1) \<Longrightarrow> mild w w1"
  by (auto simp: credential_bytes_def split: if_splits prod.splits sum.splits
      dest!: on_disk_eq call_reads(2) intro: dirs_added_same)

lemma LoadCredentials_mild:
  assumes "LoadCredentials g cwd a u w = (r, w1)"
  shows "mild w w1"
proof -
  obtain q w2 where q: "credential_bytes cwd (obj (h_heap w) a) w = (q, w2)" by force
  have "w1 = w2 \<or> (\<exists>st. w1 = set_obj a st w2 \<and> grants st = grants (obj (h_heap w2) a))"
    using assms q
    by (auto simp: LoadCredentials_def Let_def grants_hydrate
        split: prod.splits sum.splits option.splits if_splits)
      (auto simp: grants_def)
  then show ?thesis
    using credential_bytes_mild [OF q] mild_set_obj mild_trans by metis
qed

lemma load_if_mild: "load_if tb q u w = (r, w1) \<Longrightarrow> mild w w1"
  by (auto simp: load_if_def dest: LoadCredentials_mild split: option.splits)

lemma NewWithBulkLimit_dirs: "NewWithBulkLimit root limit d = (r, d1) \<Longrightarrow> dirs_added d d1"
  by (auto simp: NewWithBulkLimit_def simp del: make_dirs.simps dest!: make_dirs_law split: prod.splits sum.splits)

lemma NewSender_dirs: "NewSender lib root a d = (r, d1) \<Longrightarrow> dirs_added d d1"
  by (auto simp: NewSender_def simp del: make_dirs.simps dest!: make_dirs_law split: prod.splits sum.splits if_splits option.splits)

lemma BuildMailbox_mild: "BuildMailbox tb c w = (r, w1) \<Longrightarrow> mild w w1"
  by (auto simp: BuildMailbox_def split: prod.splits sum.splits if_splits
      dest!: on_disk_eq NewWithBulkLimit_dirs load_if_mild)

lemma buildSender_mild: "buildSender tb c w = (r, w1) \<Longrightarrow> mild w w1"
  by (auto simp: buildSender_def Let_def split: prod.splits sum.splits if_splits
      dest!: on_disk_eq NewSender_dirs load_if_mild)

lemma build_accounts_mild: "build_accounts tb c as w = (r, w1) \<Longrightarrow> mild w w1"
proof (induction as arbitrary: w r w1)
  case (Cons x as)
  obtain n a where x: "x = (n, a)" by force
  obtain q w2 where q: "BuildMailbox tb (sub_config c a) w = (q, w2)" by force
  show ?case
  proof (cases "build_accounts tb c as w2")
    case (Pair q2 w3)
    then show ?thesis
      using Cons.prems x q BuildMailbox_mild [OF q] Cons.IH [OF Pair]
      by (auto split: sum.splits prod.splits intro: mild_trans)
  qed
qed simp

lemma build_all_mild:
  assumes "build_all tb ord c old live w = (r, w1)"
  shows "mild w w1"
proof -
  have swaps: "mild v v1" if "buildAccountSwaps tb ord c live v = (q, v1)" for v q v1
    using that
    by (auto simp: buildAccountSwaps_def BuildAccounts_def dest!: build_accounts_mild
        split: if_splits prod.splits sum.splits)
  have sd: "mild v v1" if "build_sender_if tb old c v = (q, v1)" for v q v1
    using that by (auto simp: build_sender_if_def dest!: buildSender_mild split: if_splits prod.splits sum.splits)
  from assms show ?thesis
    by (auto simp: build_all_def split: prod.splits sum.splits
        dest!: BuildMailbox_mild sd swaps intro: mild_trans)
qed

lemma commitConfig_refused_mild:
  "commitConfig tb ord nxt lv = (Inl e, lv1) \<Longrightarrow> mild (lv_host lv) (lv_host lv1)"
  by (auto simp: commitConfig_def Let_def dest!: build_all_mild split: prod.splits sum.splits if_splits)

subsection \<open>What a patch can make of the settings\<close>

lemma patch_ref_grants:
  assumes "patch_ref q r h = (r1, h1)"
  shows "grants_kept h h1 \<and>
    (case q of None \<Rightarrow> r1 = r
     | Some p \<Rightarrow> \<exists>a. r1 = Some a \<and> next_obj h \<le> a \<and> a < next_obj h1 \<and>
                    obj h1 a = applyOAuth2Patch (map_option (obj h) r) p)"
proof (cases q)
  case (Some p)
  obtain a h2 where "alloc (applyOAuth2Patch (map_option (obj h) r) p) h = (a, h2)" by force
  with assms Some grants_kept_alloc [OF this] show ?thesis by (auto simp: patch_ref_def)
qed (use assms in \<open>simp add: patch_ref_def\<close>)

text \<open>What comes with a new address: what the patch itself names, and nothing else.\<close>

definition fresh_credentials ::
  "heap \<Rightarrow> oauth2_patch option \<Rightarrow> heap \<Rightarrow> addr option \<Rightarrow> bool" where
  "fresh_credentials h q h1 r \<longleftrightarrow>
     (case q of
        None \<Rightarrow> r = None
      | Some p \<Rightarrow> \<exists>a. r = Some a \<and> next_obj h \<le> a \<and> a < next_obj h1 \<and>
                     grants (obj h1 a) = (q_RefreshToken p, q_AccessToken p, q_CredentialsFile p, q_Mechanism p))"

lemma fresh_credentials_later:
  "fresh_credentials h q h1 r \<Longrightarrow> grants_kept h0 h \<Longrightarrow> grants_kept h1 h2 \<Longrightarrow> fresh_credentials h0 q h2 r"
  by (cases q) (fastforce simp: fresh_credentials_def grants_kept_def)+

lemma grants_of_a_fresh_patch:
  "grants (applyOAuth2Patch None p) = (q_RefreshToken p, q_AccessToken p, q_CredentialsFile p, q_Mechanism p)"
  by (simp add: applyOAuth2Patch_def no_settings_def grants_def given_def Let_def)

lemma patch_insecure_one_way: "patch_insecure p old = Inr b \<Longrightarrow> b \<Longrightarrow> old"
  by (auto simp: patch_insecure_def split: option.splits if_splits)

lemma patch_ref_fresh: "patch_ref q None h = (r, h1) \<Longrightarrow> fresh_credentials h q h1 r"
  using patch_ref_grants [of q None h r h1]
  by (cases q) (auto simp: fresh_credentials_def grants_of_a_fresh_patch)

lemma patch_imap_law:
  assumes "patch_imap p i h = (r, h1)"
  shows "grants_kept h h1"
    and "r = Inr j \<Longrightarrow> i_Insecure j \<Longrightarrow> i_Insecure i"
    and "r = Inr j \<Longrightarrow> i_Addr j \<noteq> i_Addr i \<Longrightarrow>
         i_Addr j = ip_Addr p \<and> i_Username j = ip_Username p \<and> i_Password j = ip_Password p \<and>
         fresh_credentials h (ip_OAuth2 p) h1 (i_OAuth2 j)"
proof -
  show "grants_kept h h1"
    using assms patch_ref_grants
    by (auto simp: patch_imap_def Let_def split: if_splits sum.splits prod.splits) 
  show "r = Inr j \<Longrightarrow> i_Insecure j \<Longrightarrow> i_Insecure i"
    using assms
    by (auto simp: patch_imap_def Let_def dest: patch_insecure_one_way
        split: if_splits sum.splits prod.splits)
  assume "r = Inr j" "i_Addr j \<noteq> i_Addr i"
  with assms show "i_Addr j = ip_Addr p \<and> i_Username j = ip_Username p \<and> i_Password j = ip_Password p \<and>
         fresh_credentials h (ip_OAuth2 p) h1 (i_OAuth2 j)"
    by (auto simp: patch_imap_def Let_def given_def dest: patch_ref_fresh
        split: if_splits sum.splits prod.splits)
qed

lemma patch_smtp_law:
  assumes "patch_smtp p t h = (r, h1)"
  shows "grants_kept h h1"
    and "r = Inr j \<Longrightarrow> t_Insecure j \<Longrightarrow> t_Insecure t"
    and "r = Inr j \<Longrightarrow> t_Addr j \<noteq> t_Addr t \<Longrightarrow>
         t_Addr j = sp_Addr p \<and> t_Username j = sp_Username p \<and> t_Password j = sp_Password p \<and>
         fresh_credentials h (sp_OAuth2 p) h1 (t_OAuth2 j)"
proof -
  show "grants_kept h h1"
    using assms patch_ref_grants
    by (auto simp: patch_smtp_def Let_def split: if_splits sum.splits prod.splits)
  show "r = Inr j \<Longrightarrow> t_Insecure j \<Longrightarrow> t_Insecure t"
    using assms
    by (auto simp: patch_smtp_def Let_def dest: patch_insecure_one_way
        split: if_splits sum.splits prod.splits)
  assume "r = Inr j" "t_Addr j \<noteq> t_Addr t"
  with assms show "t_Addr j = sp_Addr p \<and> t_Username j = sp_Username p \<and> t_Password j = sp_Password p \<and>
         fresh_credentials h (sp_OAuth2 p) h1 (t_OAuth2 j)"
    by (auto simp: patch_smtp_def Let_def given_def dest: patch_ref_fresh
        split: if_splits sum.splits prod.splits)
qed

lemma patch_outbox_law:
  assumes "patch_outbox p x h = (r, h1)"
  shows "grants_kept h h1"
    and "r = Inr y \<Longrightarrow> t_Insecure (x_SMTP y) \<Longrightarrow> t_Insecure (x_SMTP x)"
    and "r = Inr y \<Longrightarrow> t_Addr (x_SMTP y) \<noteq> t_Addr (x_SMTP x) \<Longrightarrow>
         \<exists>sp. op_SMTP p = Some sp \<and> t_Addr (x_SMTP y) = sp_Addr sp \<and>
           t_Username (x_SMTP y) = sp_Username sp \<and> t_Password (x_SMTP y) = sp_Password sp \<and>
           fresh_credentials h (sp_OAuth2 sp) h1 (t_OAuth2 (x_SMTP y))"
  using assms
  by (auto simp: patch_outbox_def Let_def dest: patch_smtp_law
      split: option.splits sum.splits prod.splits)

lemma merge_patch_steps:
  assumes "merge_patch cwd startup rq c h = (Inr nxt, h2)"
  obtains h1 where
    "(case rq_IMAP rq of None \<Rightarrow> (Inr (c_IMAP c), h) | Some p \<Rightarrow> patch_imap p (c_IMAP c) h) =
       (Inr (c_IMAP nxt), h1)"
    "(case rq_Outbox rq of None \<Rightarrow> (Inr (c_Outbox c), h1) | Some p \<Rightarrow> patch_outbox p (c_Outbox c) h1) =
       (Inr (c_Outbox nxt), h2)"
    "patch_maildir cwd startup (rq_Maildir rq) (c_Maildir c) = Inr (c_Maildir nxt)"
  using assms by (auto simp: merge_patch_def split: sum.splits prod.splits)

lemma merge_patch_grants: "merge_patch cwd startup rq c h = (r, h2) \<Longrightarrow> grants_kept h h2"
  by (auto simp: merge_patch_def split: sum.splits prod.splits option.splits
      dest!: patch_imap_law(1) patch_outbox_law(1) intro: grants_kept_trans)

lemma rel_path_inside:
  "rel_path b t = [] \<or> hd (rel_path b t) \<noteq> ''..'' \<Longrightarrow> \<exists>r. t = b @ r"
proof (induction b arbitrary: t)
  case (Cons c bs)
  then show ?case by (cases t) (auto split: if_splits)
qed simp

lemma confinement_inside:
  assumes "checkMaildirConfinement cwd startup nxt = None"
  shows "\<exists>r. path_of cwd nxt = path_of cwd startup @ r"
proof -
  have "rel_path (path_of cwd startup) (path_of cwd nxt) = [] \<or>
        hd (rel_path (path_of cwd startup) (path_of cwd nxt)) \<noteq> ''..''"
    using assms by (auto simp: checkMaildirConfinement_def split: if_splits list.splits)
  then show ?thesis by (rule rel_path_inside)
qed

lemma merge_patch_law:
  assumes "merge_patch cwd startup rq c h = (Inr nxt, h2)"
  shows "i_Insecure (c_IMAP nxt) \<Longrightarrow> i_Insecure (c_IMAP c)"
    and "t_Insecure (x_SMTP (c_Outbox nxt)) \<Longrightarrow> t_Insecure (x_SMTP (c_Outbox c))"
    and "i_Addr (c_IMAP nxt) \<noteq> i_Addr (c_IMAP c) \<Longrightarrow>
      \<exists>p. rq_IMAP rq = Some p \<and> i_Addr (c_IMAP nxt) = ip_Addr p \<and>
        i_Username (c_IMAP nxt) = ip_Username p \<and> i_Password (c_IMAP nxt) = ip_Password p \<and>
        fresh_credentials h (ip_OAuth2 p) h2 (i_OAuth2 (c_IMAP nxt))"
    and "t_Addr (x_SMTP (c_Outbox nxt)) \<noteq> t_Addr (x_SMTP (c_Outbox c)) \<Longrightarrow>
      \<exists>x p. rq_Outbox rq = Some x \<and> op_SMTP x = Some p \<and> t_Addr (x_SMTP (c_Outbox nxt)) = sp_Addr p \<and>
        t_Username (x_SMTP (c_Outbox nxt)) = sp_Username p \<and>
        t_Password (x_SMTP (c_Outbox nxt)) = sp_Password p \<and>
        fresh_credentials h (sp_OAuth2 p) h2 (t_OAuth2 (x_SMTP (c_Outbox nxt)))"
    and "c_Maildir nxt = c_Maildir c \<or> (\<exists>r. path_of cwd (c_Maildir nxt) = path_of cwd startup @ r)"
proof -
  obtain h1 where i: "(case rq_IMAP rq of None \<Rightarrow> (Inr (c_IMAP c), h)
        | Some p \<Rightarrow> patch_imap p (c_IMAP c) h) = (Inr (c_IMAP nxt), h1)"
    and x: "(case rq_Outbox rq of None \<Rightarrow> (Inr (c_Outbox c), h1)
        | Some p \<Rightarrow> patch_outbox p (c_Outbox c) h1) = (Inr (c_Outbox nxt), h2)"
    and d: "patch_maildir cwd startup (rq_Maildir rq) (c_Maildir c) = Inr (c_Maildir nxt)"
    using assms by (rule merge_patch_steps)
  have k1: "grants_kept h h1" using i patch_imap_law(1) by (cases "rq_IMAP rq") auto
  have k2: "grants_kept h1 h2" using x patch_outbox_law(1) by (cases "rq_Outbox rq") auto
  show "i_Insecure (c_IMAP nxt) \<Longrightarrow> i_Insecure (c_IMAP c)"
    using i patch_imap_law(2) by (cases "rq_IMAP rq") auto
  show "t_Insecure (x_SMTP (c_Outbox nxt)) \<Longrightarrow> t_Insecure (x_SMTP (c_Outbox c))"
    using x patch_outbox_law(2) by (cases "rq_Outbox rq") auto
  show "c_Maildir nxt = c_Maildir c \<or> (\<exists>r. path_of cwd (c_Maildir nxt) = path_of cwd startup @ r)"
    using d confinement_inside by (auto simp: patch_maildir_def split: if_splits option.splits)
  show "\<exists>p. rq_IMAP rq = Some p \<and> i_Addr (c_IMAP nxt) = ip_Addr p \<and>
        i_Username (c_IMAP nxt) = ip_Username p \<and> i_Password (c_IMAP nxt) = ip_Password p \<and>
        fresh_credentials h (ip_OAuth2 p) h2 (i_OAuth2 (c_IMAP nxt))"
    if "i_Addr (c_IMAP nxt) \<noteq> i_Addr (c_IMAP c)"
  proof (cases "rq_IMAP rq")
    case (Some p)
    with i have "patch_imap p (c_IMAP c) h = (Inr (c_IMAP nxt), h1)" by simp
    from patch_imap_law(3) [OF this refl that] Some k2 show ?thesis
      by (auto intro: fresh_credentials_later)
  qed (use i that in auto)
  show "\<exists>x p. rq_Outbox rq = Some x \<and> op_SMTP x = Some p \<and> t_Addr (x_SMTP (c_Outbox nxt)) = sp_Addr p \<and>
        t_Username (x_SMTP (c_Outbox nxt)) = sp_Username p \<and>
        t_Password (x_SMTP (c_Outbox nxt)) = sp_Password p \<and>
        fresh_credentials h (sp_OAuth2 p) h2 (t_OAuth2 (x_SMTP (c_Outbox nxt)))"
    if "t_Addr (x_SMTP (c_Outbox nxt)) \<noteq> t_Addr (x_SMTP (c_Outbox c))"
  proof (cases "rq_Outbox rq")
    case (Some p)
    with x have "patch_outbox p (c_Outbox c) h1 = (Inr (c_Outbox nxt), h2)" by simp
    from patch_outbox_law(3) [OF this refl that] Some show ?thesis
      by (auto intro: fresh_credentials_later [OF _ k1 grants_kept_refl])
  qed (use x that in auto)
qed

lemma config_set_refused:
  assumes "config_set tb ord ask rq lv = (Inl e, lv1)"
  shows "lv1 = lv\<lparr>lv_host := lv_host lv1\<rparr> \<and> mild (lv_host lv) (lv_host lv1)"
proof
  show "lv1 = lv\<lparr>lv_host := lv_host lv1\<rparr>"
    using assms by (cases rule: config_set_cases) auto
  have "mild (lv_host lv) w" if "mild ((lv_host lv)\<lparr>h_heap := h\<rparr>) w" "grants_kept (h_heap (lv_host lv)) h"
    for h w
    using that mild_trans [of "lv_host lv" "(lv_host lv)\<lparr>h_heap := h\<rparr>" w] by simp
  then show "mild (lv_host lv) (lv_host lv1)"
    using assms
    by (auto simp: config_set_def applyProfile_def split: if_splits option.splits prod.splits sum.splits
        dest: merge_patch_grants dest!: commitConfig_refused_mild)
qed

end
