(* ===== verification/Runtime_Safety.thy ===== *)
theory Runtime_Safety
  imports Runtime_Facts Config_Restart
begin

section \<open>Properties of reconfiguration\<close>

text \<open>
  Histories of \<open>config.set\<close> requests on a server that was started from a configuration, and what
  the properties of the runtime are about.
\<close>

fun reconfigure ::
  "'n toolbox \<Rightarrow> account_walk \<Rightarrow> (asking \<times> set_request) list \<Rightarrow> 'n live \<Rightarrow> 'n live" where
  "reconfigure tb ord [] lv = lv"
| "reconfigure tb ord ((ask, rq) # rqs) lv = reconfigure tb ord rqs (snd (config_set tb ord ask rq lv))"

lemma commitConfig_config:
  "commitConfig tb ord nxt lv = (Inr r, lv1) \<Longrightarrow> lv_config lv1 = nxt \<and> lv_startup lv1 = lv_startup lv"
  by (auto simp: commitConfig_def Let_def split: prod.splits sum.splits if_splits)

lemma Save_heap: "Save y cwd c w = (r, w1) \<Longrightarrow> h_heap w1 = h_heap w"
  by (auto simp: Save_def on_disk_def split: if_splits sum.splits prod.splits)

lemma commitConfig_grants:
  "commitConfig tb ord nxt lv = (r, lv1) \<Longrightarrow> grants_kept (h_heap (lv_host lv)) (h_heap (lv_host lv1))"
  by (auto simp: commitConfig_def Let_def mild_def dest!: build_all_mild Save_heap
      split: prod.splits sum.splits if_splits)

lemma config_set_patched:
  assumes "config_set tb ord ask rq lv = (Inr r, lv1)" "rq_Profile rq = []"
  obtains h where
    "merge_patch (tb_cwd tb) (lv_startup lv) rq (lv_config lv) (h_heap (lv_host lv)) = (Inr (lv_config lv1), h)"
    "grants_kept h (h_heap (lv_host lv1))" "lv_startup lv1 = lv_startup lv"
proof -
  obtain m h where m: "merge_patch (tb_cwd tb) (lv_startup lv) rq (lv_config lv) (h_heap (lv_host lv)) = (m, h)"
    by force
  with assms obtain nxt where nxt: "m = Inr nxt"
    "commitConfig tb ord nxt (lv\<lparr>lv_host := (lv_host lv)\<lparr>h_heap := h\<rparr>\<rparr>) = (Inr r, lv1)"
    by (auto simp: config_set_def split: option.splits sum.splits)
  from commitConfig_config [OF this(2)] commitConfig_grants [OF this(2)] m nxt(1) show thesis
    by (intro that [of h]) auto
qed

subsection \<open>Credentials\<close>


subsection \<open>What the operator declared\<close>

text \<open>
  The bounds of a start configuration: TLS is off only where it or one of its profiles has it off,
  and the Maildir is the start's, a profile's, or one inside the start's.
\<close>

definition as_declared :: "path \<Rightarrow> addr server_config \<Rightarrow> addr server_config \<Rightarrow> bool" where
  "as_declared cwd c0 c \<longleftrightarrow>
     c_Profiles c = c_Profiles c0 \<and>
     (i_Insecure (c_IMAP c) \<longrightarrow>
        i_Insecure (c_IMAP c0) \<or> (\<exists>p \<in> snd ` set (c_Profiles c0). i_Insecure (p_IMAP p))) \<and>
     (t_Insecure (x_SMTP (c_Outbox c)) \<longrightarrow>
        t_Insecure (x_SMTP (c_Outbox c0)) \<or>
        (\<exists>p \<in> snd ` set (c_Profiles c0). \<exists>x. p_Outbox p = Some x \<and> t_Insecure (x_SMTP x))) \<and>
     (c_Maildir c \<in> insert (c_Maildir c0) (p_Maildir ` snd ` set (c_Profiles c0)) \<or>
      (\<exists>r. path_of cwd (c_Maildir c) = path_of cwd (c_Maildir c0) @ r))"

lemma as_declared_refl: "as_declared cwd c c"
  by (simp add: as_declared_def)

lemma as_declared_patch:
  assumes "as_declared cwd c0 c" "merge_patch cwd (c_Maildir c0) rq c h = (Inr nxt, h2)"
  shows "as_declared cwd c0 nxt"
proof -
  have "c_Profiles nxt = c_Profiles c"
    using assms(2) by (auto simp: merge_patch_def split: sum.splits prod.splits)
  then show ?thesis
    using assms(1) merge_patch_law(1,2,5) [OF assms(2)] unfolding as_declared_def by metis
qed

lemma as_declared_profile:
  assumes "as_declared cwd c0 c" "map_of (c_Profiles c) n = Some p"
  shows "as_declared cwd c0 (cfg_applyProfile c p)"
proof -
  have "p \<in> snd ` set (c_Profiles c0)"
    using assms(1) map_of_SomeD [OF assms(2)] by (force simp: as_declared_def)
  with assms(1) show ?thesis
    by (auto simp: as_declared_def cfg_applyProfile_def Let_def split: option.splits)
qed

lemma config_set_declared:
  assumes "as_declared (tb_cwd tb) c0 (lv_config lv)" "lv_startup lv = c_Maildir c0"
    and "config_set tb ord ask rq lv = (r, lv1)"
  shows "as_declared (tb_cwd tb) c0 (lv_config lv1) \<and> lv_startup lv1 = c_Maildir c0"
  using assms(3)
proof (cases rule: config_set_cases)
  case (refused e w)
  with assms show ?thesis by simp
next
  case (committed nxt r r' w)
  have "as_declared (tb_cwd tb) c0 nxt"
    using committed(1) assms(1,2) as_declared_patch as_declared_profile
    by (auto simp: candidate_def split: if_splits)
  with commitConfig_config [OF committed(3)] assms(2) show ?thesis by simp
qed


subsection \<open>Slots and configuration\<close>

lemma in_step_config_set:
  assumes "walks ord" "in_step (tb_cwd tb) lv" "config_set tb ord ask rq lv = (r, lv1)"
  shows "in_step (tb_cwd tb) lv1"
  using assms(3)
proof (cases rule: config_set_cases)
  case (refused e w)
  with assms(2) show ?thesis by (simp add: in_step_def)
next
  case (committed nxt r r' w)
  have d: "distinct (map fst (c_Accounts nxt))" "fst ` set (lv_accounts lv) = fst ` set (c_Accounts nxt)"
    using assms(2) candidate_keeps(1) [OF committed(1)] by (simp_all add: in_step_def)
  from commitConfig_done [OF assms(1) d(1) committed(3)] d show ?thesis
    by (auto simp: in_step_def image_iff split: if_splits) force+
qed

lemma in_step_start:
  assumes "walks ord" "distinct (map fst (c_Accounts c))" "c_RuntimeConfig c"
    and "NewConfigServer tb ord mo sk carrier c w = (Inr lv, w1)"
  shows "in_step (tb_cwd tb) lv"
proof -
  obtain mb d w2 accs w3 where mb: "BuildMailbox tb c w = (Inr (mb, d), w2)"
    and accs: "BuildAccounts tb ord c w2 = (Inr accs, w3)"
    using assms(4) by (auto simp: NewConfigServer_def split: prod.splits sum.splits)
  have lv: "lv_config lv = c" "lv_mailbox lv = mb" "lv_accounts lv = accs"
    "lv_sender lv \<noteq> None \<longrightarrow> lv_sender lv = Some (spec_transport (tb_cwd tb) c)"
    using assms(3,4) mb accs
    by (auto simp: NewConfigServer_def Let_def dest: buildSender_result
        split: prod.splits sum.splits if_splits)
  have accs': "accs = map (\<lambda>(n, a). (n, spec_backend (tb_cwd tb) (sub_config c a))) (ord (c_Accounts c))"
    using build_accounts_result accs by (simp add: BuildAccounts_def)
  have same: "set (ord (c_Accounts c)) = set (c_Accounts c)"
    using assms(1) mset_eq_setD by (auto simp: walks_def)
  have "b = spec_account (tb_cwd tb) c n" if "(n, b) \<in> set accs" for n b
    using that same accs' assms(2) by (auto simp: spec_account_def)
  moreover have "fst ` set accs = fst ` set (c_Accounts c)"
    using accs' same by (force simp: image_iff)
  ultimately show ?thesis
    using lv BuildMailbox_result [OF mb] assms(2) by (auto simp: in_step_def)
qed


text \<open>A request that ends in an error leaves the configuration, every slot and every file as they
  were: at most directories are added and the shared token settings refreshed.\<close>

theorem refused_requests_change_no_slot:
  assumes "config_set tb ord ask rq lv = (Inl e, lv1)"
  shows "lv1 = lv\<lparr>lv_host := lv_host lv1\<rparr> \<and> mild (lv_host lv) (lv_host lv1)"
  using assms by (rule config_set_refused)

subsection \<open>What \<open>config.get\<close> shows\<close>

text \<open>The configuration with every secret blanked: passwords, tokens, the sender's settings, profiles.\<close>

definition blank_imap :: "'s imap_settings \<Rightarrow> 's imap_settings" where
  "blank_imap i = i\<lparr>i_Password := [], i_OAuth2 := None\<rparr>"

definition blank_account :: "'s account_settings \<Rightarrow> 's account_settings" where
  "blank_account a = a\<lparr>a_IMAP := blank_imap (a_IMAP a)\<rparr>"

definition redact :: "'s server_config \<Rightarrow> 's server_config" where
  "redact c =
     c\<lparr>c_IMAP := blank_imap (c_IMAP c), c_Outbox := no_outbox,
       c_Auth := \<lparr>b_Username = [], b_Password = [], b_PasswordHash = []\<rparr>,
       c_Accounts := map (\<lambda>(n, a). (n, blank_account a)) (c_Accounts c),
       c_Profiles := map (\<lambda>(n, p). (n, p\<lparr>p_Backend := [], p_Maildir := [], p_IMAP := no_imap,
                                          p_Outbox := None\<rparr>)) (c_Profiles c),
       c_envSecrets := {}\<rparr>"

definition redacted :: "'n live \<Rightarrow> 'n live" where
  "redacted lv =
     lv\<lparr>lv_config := redact (lv_config lv), lv_mailbox := Revoked [],
        lv_sender := map_option (\<lambda>s. DirTransport \<lparr>s_root = [], s_from = []\<rparr>) (lv_sender lv),
        lv_accounts := map (\<lambda>(n, b). (n, Revoked [])) (lv_accounts lv)\<rparr>"

lemma account_info_redacted:
  "account_info_of (map (\<lambda>(n, b). (n, Revoked [])) live) n (blank_account a) = account_info_of live n a"
proof -
  have "fst ` set (map (\<lambda>(n, b). (n, Revoked [])) live) = fst ` set live"
    by (force simp: image_iff)
  then show ?thesis
    by (simp add: account_info_of_def ResolvedBackend_def sub_config_def blank_account_def
        blank_imap_def Let_def)
qed

lemma map_fst_redact: "map fst (map (\<lambda>(n, x). (n, f x)) xs) = map fst xs"
  by (induction xs) auto

lemma config_get_redacted: "config_get (redacted lv) = config_get lv"
proof -
  let ?c = "lv_config lv"
  have accounts: "c_Accounts (redact ?c) = map (\<lambda>(n, a). (n, blank_account a)) (c_Accounts ?c)"
    by (simp add: redact_def)
  have live: "fst ` set (map (\<lambda>(n, b). (n, Revoked [])) (lv_accounts lv)) = fst ` set (lv_accounts lv)"
    "map fst (map (\<lambda>(n, b). (n, Revoked [])) (lv_accounts lv)) = map fst (lv_accounts lv)"
    by (force simp: image_iff) (rule map_fst_redact)
  have names: "map fst (c_Accounts (redact ?c)) = map fst (c_Accounts ?c)"
    "fst ` set (c_Accounts (redact ?c)) = fst ` set (c_Accounts ?c)"
    unfolding accounts by (rule map_fst_redact) (force simp: image_iff)
  have "accountsInfo (redact ?c) (lv_accounts (redacted lv)) = accountsInfo ?c (lv_accounts lv)"
  proof -
    have "account_info_of (lv_accounts (redacted lv)) n (the (map_of (c_Accounts (redact ?c)) n)) =
          account_info_of (lv_accounts lv) n (the (map_of (c_Accounts ?c) n))"
      if "n \<in> set (map fst (c_Accounts ?c))" for n
    proof -
      from that obtain a where "map_of (c_Accounts ?c) n = Some a"
        by (metis list.set_map map_of_eq_None_iff not_None_eq)
      then show ?thesis
        by (simp add: accounts map_of_map_snd redacted_def account_info_redacted)
    qed
    then show ?thesis unfolding accountsInfo_def names by simp
  qed
  moreover have "divergedAccounts (redact ?c) (lv_accounts (redacted lv)) = divergedAccounts ?c (lv_accounts lv)"
  proof -
    have "lv_accounts (redacted lv) = map (\<lambda>(n, b). (n, Revoked [])) (lv_accounts lv)"
      by (simp add: redacted_def)
    then show ?thesis by (simp only: divergedAccounts_def names live)
  qed
  moreover have "ProfileNames (redact ?c) = ProfileNames ?c"
    by (simp add: ProfileNames_def redact_def comp_def case_prod_beta)
  ultimately show ?thesis
    by (simp add: config_get_def Let_def redacted_def redact_def blank_imap_def ResolvedBackend_def
        effectiveBulkLimit_def)
qed

text \<open>What \<open>config.get\<close> answers depends on no secret: two servers that differ only in
  passwords, tokens, credentials files, outbound settings and the contents of profiles answer alike.\<close>

theorem inspection_reveals_no_secret:
  assumes "redacted lv = redacted lv'"
  shows "config_get lv = config_get lv'"
  using assms config_get_redacted by metis

subsection \<open>What the guards do not cover\<close>

text \<open>The binding of credentials covers the address only: a patch of nothing but the token endpoint
  keeps the client secret and the refresh token, and the next token is asked for at the endpoint the
  caller chose, with both of them.\<close>

theorem token_endpoint_takes_the_secrets_along:
  assumes "patch_imap p i h = (Inr j, h1)" "ip_Addr p = []" "i_OAuth2 i = Some a"
    and "ip_OAuth2 p = Some \<lparr>q_CredentialsFile = [], q_ClientID = [], q_ClientSecret = [],
           q_RefreshToken = [], q_TokenURL = url, q_AccessToken = [], q_Mechanism = []\<rparr>"
    and "url \<noteq> []" "RefreshToken (obj h a) \<noteq> []"
  shows "i_Addr j = i_Addr i \<and> (\<exists>b. i_OAuth2 j = Some b \<and>
    token_source_of (obj h1 b) =
      Some (Refreshing (ClientID (obj h a)) (ClientSecret (obj h a)) url (RefreshToken (obj h a))))"
  using assms
  by (auto simp: patch_imap_def patch_ref_def alloc_def applyOAuth2Patch_def no_settings_def given_def
      token_source_of_def Let_def split: sum.splits)

text \<open>A profile together with a batch limit is accepted, and the limit is dropped.\<close>

lemma limit_beside_a_profile_is_dropped:
  assumes "rq_Profile rq \<noteq> []"
  shows "config_set tb ord ask (rq\<lparr>rq_BulkLimit := n\<rparr>) lv = config_set tb ord ask rq lv"
  using assms by (simp add: config_set_def)

text \<open>What the user is asked names nothing of a change to the outbound transport.\<close>

lemma confirmation_hides_the_outbox:
  "confirmReconfigure ask (rq\<lparr>rq_Outbox := x\<rparr>) = confirmReconfigure ask rq"
  by (simp add: confirmReconfigure_def reconfigure_target_def cong: if_cong
      cong del: list.case_cong_weak option.case_cong_weak)

subsection \<open>A running server\<close>

definition demo_tools :: "unit toolbox" where
  "demo_tools =
     \<lparr>tb_mail = plain_mail,
      tb_google = \<lparr>Unmarshal_probe = (\<lambda>b. Inr \<lparr>pr_Type = ''service_account'', pr_Web = False, pr_Installed = False\<rparr>),
        JWTConfigFromJSON = (\<lambda>b. Inr ()), ConfigFromJSON = (\<lambda>b. Inl (Failure ''no client'')),
        Mint = (\<lambda>s w. (Inl (Failure ''offline''), w))\<rparr>,
      tb_yaml = one_file default_config, tb_cwd = [''srv'']\<rparr>"

definition key_file :: oauth2_settings where
  "key_file = no_settings\<lparr>CredentialsFile := ''key.json''\<rparr>"

definition refreshed :: oauth2_settings where
  "refreshed = no_settings\<lparr>ClientID := ''id'', ClientSecret := ''cs'', RefreshToken := ''rt'', TokenURL := ''https://a''\<rparr>"

definition demo_start :: "oauth2_settings option \<Rightarrow> (string \<times> addr account_settings) list \<Rightarrow> addr server_config" where
  "demo_start st accs =
     default_config\<lparr>c_Maildir := ''mail'',
       c_IMAP := no_imap\<lparr>i_Addr := ''imap:993'', i_Username := ''me'', i_Password := ''s3cret'',
                         i_OAuth2 := map_option (\<lambda>_. 0) st\<rparr>,
       c_Accounts := accs, c_RuntimeConfig := True\<rparr>"

definition demo_process :: "oauth2_settings option \<Rightarrow> fault list \<Rightarrow> unit host" where
  "demo_process st fs =
     demo_machine\<lparr>h_disk := \<lparr>tree = [([], Dir), ([''srv''], Dir), ([''srv'', ''key.json''], File ''key'')],
                            faults = fs, crashed = False\<rparr>,
       h_heap := \<lparr>obj = (\<lambda>a. case st of Some s \<Rightarrow> s | None \<Rightarrow> no_settings), next_obj = 1\<rparr>\<rparr>"

definition demo_carrier :: "transport \<Rightarrow> outbox_world sender" where
  "demo_carrier t = \<lparr>Send = (\<lambda>m w. (Inr (), w)), SelfAddress = None\<rparr>"

definition demo_started ::
  "oauth2_settings option \<Rightarrow> (string \<times> addr account_settings) list \<Rightarrow> (error + unit live) \<times> unit host" where
  "demo_started st accs =
     NewConfigServer demo_tools (\<lambda>l. l) identity_order reference_statekit demo_carrier
       (demo_start st accs) (demo_process st [])"

definition demo_live :: "oauth2_settings option \<Rightarrow> (string \<times> addr account_settings) list \<Rightarrow> fault list \<Rightarrow> unit live"
  where
  "demo_live st accs fs =
     (let lv = projr (fst (demo_started st accs)) in
      lv\<lparr>lv_host := (lv_host lv)\<lparr>h_disk := (h_disk (lv_host lv))\<lparr>faults := fs\<rparr>\<rparr>\<rparr>)"

definition no_request :: set_request where
  "no_request =
     \<lparr>rq_Profile = [], rq_Backend = [], rq_Maildir = [], rq_BulkLimit = None, rq_IMAP = None,
      rq_Outbox = None, rq_Confirm = True\<rparr>"

definition no_imap_patch :: imap_patch where
  "no_imap_patch =
     \<lparr>ip_Addr = [], ip_Username = [], ip_Password = [], ip_Mailbox = [], ip_Insecure = None,
      ip_OAuth2 = None, ip_ClearCredentials = False\<rparr>"

definition demo_set :: "imap_patch \<Rightarrow> unit live \<Rightarrow> (error + set_result) \<times> unit live" where
  "demo_set p = config_set demo_tools (\<lambda>l. l) (\<lambda>d. NoSession) (no_request\<lparr>rq_IMAP := Some p\<rparr>)"

definition work_account :: "addr account_settings" where
  "work_account = \<lparr>a_Backend = ''maildir'', a_Maildir = ''work'', a_IMAP = no_imap\<rparr>"

lemma demo_starts:
  "demo_started None [(''work'', work_account)] =
     (Inr (projr (fst (demo_started None [(''work'', work_account)]))),
      snd (demo_started None [(''work'', work_account)]))"
proof -
  have "isl (fst (demo_started None [(''work'', work_account)])) = False" by code_simp
  then show ?thesis by (simp add: prod_eq_iff)
qed

text \<open>
  A refused request can change whose tokens the running backend gets: loading the service account of
  a candidate writes into the settings the live backend shares with it.
\<close>

lemma refused_request_changes_the_token_source:
  "(let lv = demo_live (Some key_file) [(''work'', work_account)] [Works, IOError];
        (r, lv1) = demo_set (no_imap_patch\<lparr>ip_Username := ''boss''\<rparr>) lv in
    (r = Inl io_error, i_Username (c_IMAP (lv_config lv1)), i_OAuth2 (c_IMAP (lv_config lv1)),
     source (obj (h_heap (lv_host lv)) 0), source (obj (h_heap (lv_host lv1)) 0))) =
   (True, ''me'', Some 0, Some (Impersonation ''key'' ''me''), Some (Impersonation ''key'' ''boss''))"
  by code_simp

subsection \<open>The properties on it\<close>

definition demo_move :: imap_patch where
  "demo_move = no_imap_patch\<lparr>ip_Addr := ''other:993'', ip_Username := ''you'', ip_Password := ''pw''\<rparr>"




theorem refused_requests_change_no_slot_witness:
  "(let lv = demo_live None [(''work'', work_account)] [IOError];
        lv1 = snd (demo_set (no_imap_patch\<lparr>ip_Mailbox := ''Other''\<rparr>) lv) in
    lv1 = lv\<lparr>lv_host := lv_host lv1\<rparr> \<and> mild (lv_host lv) (lv_host lv1))"
proof -
  let ?lv = "demo_live None [(''work'', work_account)] [IOError]"
  let ?p = "no_imap_patch\<lparr>ip_Mailbox := ''Other''\<rparr>"
  have "isl (fst (demo_set ?p ?lv))" by code_simp
  then have "demo_set ?p ?lv = (Inl (projl (fst (demo_set ?p ?lv))), snd (demo_set ?p ?lv))"
    by (simp add: prod_eq_iff)
  then show ?thesis
    unfolding demo_set_def Let_def by (rule refused_requests_change_no_slot)
qed

theorem inspection_reveals_no_secret_witness:
  "config_get (demo_live None [] []) =
   config_get ((demo_live None [] [])\<lparr>lv_config := (lv_config (demo_live None [] []))\<lparr>
     c_IMAP := (c_IMAP (lv_config (demo_live None [] [])))\<lparr>i_Password := ''other''\<rparr>\<rparr>\<rparr>)"
  by (rule inspection_reveals_no_secret) (simp add: redacted_def redact_def blank_imap_def)

theorem token_endpoint_takes_the_secrets_along_witness:
  "(let p = no_imap_patch\<lparr>ip_OAuth2 := Some \<lparr>q_CredentialsFile = [], q_ClientID = [], q_ClientSecret = [],
           q_RefreshToken = [], q_TokenURL = ''https://b'', q_AccessToken = [], q_Mechanism = []\<rparr>\<rparr>;
        i = no_imap\<lparr>i_Addr := ''imap:993'', i_OAuth2 := Some 0\<rparr>; h = \<lparr>obj = (\<lambda>a. refreshed), next_obj = 1\<rparr>;
        (r, h1) = patch_imap p i h in
    \<exists>j b. r = Inr j \<and> i_Addr j = ''imap:993'' \<and> i_OAuth2 j = Some b \<and>
      token_source_of (obj h1 b) = Some (Refreshing ''id'' ''cs'' ''https://b'' ''rt''))"
proof -
  let ?p = "no_imap_patch\<lparr>ip_OAuth2 := Some \<lparr>q_CredentialsFile = [], q_ClientID = [], q_ClientSecret = [],
           q_RefreshToken = [], q_TokenURL = ''https://b'', q_AccessToken = [], q_Mechanism = []\<rparr>\<rparr>"
  let ?i = "(no_imap :: addr imap_settings)\<lparr>i_Addr := ''imap:993'', i_OAuth2 := Some 0\<rparr>"
  let ?h = "\<lparr>obj = (\<lambda>a. refreshed), next_obj = 1\<rparr>"
  have "isl (fst (patch_imap ?p ?i ?h)) = False" by code_simp
  then have step: "patch_imap ?p ?i ?h = (Inr (projr (fst (patch_imap ?p ?i ?h))), snd (patch_imap ?p ?i ?h))"
    by (simp add: prod_eq_iff)
  have "i_Addr (projr (fst (patch_imap ?p ?i ?h))) = i_Addr ?i \<and>
      (\<exists>b. i_OAuth2 (projr (fst (patch_imap ?p ?i ?h))) = Some b \<and>
        token_source_of (obj (snd (patch_imap ?p ?i ?h)) b) =
          Some (Refreshing (ClientID (obj ?h 0)) (ClientSecret (obj ?h 0)) ''https://b'' (RefreshToken (obj ?h 0))))"
    by (rule token_endpoint_takes_the_secrets_along [OF step])
      (simp_all add: no_imap_patch_def refreshed_def)
  then show ?thesis
    unfolding Let_def by (subst step) (auto simp: refreshed_def no_settings_def)
qed

end
