(* ===== verification/Effects.thy ===== *)
theory Effects
  imports Prelude
begin

section \<open>Sequencing of effects, and what a sequence keeps\<close>

text \<open>
  The clients of a network protocol are long sequences of commands, each of which may fail.
  \<open>andthen\<close> runs the next command only when the previous one succeeded; the rules below
  carry an invariant, or a condition on the outcome, through such a sequence.
\<close>

definition ret :: "'a \<Rightarrow> ('w, 'a) effect" where
  "ret x w = (Inr x, w)"

definition refuse :: "error \<Rightarrow> ('w, 'a) effect" where
  "refuse e w = (Inl e, w)"

definition andthen :: "('w, 'a) effect \<Rightarrow> ('a \<Rightarrow> ('w, 'b) effect) \<Rightarrow> ('w, 'b) effect" where
  "andthen f g w =
     (case f w of
        (Inl e, w1) \<Rightarrow> (Inl e, w1)
      | (Inr x, w1) \<Rightarrow> g x w1)"

text \<open>An effect chosen by looking at the world.\<close>

definition asks :: "('w \<Rightarrow> 'b) \<Rightarrow> ('b \<Rightarrow> ('w, 'a) effect) \<Rightarrow> ('w, 'a) effect" where
  "asks g f w = f (g w) w"

text \<open>An effect on the second component of a pair leaves the first one alone.\<close>

definition beside :: "('w, 'a) effect \<Rightarrow> ('m \<times> 'w, 'a) effect" where
  "beside f s = (case f (snd s) of (r, w1) \<Rightarrow> (r, (fst s, w1)))"

named_theorems effect_simps "unfolding of the sequencing operators"

declare ret_def [effect_simps] refuse_def [effect_simps]

lemma andthen_Inr_iff:
  "andthen f g w = (Inr y, w2) \<longleftrightarrow> (\<exists>x w1. f w = (Inr x, w1) \<and> g x w1 = (Inr y, w2))"
  by (auto simp: andthen_def split: prod.splits sum.splits)

lemma andthen_Inl_iff:
  "andthen f g w = (Inl e, w2) \<longleftrightarrow>
     f w = (Inl e, w2) \<or> (\<exists>x w1. f w = (Inr x, w1) \<and> g x w1 = (Inl e, w2))"
  by (auto simp: andthen_def split: prod.splits sum.splits)

lemma andthen_run [simp]:
  "f w = (Inr x, w1) \<Longrightarrow> andthen f g w = g x w1"
  "f w = (Inl e, w1) \<Longrightarrow> andthen f g w = (Inl e, w1)"
  by (simp_all add: andthen_def)

lemma andthen_ret [simp]: "andthen (ret x) g = g x" "andthen (refuse e) g = refuse e"
  by (simp_all add: fun_eq_iff andthen_def ret_def refuse_def)

lemma ret_iff [simp]: "ret x w = (r, w') \<longleftrightarrow> r = Inr x \<and> w' = w"
  by (auto simp: ret_def)

lemma refuse_iff [simp]: "refuse e w = (r, w') \<longleftrightarrow> r = Inl e \<and> w' = w"
  by (auto simp: refuse_def)

subsection \<open>Outcomes of a sequence\<close>

text \<open>
  From a world where \<open>P\<close> holds the effect ends in \<open>Q\<close> with a value or in \<open>E\<close> with an
  error.
\<close>

definition ends :: "('w \<Rightarrow> bool) \<Rightarrow> ('w, 'a) effect \<Rightarrow> ('a \<Rightarrow> 'w \<Rightarrow> bool) \<Rightarrow> (error \<Rightarrow> 'w \<Rightarrow> bool) \<Rightarrow> bool"
  where
  "ends P f Q E \<longleftrightarrow>
     (\<forall>w. P w \<longrightarrow> (case f w of (Inr x, w1) \<Rightarrow> Q x w1 | (Inl e, w1) \<Rightarrow> E e w1))"

lemma endsI:
  "(\<And>w x w1. P w \<Longrightarrow> f w = (Inr x, w1) \<Longrightarrow> Q x w1) \<Longrightarrow>
   (\<And>w e w1. P w \<Longrightarrow> f w = (Inl e, w1) \<Longrightarrow> E e w1) \<Longrightarrow> ends P f Q E"
  by (auto simp: ends_def split: prod.splits sum.splits)

lemma endsD:
  assumes "ends P f Q E" "P w"
  shows "f w = (Inr x, w1) \<Longrightarrow> Q x w1" and "f w = (Inl e, w1) \<Longrightarrow> E e w1"
  using assms by (auto simp: ends_def split: prod.splits sum.splits)

lemma ends_andthen [intro]:
  "ends P f R E \<Longrightarrow> (\<And>x. ends (R x) (g x) Q E) \<Longrightarrow> ends P (andthen f g) Q E"
  unfolding ends_def andthen_def by (fastforce split: prod.splits sum.splits)

lemma ends_ret [intro]: "(\<And>w. P w \<Longrightarrow> Q x w) \<Longrightarrow> ends P (ret x) Q E"
  by (simp add: ends_def ret_def)

lemma ends_refuse [intro]: "(\<And>w. P w \<Longrightarrow> E e w) \<Longrightarrow> ends P (refuse e) Q E"
  by (simp add: ends_def refuse_def)

lemma ends_asks [intro]: "(\<And>x. ends P (f x) Q E) \<Longrightarrow> ends P (asks g f) Q E"
  unfolding ends_def asks_def by auto

lemma ends_weaken:
  "ends P f Q E \<Longrightarrow> (\<And>w. P' w \<Longrightarrow> P w) \<Longrightarrow> (\<And>x w. Q x w \<Longrightarrow> Q' x w) \<Longrightarrow>
   (\<And>e w. E e w \<Longrightarrow> E' e w) \<Longrightarrow> ends P' f Q' E'"
  unfolding ends_def by (fastforce split: prod.splits sum.splits)

abbreviation keeps :: "('w \<Rightarrow> bool) \<Rightarrow> ('w, 'a) effect \<Rightarrow> bool" where
  "keeps I f \<equiv> ends I f (\<lambda>_. I) (\<lambda>_. I)"

lemma ends_if [intro]:
  "(b \<Longrightarrow> ends P f Q E) \<Longrightarrow> (\<not> b \<Longrightarrow> ends P g Q E) \<Longrightarrow> ends P (if b then f else g) Q E"
  by simp

lemma ends_option [intro]:
  "(x = None \<Longrightarrow> ends P f Q E) \<Longrightarrow> (\<And>y. x = Some y \<Longrightarrow> ends P (g y) Q E) \<Longrightarrow>
   ends P (case x of None \<Rightarrow> f | Some y \<Rightarrow> g y) Q E"
  by (cases x) auto

lemma ends_sum [intro]:
  "(\<And>e. x = Inl e \<Longrightarrow> ends P (f e) Q E) \<Longrightarrow> (\<And>y. x = Inr y \<Longrightarrow> ends P (g y) Q E) \<Longrightarrow>
   ends P (case x of Inl e \<Rightarrow> f e | Inr y \<Rightarrow> g y) Q E"
  by (cases x) auto

end
