(* ===== verification/Imap_Session.thy ===== *)
theory Imap_Session
  imports Imap Effects
begin

section \<open>One session with an IMAP server and the pooled connection (infrastructure/imap/imap.go)\<close>

text \<open>
  The client library is a record of its commands, each an effect on the host (with the splitter of
  addresses and the readers of credentials the log-in uses); the mailbox is the
  configured mailbox with its pool: at most one idle connection, when it was put there, and the
  folder the last move selected.  The fields of the pool are read and written in critical
  sections; each section is a function here (\<open>claim\<close>, \<open>wander\<close>, \<open>forget\<close>, \<open>offer\<close>), so
  that the sequential operations and the interleaved ones of Imap\_Interleaving are built from the
  same steps.
\<close>

subsection \<open>The client library\<close>

type_synonym uid = "32 word"

datatype imap_cap = CapMove | CapIMAP4rev2 | CapUIDPlus

datatype mailbox_attr = AttrArchive | AttrTrash | AttrOther string

record list_data =
  ld_Mailbox :: string
  ld_Attrs :: "mailbox_attr list"
  ld_Delim :: string

record search_criteria =
  cr_NotFlag :: "string list"
  cr_Flag :: "string list"
  cr_Text :: "string list"
  cr_Header :: "(string \<times> string) list"

text \<open>What a FETCH asks for beside the UID: nothing, the stored size, or a section of the message,
  peeking or not, whole or some of its header fields.\<close>

datatype fetch_items = FetchUID | FetchSize | FetchSection bool "string list option"

record fetch_buffer =
  fb_UID :: uid
  fb_Size :: int64
  fb_Section :: "bytes option"

text \<open>Which event a wait for a reply sees first.\<close>

datatype arrival = Replied | GivenUp | Overdue

record ('n, 'c) imap_lib =
  il_Dial :: "bool \<Rightarrow> 'n host ctx \<Rightarrow> string \<Rightarrow> ('n host, 'c) effect"
  il_Login :: "'c \<Rightarrow> string \<Rightarrow> string \<Rightarrow> ('n host, unit) effect"
  il_Authenticate :: "'c \<Rightarrow> sasl_client \<Rightarrow> ('n host, unit) effect"
  il_Select :: "'c \<Rightarrow> string \<Rightarrow> ('n host, unit) effect"
  il_Noop :: "'c \<Rightarrow> ('n host, unit) effect"
  il_Logout :: "'c \<Rightarrow> ('n host, unit) effect"
  il_Close :: "'c \<Rightarrow> 'n host \<Rightarrow> 'n host"
  il_UIDSearch :: "'c \<Rightarrow> search_criteria \<Rightarrow> ('n host, uid list) effect"
  il_Fetch :: "'c \<Rightarrow> uid list \<Rightarrow> fetch_items \<Rightarrow> ('n host, fetch_buffer list) effect"
  il_StoreSeen :: "'c \<Rightarrow> uid list \<Rightarrow> ('n host, unit) effect"
  il_List :: "'c \<Rightarrow> bool \<Rightarrow> ('n host, list_data list) effect"
  il_Namespace :: "'c \<Rightarrow> ('n host, string list option) effect"
  il_Create :: "'c \<Rightarrow> string \<Rightarrow> ('n host, unit) effect"
  il_Delete :: "'c \<Rightarrow> string \<Rightarrow> ('n host, unit) effect"
  il_Status :: "'c \<Rightarrow> string \<Rightarrow> ('n host, int option) effect"
  il_Move :: "'c \<Rightarrow> uid list \<Rightarrow> string \<Rightarrow> ('n host, uid list option) effect"
  il_Caps :: "'c \<Rightarrow> 'n host \<Rightarrow> imap_cap \<Rightarrow> bool"
  il_Nums :: "uid list \<Rightarrow> uid list option"
  il_AlreadyExists :: "error \<Rightarrow> bool"
  il_Arrival :: "int \<Rightarrow> 'n host \<Rightarrow> arrival"
  il_Now :: "'n host \<Rightarrow> int"
  il_Split :: "string \<Rightarrow> (string \<times> string) option"
  il_Google :: "'n google_lib"

text \<open>Durations in nanoseconds: three minutes, thirty seconds, five minutes.\<close>

definition idleExpiry :: int where "idleExpiry = 3 * 60 * 10 ^ 9"
definition connectTimeout :: int where "connectTimeout = 30 * 10 ^ 9"
definition cmdTimeout :: int where "cmdTimeout = 5 * 60 * 10 ^ 9"

subsection \<open>The mailbox with its pool\<close>

record 'c pooled = imap_mailbox +
  im_idle :: "'c option"
  im_idleAt :: int
  im_selected :: string

type_synonym ('n, 'c) session = "'c pooled \<times> 'n host"

text \<open>A mailbox as it is constructed has an empty pool.\<close>

definition fresh_pool :: "imap_mailbox \<Rightarrow> 'c pooled" where
  "fresh_pool m = \<lparr>im_cfg = im_cfg m, im_idle = None, im_idleAt = 0, im_selected = []\<rparr>"

definition expired :: "int \<Rightarrow> 'c pooled \<Rightarrow> bool" where
  "expired now m \<longleftrightarrow> now - im_idleAt m > idleExpiry"

definition claim :: "int \<Rightarrow> 'c pooled \<Rightarrow> 'c pooled" where
  "claim now m =
     m\<lparr>im_idle := None, im_idleAt := 0,
       im_selected := (if im_idle m = None \<or> expired now m then [] else im_selected m)\<rparr>"

definition wander :: "string \<Rightarrow> 'c pooled \<Rightarrow> 'c pooled" where
  "wander folder m = m\<lparr>im_selected := folder\<rparr>"

definition forget :: "'c pooled \<Rightarrow> 'c pooled" where
  "forget m = m\<lparr>im_selected := []\<rparr>"

definition offer :: "'c \<Rightarrow> int \<Rightarrow> 'c pooled \<Rightarrow> 'c pooled" where
  "offer c now m =
     (if im_idle m \<noteq> None then m else m\<lparr>im_idle := Some c, im_idleAt := now\<rparr>)"

definition astray :: "'c pooled \<Rightarrow> bool" where
  "astray m \<longleftrightarrow> im_selected m \<noteq> [] \<and> \<not> equal_fold (im_selected m) (ic_Mailbox (im_cfg m))"

subsection \<open>Waiting for a reply\<close>

text \<open>
  The reply is waited for until it comes, the context ends or the limit passes; in the two last
  cases the connection is closed.  The server may have carried the command out all the same.
\<close>

definition awaitValue ::
  "('n, 'c) imap_lib \<Rightarrow> 'n host ctx \<Rightarrow> 'c \<Rightarrow> ('n host, 'a) effect \<Rightarrow> int \<Rightarrow> ('n host, 'a) effect" where
  "awaitValue L cx c wait limit w =
     (case wait w of
        (r, w1) \<Rightarrow>
          (case il_Arrival L limit w1 of
             Replied \<Rightarrow> (r, w1)
           | GivenUp \<Rightarrow>
               (case cx w1 of
                  None \<Rightarrow> (r, w1)
                | Some e \<Rightarrow> (Inl e, il_Close L c w1))
           | Overdue \<Rightarrow> (Inl (Failure ''no reply in time''), il_Close L c w1)))"

definition closeClient :: "('n, 'c) imap_lib \<Rightarrow> 'n host ctx \<Rightarrow> 'c \<Rightarrow> 'n host \<Rightarrow> 'n host" where
  "closeClient L cx c w =
     il_Close L c (snd (awaitValue L cx c (il_Logout L c) connectTimeout w))"

subsection \<open>Connecting\<close>

definition imap_login ::
  "('n, 'c) imap_lib \<Rightarrow> 'n host ctx \<Rightarrow>
   imap_config \<Rightarrow> 'c \<Rightarrow> ('n host, unit) effect" where
  "imap_login L cx cfg c =
     (case ic_OAuth2 cfg of
        Some a \<Rightarrow>
          (let (hostname, port) = SplitHostPort (il_Split L) (ic_Addr cfg) 993 in
           andthen (SASLClient (il_Google L) a (ic_Username cfg) hostname port)
             (\<lambda>sasl. awaitValue L cx c (il_Authenticate L c sasl) connectTimeout))
      | None \<Rightarrow> awaitValue L cx c (il_Login L c (ic_Username cfg) (ic_Password cfg)) connectTimeout)"

definition imap_dial ::
  "('n, 'c) imap_lib \<Rightarrow> 'n host ctx \<Rightarrow>
   imap_config \<Rightarrow> ('n host, 'c) effect" where
  "imap_dial L cx cfg w =
     (case cx w of
        Some e \<Rightarrow> (Inl e, w)
      | None \<Rightarrow>
          (case il_Dial L (ic_Insecure cfg) cx (ic_Addr cfg) w of
             (Inl e, w1) \<Rightarrow> (Inl e, w1)
           | (Inr c, w1) \<Rightarrow>
               (case imap_login L cx cfg c w1 of
                  (Inl e, w2) \<Rightarrow> (Inl e, il_Close L c w2)
                | (Inr _, w2) \<Rightarrow>
                    (case awaitValue L cx c (il_Select L c (ic_Mailbox cfg)) connectTimeout w2 of
                       (Inl e, w3) \<Rightarrow> (Inl e, il_Close L c w3)
                     | (Inr _, w3) \<Rightarrow> (Inr c, w3)))))"

subsection \<open>Taking a connection and giving it back\<close>

definition takeIdle ::
  "('n, 'c) imap_lib \<Rightarrow> 'n host ctx \<Rightarrow> ('n, 'c) session \<Rightarrow> 'c option \<times> ('n, 'c) session" where
  "takeIdle L cx s =
     (let (m, w) = s; m1 = claim (il_Now L w) m in
      case im_idle m of
        None \<Rightarrow> (None, (m1, w))
      | Some c \<Rightarrow>
          (if expired (il_Now L w) m then (None, (m1, closeClient L cx c w))
           else case awaitValue L cx c (il_Noop L c) connectTimeout w of
                  (Inl _, w1) \<Rightarrow> (None, (m1, closeClient L cx c w1))
                | (Inr _, w1) \<Rightarrow> (Some c, (m1, w1))))"

definition acquire ::
  "('n, 'c) imap_lib \<Rightarrow> 'n host ctx \<Rightarrow>
   (('n, 'c) session, 'c) effect" where
  "acquire L cx s =
     (case takeIdle L cx s of
        (Some c, s1) \<Rightarrow> (Inr c, s1)
      | (None, s1) \<Rightarrow> beside (imap_dial L cx (im_cfg (fst s1))) s1)"

definition cache ::
  "('n, 'c) imap_lib \<Rightarrow> 'n host ctx \<Rightarrow> 'c \<Rightarrow> ('n, 'c) session \<Rightarrow> ('n, 'c) session" where
  "cache L cx c s =
     (let (m, w) = s in
      if im_idle m \<noteq> None then (offer c (il_Now L w) m, closeClient L cx c w)
      else (offer c (il_Now L w) m, w))"

definition selectFolder ::
  "('n, 'c) imap_lib \<Rightarrow> 'n host ctx \<Rightarrow> 'c \<Rightarrow> string \<Rightarrow> (('n, 'c) session, unit) effect" where
  "selectFolder L cx c folder s =
     (case beside (awaitValue L cx c (il_Select L c folder) cmdTimeout) s of
        (Inl e, s1) \<Rightarrow> (Inl e, s1)
      | (Inr _, (m, w)) \<Rightarrow> (Inr (), (wander folder m, w)))"

text \<open>A connection that is not given back is closed, and the folder it was on is forgotten.\<close>

definition discard ::
  "('n, 'c) imap_lib \<Rightarrow> 'n host ctx \<Rightarrow> 'c \<Rightarrow> ('n, 'c) session \<Rightarrow> ('n, 'c) session" where
  "discard L cx c s = (let (m, w) = s in (forget m, closeClient L cx c w))"

definition restore ::
  "('n, 'c) imap_lib \<Rightarrow> 'n host ctx \<Rightarrow> 'c \<Rightarrow> (('n, 'c) session, unit) effect" where
  "restore L cx c s =
     (if astray (fst s)
      then case beside (awaitValue L cx c (il_Select L c (ic_Mailbox (im_cfg (fst s)))) cmdTimeout) s of
             (Inl e, s1) \<Rightarrow> (Inl e, discard L cx c s1)
           | (Inr _, (m, w)) \<Rightarrow> (Inr (), (forget m, w))
      else (Inr (), s))"

text \<open>
  The operation's value comes back beside the error, because the variables an operation fills
  survive a failure to restore the selection.
\<close>

definition withConn ::
  "('n, 'c) imap_lib \<Rightarrow> 'n host ctx \<Rightarrow>
   ('c \<Rightarrow> (('n, 'c) session, 'a) effect) \<Rightarrow> ('n, 'c) session \<Rightarrow>
   ('a option \<times> error option) \<times> ('n, 'c) session" where
  "withConn L cx f s =
     (case cx (snd s) of
        Some e \<Rightarrow> ((None, Some e), s)
      | None \<Rightarrow>
          (case acquire L cx s of
             (Inl e, s1) \<Rightarrow> ((None, Some e), s1)
           | (Inr c, s1) \<Rightarrow>
               (case f c s1 of
                  (Inl e, s2) \<Rightarrow> ((None, Some e), discard L cx c s2)
                | (Inr x, s2) \<Rightarrow>
                    (case restore L cx c s2 of
                       (Inl e, s3) \<Rightarrow> ((Some x, Some e), s3)
                     | (Inr _, s3) \<Rightarrow> ((Some x, None), cache L cx c s3)))))"

text \<open>Most operations return nothing but the error when there is one.\<close>

definition conn ::
  "('n, 'c) imap_lib \<Rightarrow> 'n host ctx \<Rightarrow>
   ('c \<Rightarrow> (('n, 'c) session, 'a) effect) \<Rightarrow> (('n, 'c) session, 'a) effect" where
  "conn L cx f s =
     (case withConn L cx f s of
        ((Some x, None), s1) \<Rightarrow> (Inr x, s1)
      | ((_, Some e), s1) \<Rightarrow> (Inl e, s1)
      | ((None, None), s1) \<Rightarrow> (Inl (Failure ''''), s1))"

end
