(* ===== verification/Decimal.thy ===== *)
theory Decimal
  imports Oauth
begin

section \<open>Decimal numbers and lines\<close>

text \<open>
  A number as \<open>%d\<close> and \<open>strconv.FormatUint\<close> print it, and that the
  digits read back as the number.  Ids of IMAP messages and the byte counts of the command line
  are printed this way.
\<close>

definition line_end :: string where "line_end = [CHR 0x0A]"

fun decimal :: "nat \<Rightarrow> string" where
  "decimal n = (if n < 10 then [char_of (48 + n)] else decimal (n div 10) @ [char_of (48 + n mod 10)])"

declare decimal.simps [simp del]

lemma digits_value_append:
  "digits_value n (xs @ ys) = (case digits_value n xs of None \<Rightarrow> None | Some m \<Rightarrow> digits_value m ys)"
  by (induction n xs rule: digits_value.induct) (auto split: option.splits)

lemma digit_value_char: "d < 10 \<Longrightarrow> digit_value (char_of (48 + d :: nat)) = Some (int d)"
proof -
  assume d: "d < 10"
  then have n: "(of_char (char_of (48 + d :: nat)) :: nat) = 48 + d" by simp
  have "(of_char (char_of (48 + d :: nat)) :: int) = int (of_char (char_of (48 + d :: nat)))"
    by (rule of_nat_of_char [symmetric])
  with n d show ?thesis by (simp only: digit_value_def n) simp
qed

lemma digits_value_decimal: "digits_value 0 (decimal n) = Some (int n)"
proof (induction n rule: decimal.induct)
  case (1 n)
  show ?case
  proof (cases "n < 10")
    case True
    then show ?thesis by (simp add: decimal.simps [of n] digit_value_char)
  next
    case False
    have "10 * int (n div 10) + int (n mod 10) = int n"
      by (metis mult_div_mod_eq of_nat_add of_nat_mult of_nat_numeral)
    with False 1 show ?thesis
      by (simp add: decimal.simps [of n] digits_value_append digit_value_char)
  qed
qed

lemma decimal_not_empty [simp]: "decimal n \<noteq> []"
  by (subst decimal.simps) simp

lemma digit_of_decimal: "c \<in> set (decimal n) \<Longrightarrow> digit_value c \<noteq> None"
proof (induction n rule: decimal.induct)
  case (1 n)
  then show ?case by (auto simp: decimal.simps [of n] digit_value_char split: if_splits)
qed

end
