(* ===== verification/Imap_Reading.thy ===== *)
theory Imap_Reading
  imports Imap_Session Decimal
begin

section \<open>Ids, listing, fetching and marking over IMAP (infrastructure/imap/imap.go)\<close>

text \<open>
  Ids are decimal UIDs.  Every batch parses its ids first, answers the malformed ones itself and
  names the others in one UID set; what the server does not hold is the failure of that id.
  A map a loop fills is a map here, a later entry replacing an earlier one.
\<close>

subsection \<open>Ids\<close>

definition format_uid :: "uid \<Rightarrow> string" where
  "format_uid u = decimal (unat u)"

definition parseUID :: "string \<Rightarrow> error + uid" where
  "parseUID i =
     (case (if i = [] then None else digits_value 0 i) of
        None \<Rightarrow> Inl (Wraps ErrBadID [Str i])
      | Some n \<Rightarrow>
          (if n \<ge> 2 ^ 32 \<or> n = 0 then Inl (Wraps ErrBadID [Str i]) else Inr (word_of_int n)))"

record uid_ref =
  ref_id :: string
  ref_uid :: uid

fun parseRefs :: "ids \<Rightarrow> uid_ref list \<times> bulk_failure list" where
  "parseRefs [] = ([], [])"
| "parseRefs (i # is) =
     (case parseRefs is of
        (refs, bad) \<Rightarrow>
          (case parseUID i of
             Inl e \<Rightarrow> (refs, \<lparr>ID = i, Err = e\<rparr> # bad)
           | Inr u \<Rightarrow> (\<lparr>ref_id = i, ref_uid = u\<rparr> # refs, bad)))"

definition splitParsable :: "ids \<Rightarrow> bulk_result \<times> uid_ref list" where
  "splitParsable is =
     (case parseRefs is of
        (refs, bad) \<Rightarrow> (fold (\<lambda>f r. Fail (ID f) (Err f) r) bad NewBulkResult, refs))"

definition uidSetOf :: "uid_ref list \<Rightarrow> uid list" where
  "uidSetOf refs = map ref_uid refs"

subsection \<open>Listing and searching\<close>

definition seen_flag :: string where "seen_flag = [CHR 0x5C] @ ''Seen''"

definition no_criteria :: search_criteria where
  "no_criteria = \<lparr>cr_NotFlag = [], cr_Flag = [], cr_Text = [], cr_Header = []\<rparr>"

definition scopeCriteria :: "scope \<Rightarrow> error + search_criteria" where
  "scopeCriteria sc =
     (if sc = ScopeUnread then Inr (no_criteria\<lparr>cr_NotFlag := [seen_flag]\<rparr>)
      else if sc = ScopeRead then Inr (no_criteria\<lparr>cr_Flag := [seen_flag]\<rparr>)
      else if sc = ScopeAll then Inr no_criteria
      else Inl (Wraps ErrBadScope [Str sc]))"

abbreviation command ::
  "('n, 'c) imap_lib \<Rightarrow> 'n host ctx \<Rightarrow> 'c \<Rightarrow> ('n host, 'a) effect \<Rightarrow> (('n, 'c) session, 'a) effect" where
  "command L cx c wait \<equiv> beside (awaitValue L cx c wait cmdTimeout)"

definition uidSearch ::
  "('n, 'c) imap_lib \<Rightarrow> 'n host ctx \<Rightarrow> search_criteria \<Rightarrow> (('n, 'c) session, ids) effect" where
  "uidSearch L cx criteria =
     conn L cx (\<lambda>c. andthen (command L cx c (il_UIDSearch L c criteria))
       (\<lambda>uids. ret (map format_uid uids)))"

definition imap_List :: "('n, 'c) imap_lib \<Rightarrow> 'n host ctx \<Rightarrow> scope \<Rightarrow> (('n, 'c) session, ids) effect" where
  "imap_List L cx sc =
     (case scopeCriteria sc of
        Inl e \<Rightarrow> refuse e
      | Inr criteria \<Rightarrow> uidSearch L cx criteria)"

definition imap_ListUnread :: "('n, 'c) imap_lib \<Rightarrow> 'n host ctx \<Rightarrow> (('n, 'c) session, ids) effect" where
  "imap_ListUnread L cx = imap_List L cx ScopeUnread"

definition imap_SearchScope ::
  "('n, 'c) imap_lib \<Rightarrow> 'n host ctx \<Rightarrow> scope \<Rightarrow> string \<Rightarrow> (('n, 'c) session, ids) effect" where
  "imap_SearchScope L cx sc query =
     (case scopeCriteria sc of
        Inl e \<Rightarrow> refuse e
      | Inr criteria \<Rightarrow> uidSearch L cx (criteria\<lparr>cr_Text := [query]\<rparr>))"

definition imap_Search ::
  "('n, 'c) imap_lib \<Rightarrow> 'n host ctx \<Rightarrow> string \<Rightarrow> (('n, 'c) session, ids) effect" where
  "imap_Search L cx query = imap_SearchScope L cx ScopeUnread query"

definition imap_SearchFromScope ::
  "('n, 'c) imap_lib \<Rightarrow> 'n host ctx \<Rightarrow> scope \<Rightarrow> string \<Rightarrow> string \<Rightarrow> (('n, 'c) session, ids) effect" where
  "imap_SearchFromScope L cx sc query author =
     (case scopeCriteria sc of
        Inl e \<Rightarrow> refuse e
      | Inr criteria \<Rightarrow>
          uidSearch L cx (criteria\<lparr>cr_Text := [query], cr_Header := [(''From'', author)]\<rparr>))"

subsection \<open>Fetching one message\<close>

definition whole_body :: fetch_items where "whole_body = FetchSection True None"

definition triage_headers :: fetch_items where
  "triage_headers = FetchSection True (Some [''From'', ''To'', ''Subject'', ''Date'', ''Message-Id''])"

text \<open>One section of one message: absent messages and absent sections are errors of their own.\<close>

definition fetch_section ::
  "('n, 'c) imap_lib \<Rightarrow> 'n host ctx \<Rightarrow> fetch_items \<Rightarrow> string \<Rightarrow> uid \<Rightarrow> 'c \<Rightarrow>
   (('n, 'c) session, bytes) effect" where
  "fetch_section L cx items i u c =
     andthen (command L cx c (il_Fetch L c [u] items))
       (\<lambda>msgs. case msgs of
          [] \<Rightarrow> refuse (Wraps ErrBadID [Str i])
        | msg # _ \<Rightarrow>
            (case fb_Section msg of
               None \<Rightarrow> refuse (Failure ''no section in response'')
             | Some raw \<Rightarrow> ret raw))"

definition imap_Fetch ::
  "('n, 'c) imap_lib \<Rightarrow> 'n host ctx \<Rightarrow> string \<Rightarrow> (('n, 'c) session, bytes) effect" where
  "imap_Fetch L cx i =
     (case parseUID i of
        Inl e \<Rightarrow> refuse e
      | Inr u \<Rightarrow> conn L cx (fetch_section L cx whole_body i u))"

definition imap_FetchHeaders ::
  "('n, 'c) imap_lib \<Rightarrow> mail_lib \<Rightarrow> 'n host ctx \<Rightarrow> string \<Rightarrow> (('n, 'c) session, message_headers) effect" where
  "imap_FetchHeaders L lib cx i =
     (case parseUID i of
        Inl e \<Rightarrow> refuse e
      | Inr u \<Rightarrow>
          andthen (conn L cx (fetch_section L cx triage_headers i u)) (\<lambda>raw. ret (Parse lib raw)))"

subsection \<open>Envelopes of many messages\<close>

definition uid_names :: "uid_ref list \<Rightarrow> uid \<rightharpoonup> string" where
  "uid_names refs = map_of (rev (map (\<lambda>r. (ref_uid r, ref_id r)) refs))"

text \<open>A UID nobody asked for is looked up as the empty id, as a Go map answers.\<close>

definition name_of :: "uid_ref list \<Rightarrow> uid \<Rightarrow> string" where
  "name_of refs u = (case uid_names refs u of None \<Rightarrow> [] | Some i \<Rightarrow> i)"

definition note_headers :: "mail_lib \<Rightarrow> uid_ref list \<Rightarrow> fetch_buffer \<Rightarrow> headers_answer \<Rightarrow> headers_answer" where
  "note_headers lib refs msg ans =
     (case fb_Section msg of
        None \<Rightarrow> (fst ans, (snd ans)(name_of refs (fb_UID msg) \<mapsto> Failure ''no header section in response''))
      | Some raw \<Rightarrow> ((fst ans)(name_of refs (fb_UID msg) \<mapsto> Parse lib raw), snd ans))"

definition note_absent :: "uid_ref list \<Rightarrow> uid_ref \<Rightarrow> headers_answer \<Rightarrow> headers_answer" where
  "note_absent refs r ans =
     (let i = name_of refs (ref_uid r) in
      case fst ans i of
        Some _ \<Rightarrow> ans
      | None \<Rightarrow> (fst ans, (snd ans)(i \<mapsto> Wraps ErrBadID [Str i])))"

definition imap_FetchHeadersMany ::
  "('n, 'c) imap_lib \<Rightarrow> mail_lib \<Rightarrow> 'n host ctx \<Rightarrow> ids \<Rightarrow> ('n, 'c) session \<Rightarrow>
   headers_answer \<times> ('n, 'c) session" where
  "imap_FetchHeadersMany L lib cx is s =
     (case parseRefs is of
        (refs, bad) \<Rightarrow>
          (let start = (Map.empty, fold (\<lambda>f m. m(ID f \<mapsto> Err f)) bad Map.empty) in
           if refs = [] then (start, s)
           else case withConn L cx (\<lambda>c. command L cx c (il_Fetch L c (uidSetOf refs) triage_headers)) s of
                  ((msgs, err), s1) \<Rightarrow>
                    (let read = fold (note_headers lib refs) (case msgs of None \<Rightarrow> [] | Some ms \<Rightarrow> ms) start in
                     case err of
                       Some e \<Rightarrow> ((fst read, fold (\<lambda>r m. m(ref_id r \<mapsto> e)) refs (snd read)), s1)
                     | None \<Rightarrow> (fold (note_absent refs) refs read, s1))))"

subsection \<open>Sizes and whole batches\<close>

definition fetchSizes ::
  "('n, 'c) imap_lib \<Rightarrow> 'n host ctx \<Rightarrow> 'c \<Rightarrow> uid_ref list \<Rightarrow>
   (('n, 'c) session, uid \<rightharpoonup> int64) effect" where
  "fetchSizes L cx c refs =
     andthen (command L cx c (il_Fetch L c (uidSetOf refs) FetchSize))
       (\<lambda>found. ret (map_of (rev (map (\<lambda>msg. (fb_UID msg, fb_Size msg)) found))))"

definition imap_Sizes ::
  "('n, 'c) imap_lib \<Rightarrow> 'n host ctx \<Rightarrow> ids \<Rightarrow> (('n, 'c) session, string \<rightharpoonup> int64) effect" where
  "imap_Sizes L cx is =
     (let refs = fst (parseRefs is) in
      if refs = [] then ret Map.empty
      else conn L cx (\<lambda>c. andthen (fetchSizes L cx c refs)
             (\<lambda>sizes. ret (fold (\<lambda>r m. case sizes (ref_uid r) of
                                          None \<Rightarrow> m
                                        | Some k \<Rightarrow> m(ref_id r \<mapsto> k)) refs Map.empty))))"

text \<open>The measured batch: what is present, its total, and the absent ids failed.\<close>

fun measure_refs ::
  "(uid \<rightharpoonup> int64) \<Rightarrow> uid_ref list \<Rightarrow> fetch_result \<times> int64 \<times> uid_ref list \<Rightarrow>
   fetch_result \<times> int64 \<times> uid_ref list" where
  "measure_refs sizes [] acc = acc"
| "measure_refs sizes (r # rs) (res, tot, present) =
     (case sizes (ref_uid r) of
        None \<Rightarrow> measure_refs sizes rs
                  (fetch_Fail (ref_id r) (Wraps ErrBadID [Str (ref_id r)]) res, tot, present)
      | Some k \<Rightarrow> measure_refs sizes rs (res, tot + k, present @ [r]))"

fun record_bodies :: "(uid \<rightharpoonup> bytes) \<Rightarrow> uid_ref list \<Rightarrow> fetch_result \<Rightarrow> fetch_result" where
  "record_bodies bodies [] res = res"
| "record_bodies bodies (r # rs) res =
     record_bodies bodies rs
       (case bodies (ref_uid r) of
          None \<Rightarrow> fetch_Fail (ref_id r) (Failure ''no body section in response'') res
        | Some raw \<Rightarrow> fetch_Add (ref_id r) raw res)"

definition bodies_of :: "fetch_buffer list \<Rightarrow> uid \<rightharpoonup> bytes" where
  "bodies_of msgs =
     map_of (rev (List.map_filter (\<lambda>msg. map_option (Pair (fb_UID msg)) (fb_Section msg)) msgs))"

definition fetchBodies ::
  "('n, 'c) imap_lib \<Rightarrow> 'n host ctx \<Rightarrow> 'c \<Rightarrow> fetch_result \<Rightarrow> uid_ref list \<Rightarrow>
   (('n, 'c) session, fetch_result) effect" where
  "fetchBodies L cx c res refs =
     andthen (command L cx c (il_Fetch L c (uidSetOf refs) whole_body))
       (\<lambda>msgs. ret (record_bodies (bodies_of msgs) refs res))"

text \<open>A refused batch is a value inside the connection, so that the connection is kept.\<close>

definition fetch_within_budget ::
  "('n, 'c) imap_lib \<Rightarrow> 'n host ctx \<Rightarrow> uid_ref list \<Rightarrow> fetch_result \<Rightarrow> 'c \<Rightarrow>
   (('n, 'c) session, error + fetch_result) effect" where
  "fetch_within_budget L cx refs res c =
     andthen (fetchSizes L cx c refs)
       (\<lambda>sizes. case measure_refs sizes refs (res, 0, []) of
          (res1, tot, present) \<Rightarrow>
            (if present = [] then ret (Inr res1)
             else case CheckFetchBudget tot (length present) of
                    Some e \<Rightarrow> ret (Inl e)
                  | None \<Rightarrow> andthen (fetchBodies L cx c res1 present) (\<lambda>r. ret (Inr r))))"

definition imap_FetchMany ::
  "('n, 'c) imap_lib \<Rightarrow> 'n host ctx \<Rightarrow> ids \<Rightarrow> (('n, 'c) session, fetch_result) effect" where
  "imap_FetchMany L cx is =
     asks (\<lambda>s. CheckBulkIDsLimit is (imap_BulkLimit (fst s))) (\<lambda>chk.
       case chk of
         Some e \<Rightarrow> refuse e
       | None \<Rightarrow>
           (case parseRefs is of
              (refs, bad) \<Rightarrow>
                (let res = fold (\<lambda>f r. fetch_Fail (ID f) (Err f) r) bad NewFetchResult in
                 if refs = [] then ret res
                 else andthen (conn L cx (fetch_within_budget L cx refs res))
                        (\<lambda>out. case out of Inl e \<Rightarrow> refuse e | Inr r \<Rightarrow> ret r))))"

subsection \<open>Marking messages seen\<close>

definition locate_one ::
  "('n, 'c) imap_lib \<Rightarrow> 'n host ctx \<Rightarrow> 'c \<Rightarrow> string \<Rightarrow> uid \<Rightarrow> (('n, 'c) session, unit) effect" where
  "locate_one L cx c i u =
     andthen (command L cx c (il_Fetch L c [u] FetchUID))
       (\<lambda>found. if found = [] then refuse (Wraps ErrBadID [Str i]) else ret ())"

definition imap_MarkSeen ::
  "('n, 'c) imap_lib \<Rightarrow> 'n host ctx \<Rightarrow> string \<Rightarrow> (('n, 'c) session, unit) effect" where
  "imap_MarkSeen L cx i =
     (case parseUID i of
        Inl e \<Rightarrow> refuse e
      | Inr u \<Rightarrow>
          conn L cx (\<lambda>c. andthen (locate_one L cx c i u) (\<lambda>_. command L cx c (il_StoreSeen L c [u]))))"

fun split_present :: "uid set \<Rightarrow> uid_ref list \<Rightarrow> bulk_result \<Rightarrow> bulk_result \<times> uid_ref list" where
  "split_present held [] res = (res, [])"
| "split_present held (r # rs) res =
     (if ref_uid r \<in> held
      then (case split_present held rs res of (res1, present) \<Rightarrow> (res1, r # present))
      else split_present held rs (Fail (ref_id r) (Wraps ErrBadID [Str (ref_id r)]) res))"

definition locateMany ::
  "('n, 'c) imap_lib \<Rightarrow> 'n host ctx \<Rightarrow> 'c \<Rightarrow> bulk_result \<Rightarrow> uid_ref list \<Rightarrow>
   (('n, 'c) session, bulk_result \<times> uid_ref list) effect" where
  "locateMany L cx c res refs =
     andthen (command L cx c (il_Fetch L c (uidSetOf refs) FetchUID))
       (\<lambda>found. ret (split_present (set (map fb_UID found)) refs res))"

definition succeed_all :: "uid_ref list \<Rightarrow> bulk_result \<Rightarrow> bulk_result" where
  "succeed_all refs res = fold (\<lambda>r. Succeed (ref_id r)) refs res"

definition storeSeen ::
  "('n, 'c) imap_lib \<Rightarrow> 'n host ctx \<Rightarrow> 'c \<Rightarrow> bulk_result \<Rightarrow> uid_ref list \<Rightarrow>
   (('n, 'c) session, bulk_result) effect" where
  "storeSeen L cx c res refs =
     andthen (command L cx c (il_StoreSeen L c (uidSetOf refs))) (\<lambda>_. ret (succeed_all refs res))"

text \<open>Every curation batch has this head: the batch check, then the ids that parse.\<close>

definition over_parsable ::
  "ids \<Rightarrow> (bulk_result \<Rightarrow> uid_ref list \<Rightarrow> (('n, 'c) session, bulk_result) effect) \<Rightarrow>
   (('n, 'c) session, bulk_result) effect" where
  "over_parsable is f =
     asks (\<lambda>s. CheckBulkIDsLimit is (imap_BulkLimit (fst s))) (\<lambda>chk.
       case chk of
         Some e \<Rightarrow> refuse e
       | None \<Rightarrow>
           (case splitParsable is of
              (res, known) \<Rightarrow> (if known = [] then ret res else f res known)))"

definition imap_MarkSeenMany ::
  "('n, 'c) imap_lib \<Rightarrow> 'n host ctx \<Rightarrow> ids \<Rightarrow> (('n, 'c) session, bulk_result) effect" where
  "imap_MarkSeenMany L cx is =
     over_parsable is (\<lambda>res known. conn L cx (\<lambda>c.
       andthen (locateMany L cx c res known)
         (\<lambda>(res1, present). if present = [] then ret res1 else storeSeen L cx c res1 present)))"

subsection \<open>Folders as mailboxes\<close>

definition imap_Folders :: "('n, 'c) imap_lib \<Rightarrow> 'n host ctx \<Rightarrow> (('n, 'c) session, ids) effect" where
  "imap_Folders L cx =
     conn L cx (\<lambda>c. andthen (command L cx c (il_List L c False)) (\<lambda>boxes. ret (map ld_Mailbox boxes)))"

definition imap_InFolder ::
  "'n host ctx \<Rightarrow> 'a imap_mailbox_scheme \<Rightarrow> string \<Rightarrow> 'n host \<Rightarrow> error + 'c pooled" where
  "imap_InFolder cx m name w =
     (case cx w of
        Some e \<Rightarrow> Inl e
      | None \<Rightarrow>
          (if name = [] then Inl (Failure ''imap: folder name required'')
           else Inr (fresh_pool \<lparr>im_cfg = (im_cfg m)\<lparr>ic_Mailbox := name\<rparr>\<rparr>)))"

end
