(* ===== verification/Imap_Folders.thy ===== *)
theory Imap_Folders
  imports Imap_Reading
begin

section \<open>Folders and curation destinations over IMAP (infrastructure/imap/imap.go)\<close>

text \<open>
  Where archive and delete file, decided from the override, the server's declarations, the
  conventional name, the aliases of other clients, and last a folder to create; and the creation
  and deletion of folders, which place a name inside the personal namespace first.
\<close>

subsection \<open>Choosing a destination\<close>

record curation_target =
  ct_override :: string
  ct_attr :: mailbox_attr
  ct_leaf :: string
  ct_aliases :: "string list"

definition trashAliases :: "string list" where
  "trashAliases =
     [''Deleted Items'', ''Deleted Messages'', ''Papierkorb'', ''Corbeille'', ''Papelera'',
      ''Cestino'', ''Lixeira'', ''Prullenbak'', ''Kosz'', ''Skr'' @ [CHR 0xC3, CHR 0xA4] @ ''p'',
      ''Slettede elementer'']"

definition archiveAliases :: "string list" where
  "archiveAliases =
     [''Archives'', ''Archiv'', ''Archivio'', ''Archivo'', ''Arquivo'', ''Arkiv'', ''Archiwum'']"

definition archiveTarget :: "'a imap_mailbox_scheme \<Rightarrow> curation_target" where
  "archiveTarget m =
     \<lparr>ct_override = ic_ArchiveFolder (im_cfg m), ct_attr = AttrArchive, ct_leaf = ''Archive'',
      ct_aliases = archiveAliases\<rparr>"

definition trashTarget :: "'a imap_mailbox_scheme \<Rightarrow> curation_target" where
  "trashTarget m =
     \<lparr>ct_override = ic_TrashFolder (im_cfg m), ct_attr = AttrTrash, ct_leaf = ''Trash'',
      ct_aliases = trashAliases\<rparr>"

definition leafOf :: "string \<Rightarrow> string \<Rightarrow> string" where
  "leafOf box pre = (if pre \<noteq> [] \<and> has_prefix box pre then drop (length pre) box else box)"

text \<open>The scan of the listing: the first declared folder ends it, otherwise the names by leaf.\<close>

fun scan_boxes ::
  "mailbox_attr \<Rightarrow> string \<Rightarrow> list_data list \<Rightarrow> (string \<rightharpoonup> string) \<Rightarrow> string + (string \<rightharpoonup> string)" where
  "scan_boxes attr pre [] existing = Inr existing"
| "scan_boxes attr pre (b # bs) existing =
     (if attr \<in> set (ld_Attrs b) then Inl (ld_Mailbox b)
      else scan_boxes attr pre bs (existing(to_lower (leafOf (ld_Mailbox b) pre) \<mapsto> ld_Mailbox b)))"

fun first_alias :: "(string \<rightharpoonup> string) \<Rightarrow> string list \<Rightarrow> string option" where
  "first_alias existing [] = None"
| "first_alias existing (a # as) =
     (case existing (to_lower a) of Some full \<Rightarrow> Some full | None \<Rightarrow> first_alias existing as)"

definition chooseCurationFolder ::
  "curation_target \<Rightarrow> list_data list \<Rightarrow> string \<Rightarrow> string \<times> curation_route" where
  "chooseCurationFolder t boxes pre =
     (case scan_boxes (ct_attr t) pre boxes Map.empty of
        Inl full \<Rightarrow> (full, RouteDeclared)
      | Inr existing \<Rightarrow>
          (case existing (to_lower (ct_leaf t)) of
             Some full \<Rightarrow> (full, RouteConvention)
           | None \<Rightarrow>
               (case first_alias existing (ct_aliases t) of
                  Some full \<Rightarrow> (full, RouteAlias)
                | None \<Rightarrow> (pre @ ct_leaf t, RouteCreate))))"

definition destinationFor ::
  "curation_target \<Rightarrow> list_data list \<Rightarrow> string \<Rightarrow> curation_destination" where
  "destinationFor t boxes pre =
     (if ct_override t \<noteq> [] then \<lparr>Folder = ct_override t, Route = RouteOverride\<rparr>
      else case chooseCurationFolder t boxes pre of (folder, route) \<Rightarrow> \<lparr>Folder = folder, Route = route\<rparr>)"

definition listAll ::
  "('n, 'c) imap_lib \<Rightarrow> 'n host ctx \<Rightarrow> 'c \<Rightarrow> (('n, 'c) session, list_data list) effect" where
  "listAll L cx c = command L cx c (il_List L c True)"

definition personalPrefix ::
  "('n, 'c) imap_lib \<Rightarrow> 'n host ctx \<Rightarrow> 'c \<Rightarrow> (('n, 'c) session, string) effect" where
  "personalPrefix L cx c s =
     (case beside (awaitValue L cx c (il_Namespace L c) connectTimeout) s of
        (Inr (Some (p # _)), s1) \<Rightarrow> (Inr p, s1)
      | (_, s1) \<Rightarrow> (Inr [], s1))"

definition planCurationFolder ::
  "('n, 'c) imap_lib \<Rightarrow> 'n host ctx \<Rightarrow> 'c \<Rightarrow> curation_target \<Rightarrow>
   (('n, 'c) session, curation_destination) effect" where
  "planCurationFolder L cx c t =
     (if ct_override t \<noteq> [] then ret (destinationFor t [] [])
      else andthen (listAll L cx c)
             (\<lambda>boxes. andthen (personalPrefix L cx c) (\<lambda>pre. ret (destinationFor t boxes pre))))"

definition resolveCurationFolder ::
  "('n, 'c) imap_lib \<Rightarrow> 'n host ctx \<Rightarrow> 'c \<Rightarrow> curation_target \<Rightarrow> (('n, 'c) session, string) effect" where
  "resolveCurationFolder L cx c t =
     andthen (planCurationFolder L cx c t)
       (\<lambda>dest. if Route dest \<noteq> RouteCreate then ret (Folder dest)
                else andthen (command L cx c (il_Create L c (Folder dest))) (\<lambda>_. ret (Folder dest)))"

definition imap_CurationPlan ::
  "('n, 'c) imap_lib \<Rightarrow> 'n host ctx \<Rightarrow> (('n, 'c) session, curation_plan) effect" where
  "imap_CurationPlan L cx =
     asks fst (\<lambda>m. conn L cx (\<lambda>c.
       andthen (planCurationFolder L cx c (archiveTarget m))
         (\<lambda>ar. andthen (planCurationFolder L cx c (trashTarget m))
            (\<lambda>tr. ret \<lparr>Archive = ar, Trash = tr\<rparr>))))"

definition move_mode :: "(imap_cap \<Rightarrow> bool) \<Rightarrow> string" where
  "move_mode caps =
     (if caps CapMove \<or> caps CapIMAP4rev2 then ''uid_move''
      else if caps CapUIDPlus then ''uidplus_uid_expunge''
      else ''unsupported'')"

definition imap_CurationCapabilities ::
  "('n, 'c) imap_lib \<Rightarrow> 'n host ctx \<Rightarrow> (('n, 'c) session, curation_capabilities) effect" where
  "imap_CurationCapabilities L cx =
     conn L cx (\<lambda>c. asks (\<lambda>s. move_mode (il_Caps L c (snd s))) (\<lambda>mode.
       ret \<lparr>MoveMode = mode, PermanentDelete = False, SourceRemovedOnMove = (mode \<noteq> ''unsupported'')\<rparr>))"

subsection \<open>Names in the personal namespace\<close>

definition namespaceFolder :: "string \<Rightarrow> string \<Rightarrow> string" where
  "namespaceFolder pre name =
     (if pre = [] \<or> equal_fold name ''INBOX'' \<or> has_prefix name pre then name else pre @ name)"

definition imap_checkFolderName :: "string \<Rightarrow> check" where
  "imap_checkFolderName name =
     (case CheckFolderName name of
        Some e \<Rightarrow> Some e
      | None \<Rightarrow> (if contains_any name ''*%'' then Some (Wraps ErrBadFolder [Str name]) else None))"

fun findFolder :: "list_data list \<Rightarrow> string \<Rightarrow> string option" where
  "findFolder [] full = None"
| "findFolder (b # bs) full = (if ld_Mailbox b = full then Some (ld_Delim b) else findFolder bs full)"

definition childrenOf :: "list_data list \<Rightarrow> string \<Rightarrow> string \<Rightarrow> ids" where
  "childrenOf boxes full delim =
     (if delim = [] then []
      else filter (\<lambda>n. has_prefix n (full @ delim)) (map ld_Mailbox boxes))"

subsection \<open>Creating and deleting folders\<close>

text \<open>The server's own ALREADYEXISTS counts as created.\<close>

definition create_tolerantly ::
  "('n, 'c) imap_lib \<Rightarrow> 'n host ctx \<Rightarrow> 'c \<Rightarrow> string \<Rightarrow> (('n, 'c) session, unit) effect" where
  "create_tolerantly L cx c full s =
     (case command L cx c (il_Create L c full) s of
        (Inl e, s1) \<Rightarrow> (if il_AlreadyExists L e then (Inr (), s1) else (Inl e, s1))
      | (Inr _, s1) \<Rightarrow> (Inr (), s1))"

definition imap_CreateFolder ::
  "('n, 'c) imap_lib \<Rightarrow> 'n host ctx \<Rightarrow> string \<Rightarrow> (('n, 'c) session, unit) effect" where
  "imap_CreateFolder L cx name =
     (case imap_checkFolderName name of
        Some e \<Rightarrow> refuse e
      | None \<Rightarrow>
          conn L cx (\<lambda>c. andthen (listAll L cx c) (\<lambda>boxes. andthen (personalPrefix L cx c) (\<lambda>pre.
            let full = namespaceFolder pre name in
            if findFolder boxes full \<noteq> None then ret () else create_tolerantly L cx c full))))"

definition folderMessages ::
  "('n, 'c) imap_lib \<Rightarrow> 'n host ctx \<Rightarrow> 'c \<Rightarrow> string \<Rightarrow> (('n, 'c) session, int) effect" where
  "folderMessages L cx c full =
     andthen (command L cx c (il_Status L c full))
       (\<lambda>n. case n of
          None \<Rightarrow> refuse (Failure ''server did not report a message count'')
        | Some k \<Rightarrow> ret k)"

text \<open>The guards that need no further command, in the order of the code.\<close>

definition deletion_refused ::
  "'a imap_mailbox_scheme \<Rightarrow> list_data list \<Rightarrow> string \<Rightarrow> string \<Rightarrow> check" where
  "deletion_refused m boxes pre full =
     (case findFolder boxes full of
        None \<Rightarrow> Some (Wraps ErrBadFolder [Str full])
      | Some delim \<Rightarrow>
          (case CheckFolderDeletable full full
                  \<lparr>Archive = destinationFor (archiveTarget m) boxes pre,
                   Trash = destinationFor (trashTarget m) boxes pre\<rparr> of
             Some e \<Rightarrow> Some e
           | None \<Rightarrow> CheckFolderChildless full (childrenOf boxes full delim)))"

definition delete_folder_on ::
  "('n, 'c) imap_lib \<Rightarrow> 'n host ctx \<Rightarrow> 'a imap_mailbox_scheme \<Rightarrow> string \<Rightarrow> 'c \<Rightarrow>
   (('n, 'c) session, check) effect" where
  "delete_folder_on L cx m name c =
     andthen (listAll L cx c) (\<lambda>boxes. andthen (personalPrefix L cx c) (\<lambda>pre.
       let full = namespaceFolder pre name in
       case deletion_refused m boxes pre full of
         Some e \<Rightarrow> ret (Some e)
       | None \<Rightarrow>
           andthen (folderMessages L cx c full) (\<lambda>n.
             case CheckFolderEmpty full n of
               Some e \<Rightarrow> ret (Some e)
             | None \<Rightarrow> andthen (command L cx c (il_Delete L c full)) (\<lambda>_. ret None))))"

definition imap_DeleteFolder ::
  "('n, 'c) imap_lib \<Rightarrow> 'n host ctx \<Rightarrow> string \<Rightarrow> (('n, 'c) session, unit) effect" where
  "imap_DeleteFolder L cx name =
     (case imap_checkFolderName name of
        Some e \<Rightarrow> refuse e
      | None \<Rightarrow>
          andthen (asks fst (\<lambda>m. conn L cx (delete_folder_on L cx m name)))
            (\<lambda>refused. case refused of Some e \<Rightarrow> refuse e | None \<Rightarrow> ret ()))"

end
