(* ===== verification/Imap_Moving.thy ===== *)
theory Imap_Moving
  imports Imap_Folders
begin

section \<open>Moving, archiving and deleting over IMAP (infrastructure/imap/imap.go)\<close>

text \<open>
  A move is refused unless the server can move UIDs, or expunge by UID, and is reported as done
  only after the source no longer answers for the UIDs and the destination answers for them: by
  the UIDs the server says they received, or by searching for their Message-IDs.
\<close>

subsection \<open>The verified move\<close>

definition message_id_section :: fetch_items where
  "message_id_section = FetchSection True (Some [''Message-Id''])"

definition fetchMessageIDs ::
  "('n, 'c) imap_lib \<Rightarrow> mail_lib \<Rightarrow> 'n host ctx \<Rightarrow> 'c \<Rightarrow> uid list \<Rightarrow>
   (('n, 'c) session, uid \<rightharpoonup> string) effect" where
  "fetchMessageIDs L lib cx c uids =
     andthen (command L cx c (il_Fetch L c uids message_id_section))
       (\<lambda>msgs. ret (\<lambda>u. map_option (\<lambda>raw. MessageID (Parse lib raw)) (bodies_of msgs u)))"

text \<open>A UID without an entry has the empty id, as a Go map answers.\<close>

definition id_at :: "(uid \<rightharpoonup> string) \<Rightarrow> uid \<Rightarrow> string" where
  "id_at mids u = (case mids u of None \<Rightarrow> [] | Some i \<Rightarrow> i)"

definition already_there ::
  "('n, 'c) imap_lib \<Rightarrow> 'n host ctx \<Rightarrow> 'c \<Rightarrow> uid list \<Rightarrow> uid list \<Rightarrow> (('n, 'c) session, unit) effect" where
  "already_there L cx c uids nums =
     andthen (command L cx c (il_Fetch L c uids FetchUID))
       (\<lambda>found. if length found \<noteq> length nums
                 then refuse (Failure ''source and destination are the same and messages are absent'')
                 else ret ())"

fun exact_id ::
  "('n, 'c) imap_lib \<Rightarrow> mail_lib \<Rightarrow> 'n host ctx \<Rightarrow> 'c \<Rightarrow> string \<Rightarrow> uid list \<Rightarrow>
   (('n, 'c) session, bool) effect" where
  "exact_id L lib cx c mid [] = ret False"
| "exact_id L lib cx c mid (u # us) =
     andthen (command L cx c (il_Fetch L c [u] message_id_section))
       (\<lambda>found.
          case found of
            [] \<Rightarrow> exact_id L lib cx c mid us
          | msg # _ \<Rightarrow>
              (case fb_Section msg of
                 None \<Rightarrow> exact_id L lib cx c mid us
               | Some raw \<Rightarrow>
                   (if equal_fold (MessageID (Parse lib raw)) mid then ret True
                    else exact_id L lib cx c mid us)))"

fun verify_by_id ::
  "('n, 'c) imap_lib \<Rightarrow> mail_lib \<Rightarrow> 'n host ctx \<Rightarrow> 'c \<Rightarrow> (uid \<rightharpoonup> string) \<Rightarrow> uid list \<Rightarrow>
   (('n, 'c) session, unit) effect" where
  "verify_by_id L lib cx c mids [] = ret ()"
| "verify_by_id L lib cx c mids (u # us) =
     andthen (command L cx c (il_UIDSearch L c (no_criteria\<lparr>cr_Header := [(''Message-ID'', id_at mids u)]\<rparr>)))
       (\<lambda>found.
          if found = [] then refuse (Failure ''moved UID is not present in destination'')
          else andthen (exact_id L lib cx c (id_at mids u) found)
                 (\<lambda>matched. if matched then verify_by_id L lib cx c mids us
                             else refuse (Failure ''destination did not contain the exact Message-ID'')))"

definition verify_destination ::
  "('n, 'c) imap_lib \<Rightarrow> mail_lib \<Rightarrow> 'n host ctx \<Rightarrow> 'c \<Rightarrow> (uid \<rightharpoonup> string) \<Rightarrow> uid list \<Rightarrow> uid list option \<Rightarrow>
   (('n, 'c) session, unit) effect" where
  "verify_destination L lib cx c mids nums dest =
     (case dest of
        Some us \<Rightarrow>
          andthen (command L cx c (il_Fetch L c us FetchUID))
            (\<lambda>found. if length found \<noteq> length nums
                      then refuse (Failure ''move destination lacks moved messages'') else ret ())
      | None \<Rightarrow> verify_by_id L lib cx c mids nums)"

text \<open>Without UIDPLUS the ids are needed beforehand: what the server lacks decides.\<close>

definition known_ids ::
  "('n, 'c) imap_lib \<Rightarrow> mail_lib \<Rightarrow> 'n host ctx \<Rightarrow> 'c \<Rightarrow> (imap_cap \<Rightarrow> bool) \<Rightarrow> uid list \<Rightarrow> uid list \<Rightarrow>
   (('n, 'c) session, uid \<rightharpoonup> string) effect" where
  "known_ids L lib cx c caps uids nums =
     (if \<not> caps CapUIDPlus \<and> \<not> caps CapIMAP4rev2
      then andthen (fetchMessageIDs L lib cx c uids)
             (\<lambda>mids. if list_ex (\<lambda>u. trim_space (id_at mids u) = []) nums
                      then refuse (Failure ''safe move cannot be verified: Message-ID is absent'')
                      else ret mids)
      else ret Map.empty)"

definition verified_move ::
  "('n, 'c) imap_lib \<Rightarrow> mail_lib \<Rightarrow> 'n host ctx \<Rightarrow> 'c \<Rightarrow> (imap_cap \<Rightarrow> bool) \<Rightarrow> string \<Rightarrow> uid list \<Rightarrow>
   uid list \<Rightarrow> (('n, 'c) session, unit) effect" where
  "verified_move L lib cx c caps destination uids nums =
     andthen (known_ids L lib cx c caps uids nums) (\<lambda>mids.
     andthen (command L cx c (il_Move L c uids destination)) (\<lambda>dest.
     andthen (command L cx c (il_Fetch L c uids FetchUID)) (\<lambda>remaining.
       if remaining \<noteq> [] then refuse (Failure ''move left source messages in place'')
       else andthen (selectFolder L cx c destination)
              (\<lambda>_. verify_destination L lib cx c mids nums dest))))"

definition moveUIDSet ::
  "('n, 'c) imap_lib \<Rightarrow> mail_lib \<Rightarrow> 'n host ctx \<Rightarrow> 'c \<Rightarrow> string \<Rightarrow> string \<Rightarrow> uid list \<Rightarrow>
   (('n, 'c) session, unit) effect" where
  "moveUIDSet L lib cx c src destination uids =
     (case il_Nums L uids of
        None \<Rightarrow> refuse (Failure ''move requires a concrete non-empty UID set'')
      | Some nums \<Rightarrow>
          (if nums = [] then refuse (Failure ''move requires a concrete non-empty UID set'')
           else if equal_fold src destination then already_there L cx c uids nums
           else asks (\<lambda>s. il_Caps L c (snd s)) (\<lambda>caps.
             if \<not> caps CapMove \<and> \<not> caps CapIMAP4rev2 \<and> \<not> caps CapUIDPlus
             then refuse (Failure ''safe move unsupported: server lacks MOVE and UIDPLUS'')
             else verified_move L lib cx c caps destination uids nums)))"

subsection \<open>One message\<close>

text \<open>The folder a move starts from, placed in the personal namespace.\<close>

definition source_folder ::
  "('n, 'c) imap_lib \<Rightarrow> 'n host ctx \<Rightarrow> 'c \<Rightarrow> (('n, 'c) session, string) effect" where
  "source_folder L cx c =
     andthen (personalPrefix L cx c)
       (\<lambda>pre. asks (\<lambda>s. ic_Mailbox (im_cfg (fst s))) (\<lambda>box. ret (namespaceFolder pre box)))"

definition fileTo ::
  "('n, 'c) imap_lib \<Rightarrow> mail_lib \<Rightarrow> 'n host ctx \<Rightarrow> curation_target \<Rightarrow> string \<Rightarrow>
   (('n, 'c) session, unit) effect" where
  "fileTo L lib cx t i =
     (case parseUID i of
        Inl e \<Rightarrow> refuse e
      | Inr u \<Rightarrow>
          conn L cx (\<lambda>c.
            andthen (resolveCurationFolder L cx c t) (\<lambda>folder.
            andthen (source_folder L cx c) (\<lambda>src.
            andthen (locate_one L cx c i u) (\<lambda>_.
            moveUIDSet L lib cx c src folder [u])))))"

text \<open>An existing folder by the caller's name, or the refusal that it does not exist.\<close>

definition existing_folder ::
  "('n, 'c) imap_lib \<Rightarrow> 'n host ctx \<Rightarrow> 'c \<Rightarrow> string \<Rightarrow> (('n, 'c) session, string) effect" where
  "existing_folder L cx c destination =
     andthen (listAll L cx c) (\<lambda>boxes. andthen (personalPrefix L cx c) (\<lambda>pre.
       let full = namespaceFolder pre destination in
       if findFolder boxes full = None then refuse (Wraps ErrBadFolder [Str destination]) else ret full))"

definition imap_Move ::
  "('n, 'c) imap_lib \<Rightarrow> mail_lib \<Rightarrow> 'n host ctx \<Rightarrow> string \<Rightarrow> string \<Rightarrow> (('n, 'c) session, unit) effect" where
  "imap_Move L lib cx i destination =
     (case imap_checkFolderName destination of
        Some e \<Rightarrow> refuse e
      | None \<Rightarrow>
          (case parseUID i of
             Inl e \<Rightarrow> refuse e
           | Inr u \<Rightarrow>
               conn L cx (\<lambda>c.
                 andthen (existing_folder L cx c destination) (\<lambda>full.
                 andthen (source_folder L cx c) (\<lambda>src.
                 moveUIDSet L lib cx c src full [u])))))"

subsection \<open>Batches\<close>

text \<open>The tail the two batches share: nothing moves when source and destination are one folder.\<close>

definition move_present ::
  "('n, 'c) imap_lib \<Rightarrow> mail_lib \<Rightarrow> 'n host ctx \<Rightarrow> 'c \<Rightarrow> string \<Rightarrow> bulk_result \<Rightarrow> uid_ref list \<Rightarrow>
   (('n, 'c) session, bulk_result) effect" where
  "move_present L lib cx c full res present =
     andthen (source_folder L cx c) (\<lambda>src.
       if equal_fold src full then ret (succeed_all present res)
       else andthen (moveUIDSet L lib cx c src full (uidSetOf present))
              (\<lambda>_. ret (succeed_all present res)))"

definition imap_MoveMany ::
  "('n, 'c) imap_lib \<Rightarrow> mail_lib \<Rightarrow> 'n host ctx \<Rightarrow> ids \<Rightarrow> string \<Rightarrow>
   (('n, 'c) session, bulk_result) effect" where
  "imap_MoveMany L lib cx is destination =
     over_parsable is (\<lambda>res known. conn L cx (\<lambda>c.
       case imap_checkFolderName destination of
         Some e \<Rightarrow> refuse e
       | None \<Rightarrow>
           andthen (existing_folder L cx c destination) (\<lambda>full.
           andthen (locateMany L cx c res known) (\<lambda>(res1, present).
           if present = [] then ret res1 else move_present L lib cx c full res1 present))))"

definition fileManyTo ::
  "('n, 'c) imap_lib \<Rightarrow> mail_lib \<Rightarrow> 'n host ctx \<Rightarrow> curation_target \<Rightarrow> ids \<Rightarrow>
   (('n, 'c) session, bulk_result) effect" where
  "fileManyTo L lib cx t is =
     over_parsable is (\<lambda>res known. conn L cx (\<lambda>c.
       andthen (resolveCurationFolder L cx c t) (\<lambda>folder.
       andthen (locateMany L cx c res known) (\<lambda>(res1, present).
       if present = [] then ret res1 else move_present L lib cx c folder res1 present))))"

definition imap_Archive ::
  "('n, 'c) imap_lib \<Rightarrow> mail_lib \<Rightarrow> 'n host ctx \<Rightarrow> string \<Rightarrow> (('n, 'c) session, unit) effect" where
  "imap_Archive L lib cx i = asks (\<lambda>s. archiveTarget (fst s)) (\<lambda>t. fileTo L lib cx t i)"

definition imap_Delete ::
  "('n, 'c) imap_lib \<Rightarrow> mail_lib \<Rightarrow> 'n host ctx \<Rightarrow> string \<Rightarrow> (('n, 'c) session, unit) effect" where
  "imap_Delete L lib cx i = asks (\<lambda>s. trashTarget (fst s)) (\<lambda>t. fileTo L lib cx t i)"

definition imap_ArchiveMany ::
  "('n, 'c) imap_lib \<Rightarrow> mail_lib \<Rightarrow> 'n host ctx \<Rightarrow> ids \<Rightarrow> (('n, 'c) session, bulk_result) effect" where
  "imap_ArchiveMany L lib cx is = asks (\<lambda>s. archiveTarget (fst s)) (\<lambda>t. fileManyTo L lib cx t is)"

definition imap_DeleteMany ::
  "('n, 'c) imap_lib \<Rightarrow> mail_lib \<Rightarrow> 'n host ctx \<Rightarrow> ids \<Rightarrow> (('n, 'c) session, bulk_result) effect" where
  "imap_DeleteMany L lib cx is = asks (\<lambda>s. trashTarget (fst s)) (\<lambda>t. fileManyTo L lib cx t is)"

end
