(* ===== verification/Imap_Pool.thy ===== *)
theory Imap_Pool
  imports Imap_Moving
begin

section \<open>The pooled connection comes back where it belongs\<close>

text \<open>
  The pool is used by one caller at a time here.  \<open>on c w\<close> is the folder the server has the
  connection \<open>c\<close> SELECTed on.  The laws of the client library say that no command but SELECT
  selects a folder (a connection may be lost at any time), and that no mailbox has an empty name.
\<close>

subsection \<open>The laws of selection\<close>

type_synonym ('n, 'c) selection = "'c \<Rightarrow> 'n host \<Rightarrow> string option"

definition quiet :: "('n, 'c) selection \<Rightarrow> ('n host, 'a) effect \<Rightarrow> bool" where
  "quiet on f \<longleftrightarrow> (\<forall>w r w1 c x. f w = (r, w1) \<longrightarrow> on c w1 = Some x \<longrightarrow> on c w = Some x)"

definition all_quiet :: "('n, 'c) imap_lib \<Rightarrow> ('n, 'c) selection \<Rightarrow> bool" where
  "all_quiet L on \<longleftrightarrow>
     (\<forall>c u p. quiet on (il_Login L c u p)) \<and> (\<forall>c a. quiet on (il_Authenticate L c a)) \<and>
     (\<forall>a u h p. quiet on (SASLClient (il_Google L) a u h p)) \<and>
     (\<forall>c. quiet on (il_Noop L c)) \<and> (\<forall>c. quiet on (il_Logout L c)) \<and>
     (\<forall>c k. quiet on (il_UIDSearch L c k)) \<and> (\<forall>c us k. quiet on (il_Fetch L c us k)) \<and>
     (\<forall>c us. quiet on (il_StoreSeen L c us)) \<and> (\<forall>c b. quiet on (il_List L c b)) \<and>
     (\<forall>c. quiet on (il_Namespace L c)) \<and> (\<forall>c x. quiet on (il_Create L c x)) \<and>
     (\<forall>c x. quiet on (il_Delete L c x)) \<and> (\<forall>c x. quiet on (il_Status L c x)) \<and>
     (\<forall>c us x. quiet on (il_Move L c us x))"

definition selects_only_by_select :: "('n, 'c) imap_lib \<Rightarrow> ('n, 'c) selection \<Rightarrow> bool" where
  "selects_only_by_select L on \<longleftrightarrow>
     (\<forall>c x w w1. il_Select L c x w = (Inr (), w1) \<longrightarrow> x \<noteq> [] \<and> on c w1 \<in> {None, Some x}) \<and>
     (\<forall>ins cx a w c w1. il_Dial L ins cx a w = (Inr c, w1) \<longrightarrow> on c w1 = None) \<and>
     (\<forall>c w d. on d (il_Close L c w) \<in> {None, on d w}) \<and>
     all_quiet L on"

text \<open>The pool at rest, and the pool while one caller has the connection \<open>c\<close>.\<close>

definition at_home :: "('n, 'c) selection \<Rightarrow> ('n, 'c) session \<Rightarrow> bool" where
  "at_home on s \<longleftrightarrow>
     \<not> astray (fst s) \<and>
     (\<forall>c x. im_idle (fst s) = Some c \<longrightarrow> on c (snd s) = Some x \<longrightarrow>
            equal_fold x (ic_Mailbox (im_cfg (fst s))))"

definition owned :: "('n, 'c) selection \<Rightarrow> 'c \<Rightarrow> ('n, 'c) session \<Rightarrow> bool" where
  "owned on c s \<longleftrightarrow>
     im_idle (fst s) = None \<and>
     (\<forall>x. on c (snd s) = Some x \<longrightarrow> \<not> astray (fst s) \<longrightarrow> equal_fold x (ic_Mailbox (im_cfg (fst s))))"

lemma quietD: "quiet on f \<Longrightarrow> f w = (r, w1) \<Longrightarrow> on c w1 = Some x \<Longrightarrow> on c w = Some x"
  by (simp add: quiet_def)

lemma quiet_commands:
  assumes "selects_only_by_select L on"
  shows "quiet on (il_Login L c u p)" and "quiet on (il_Authenticate L c a)"
    and "quiet on (SASLClient (il_Google L) ad us h po)"
    and "quiet on (il_Noop L c)" and "quiet on (il_Logout L c)"
    and "quiet on (il_UIDSearch L c k)" and "quiet on (il_Fetch L c uids fi)"
    and "quiet on (il_StoreSeen L c uids)" and "quiet on (il_List L c b)"
    and "quiet on (il_Namespace L c)" and "quiet on (il_Create L c x)"
    and "quiet on (il_Delete L c x)" and "quiet on (il_Status L c x)"
    and "quiet on (il_Move L c uids x)"
proof -
  have "all_quiet L on" using assms unfolding selects_only_by_select_def by (elim conjE)
  then show "quiet on (il_Login L c u p)" and "quiet on (il_Authenticate L c a)"
    and "quiet on (SASLClient (il_Google L) ad us h po)"
    and "quiet on (il_Noop L c)" and "quiet on (il_Logout L c)"
    and "quiet on (il_UIDSearch L c k)" and "quiet on (il_Fetch L c uids fi)"
    and "quiet on (il_StoreSeen L c uids)" and "quiet on (il_List L c b)"
    and "quiet on (il_Namespace L c)" and "quiet on (il_Create L c x)"
    and "quiet on (il_Delete L c x)" and "quiet on (il_Status L c x)"
    and "quiet on (il_Move L c uids x)"
    unfolding all_quiet_def by simp_all
qed

lemma close_quiet:
  assumes "selects_only_by_select L on" "on d (il_Close L c w) = Some x"
  shows "on d w = Some x"
proof -
  have "on d (il_Close L c w) \<in> {None, on d w}"
    using assms(1) unfolding selects_only_by_select_def by blast
  with assms(2) show ?thesis by auto
qed

lemma awaitValue_ends:
  assumes "awaitValue L cx c f lim w = (r, w1)" "f w = (q, w2)"
  shows "w1 = w2 \<or> w1 = il_Close L c w2"
  using assms by (simp add: awaitValue_def split: arrival.splits option.splits)

lemma awaitValue_quiet:
  assumes "selects_only_by_select L on" "quiet on f"
  shows "quiet on (awaitValue L cx c f lim)"
  unfolding quiet_def
proof (intro allI impI)
  fix w r w1 d x
  assume r: "awaitValue L cx c f lim w = (r, w1)" and o1: "on d w1 = Some x"
  obtain q w2 where q: "f w = (q, w2)" by force
  have "on d w2 = Some x"
    using awaitValue_ends [OF r q] o1 close_quiet [OF assms(1), of d c w2 x] by blast
  then show "on d w = Some x" using quietD [OF assms(2) q] by blast
qed

text \<open>A command of the session keeps the connection owned.\<close>

lemma command_owned:
  assumes "selects_only_by_select L on" "quiet on f"
  shows "keeps (owned on c) (beside (awaitValue L cx d f lim))"
  using quietD [OF awaitValue_quiet [OF assms]]
  by (intro endsI) (auto simp: beside_def owned_def split: prod.splits)

lemma select_law:
  assumes "selects_only_by_select L on" "il_Select L c x w = (Inr (), w1)"
  shows "x \<noteq> [] \<and> (\<forall>y. on c w1 = Some y \<longrightarrow> y = x)"
proof -
  have "x \<noteq> [] \<and> on c w1 \<in> {None, Some x}"
    using assms unfolding selects_only_by_select_def by blast
  then show ?thesis by auto
qed

lemma awaited:
  "awaitValue L cx c f lim w = (Inr r, w1) \<Longrightarrow> f w = (Inr r, w1)"
  by (auto simp: awaitValue_def split: prod.splits arrival.splits option.splits)

lemma select_on:
  assumes "selects_only_by_select L on" "awaitValue L cx c (il_Select L c x) lim w = (Inr (), w1)"
  shows "x \<noteq> [] \<and> (\<forall>y. on c w1 = Some y \<longrightarrow> y = x)"
  by (rule select_law [OF assms(1) awaited [OF assms(2)]])

lemma selectFolder_owned:
  assumes "selects_only_by_select L on"
  shows "ends (owned on c) (selectFolder L cx c x) (\<lambda>_. owned on c) (\<lambda>_ s. im_idle (fst s) = None)"
proof (rule endsI)
  fix s u s1
  assume s: "owned on c s" and r: "selectFolder L cx c x s = (Inr u, s1)"
  then obtain w1 where w1: "awaitValue L cx c (il_Select L c x) cmdTimeout (snd s) = (Inr (), w1)"
    and s1: "s1 = (wander x (fst s), w1)"
    by (auto simp: selectFolder_def beside_def split: prod.splits sum.splits)
  show "owned on c s1"
    using s s1 select_on [OF assms w1] by (auto simp: owned_def wander_def astray_def)
next
  fix s e s1
  assume "owned on c s" and "selectFolder L cx c x s = (Inl e, s1)"
  then show "im_idle (fst s1) = None"
    by (auto simp: selectFolder_def beside_def owned_def split: prod.splits sum.splits)
qed

subsection \<open>Taking and giving back\<close>

lemma claim_idle [simp]: "im_idle (claim now m) = None" "im_cfg (claim now m) = im_cfg m"
  by (simp_all add: claim_def)

lemma claim_astray: "\<not> astray m \<Longrightarrow> \<not> astray (claim now m)"
  by (auto simp: claim_def astray_def)

lemma imap_login_quiet:
  assumes "selects_only_by_select L on"
  shows "quiet on (imap_login L cx cfg c)"
  unfolding quiet_def
proof (intro allI impI)
  fix w r w1 d x
  assume r: "imap_login L cx cfg c w = (r, w1)" and o1: "on d w1 = Some x"
  note q = quietD [OF quiet_commands(3) [OF assms]]
    quietD [OF awaitValue_quiet [OF assms quiet_commands(1) [OF assms]]]
    quietD [OF awaitValue_quiet [OF assms quiet_commands(2) [OF assms]]]
  show "on d w = Some x"
  proof (cases "ic_OAuth2 cfg")
    case None
    with r o1 q(2) show ?thesis by (auto simp: imap_login_def)
  next
    case (Some a)
    obtain h po where hp: "SplitHostPort (il_Split L) (ic_Addr cfg) 993 = (h, po)" by force
    obtain t w2 where t: "SASLClient (il_Google L) a (ic_Username cfg) h po w = (t, w2)" by force
    show ?thesis
    proof (cases t)
      case (Inl e)
      with r Some hp t have "w1 = w2" by (simp add: imap_login_def)
      with q(1) [OF t] o1 show ?thesis by simp
    next
      case (Inr sasl)
      with r Some hp t have "awaitValue L cx c (il_Authenticate L c sasl) connectTimeout w2 = (r, w1)"
        by (simp add: imap_login_def)
      from q(3) [OF this o1] q(1) [OF t] show ?thesis by blast
    qed
  qed
qed

lemma dial_selected:
  assumes "selects_only_by_select L on" "imap_dial L cx cfg w = (Inr c, w1)" "on c w1 = Some x"
  shows "x = ic_Mailbox cfg"
proof -
  obtain w3 where "awaitValue L cx c (il_Select L c (ic_Mailbox cfg)) connectTimeout w3 = (Inr (), w1)"
    using assms(2) by (auto simp: imap_dial_def split: option.splits prod.splits sum.splits)
  from select_on [OF assms(1) this] assms(3) show ?thesis by blast
qed

lemma acquire_owned:
  assumes "selects_only_by_select L on" "at_home on s"
  shows "acquire L cx s = (Inr c, s1) \<Longrightarrow> owned on c s1 \<and> \<not> astray (fst s1)"
    and "acquire L cx s = (Inl e, s1) \<Longrightarrow> at_home on s1"
proof -
  obtain m w where s: "s = (m, w)" by force
  let ?m1 = "claim (il_Now L w) m"
  have na: "\<not> astray ?m1" using assms(2) s claim_astray by (auto simp: at_home_def)
  have "fst (snd (takeIdle L cx s)) = ?m1"
    by (simp add: takeIdle_def s Let_def split: option.splits sum.splits prod.splits)
  then obtain t w2 where t: "takeIdle L cx s = (t, (?m1, w2))" by (metis prod.collapse)
  have own: "owned on c (?m1, w2)" if "t = Some c" for c
  proof -
    have i: "im_idle m = Some c" and r: "awaitValue L cx c (il_Noop L c) connectTimeout w = (Inr (), w2)"
      using t that by (auto simp: takeIdle_def s Let_def split: option.splits sum.splits prod.splits if_splits)
    show ?thesis
      using assms(2) i quietD [OF awaitValue_quiet [OF assms(1) quiet_commands(4) [OF assms(1)]] r]
      by (auto simp: owned_def at_home_def s)
  qed
  show "acquire L cx s = (Inr c, s1) \<Longrightarrow> owned on c s1 \<and> \<not> astray (fst s1)"
    using t own na dial_selected [OF assms(1)]
    by (auto simp: acquire_def beside_def owned_def split: option.splits prod.splits)
  show "acquire L cx s = (Inl e, s1) \<Longrightarrow> at_home on s1"
    using t na by (auto simp: acquire_def beside_def at_home_def split: option.splits prod.splits)
qed

lemma restore_home:
  assumes "selects_only_by_select L on" "owned on c s" "restore L cx c s = (r, s1)"
  shows "im_idle (fst s1) = None \<and> \<not> astray (fst s1) \<and> (r = Inr () \<longrightarrow> owned on c s1)"
proof (cases "astray (fst s)")
  case False
  with assms(2, 3) show ?thesis by (simp add: restore_def owned_def)
next
  case True
  obtain q w1 where q: "awaitValue L cx c (il_Select L c (ic_Mailbox (im_cfg (fst s)))) cmdTimeout (snd s)
      = (q, w1)" by force
  show ?thesis
  proof (cases q)
    case (Inl e)
    with True q assms(2, 3) show ?thesis
      by (auto simp: restore_def beside_def discard_def forget_def astray_def owned_def)
  next
    case (Inr u)
    with select_on [OF assms(1), of cx c _ cmdTimeout _ w1] q True assms(2, 3) show ?thesis
      by (auto simp: restore_def beside_def forget_def astray_def owned_def)
  qed
qed

lemma cache_home:
  "owned on c s \<Longrightarrow> \<not> astray (fst s) \<Longrightarrow> at_home on (cache L cx c s)"
  by (auto simp: cache_def offer_def at_home_def owned_def astray_def split: prod.splits)

lemma discard_home: "im_idle (fst s) = None \<Longrightarrow> at_home on (discard L cx c s)"
  by (auto simp: discard_def forget_def at_home_def astray_def split: prod.splits)

text \<open>An operation that keeps its connection owned, or fails with an empty cache, leaves the pool
  at home.\<close>

definition well_behaved ::
  "('n, 'c) selection \<Rightarrow> 'c \<Rightarrow> (('n, 'c) session, 'a) effect \<Rightarrow> bool" where
  "well_behaved on c f \<longleftrightarrow> ends (owned on c) f (\<lambda>_. owned on c) (\<lambda>_ s. im_idle (fst s) = None)"

lemma withConn_home:
  assumes "selects_only_by_select L on" "at_home on s" "\<And>c. well_behaved on c (f c)"
    and "withConn L cx f s = (r, s1)"
  shows "at_home on s1"
proof (cases "cx (snd s)")
  case (Some e)
  with assms(2, 4) show ?thesis by (simp add: withConn_def)
next
  case None
  obtain q s2 where q: "acquire L cx s = (q, s2)" by (metis surj_pair)
  show ?thesis
  proof (cases q)
    case (Inl e)
    with acquire_owned(2) [OF assms(1, 2)] q None assms(4) show ?thesis by (simp add: withConn_def)
  next
    case (Inr c)
    have own: "owned on c s2" using acquire_owned(1) [OF assms(1, 2)] q Inr by blast
    obtain v s3 where v: "f c s2 = (v, s3)" by (metis surj_pair)
    show ?thesis
    proof (cases v)
      case (Inl e)
      with endsD(2) [OF assms(3) [unfolded well_behaved_def] own] v
      have "im_idle (fst s3) = None" by blast
      then have "at_home on (discard L cx c s3)" by (rule discard_home)
      with None q Inr v Inl assms(4) show ?thesis by (auto simp: withConn_def)
    next
      case x: (Inr x)
      with endsD(1) [OF assms(3) [unfolded well_behaved_def] own] v have o3: "owned on c s3" by blast
      obtain z s4 where z: "restore L cx c s3 = (z, s4)" by (metis surj_pair)
      note rh = restore_home [OF assms(1) o3 z]
      show ?thesis
      proof (cases z)
        case (Inl e)
        with rh None q Inr v x z assms(4) show ?thesis by (auto simp: withConn_def at_home_def)
      next
        case zr: (Inr u)
        with rh have "owned on c s4" "\<not> astray (fst s4)" by simp_all
        then have "at_home on (cache L cx c s4)" by (rule cache_home)
        with zr None q Inr v x z assms(4) show ?thesis by (simp add: withConn_def)
      qed
    qed
  qed
qed

lemma conn_home:
  assumes "selects_only_by_select L on" "\<And>c. well_behaved on c (f c)"
  shows "keeps (at_home on) (conn L cx f)"
  using withConn_home [OF assms(1) _ assms(2)]
  by (intro endsI) (auto simp: conn_def split: prod.splits option.splits)

subsection \<open>Every operation of the mailbox behaves well\<close>

named_theorems well_behaved_intro "how a well behaved operation is put together"

lemma wb_ret [well_behaved_intro]: "well_behaved on c (ret x)"
  by (auto simp: well_behaved_def)

lemma wb_refuse [well_behaved_intro]: "well_behaved on c (refuse e)"
  by (auto simp: well_behaved_def owned_def)

lemma wb_andthen [well_behaved_intro]:
  "well_behaved on c f \<Longrightarrow> (\<And>x. well_behaved on c (g x)) \<Longrightarrow> well_behaved on c (andthen f g)"
  unfolding well_behaved_def by (rule ends_andthen)

lemma wb_branches [well_behaved_intro]:
  "(b \<Longrightarrow> well_behaved on c f) \<Longrightarrow> (\<not> b \<Longrightarrow> well_behaved on c g) \<Longrightarrow> well_behaved on c (if b then f else g)"
  "(x = None \<Longrightarrow> well_behaved on c f) \<Longrightarrow> (\<And>y. x = Some y \<Longrightarrow> well_behaved on c (h y)) \<Longrightarrow>
   well_behaved on c (case x of None \<Rightarrow> f | Some y \<Rightarrow> h y)"
  "well_behaved on c f \<Longrightarrow> (\<And>y ys. well_behaved on c (k y ys)) \<Longrightarrow>
   well_behaved on c (case l of [] \<Rightarrow> f | y # ys \<Rightarrow> k y ys)"
  "(\<And>a b. well_behaved on c (q a b)) \<Longrightarrow> well_behaved on c (case p of (a, b) \<Rightarrow> q a b)"
  by (auto split: option.splits list.splits prod.splits)

lemma wb_await:
  assumes "selects_only_by_select L on" "quiet on f"
  shows "well_behaved on c (beside (awaitValue L cx d f lim))"
  unfolding well_behaved_def
  by (rule ends_weaken [OF command_owned [OF assms]]) (auto simp: owned_def)

lemmas wb_commands [well_behaved_intro] = wb_await [OF _ quiet_commands(6)] wb_await [OF _ quiet_commands(7)]
  wb_await [OF _ quiet_commands(8)] wb_await [OF _ quiet_commands(9)] wb_await [OF _ quiet_commands(11)]
  wb_await [OF _ quiet_commands(12)] wb_await [OF _ quiet_commands(13)] wb_await [OF _ quiet_commands(14)]

lemma wb_select [well_behaved_intro]:
  "selects_only_by_select L on \<Longrightarrow> well_behaved on c (selectFolder L cx c x)"
  unfolding well_behaved_def by (rule selectFolder_owned)

lemma wb_asks [well_behaved_intro]:
  "(\<And>t. well_behaved on c (f t)) \<Longrightarrow> well_behaved on c (asks g f)"
  unfolding well_behaved_def by (rule ends_asks)

lemma wb_prefix [well_behaved_intro]:
  assumes "selects_only_by_select L on"
  shows "well_behaved on c (personalPrefix L cx c)"
proof -
  note k = endsD [OF command_owned [OF assms quiet_commands(10) [OF assms]]]
  show ?thesis
    unfolding well_behaved_def
  proof (rule endsI)
    fix s x s1
    assume s: "owned on c s" and r: "personalPrefix L cx c s = (Inr x, s1)"
    obtain q where q: "beside (awaitValue L cx c (il_Namespace L c) connectTimeout) s = (q, s1)"
      using r by (auto simp: personalPrefix_def split: prod.splits sum.splits option.splits list.splits)
    with k [OF s] show "owned on c s1" by (cases q) blast+
  qed (auto simp: personalPrefix_def split: prod.splits sum.splits option.splits list.splits)
qed

lemma wb_section [well_behaved_intro]:
  "selects_only_by_select L on \<Longrightarrow> well_behaved on c (fetch_section L cx items i u c)"
  unfolding fetch_section_def by (intro well_behaved_intro)

lemma wb_sizes [well_behaved_intro]:
  "selects_only_by_select L on \<Longrightarrow> well_behaved on c (fetchSizes L cx c refs)"
  unfolding fetchSizes_def by (intro well_behaved_intro)

lemma wb_bodies [well_behaved_intro]:
  "selects_only_by_select L on \<Longrightarrow> well_behaved on c (fetchBodies L cx c res refs)"
  unfolding fetchBodies_def by (intro well_behaved_intro)

lemma wb_locate [well_behaved_intro]:
  "selects_only_by_select L on \<Longrightarrow> well_behaved on c (locate_one L cx c i u)"
  unfolding locate_one_def by (intro well_behaved_intro)

lemma wb_locateMany [well_behaved_intro]:
  "selects_only_by_select L on \<Longrightarrow> well_behaved on c (locateMany L cx c res refs)"
  unfolding locateMany_def by (intro well_behaved_intro)

lemma wb_storeSeen [well_behaved_intro]:
  "selects_only_by_select L on \<Longrightarrow> well_behaved on c (storeSeen L cx c res refs)"
  unfolding storeSeen_def by (intro well_behaved_intro)

lemma wb_listAll [well_behaved_intro]:
  "selects_only_by_select L on \<Longrightarrow> well_behaved on c (listAll L cx c)"
  unfolding listAll_def by (intro well_behaved_intro)

lemma wb_messages [well_behaved_intro]:
  "selects_only_by_select L on \<Longrightarrow> well_behaved on c (folderMessages L cx c full)"
  unfolding folderMessages_def by (intro well_behaved_intro)

lemma wb_create [well_behaved_intro]:
  assumes "selects_only_by_select L on"
  shows "well_behaved on c (create_tolerantly L cx c full)"
proof -
  note k = endsD [OF command_owned [OF assms quiet_commands(11) [OF assms]]]
  show ?thesis
    unfolding well_behaved_def
  proof (rule endsI)
    fix s x s1
    assume s: "owned on c s" and r: "create_tolerantly L cx c full s = (Inr x, s1)"
    obtain q where q: "command L cx c (il_Create L c full) s = (q, s1)"
      using r by (auto simp: create_tolerantly_def split: prod.splits sum.splits if_splits)
    with k [OF s] show "owned on c s1" by (cases q) blast+
  next
    fix s e s1
    assume s: "owned on c s" and r: "create_tolerantly L cx c full s = (Inl e, s1)"
    then obtain q where q: "command L cx c (il_Create L c full) s = (q, s1)"
      by (auto simp: create_tolerantly_def split: prod.splits sum.splits if_splits)
    with k [OF s] have "owned on c s1" by (cases q) blast+
    then show "im_idle (fst s1) = None" by (simp add: owned_def)
  qed
qed

lemma wb_plan [well_behaved_intro]:
  "selects_only_by_select L on \<Longrightarrow> well_behaved on c (planCurationFolder L cx c t)"
  unfolding planCurationFolder_def by (intro well_behaved_intro)

lemma wb_resolve [well_behaved_intro]:
  "selects_only_by_select L on \<Longrightarrow> well_behaved on c (resolveCurationFolder L cx c t)"
  unfolding resolveCurationFolder_def by (intro well_behaved_intro)

lemma wb_exact [well_behaved_intro]:
  "selects_only_by_select L on \<Longrightarrow> well_behaved on c (exact_id L lib cx c mid us)"
  by (induction us) (unfold exact_id.simps, (intro well_behaved_intro | assumption)+)

lemma wb_verify [well_behaved_intro]:
  "selects_only_by_select L on \<Longrightarrow> well_behaved on c (verify_by_id L lib cx c mids us)"
  by (induction us) (unfold verify_by_id.simps, (intro well_behaved_intro | assumption)+)

lemma wb_verified [well_behaved_intro]:
  "selects_only_by_select L on \<Longrightarrow>
   well_behaved on c (verified_move L lib cx c caps destination uids nums)"
  unfolding verified_move_def known_ids_def fetchMessageIDs_def verify_destination_def
  by (intro well_behaved_intro)

lemma wb_move [well_behaved_intro]:
  "selects_only_by_select L on \<Longrightarrow> well_behaved on c (moveUIDSet L lib cx c src destination uids)"
  unfolding moveUIDSet_def already_there_def by (intro well_behaved_intro)

lemma wb_source [well_behaved_intro]:
  "selects_only_by_select L on \<Longrightarrow> well_behaved on c (source_folder L cx c)"
  unfolding source_folder_def by (intro well_behaved_intro)

lemma wb_existing [well_behaved_intro]:
  "selects_only_by_select L on \<Longrightarrow> well_behaved on c (existing_folder L cx c destination)"
  unfolding existing_folder_def Let_def by (intro well_behaved_intro)

lemma wb_move_present [well_behaved_intro]:
  "selects_only_by_select L on \<Longrightarrow> well_behaved on c (move_present L lib cx c full res present)"
  unfolding move_present_def by (intro well_behaved_intro)

lemma wb_delete_folder [well_behaved_intro]:
  "selects_only_by_select L on \<Longrightarrow> well_behaved on c (delete_folder_on L cx m name c)"
  unfolding delete_folder_on_def Let_def by (intro well_behaved_intro)

lemma wb_budget [well_behaved_intro]:
  "selects_only_by_select L on \<Longrightarrow> well_behaved on c (fetch_within_budget L cx refs res c)"
  unfolding fetch_within_budget_def by (intro well_behaved_intro)

subsection \<open>Any sequence of calls\<close>

datatype imap_call =
    CallList scope | CallSearch scope string | CallSearchFrom scope string string
  | CallFetch string | CallHeaders string | CallHeadersMany ids | CallSizes ids | CallFetchMany ids
  | CallMarkSeen string | CallMarkSeenMany ids | CallArchive string | CallArchiveMany ids
  | CallDelete string | CallDeleteMany ids | CallMove string string | CallMoveMany ids string
  | CallFolders | CallCreate string | CallDeleteFolder string | CallPlan | CallCapabilities
  | CallSetLimit int

fun run_call ::
  "('n, 'c) imap_lib \<Rightarrow> mail_lib \<Rightarrow> 'n host ctx \<times> imap_call \<Rightarrow> ('n, 'c) session \<Rightarrow> ('n, 'c) session"
  where
  "run_call L lib (cx, CallList sc) s = snd (imap_List L cx sc s)"
| "run_call L lib (cx, CallSearch sc q) s = snd (imap_SearchScope L cx sc q s)"
| "run_call L lib (cx, CallSearchFrom sc q a) s = snd (imap_SearchFromScope L cx sc q a s)"
| "run_call L lib (cx, CallFetch i) s = snd (imap_Fetch L cx i s)"
| "run_call L lib (cx, CallHeaders i) s = snd (imap_FetchHeaders L lib cx i s)"
| "run_call L lib (cx, CallHeadersMany is) s = snd (imap_FetchHeadersMany L lib cx is s)"
| "run_call L lib (cx, CallSizes is) s = snd (imap_Sizes L cx is s)"
| "run_call L lib (cx, CallFetchMany is) s = snd (imap_FetchMany L cx is s)"
| "run_call L lib (cx, CallMarkSeen i) s = snd (imap_MarkSeen L cx i s)"
| "run_call L lib (cx, CallMarkSeenMany is) s = snd (imap_MarkSeenMany L cx is s)"
| "run_call L lib (cx, CallArchive i) s = snd (imap_Archive L lib cx i s)"
| "run_call L lib (cx, CallArchiveMany is) s = snd (imap_ArchiveMany L lib cx is s)"
| "run_call L lib (cx, CallDelete i) s = snd (imap_Delete L lib cx i s)"
| "run_call L lib (cx, CallDeleteMany is) s = snd (imap_DeleteMany L lib cx is s)"
| "run_call L lib (cx, CallMove i d) s = snd (imap_Move L lib cx i d s)"
| "run_call L lib (cx, CallMoveMany is d) s = snd (imap_MoveMany L lib cx is d s)"
| "run_call L lib (cx, CallFolders) s = snd (imap_Folders L cx s)"
| "run_call L lib (cx, CallCreate n) s = snd (imap_CreateFolder L cx n s)"
| "run_call L lib (cx, CallDeleteFolder n) s = snd (imap_DeleteFolder L cx n s)"
| "run_call L lib (cx, CallPlan) s = snd (imap_CurationPlan L cx s)"
| "run_call L lib (cx, CallCapabilities) s = snd (imap_CurationCapabilities L cx s)"
| "run_call L lib (cx, CallSetLimit n) s = (imap_SetBulkLimit n (fst s), snd s)"

lemma keeps_snd:
  assumes "keeps I f" "I s"
  shows "I (snd (f s))"
proof -
  obtain r s1 where r: "f s = (r, s1)" by (metis surj_pair)
  with endsD [OF assms] show ?thesis by (cases r) fastforce+
qed

text \<open>An operation on one connection, and what runs at most one.\<close>

definition homing :: "('n, 'c) selection \<Rightarrow> (('n, 'c) session, 'a) effect \<Rightarrow> bool" where
  "homing on f \<longleftrightarrow> keeps (at_home on) f"

lemma homing_snd: "homing on f \<Longrightarrow> at_home on s \<Longrightarrow> at_home on (snd (f s))"
  unfolding homing_def by (rule keeps_snd)

named_theorems homing_intro "how an operation is put together from operations on a connection"

lemma homing_conn [homing_intro]:
  "selects_only_by_select L on \<Longrightarrow> (\<And>c. well_behaved on c (f c)) \<Longrightarrow> homing on (conn L cx f)"
  unfolding homing_def by (rule conn_home)

lemma homing_ret [homing_intro]: "homing on (ret x)" "homing on (refuse e)"
  by (auto simp: homing_def)

lemma homing_andthen [homing_intro]:
  "homing on f \<Longrightarrow> (\<And>x. homing on (g x)) \<Longrightarrow> homing on (andthen f g)"
  unfolding homing_def by (rule ends_andthen)

lemma homing_asks [homing_intro]: "(\<And>x. homing on (f x)) \<Longrightarrow> homing on (asks g f)"
  unfolding homing_def by (rule ends_asks)

lemma homing_branches [homing_intro]:
  "(b \<Longrightarrow> homing on f) \<Longrightarrow> (\<not> b \<Longrightarrow> homing on g) \<Longrightarrow> homing on (if b then f else g)"
  "(x = None \<Longrightarrow> homing on f) \<Longrightarrow> (\<And>y. x = Some y \<Longrightarrow> homing on (h y)) \<Longrightarrow>
   homing on (case x of None \<Rightarrow> f | Some y \<Rightarrow> h y)"
  "(\<And>e. z = Inl e \<Longrightarrow> homing on (k e)) \<Longrightarrow> (\<And>y. z = Inr y \<Longrightarrow> homing on (l y)) \<Longrightarrow>
   homing on (case z of Inl e \<Rightarrow> k e | Inr y \<Rightarrow> l y)"
  "(\<And>a b. homing on (q a b)) \<Longrightarrow> homing on (case p of (a, b) \<Rightarrow> q a b)"
  by (auto split: option.splits sum.splits prod.splits)

lemma homing_parsable [homing_intro]:
  "(\<And>res known. homing on (f res known)) \<Longrightarrow> homing on (over_parsable is f)"
  unfolding over_parsable_def by (intro homing_intro)

lemma homing_search [homing_intro]:
  "selects_only_by_select L on \<Longrightarrow> homing on (uidSearch L cx k)"
  unfolding uidSearch_def by (intro homing_intro well_behaved_intro)

lemma headers_many_home:
  assumes "selects_only_by_select L on" "at_home on s"
  shows "at_home on (snd (imap_FetchHeadersMany L lib cx is s))"
proof -
  obtain refs bad where p: "parseRefs is = (refs, bad)" by force
  let ?f = "\<lambda>c. command L cx c (il_Fetch L c (uidSetOf refs) triage_headers)"
  obtain q s1 where w: "withConn L cx ?f s = (q, s1)" by (cases "withConn L cx ?f s")
  obtain x e where q: "q = (x, e)" by (cases q)
  have "at_home on s1"
    by (rule withConn_home [OF assms _ w]) (rule wb_commands(2); rule assms(1))
  with p w q assms(2) show ?thesis
    by (cases "refs = []"; cases e) (simp_all add: imap_FetchHeadersMany_def Let_def)
qed

lemma homing_list [homing_intro]: "selects_only_by_select L on \<Longrightarrow> homing on (imap_List L cx sc)"
  unfolding imap_List_def by (intro homing_intro well_behaved_intro)

lemma homing_searchScope [homing_intro]: "selects_only_by_select L on \<Longrightarrow> homing on (imap_SearchScope L cx sc q)"
  unfolding imap_SearchScope_def by (intro homing_intro well_behaved_intro)

lemma homing_searchFrom [homing_intro]: "selects_only_by_select L on \<Longrightarrow> homing on (imap_SearchFromScope L cx sc q a)"
  unfolding imap_SearchFromScope_def by (intro homing_intro well_behaved_intro)

lemma homing_fetch [homing_intro]: "selects_only_by_select L on \<Longrightarrow> homing on (imap_Fetch L cx i)"
  unfolding imap_Fetch_def by (intro homing_intro well_behaved_intro)

lemma homing_fetchHeaders [homing_intro]: "selects_only_by_select L on \<Longrightarrow> homing on (imap_FetchHeaders L lib cx i)"
  unfolding imap_FetchHeaders_def by (intro homing_intro well_behaved_intro)

lemma homing_measuring [homing_intro]: "selects_only_by_select L on \<Longrightarrow> homing on (imap_Sizes L cx is)"
  unfolding imap_Sizes_def Let_def by (intro homing_intro well_behaved_intro)

lemma homing_fetchMany [homing_intro]: "selects_only_by_select L on \<Longrightarrow> homing on (imap_FetchMany L cx is)"
  unfolding imap_FetchMany_def Let_def by (intro homing_intro well_behaved_intro)

lemma homing_markSeen [homing_intro]: "selects_only_by_select L on \<Longrightarrow> homing on (imap_MarkSeen L cx i)"
  unfolding imap_MarkSeen_def by (intro homing_intro well_behaved_intro)

lemma homing_markSeenMany [homing_intro]: "selects_only_by_select L on \<Longrightarrow> homing on (imap_MarkSeenMany L cx is)"
  unfolding imap_MarkSeenMany_def by (intro homing_intro well_behaved_intro)

lemma homing_fileTo [homing_intro]: "selects_only_by_select L on \<Longrightarrow> homing on (fileTo L lib cx t i)"
  unfolding fileTo_def by (intro homing_intro well_behaved_intro)

lemma homing_fileMany [homing_intro]: "selects_only_by_select L on \<Longrightarrow> homing on (fileManyTo L lib cx t is)"
  unfolding fileManyTo_def by (intro homing_intro well_behaved_intro)

lemma homing_archive [homing_intro]: "selects_only_by_select L on \<Longrightarrow> homing on (imap_Archive L lib cx i)"
  unfolding imap_Archive_def by (intro homing_intro well_behaved_intro)

lemma homing_archiveMany [homing_intro]: "selects_only_by_select L on \<Longrightarrow> homing on (imap_ArchiveMany L lib cx is)"
  unfolding imap_ArchiveMany_def by (intro homing_intro well_behaved_intro)

lemma homing_delete [homing_intro]: "selects_only_by_select L on \<Longrightarrow> homing on (imap_Delete L lib cx i)"
  unfolding imap_Delete_def by (intro homing_intro well_behaved_intro)

lemma homing_deleteMany [homing_intro]: "selects_only_by_select L on \<Longrightarrow> homing on (imap_DeleteMany L lib cx is)"
  unfolding imap_DeleteMany_def by (intro homing_intro well_behaved_intro)

lemma homing_move [homing_intro]: "selects_only_by_select L on \<Longrightarrow> homing on (imap_Move L lib cx i d)"
  unfolding imap_Move_def by (intro homing_intro well_behaved_intro)

lemma homing_moveMany [homing_intro]: "selects_only_by_select L on \<Longrightarrow> homing on (imap_MoveMany L lib cx is d)"
  unfolding imap_MoveMany_def by (intro homing_intro well_behaved_intro)

lemma homing_folders [homing_intro]: "selects_only_by_select L on \<Longrightarrow> homing on (imap_Folders L cx)"
  unfolding imap_Folders_def by (intro homing_intro well_behaved_intro)

lemma homing_createFolder [homing_intro]: "selects_only_by_select L on \<Longrightarrow> homing on (imap_CreateFolder L cx n)"
  unfolding imap_CreateFolder_def Let_def by (intro homing_intro well_behaved_intro)

lemma homing_deleteFolder [homing_intro]: "selects_only_by_select L on \<Longrightarrow> homing on (imap_DeleteFolder L cx n)"
  unfolding imap_DeleteFolder_def by (intro homing_intro well_behaved_intro)

lemma homing_plan [homing_intro]: "selects_only_by_select L on \<Longrightarrow> homing on (imap_CurationPlan L cx)"
  unfolding imap_CurationPlan_def by (intro homing_intro well_behaved_intro)

lemma homing_capabilities [homing_intro]: "selects_only_by_select L on \<Longrightarrow> homing on (imap_CurationCapabilities L cx)"
  unfolding imap_CurationCapabilities_def by (intro homing_intro well_behaved_intro)

lemma limit_home: "at_home on s \<Longrightarrow> at_home on (imap_SetBulkLimit n (fst s), snd s)"
  by (simp add: at_home_def astray_def imap_SetBulkLimit_def)

lemma call_home:
  assumes "selects_only_by_select L on" "at_home on s"
  shows "at_home on (run_call L lib k s)"
proof -
  obtain cx call where k: "k = (cx, call)" by force
  show ?thesis
    unfolding k
    by (cases call) (simp_all add: homing_intro assms(1) headers_many_home [OF assms]
          homing_snd [OF _ assms(2)] limit_home [OF assms(2)])
qed

lemma calls_home:
  "selects_only_by_select L on \<Longrightarrow> at_home on s \<Longrightarrow> at_home on (fold (run_call L lib) calls s)"
  by (induction calls arbitrary: s) (simp_all add: call_home)

lemma fresh_home: "at_home on (fresh_pool m, w)"
  by (simp add: at_home_def fresh_pool_def astray_def)


end
