(* ===== verification/Imap_Demo.thy ===== *)
theory Imap_Demo
  imports Imap_Pool Smtp
begin

section \<open>A server in memory\<close>

text \<open>
  An instance of the client library: mailboxes with their messages, the capabilities and the
  namespace of the server, and the open connections with the mailbox each has SELECTed.  The
  connections are numbered.  It answers every command at once.  The concrete runs of this
  development use it, and it obeys the laws that the general theorems ask for.
\<close>

subsection \<open>State\<close>

record stored =
  st_uid :: uid
  st_seen :: bool
  st_raw :: bytes

record mail_server =
  sv_boxes :: "(string \<times> stored list) list"
  sv_conns :: "(nat \<times> string option) list"
  sv_next :: nat
  sv_uid :: uid
  sv_caps :: "imap_cap list"
  sv_copyuid :: bool
  sv_prefix :: string
  sv_clock :: int

definition on_net :: "(mail_server \<Rightarrow> (error + 'a) \<times> mail_server) \<Rightarrow> (mail_server host, 'a) effect" where
  "on_net f w = (case f (h_net w) of (r, n) \<Rightarrow> (r, w\<lparr>h_net := n\<rparr>))"

definition box_of :: "nat \<Rightarrow> mail_server \<Rightarrow> string option" where
  "box_of c n = (case map_of (sv_conns n) c of Some (Some b) \<Rightarrow> Some b | _ \<Rightarrow> None)"

definition stored_in :: "string \<Rightarrow> mail_server \<Rightarrow> stored list" where
  "stored_in b n = (case map_of (sv_boxes n) b of None \<Rightarrow> [] | Some ms \<Rightarrow> ms)"

definition refused_with :: "string \<Rightarrow> mail_server \<Rightarrow> (error + 'a) \<times> mail_server" where
  "refused_with e n = (Inl (Failure e), n)"

text \<open>A command on the SELECTed mailbox, which an unselected connection cannot give.\<close>

definition in_box ::
  "nat \<Rightarrow> (string \<Rightarrow> mail_server \<Rightarrow> (error + 'a) \<times> mail_server) \<Rightarrow> mail_server \<Rightarrow> (error + 'a) \<times> mail_server"
  where
  "in_box c f n = (case box_of c n of None \<Rightarrow> refused_with ''no mailbox selected'' n | Some b \<Rightarrow> f b n)"

definition if_open ::
  "nat \<Rightarrow> (mail_server \<Rightarrow> (error + 'a) \<times> mail_server) \<Rightarrow> mail_server \<Rightarrow> (error + 'a) \<times> mail_server" where
  "if_open c f n = (if map_of (sv_conns n) c = None then refused_with ''connection closed'' n else f n)"

subsection \<open>Commands\<close>

definition sv_dial :: "mail_server \<Rightarrow> (error + nat) \<times> mail_server" where
  "sv_dial n = (Inr (sv_next n), n\<lparr>sv_conns := (sv_next n, None) # sv_conns n, sv_next := sv_next n + 1\<rparr>)"

definition sv_select :: "nat \<Rightarrow> string \<Rightarrow> mail_server \<Rightarrow> (error + unit) \<times> mail_server" where
  "sv_select c b n =
     (if b = [] \<or> map_of (sv_boxes n) b = None then refused_with ''no such mailbox'' n
      else (Inr (), n\<lparr>sv_conns := AList.update c (Some b) (sv_conns n)\<rparr>))"

definition sv_close :: "nat \<Rightarrow> mail_server \<Rightarrow> mail_server" where
  "sv_close c n = n\<lparr>sv_conns := AList.delete c (sv_conns n)\<rparr>"

definition matches :: "search_criteria \<Rightarrow> stored \<Rightarrow> bool" where
  "matches k m \<longleftrightarrow>
     (cr_NotFlag k \<noteq> [] \<longrightarrow> \<not> st_seen m) \<and> (cr_Flag k \<noteq> [] \<longrightarrow> st_seen m) \<and>
     (\<forall>t \<in> set (cr_Text k). str_contains (to_lower (st_raw m)) (to_lower t)) \<and>
     (\<forall>(h, v) \<in> set (cr_Header k). str_contains (to_lower (st_raw m)) (to_lower v))"

definition sv_search :: "nat \<Rightarrow> search_criteria \<Rightarrow> mail_server \<Rightarrow> (error + uid list) \<times> mail_server" where
  "sv_search c k = in_box c (\<lambda>b n. (Inr (map st_uid (filter (matches k) (stored_in b n))), n))"

definition buffer_of :: "fetch_items \<Rightarrow> stored \<Rightarrow> fetch_buffer" where
  "buffer_of it m =
     \<lparr>fb_UID = st_uid m, fb_Size = word_of_nat (length (st_raw m)),
      fb_Section = (case it of FetchSection pk fs \<Rightarrow> Some (st_raw m) | _ \<Rightarrow> None)\<rparr>"

definition marks_seen :: "fetch_items \<Rightarrow> bool" where
  "marks_seen it = (case it of FetchSection pk fs \<Rightarrow> \<not> pk | _ \<Rightarrow> False)"

definition see :: "uid list \<Rightarrow> stored list \<Rightarrow> stored list" where
  "see us ms = map (\<lambda>m. if st_uid m \<in> set us then m\<lparr>st_seen := True\<rparr> else m) ms"

definition set_box :: "string \<Rightarrow> stored list \<Rightarrow> mail_server \<Rightarrow> mail_server" where
  "set_box b ms n = n\<lparr>sv_boxes := AList.update b ms (sv_boxes n)\<rparr>"

definition sv_fetch ::
  "nat \<Rightarrow> uid list \<Rightarrow> fetch_items \<Rightarrow> mail_server \<Rightarrow> (error + fetch_buffer list) \<times> mail_server" where
  "sv_fetch c us it =
     in_box c (\<lambda>b n.
       (Inr (map (buffer_of it)
               (List.map_filter (\<lambda>u. find (\<lambda>m. st_uid m = u) (stored_in b n)) (remdups us))),
        if marks_seen it then set_box b (see us (stored_in b n)) n else n))"

definition sv_store :: "nat \<Rightarrow> uid list \<Rightarrow> mail_server \<Rightarrow> (error + unit) \<times> mail_server" where
  "sv_store c us = in_box c (\<lambda>b n. (Inr (), set_box b (see us (stored_in b n)) n))"

definition sv_list :: "nat \<Rightarrow> bool \<Rightarrow> mail_server \<Rightarrow> (error + list_data list) \<times> mail_server" where
  "sv_list c special n =
     (Inr (map (\<lambda>(b, _). \<lparr>ld_Mailbox = b, ld_Attrs = [], ld_Delim = ''.''\<rparr>) (sv_boxes n)), n)"

definition sv_create :: "nat \<Rightarrow> string \<Rightarrow> mail_server \<Rightarrow> (error + unit) \<times> mail_server" where
  "sv_create c b n =
     (if map_of (sv_boxes n) b \<noteq> None then refused_with ''ALREADYEXISTS'' n
      else (Inr (), n\<lparr>sv_boxes := sv_boxes n @ [(b, [])]\<rparr>))"

definition sv_delete :: "nat \<Rightarrow> string \<Rightarrow> mail_server \<Rightarrow> (error + unit) \<times> mail_server" where
  "sv_delete c b n =
     (if map_of (sv_boxes n) b = None then refused_with ''no such mailbox'' n
      else (Inr (), n\<lparr>sv_boxes := AList.delete b (sv_boxes n)\<rparr>))"

definition sv_status :: "nat \<Rightarrow> string \<Rightarrow> mail_server \<Rightarrow> (error + int option) \<times> mail_server" where
  "sv_status c b n =
     (case map_of (sv_boxes n) b of
        None \<Rightarrow> refused_with ''no such mailbox'' n
      | Some ms \<Rightarrow> (Inr (Some (int (length ms))), n))"

fun renumber :: "uid \<Rightarrow> stored list \<Rightarrow> stored list" where
  "renumber u [] = []"
| "renumber u (m # ms) = m\<lparr>st_uid := u\<rparr> # renumber (u + 1) ms"

definition sv_move ::
  "nat \<Rightarrow> uid list \<Rightarrow> string \<Rightarrow> mail_server \<Rightarrow> (error + uid list option) \<times> mail_server" where
  "sv_move c us d =
     in_box c (\<lambda>b n.
       (if map_of (sv_boxes n) d = None then refused_with ''TRYCREATE'' n
        else (let taken = renumber (sv_uid n) (filter (\<lambda>m. st_uid m \<in> set us) (stored_in b n));
                  n1 = set_box b (filter (\<lambda>m. st_uid m \<notin> set us) (stored_in b n)) n;
                  n2 = set_box d (stored_in d n1 @ taken) n1 in
              (Inr (if sv_copyuid n then Some (map st_uid taken) else None),
               n2\<lparr>sv_uid := sv_uid n + word_of_nat (length taken)\<rparr>))))"

definition demo_imap :: "(mail_server, nat) imap_lib" where
  "demo_imap =
     \<lparr>il_Dial = (\<lambda>ins cx a. on_net sv_dial),
      il_Login = (\<lambda>c u p. on_net (if_open c (\<lambda>n. (Inr (), n)))),
      il_Authenticate = (\<lambda>c a. on_net (if_open c (\<lambda>n. (Inr (), n)))),
      il_Select = (\<lambda>c b. on_net (if_open c (sv_select c b))),
      il_Noop = (\<lambda>c. on_net (if_open c (\<lambda>n. (Inr (), n)))),
      il_Logout = (\<lambda>c. on_net (\<lambda>n. (Inr (), sv_close c n))),
      il_Close = (\<lambda>c w. w\<lparr>h_net := sv_close c (h_net w)\<rparr>),
      il_UIDSearch = (\<lambda>c k. on_net (if_open c (sv_search c k))),
      il_Fetch = (\<lambda>c us it. on_net (if_open c (sv_fetch c us it))),
      il_StoreSeen = (\<lambda>c us. on_net (if_open c (sv_store c us))),
      il_List = (\<lambda>c b. on_net (if_open c (sv_list c b))),
      il_Namespace = (\<lambda>c. on_net (if_open c (\<lambda>n. (Inr (Some [sv_prefix n]), n)))),
      il_Create = (\<lambda>c b. on_net (if_open c (sv_create c b))),
      il_Delete = (\<lambda>c b. on_net (if_open c (sv_delete c b))),
      il_Status = (\<lambda>c b. on_net (if_open c (sv_status c b))),
      il_Move = (\<lambda>c us d. on_net (if_open c (sv_move c us d))),
      il_Caps = (\<lambda>c w k. k \<in> set (sv_caps (h_net w))),
      il_Nums = (\<lambda>us. Some (remdups us)),
      il_AlreadyExists = (\<lambda>e. e = Failure ''ALREADYEXISTS''),
      il_Arrival = (\<lambda>limit w. Replied),
      il_Now = (\<lambda>w. sv_clock (h_net w)),
      il_Split = (\<lambda>s. None),
      il_Google = no_google\<rparr>"

subsection \<open>A mailbox on it\<close>

definition demo_message :: "nat \<Rightarrow> string \<Rightarrow> stored" where
  "demo_message u s = \<lparr>st_uid = of_nat u, st_seen = False, st_raw = s\<rparr>"

definition demo_server :: mail_server where
  "demo_server =
     \<lparr>sv_boxes = [(''INBOX'', [demo_message 1 ''one'', demo_message 2 ''two'']),
                  (''Archive'', [demo_message 1 ''filed long ago'']), (''Work'', [])],
      sv_conns = [], sv_next = 0, sv_uid = 7, sv_caps = [CapMove, CapUIDPlus], sv_copyuid = True,
      sv_prefix = [], sv_clock = 0\<rparr>"

definition demo_imap_config :: imap_config where
  "demo_imap_config =
     \<lparr>ic_MaxBulkIDs = 0, ic_Addr = ''imap:993'', ic_Username = ''me'', ic_Password = ''secret'',
      ic_Mailbox = ''INBOX'', ic_ArchiveFolder = [], ic_TrashFolder = [], ic_Insecure = False,
      ic_OAuth2 = None\<rparr>"

definition demo_box :: imap_mailbox where "demo_box = \<lparr>im_cfg = demo_imap_config\<rparr>"

definition imap_host :: "mail_server \<Rightarrow> mail_server host" where
  "imap_host n =
     \<lparr>h_disk = h_disk (demo_host []), h_records = h_records (demo_host []),
      h_heap = h_heap (demo_host []), h_net = n\<rparr>"

definition demo_session :: "mail_server \<Rightarrow> (mail_server, nat) session" where
  "demo_session n = (fresh_pool demo_box, imap_host n)"

definition raws :: "string \<Rightarrow> (mail_server, nat) session \<Rightarrow> string list" where
  "raws b s = map st_raw (stored_in b (h_net (snd s)))"

abbreviation live :: "'n host ctx" where "live \<equiv> \<lambda>w. None"

subsection \<open>It obeys the laws of selection\<close>

definition demo_on :: "(mail_server, nat) selection" where "demo_on c w = box_of c (h_net w)"

lemma quiet_on_net:
  assumes "\<And>n r n1. f n = (r, n1) \<Longrightarrow> sv_conns n1 = sv_conns n"
  shows "quiet demo_on (on_net f)"
  unfolding quiet_def demo_on_def on_net_def box_of_def
  using assms by (auto split: prod.splits)

lemma conns_kept:
  "sv_search c k n = (r1, n1) \<Longrightarrow> sv_conns n1 = sv_conns n"
  "sv_fetch c us it n = (r2, n1) \<Longrightarrow> sv_conns n1 = sv_conns n"
  "sv_store c us n = (r3, n1) \<Longrightarrow> sv_conns n1 = sv_conns n"
  "sv_list c b n = (r4, n1) \<Longrightarrow> sv_conns n1 = sv_conns n"
  "sv_create c x n = (r5, n1) \<Longrightarrow> sv_conns n1 = sv_conns n"
  "sv_delete c x n = (r6, n1) \<Longrightarrow> sv_conns n1 = sv_conns n"
  "sv_status c x n = (r7, n1) \<Longrightarrow> sv_conns n1 = sv_conns n"
  "sv_move c us x n = (r8, n1) \<Longrightarrow> sv_conns n1 = sv_conns n"
  by (auto simp: sv_search_def sv_fetch_def sv_store_def sv_list_def sv_create_def sv_delete_def
      sv_status_def sv_move_def in_box_def refused_with_def set_box_def Let_def
      split: option.splits if_splits)

lemma conns_if_open:
  "(\<And>n r n1. f n = (r, n1) \<Longrightarrow> sv_conns n1 = sv_conns n) \<Longrightarrow> if_open c f n = (r, n1) \<Longrightarrow>
   sv_conns n1 = sv_conns n"
  by (auto simp: if_open_def refused_with_def split: if_splits)

lemma no_google_quiet: "quiet demo_on (SASLClient no_google a u h p)"
  unfolding quiet_def
  by (auto simp: SASLClient_def Token_def no_google_def Let_def demo_on_def box_of_def set_obj_def
      split: prod.splits sum.splits option.splits if_splits)

lemma close_keeps_quiet: "quiet demo_on (on_net (\<lambda>n. (Inr (), sv_close c n)))"
  unfolding quiet_def demo_on_def on_net_def box_of_def sv_close_def
  by (auto simp: delete_conv split: if_splits)

lemma demo_quiet: "all_quiet demo_imap demo_on"
  unfolding all_quiet_def demo_imap_def imap_lib.simps
  by (intro conjI allI close_keeps_quiet quiet_on_net no_google_quiet)
    (auto elim!: conns_if_open [rotated] dest: conns_kept)

lemma demo_selects: "selects_only_by_select demo_imap demo_on"
  unfolding selects_only_by_select_def
proof (intro conjI allI impI)
  fix c x w w1
  assume "il_Select demo_imap c x w = (Inr (), w1)"
  then show "x \<noteq> []" and "demo_on c w1 \<in> {None, Some x}"
    by (auto simp: demo_imap_def on_net_def if_open_def sv_select_def refused_with_def demo_on_def
        box_of_def update_conv split: if_splits)
next
  fix ins cx a w c w1
  assume "il_Dial demo_imap ins cx a w = (Inr c, w1)"
  then show "demo_on c w1 = None"
    by (auto simp: demo_imap_def on_net_def sv_dial_def demo_on_def box_of_def)
next
  fix c w d
  show "demo_on d (il_Close demo_imap c w) \<in> {None, demo_on d w}"
    by (auto simp: demo_imap_def sv_close_def demo_on_def box_of_def delete_conv)
qed (rule demo_quiet)

end
