(* ===== verification/Imap_Interleaving.thy ===== *)
theory Imap_Interleaving
  imports Imap_Demo
begin

section \<open>Callers that share the pool (infrastructure/imap/imap.go)\<close>

text \<open>
  The lock of the pool protects its fields and no command, so callers interleave between the
  critical sections of \<open>acquire\<close>, \<open>withConn\<close>, \<open>selectFolder\<close> and \<open>cache\<close>.  A caller passes
  through these phases; one event takes one caller over one critical section, with the commands
  on its own connection that surround it.
\<close>

subsection \<open>Phases and events\<close>

datatype 'c phase =
    Away
  | Claimed "'c option" bool
  | Holding 'c
  | Leaving 'c bool
  | Restored 'c

datatype ('n, 'c) pool_event =
    Claim nat
  | Connect nat
  | Command nat "'c \<Rightarrow> ('n host, unit) effect"
  | Wander nat string
  | Break nat
  | Look nat
  | Return nat
  | Put nat

record ('n, 'c) crowd =
  cw_pool :: "'c pooled"
  cw_host :: "'n host"
  cw_phase :: "nat \<Rightarrow> 'c phase"

definition enter :: "nat \<Rightarrow> 'c phase \<Rightarrow> ('n, 'c) session \<Rightarrow> ('n, 'c) crowd \<Rightarrow> ('n, 'c) crowd" where
  "enter i ph s v = v\<lparr>cw_pool := fst s, cw_host := snd s, cw_phase := (cw_phase v)(i := ph)\<rparr>"

text \<open>What follows the claim, outside the lock: the probe of the claimed connection, or a new one.\<close>

definition connect ::
  "('n, 'c) imap_lib \<Rightarrow> 'n host ctx \<Rightarrow> imap_config \<Rightarrow> 'c option \<Rightarrow> bool \<Rightarrow> ('n host, 'c) effect" where
  "connect L cx cfg claimed stale w =
     (case claimed of
        None \<Rightarrow> imap_dial L cx cfg w
      | Some c \<Rightarrow>
          (if stale then imap_dial L cx cfg (closeClient L cx c w)
           else case awaitValue L cx c (il_Noop L c) connectTimeout w of
                  (Inl _, w1) \<Rightarrow> imap_dial L cx cfg (closeClient L cx c w1)
                | (Inr _, w1) \<Rightarrow> (Inr c, w1)))"

fun pool_step ::
  "('n, 'c) imap_lib \<Rightarrow> 'n host ctx \<Rightarrow> ('n, 'c) pool_event \<Rightarrow> ('n, 'c) crowd \<Rightarrow> ('n, 'c) crowd option"
  where
  "pool_step L cx (Claim i) v =
     (case cw_phase v i of
        Away \<Rightarrow>
          (let m = cw_pool v; now = il_Now L (cw_host v) in
           Some (enter i (Claimed (im_idle m) (expired now m)) (claim now m, cw_host v) v))
      | _ \<Rightarrow> None)"
| "pool_step L cx (Connect i) v =
     (case cw_phase v i of
        Claimed c stale \<Rightarrow>
          (case connect L cx (im_cfg (cw_pool v)) c stale (cw_host v) of
             (Inl e, w1) \<Rightarrow> Some (enter i Away (cw_pool v, w1) v)
           | (Inr d, w1) \<Rightarrow> Some (enter i (Holding d) (cw_pool v, w1) v))
      | _ \<Rightarrow> None)"
| "pool_step L cx (Command i f) v =
     (case cw_phase v i of
        Holding c \<Rightarrow>
          Some (enter i (Holding c) (cw_pool v, snd (awaitValue L cx c (f c) cmdTimeout (cw_host v))) v)
      | _ \<Rightarrow> None)"
| "pool_step L cx (Wander i folder) v =
     (case cw_phase v i of
        Holding c \<Rightarrow>
          (case selectFolder L cx c folder (cw_pool v, cw_host v) of
             (Inl e, s) \<Rightarrow> None
           | (Inr _, s) \<Rightarrow> Some (enter i (Holding c) s v))
      | _ \<Rightarrow> None)"
| "pool_step L cx (Break i) v =
     (case cw_phase v i of
        Holding c \<Rightarrow> Some (enter i Away (discard L cx c (cw_pool v, cw_host v)) v)
      | _ \<Rightarrow> None)"
| "pool_step L cx (Look i) v =
     (case cw_phase v i of
        Holding c \<Rightarrow> Some (enter i (Leaving c (astray (cw_pool v))) (cw_pool v, cw_host v) v)
      | _ \<Rightarrow> None)"
| "pool_step L cx (Return i) v =
     (case cw_phase v i of
        Leaving c lost \<Rightarrow>
          (if lost
           then case awaitValue L cx c (il_Select L c (ic_Mailbox (im_cfg (cw_pool v)))) cmdTimeout
                       (cw_host v) of
                  (Inl e, w1) \<Rightarrow> Some (enter i Away (discard L cx c (cw_pool v, w1)) v)
                | (Inr _, w1) \<Rightarrow> Some (enter i (Restored c) (forget (cw_pool v), w1) v)
           else Some (enter i (Restored c) (cw_pool v, cw_host v) v))
      | _ \<Rightarrow> None)"
| "pool_step L cx (Put i) v =
     (case cw_phase v i of
        Restored c \<Rightarrow> Some (enter i Away (cache L cx c (cw_pool v, cw_host v)) v)
      | _ \<Rightarrow> None)"

fun pool_run ::
  "('n, 'c) imap_lib \<Rightarrow> 'n host ctx \<Rightarrow> ('n, 'c) pool_event list \<Rightarrow> ('n, 'c) crowd \<Rightarrow> ('n, 'c) crowd option"
  where
  "pool_run L cx [] v = Some v"
| "pool_run L cx (ev # evs) v =
     (case pool_step L cx ev v of None \<Rightarrow> None | Some v1 \<Rightarrow> pool_run L cx evs v1)"

definition nobody_inside :: "('n, 'c) session \<Rightarrow> ('n, 'c) crowd" where
  "nobody_inside s = \<lparr>cw_pool = fst s, cw_host = snd s, cw_phase = (\<lambda>i. Away)\<rparr>"

text \<open>One caller alone does what the sequential operations do.\<close>

lemma acquire_is_claim_and_connect:
  "acquire L cx (m, w) =
     (case connect L cx (im_cfg m) (im_idle m) (expired (il_Now L w) m) w of
        (r, w1) \<Rightarrow> (r, (claim (il_Now L w) m, w1)))"
  by (auto simp: acquire_def takeIdle_def connect_def beside_def Let_def
      split: option.splits prod.splits sum.splits)

lemma restore_is_look_and_return:
  assumes "cw_phase v i = Holding c"
  shows "pool_run L cx [Look i, Return i] v =
     (case restore L cx c (cw_pool v, cw_host v) of
        (Inl e, s) \<Rightarrow> Some (enter i Away s v)
      | (Inr _, s) \<Rightarrow> Some (enter i (Restored c) s v))"
  using assms
  by (auto simp: restore_def beside_def discard_def enter_def Let_def
      split: prod.splits sum.splits)

subsection \<open>A connection has one owner\<close>

fun owns :: "'c phase \<Rightarrow> 'c option" where
  "owns Away = None"
| "owns (Claimed c _) = c"
| "owns (Holding c) = Some c"
| "owns (Leaving c _) = Some c"
| "owns (Restored c) = Some c"

text \<open>The laws: a new connection is none of those known, and no command makes one unknown.\<close>

definition grows :: "('n host \<Rightarrow> 'c set) \<Rightarrow> ('n host, 'a) effect \<Rightarrow> bool" where
  "grows known f \<longleftrightarrow> (\<forall>w r w1. f w = (r, w1) \<longrightarrow> known w \<subseteq> known w1)"

definition dials_fresh :: "('n, 'c) imap_lib \<Rightarrow> ('n host \<Rightarrow> 'c set) \<Rightarrow> bool" where
  "dials_fresh L known \<longleftrightarrow>
     (\<forall>ins cx a w c w1. il_Dial L ins cx a w = (Inr c, w1) \<longrightarrow> c \<notin> known w \<and> c \<in> known w1) \<and>
     (\<forall>ins cx a. grows known (il_Dial L ins cx a)) \<and>
     (\<forall>c w. known w \<subseteq> known (il_Close L c w)) \<and>
     (\<forall>c u p. grows known (il_Login L c u p)) \<and> (\<forall>c a. grows known (il_Authenticate L c a)) \<and>
     (\<forall>a u h p. grows known (SASLClient (il_Google L) a u h p)) \<and>
     (\<forall>c. grows known (il_Noop L c)) \<and> (\<forall>c. grows known (il_Logout L c)) \<and>
     (\<forall>c x. grows known (il_Select L c x))"

definition one_owner :: "('n host \<Rightarrow> 'c set) \<Rightarrow> ('n, 'c) crowd \<Rightarrow> bool" where
  "one_owner known v \<longleftrightarrow>
     (\<forall>i j c. owns (cw_phase v i) = Some c \<longrightarrow> owns (cw_phase v j) = Some c \<longrightarrow> i = j) \<and>
     (\<forall>i c. owns (cw_phase v i) = Some c \<longrightarrow> im_idle (cw_pool v) \<noteq> Some c \<and> c \<in> known (cw_host v)) \<and>
     (\<forall>c. im_idle (cw_pool v) = Some c \<longrightarrow> c \<in> known (cw_host v))"

lemma growsD: "grows known f \<Longrightarrow> f w = (r, w1) \<Longrightarrow> known w \<subseteq> known w1"
  unfolding grows_def by blast

lemma growsI: "(\<And>w r w1. f w = (r, w1) \<Longrightarrow> known w \<subseteq> known w1) \<Longrightarrow> grows known f"
  unfolding grows_def by blast

lemma dial_fresh:
  assumes "dials_fresh L known" "il_Dial L ins cx a w = (Inr c, w1)"
  shows "c \<notin> known w \<and> c \<in> known w1"
  using conjunct1 [OF assms(1) [unfolded dials_fresh_def]] assms(2) by simp

lemma close_known: "dials_fresh L known \<Longrightarrow> known w \<subseteq> known (il_Close L c w)"
  unfolding dials_fresh_def by blast

lemma grows_commands:
  assumes "dials_fresh L known"
  shows "grows known (il_Dial L ins cx a)"
    and "grows known (il_Login L c u p)" and "grows known (il_Authenticate L c t)"
    and "grows known (SASLClient (il_Google L) ad us h po)"
    and "grows known (il_Noop L c)" and "grows known (il_Logout L c)"
    and "grows known (il_Select L c x)"
  using assms by (simp_all add: dials_fresh_def)

lemma grows_await:
  assumes "dials_fresh L known" "grows known f"
  shows "grows known (awaitValue L cx c f lim)"
proof (rule growsI)
  fix w r w1
  assume r: "awaitValue L cx c f lim w = (r, w1)"
  obtain q w2 where q: "f w = (q, w2)" by force
  show "known w \<subseteq> known w1"
    using awaitValue_ends [OF r q] growsD [OF assms(2) q] close_known [OF assms(1), of w2 c] by blast
qed

lemma grows_closeClient:
  assumes "dials_fresh L known"
  shows "known w \<subseteq> known (closeClient L cx c w)"
proof -
  obtain r w1 where r: "awaitValue L cx c (il_Logout L c) connectTimeout w = (r, w1)" by force
  from growsD [OF grows_await [OF assms grows_commands(6) [OF assms]] r] close_known [OF assms, of w1 c] r
  show ?thesis by (simp add: closeClient_def)
qed

lemma grows_andthen:
  assumes "grows known f" "\<And>x. grows known (g x)"
  shows "grows known (andthen f g)"
proof (rule growsI)
  fix w r w1
  assume r: "andthen f g w = (r, w1)"
  obtain q w2 where q: "f w = (q, w2)" by force
  note g = growsD [OF assms(1) q]
  show "known w \<subseteq> known w1"
  proof (cases q)
    case (Inl e)
    with q r g show ?thesis by simp
  next
    case (Inr x)
    with q r have "g x w2 = (r, w1)" by simp
    from growsD [OF assms(2) this] g show ?thesis by blast
  qed
qed

lemma grows_login:
  assumes "dials_fresh L known"
  shows "grows known (imap_login L cx cfg c)"
  unfolding imap_login_def
  by (auto split: option.splits prod.splits simp: Let_def
      intro!: grows_andthen grows_await [OF assms] grows_commands [OF assms])

lemma dial_known:
  assumes "dials_fresh L known" "imap_dial L cx cfg w = (r, w1)"
  shows "known w \<subseteq> known w1 \<and> (\<forall>c. r = Inr c \<longrightarrow> c \<notin> known w \<and> c \<in> known w1)"
proof (cases "cx w")
  case (Some e)
  with assms(2) show ?thesis by (auto simp: imap_dial_def)
next
  case None
  obtain q w2 where q: "il_Dial L (ic_Insecure cfg) cx (ic_Addr cfg) w = (q, w2)" by force
  note g2 = growsD [OF grows_commands(1) [OF assms(1)] q]
  show ?thesis
  proof (cases q)
    case (Inl e)
    with None q g2 assms(2) show ?thesis by (auto simp: imap_dial_def)
  next
    case (Inr c)
    note fr = dial_fresh [OF assms(1) q [unfolded Inr]]
    obtain q3 w3 where q3: "imap_login L cx cfg c w2 = (q3, w3)" by force
    note g3 = growsD [OF grows_login [OF assms(1)] q3]
    obtain q4 w4 where q4: "awaitValue L cx c (il_Select L c (ic_Mailbox cfg)) connectTimeout w3 = (q4, w4)"
      by force
    note g4 = growsD [OF grows_await [OF assms(1) grows_commands(7) [OF assms(1)]] q4]
    note cl = close_known [OF assms(1), of w3 c] close_known [OF assms(1), of w4 c]
    consider "w1 = il_Close L c w3" "isl r" | "w1 = il_Close L c w4" "isl r" | "w1 = w4" "r = Inr c"
      using None q Inr q3 q4 assms(2) by (cases q3; cases q4) (auto simp: imap_dial_def)
    then show ?thesis using fr g2 g3 g4 cl by cases (auto, blast+)
  qed
qed

lemma connect_known:
  assumes "dials_fresh L known" "connect L cx cfg claimed stale w = (r, w1)"
  shows "known w \<subseteq> known w1 \<and>
    (\<forall>d. r = Inr d \<longrightarrow> claimed = Some d \<or> d \<notin> known w \<and> d \<in> known w1)"
proof (cases claimed)
  case None
  with dial_known [OF assms(1)] assms(2) show ?thesis by (simp add: connect_def)
next
  case (Some c)
  obtain q w2 where q: "awaitValue L cx c (il_Noop L c) connectTimeout w = (q, w2)" by force
  note g = growsD [OF grows_await [OF assms(1) grows_commands(5) [OF assms(1)]] q]
  have late: ?thesis if "known w \<subseteq> known w3" "imap_dial L cx cfg w3 = (r, w1)" for w3
    using dial_known [OF assms(1) that(2)] that(1) by blast
  show ?thesis
  proof (cases stale)
    case True
    with Some assms(2) have "imap_dial L cx cfg (closeClient L cx c w) = (r, w1)"
      by (simp add: connect_def)
    from late [OF grows_closeClient [OF assms(1)] this] show ?thesis .
  next
    case False
    show ?thesis
    proof (cases q)
      case (Inl e)
      with Some False q assms(2) have "imap_dial L cx cfg (closeClient L cx c w2) = (r, w1)"
        by (simp add: connect_def)
      from late [OF subset_trans [OF g grows_closeClient [OF assms(1)]] this] show ?thesis .
    next
      case (Inr u)
      with Some False q g assms(2) show ?thesis by (auto simp: connect_def)
    qed
  qed
qed

lemma one_owner_enter:
  assumes "one_owner known v" "known (cw_host v) \<subseteq> known (snd s)"
    and "\<And>c. owns ph = Some c \<Longrightarrow> c \<in> known (snd s) \<and> im_idle (fst s) \<noteq> Some c \<and>
           (owns (cw_phase v i) = Some c \<or> im_idle (cw_pool v) = Some c \<or> c \<notin> known (cw_host v))"
    and "\<And>c. im_idle (fst s) = Some c \<Longrightarrow> im_idle (cw_pool v) = Some c \<or> owns (cw_phase v i) = Some c"
  shows "one_owner known (enter i ph s v)"
  unfolding one_owner_def
proof (intro conjI allI impI)
  fix j k c
  assume "owns (cw_phase (enter i ph s v) j) = Some c" "owns (cw_phase (enter i ph s v) k) = Some c"
  with assms(1) assms(3) [of c] show "j = k"
    unfolding one_owner_def by (auto simp: enter_def split: if_splits)
next
  fix j c
  assume "owns (cw_phase (enter i ph s v) j) = Some c"
  with assms(1,2) assms(3) [of c] assms(4) [of c]
  show "im_idle (cw_pool (enter i ph s v)) \<noteq> Some c" and "c \<in> known (cw_host (enter i ph s v))"
    unfolding one_owner_def by (auto simp: enter_def split: if_splits)
next
  fix c
  assume "im_idle (cw_pool (enter i ph s v)) = Some c"
  with assms(1,2) assms(4) [of c] show "c \<in> known (cw_host (enter i ph s v))"
    unfolding one_owner_def by (auto simp: enter_def)
qed

text \<open>No event needs a law beyond those, but the commands a caller gives must not forget one.\<close>

definition decent :: "('n host \<Rightarrow> 'c set) \<Rightarrow> ('n, 'c) pool_event \<Rightarrow> bool" where
  "decent known ev \<longleftrightarrow> (\<forall>i f. ev = Command i f \<longrightarrow> (\<forall>c. grows known (f c)))"

lemma enter_away:
  assumes "one_owner known v" "known (cw_host v) \<subseteq> known w1" "im_idle m = im_idle (cw_pool v)"
  shows "one_owner known (enter i Away (m, w1) v)"
  by (rule one_owner_enter) (use assms in auto)

lemma enter_same:
  assumes "one_owner known v" "known (cw_host v) \<subseteq> known w1" "im_idle m = im_idle (cw_pool v)"
    and "owns ph = owns (cw_phase v i)"
  shows "one_owner known (enter i ph (m, w1) v)"
  by (rule one_owner_enter) (use assms in \<open>auto simp: one_owner_def\<close>)

lemma pool_step_one_owner:
  assumes "dials_fresh L known" "decent known ev" "one_owner known v" "pool_step L cx ev v = Some v1"
  shows "one_owner known v1"
proof (cases ev)
  case (Claim i)
  with assms(4) have v1: "cw_phase v i = Away"
    "v1 = enter i (Claimed (im_idle (cw_pool v)) (expired (il_Now L (cw_host v)) (cw_pool v)))
            (claim (il_Now L (cw_host v)) (cw_pool v), cw_host v) v"
    by (auto simp: Let_def split: phase.splits)
  show ?thesis unfolding v1(2) by (rule one_owner_enter) (use assms(3) in \<open>auto simp: one_owner_def\<close>)
next
  case (Connect i)
  with assms(4) obtain c stale where ph: "cw_phase v i = Claimed c stale"
    by (auto split: phase.splits)
  obtain r w1 where r: "connect L cx (im_cfg (cw_pool v)) c stale (cw_host v) = (r, w1)" by force
  note k = connect_known [OF assms(1) r]
  show ?thesis
  proof (cases r)
    case (Inl e)
    with Connect assms(4) ph r have "v1 = enter i Away (cw_pool v, w1) v" by simp
    with enter_away [OF assms(3), of w1 "cw_pool v" i] k show ?thesis by simp
  next
    case (Inr d)
    with Connect assms(4) ph r have v1: "v1 = enter i (Holding d) (cw_pool v, w1) v" by simp
    have own: "im_idle (cw_pool v) \<noteq> Some d \<and> d \<in> known (cw_host v)" if "c = Some d"
      using assms(3) ph that unfolding one_owner_def by (metis owns.simps(2))
    show ?thesis
      unfolding v1
      by (rule one_owner_enter) (use assms(3) k Inr ph own in \<open>auto simp: one_owner_def\<close>)
  qed
next
  case (Command i f)
  with assms(4) obtain c where ph: "cw_phase v i = Holding c" by (auto split: phase.splits)
  obtain r w1 where r: "awaitValue L cx c (f c) cmdTimeout (cw_host v) = (r, w1)" by force
  have "grows known (f c)" using assms(2) Command by (simp add: decent_def)
  from growsD [OF grows_await [OF assms(1) this] r] Command assms(4) ph r enter_same [OF assms(3), of w1]
  show ?thesis by auto
next
  case (Wander i x)
  with assms(4) obtain c where ph: "cw_phase v i = Holding c" by (auto split: phase.splits)
  obtain r w1 where r: "awaitValue L cx c (il_Select L c x) cmdTimeout (cw_host v) = (r, w1)" by force
  note g = growsD [OF grows_await [OF assms(1) grows_commands(7) [OF assms(1)]] r]
  show ?thesis
    using Wander assms(4) ph r g enter_same [OF assms(3), of w1 "wander x (cw_pool v)" "Holding c" i]
    by (cases r) (auto simp: selectFolder_def beside_def wander_def)
next
  case (Break i)
  with assms(4) obtain c where ph: "cw_phase v i = Holding c" by (auto split: phase.splits)
  with Break assms(4) enter_away [OF assms(3) grows_closeClient [OF assms(1)], of "forget (cw_pool v)"]
  show ?thesis by (auto simp: discard_def forget_def)
next
  case (Look i)
  with assms(4) obtain c where ph: "cw_phase v i = Holding c" by (auto split: phase.splits)
  with Look assms(4) enter_same [OF assms(3) subset_refl] show ?thesis by auto
next
  case (Return i)
  with assms(4) obtain c lost where ph: "cw_phase v i = Leaving c lost" by (auto split: phase.splits)
  obtain r w1 where r: "awaitValue L cx c (il_Select L c (ic_Mailbox (im_cfg (cw_pool v)))) cmdTimeout
      (cw_host v) = (r, w1)" by force
  note g = growsD [OF grows_await [OF assms(1) grows_commands(7) [OF assms(1)]] r]
  note cl = subset_trans [OF g grows_closeClient [OF assms(1)]]
  show ?thesis
  proof (cases lost)
    case False
    with Return assms(4) ph enter_same [OF assms(3) subset_refl] show ?thesis by auto
  next
    case True
    with Return assms(4) ph r g enter_same [OF assms(3), of w1 "forget (cw_pool v)" "Restored c" i]
      enter_away [OF assms(3) cl, of "forget (cw_pool v)"]
    show ?thesis by (cases r) (auto simp: discard_def forget_def)
  qed
next
  case (Put i)
  with assms(4) obtain c where ph: "cw_phase v i = Restored c" by (auto split: phase.splits)
  obtain m w1 where s: "cache L cx c (cw_pool v, cw_host v) = (m, w1)" by force
  have w1: "known (cw_host v) \<subseteq> known w1"
    and m: "im_idle m = im_idle (cw_pool v) \<or> im_idle m = Some c"
    using s grows_closeClient [OF assms(1)]
    by (auto simp: cache_def offer_def Let_def split: if_splits)
  have v1: "v1 = enter i Away (m, w1) v" using Put assms(4) ph s by simp
  show ?thesis
    unfolding v1 by (rule one_owner_enter) (use assms(3) w1 m ph in auto)
qed

lemma nobody_one_owner:
  "(\<And>c. im_idle (fst s) = Some c \<Longrightarrow> c \<in> known (snd s)) \<Longrightarrow> one_owner known (nobody_inside s)"
  by (auto simp: one_owner_def nobody_inside_def)

lemma pool_run_one_owner:
  "dials_fresh L known \<Longrightarrow> \<forall>ev \<in> set evs. decent known ev \<Longrightarrow> one_owner known v \<Longrightarrow>
   pool_run L cx evs v = Some v1 \<Longrightarrow> one_owner known v1"
proof (induction evs arbitrary: v)
  case (Cons ev evs)
  then obtain v2 where s: "pool_step L cx ev v = Some v2" "pool_run L cx evs v2 = Some v1"
    by (auto split: option.splits)
  from pool_step_one_owner [OF Cons.prems(1) _ Cons.prems(3) s(1)] Cons.prems(2)
  have "one_owner known v2" by simp
  from Cons.IH [OF Cons.prems(1) _ this s(2)] Cons.prems(2) show ?case by simp
qed simp

subsection \<open>The selection is not tied to its connection\<close>

text \<open>The connections the server has numbered.\<close>

definition demo_known :: "mail_server host \<Rightarrow> nat set" where
  "demo_known w = {..<sv_next (h_net w)}"

definition demo_crowd :: "(mail_server, nat) crowd" where
  "demo_crowd = nobody_inside (demo_session demo_server)"

text \<open>
  The first caller archives message 1 and is on the archive when the second comes: the pool is
  empty, so the claim of the second forgets the selection, and the first puts its connection back
  without returning to the configured mailbox.
\<close>

definition overtaken :: "(mail_server, nat) pool_event list" where
  "overtaken =
     [Claim 0, Connect 0,
      Command 0 (\<lambda>c w. andthen (il_Move demo_imap c [1] ''Archive'') (\<lambda>_. ret ()) w), Wander 0 ''Archive'',
      Claim 1,
      Look 0, Return 0, Put 0]"

definition after_overtaking :: "(mail_server, nat) session" where
  "after_overtaking =
     (case pool_run demo_imap live overtaken demo_crowd of
        Some v \<Rightarrow> (cw_pool v, cw_host v) | None \<Rightarrow> demo_session demo_server)"

text \<open>
  The claim of a second caller makes the first put back a connection that is on the archive; the next delete of message 1 then trashes another message, the archived one with that UID, and message 2 of the inbox is refused as unknown.
\<close>

theorem overtaken_moves_leave_the_connection_astray:
  "im_idle (fst after_overtaking) = Some 0 \<and>
   demo_on 0 (snd after_overtaking) = Some ''Archive'' \<and>
   ic_Mailbox (im_cfg (fst after_overtaking)) = ''INBOX'' \<and>
   (case imap_Delete demo_imap plain_mail live ''1'' after_overtaking of
      (r, s) \<Rightarrow> r = Inr () \<and> raws ''Archive'' s = [''one''] \<and> raws ''Trash'' s = [''filed long ago'']) \<and>
   fst (imap_MarkSeen demo_imap live ''2'' after_overtaking) = Inl (Wraps ErrBadID [Str ''2'']) \<and>
   raws ''INBOX'' after_overtaking = [''two'']"
  by (intro conjI; code_simp)

lemma sasl_net: "SASLClient no_google a u h p w = (r, w1) \<Longrightarrow> h_net w1 = h_net w"
  by (auto simp: SASLClient_def Token_def no_google_def Let_def set_obj_def
      split: prod.splits sum.splits option.splits if_splits)

lemma demo_grows:
  "(\<And>n r n1. f n = (r, n1) \<Longrightarrow> sv_next n \<le> sv_next n1) \<Longrightarrow> grows demo_known (on_net f)"
  by (auto simp: grows_def demo_known_def on_net_def split: prod.splits)

lemma demo_dials_fresh: "dials_fresh demo_imap demo_known"
  unfolding dials_fresh_def
proof (intro conjI allI impI)
  fix a u h p
  show "grows demo_known (SASLClient (il_Google demo_imap) a u h p)"
    by (auto simp: demo_imap_def grows_def demo_known_def dest!: sasl_net)
qed (auto simp: demo_imap_def on_net_def sv_dial_def demo_known_def sv_close_def intro!: demo_grows
    simp: if_open_def sv_select_def refused_with_def split: if_splits)

text \<open>C26: A connection waits in the pool or belongs to one caller, however callers interleave.\<close>

theorem connections_have_one_owner:
  assumes "dials_fresh L known" "\<forall>ev \<in> set evs. decent known ev"
    and "im_idle (fst s) = None"
    and "pool_run L cx evs (nobody_inside s) = Some v"
  shows "(\<forall>i j c. owns (cw_phase v i) = Some c \<longrightarrow> owns (cw_phase v j) = Some c \<longrightarrow> i = j) \<and>
         (\<forall>i c. owns (cw_phase v i) = Some c \<longrightarrow> im_idle (cw_pool v) \<noteq> Some c)"
proof -
  have "one_owner known (nobody_inside s)" using assms(3) by (intro nobody_one_owner) simp
  from pool_run_one_owner [OF assms(1,2) this assms(4)] show ?thesis
    by (simp add: one_owner_def)
qed

definition two_callers :: "(mail_server, nat) pool_event list" where
  "two_callers =
     [Claim 0, Connect 0, Command 0 (\<lambda>c. il_Noop demo_imap c), Claim 1, Look 0, Return 0, Put 0,
      Connect 1, Claim 2, Connect 2]"

theorem connections_have_one_owner_witness:
  "\<exists>v. pool_run demo_imap live two_callers demo_crowd = Some v \<and>
       owns (cw_phase v 1) = Some 1 \<and> owns (cw_phase v 2) = Some 0 \<and>
       (\<forall>i c. owns (cw_phase v i) = Some c \<longrightarrow> im_idle (cw_pool v) \<noteq> Some c)"
proof -
  have "pool_run demo_imap live two_callers demo_crowd \<noteq> None" by code_simp
  then obtain v where v: "pool_run demo_imap live two_callers demo_crowd = Some v" by auto
  have o: "map_option (\<lambda>v. (owns (cw_phase v 1), owns (cw_phase v 2)))
      (pool_run demo_imap live two_callers demo_crowd) = Some (Some 1, Some 0)" by code_simp
  have d: "\<forall>ev \<in> set two_callers. decent demo_known ev"
    by (auto simp: two_callers_def decent_def demo_imap_def if_open_def refused_with_def
        intro!: demo_grows split: if_splits)
  show ?thesis
    using v o connections_have_one_owner [OF demo_dials_fresh d _ v [unfolded demo_crowd_def]]
    by (auto simp: demo_session_def fresh_pool_def)
qed

end
