(* ===== verification/Imap_Batches.thy ===== *)
theory Imap_Batches
  imports Imap_Demo
begin

section \<open>Ids and batches over IMAP\<close>

text \<open>
  Ids read back as the UIDs they print, every batch that ends without an error accounts for every
  id once, and a batch over the byte budget asks for no body.
\<close>

subsection \<open>Ids\<close>

text \<open>An id that a listing returns names the message it was listed for.\<close>

theorem listed_ids_name_their_message:
  "parseUID (format_uid u) = (if u = 0 then Inl (Wraps ErrBadID [Str ''0'']) else Inr u)"
proof -
  have b: "uint u < 2 ^ 32" using uint_lt2p [of u] by simp
  have z: "char_of (48 :: nat) = CHR ''0''" by code_simp
  have "uint u = 0 \<longleftrightarrow> u = 0" by (simp add: unsigned_eq_0_iff)
  with b z show ?thesis
    by (auto simp: parseUID_def format_uid_def digits_value_decimal decimal.simps [of 0])
qed

subsection \<open>Every id once\<close>

lemma conn_runs:
  assumes "conn L cx f s = (Inr x, s3)"
  shows "\<exists>c s1 s2 s4. cx (snd s) = None \<and> acquire L cx s = (Inr c, s1) \<and> f c s1 = (Inr x, s2) \<and>
           restore L cx c s2 = (Inr (), s4) \<and> s3 = cache L cx c s4"
proof -
  obtain q s1 where q: "acquire L cx s = (q, s1)" by (cases "acquire L cx s")
  have n: "cx (snd s) = None"
    using assms by (auto simp: conn_def withConn_def split: option.splits)
  obtain c where c: "q = Inr c" using assms q n by (cases q) (auto simp: conn_def withConn_def)
  obtain v s2 where v: "f c s1 = (v, s2)" by (cases "f c s1")
  obtain y where y: "v = Inr y" using assms q n c v by (cases v) (auto simp: conn_def withConn_def)
  obtain z s4 where z: "restore L cx c s2 = (z, s4)" by (cases "restore L cx c s2")
  have "z = Inr () \<and> x = y \<and> s3 = cache L cx c s4"
    using assms q n c v y z by (cases z) (auto simp: conn_def withConn_def)
  with n q c v y z show ?thesis by blast
qed

lemma conn_ran: "conn L cx f s = (Inr x, s3) \<Longrightarrow> \<exists>c s1 s2. f c s1 = (Inr x, s2)"
  by (blast dest: conn_runs)

lemma parseRefs_accounts:
  "parseRefs is = (refs, bad) \<Longrightarrow> mset (map ref_id refs) + mset (map ID bad) = mset is"
  by (induction "is" arbitrary: refs bad) (auto split: prod.splits sum.splits)

lemma fold_Fail_reported:
  "mset (reported (fold (\<lambda>f r. Fail (ID f) (Err f) r) bad res)) = mset (reported res) + mset (map ID bad)"
  by (induction bad arbitrary: res) simp_all

lemma fold_fetch_Fail_reported:
  "mset (fetch_reported (fold (\<lambda>f r. fetch_Fail (ID f) (Err f) r) bad res)) =
     mset (fetch_reported res) + mset (map ID bad)"
  by (induction bad arbitrary: res) simp_all

lemma splitParsable_accounts:
  assumes "splitParsable is = (res, refs)"
  shows "mset (reported res) + mset (map ref_id refs) = mset is"
proof -
  obtain bad where p: "parseRefs is = (refs, bad)" and r: "res = fold (\<lambda>f r. Fail (ID f) (Err f) r) bad NewBulkResult"
    using assms by (auto simp: splitParsable_def split: prod.splits)
  show ?thesis using parseRefs_accounts [OF p] by (simp add: r fold_Fail_reported union_commute)
qed

lemma split_present_accounts:
  "split_present held refs res = (res1, present) \<Longrightarrow>
   mset (reported res1) + mset (map ref_id present) = mset (reported res) + mset (map ref_id refs)"
  by (induction held refs res arbitrary: res1 present rule: split_present.induct)
    (auto split: prod.splits if_splits)

lemma succeed_all_reported [simp]:
  "mset (reported (succeed_all refs res)) = mset (reported res) + mset (map ref_id refs)"
  by (induction refs arbitrary: res) (simp_all add: succeed_all_def)

lemma measure_accounts:
  "measure_refs sizes refs (res, tot, present) = (res1, tot1, present1) \<Longrightarrow>
   mset (fetch_reported res1) + mset (map ref_id present1) =
   mset (fetch_reported res) + mset (map ref_id present) + mset (map ref_id refs)"
  by (induction sizes refs "(res, tot, present)" arbitrary: res tot present rule: measure_refs.induct)
    (auto split: option.splits)

lemma bodies_accounts:
  "mset (fetch_reported (record_bodies bodies refs res)) = mset (fetch_reported res) + mset (map ref_id refs)"
  by (induction bodies refs res rule: record_bodies.induct) (auto split: option.splits)

text \<open>A batch body accounts when, given the ids already failed and the others, it reports them all.\<close>

definition accounts ::
  "bulk_result \<Rightarrow> uid_ref list \<Rightarrow> (('n, 'c) session, bulk_result) effect \<Rightarrow> bool" where
  "accounts res refs f \<longleftrightarrow>
     ends (\<lambda>_. True) f (\<lambda>r _. mset (reported r) = mset (reported res) + mset (map ref_id refs)) (\<lambda>_ _. True)"

lemma parsable_accounts:
  assumes "\<And>res known. accounts res known (f res known)" "over_parsable is f s = (Inr r, s1)"
  shows "mset (reported r) = mset is"
proof -
  obtain res known where sp: "splitParsable is = (res, known)" by force
  note a = splitParsable_accounts [OF sp]
  have "known = [] \<and> r = res \<or> f res known s = (Inr r, s1)"
    using assms(2) sp by (auto simp: over_parsable_def asks_def split: option.splits if_splits)
  then show ?thesis
    using a endsD(1) [OF assms(1) [unfolded accounts_def]] by fastforce
qed

lemma accounts_conn: "(\<And>c. accounts res refs (f c)) \<Longrightarrow> accounts res refs (conn L cx f)"
  unfolding accounts_def by (intro endsI) (auto dest!: conn_ran endsD(1))

lemma accounts_after:
  "(\<And>x. accounts res refs (g x)) \<Longrightarrow> accounts res refs (andthen f g)"
  unfolding accounts_def by (intro ends_andthen [where R = "\<lambda>_ _. True"]) (auto simp: ends_def split: sum.splits prod.splits)

lemma accounts_refuse: "accounts res refs (refuse e)"
  by (auto simp: accounts_def)

lemma accounts_located:
  assumes "\<And>res1 present. accounts res1 present (g (res1, present))"
  shows "accounts res refs (andthen (locateMany L cx c res refs) g)"
  unfolding accounts_def
proof (rule endsI)
  fix s r s1
  assume "andthen (locateMany L cx c res refs) g s = (Inr r, s1)"
  then obtain held res1 present s2
    where sp: "split_present held refs res = (res1, present)" and g: "g (res1, present) s2 = (Inr r, s1)"
    unfolding locateMany_def andthen_Inr_iff by (metis prod.collapse ret_iff sum.inject(2))
  from endsD(1) [OF assms [unfolded accounts_def] _ g] split_present_accounts [OF sp]
  show "mset (reported r) = mset (reported res) + mset (map ref_id refs)" by simp
qed simp

lemma accounts_present:
  "accounts res present (if present = [] then ret res else storeSeen L cx c res present)"
  "accounts res present (if present = [] then ret res else move_present L lib cx c full res present)"
  unfolding accounts_def
  by (intro endsI; auto simp: storeSeen_def move_present_def andthen_Inr_iff asks_def split: if_splits)+

lemma fileManyTo_accounts: "fileManyTo L lib cx t is s = (Inr r, s1) \<Longrightarrow> mset (reported r) = mset is"
  unfolding fileManyTo_def
  by (erule parsable_accounts [rotated])
    (auto intro!: accounts_conn accounts_after accounts_located accounts_present)

lemma moveMany_accounts: "imap_MoveMany L lib cx is d s = (Inr r, s1) \<Longrightarrow> mset (reported r) = mset is"
  unfolding imap_MoveMany_def
  by (erule parsable_accounts [rotated])
    (auto intro!: accounts_conn accounts_after accounts_located accounts_present accounts_refuse
      split: option.splits)

lemma markSeenMany_accounts: "imap_MarkSeenMany L cx is s = (Inr r, s1) \<Longrightarrow> mset (reported r) = mset is"
  unfolding imap_MarkSeenMany_def
  by (erule parsable_accounts [rotated])
    (auto intro!: accounts_conn accounts_located accounts_present)

lemma fetched_accounts:
  assumes "fetch_within_budget L cx refs res c s = (Inr (Inr r), s1)"
  shows "mset (fetch_reported r) = mset (fetch_reported res) + mset (map ref_id refs)"
proof -
  obtain sizes s2 where b: "(case measure_refs sizes refs (res, 0, []) of
          (res1, tot, present) \<Rightarrow>
            (if present = [] then ret (Inr res1)
             else case CheckFetchBudget tot (length present) of
                    Some e \<Rightarrow> ret (Inl e)
                  | None \<Rightarrow> andthen (fetchBodies L cx c res1 present) (\<lambda>r. ret (Inr r)))) s2
        = (Inr (Inr r), s1)"
    using assms unfolding fetch_within_budget_def andthen_Inr_iff by blast
  obtain res1 tot present where m: "measure_refs sizes refs (res, 0, []) = (res1, tot, present)"
    by (metis prod.collapse)
  have "present = [] \<and> r = res1 \<or> (\<exists>bodies. r = record_bodies bodies present res1)"
    using b m by (auto simp: fetchBodies_def andthen_Inr_iff split: if_splits option.splits)
  with measure_accounts [OF m] show ?thesis by (auto simp: bodies_accounts)
qed

lemma fetchMany_accounts:
  assumes "imap_FetchMany L cx is s = (Inr r, s1)"
  shows "mset (fetch_reported r) = mset is"
proof -
  obtain refs bad where p: "parseRefs is = (refs, bad)" by force
  let ?res = "fold (\<lambda>f r. fetch_Fail (ID f) (Err f) r) bad NewFetchResult"
  note a = parseRefs_accounts [OF p] fold_fetch_Fail_reported [of bad NewFetchResult]
  show ?thesis
  proof (cases "refs = []")
    case True
    with assms p a show ?thesis
      by (auto simp: imap_FetchMany_def asks_def Let_def split: option.splits)
  next
    case False
    with assms p have "andthen (conn L cx (fetch_within_budget L cx refs ?res))
        (\<lambda>out. case out of Inl e \<Rightarrow> refuse e | Inr r \<Rightarrow> ret r) s = (Inr r, s1)"
      by (auto simp: imap_FetchMany_def asks_def Let_def split: option.splits)
    then obtain out s2 where o: "conn L cx (fetch_within_budget L cx refs ?res) s = (Inr out, s2)"
      and r: "(case out of Inl e \<Rightarrow> refuse e | Inr r \<Rightarrow> ret r) s2 = (Inr r, s1)"
      unfolding andthen_Inr_iff by blast
    from r have "out = Inr r" by (cases out) auto
    with o have "conn L cx (fetch_within_budget L cx refs ?res) s = (Inr (Inr r), s2)" by simp
    from conn_ran [OF this] obtain c s3 s4 where "fetch_within_budget L cx refs ?res c s3 = (Inr (Inr r), s4)"
      by blast
    from fetched_accounts [OF this] a show ?thesis by (simp add: union_commute)
  qed
qed

lemma outcome_case:
  "(\<And>r s1. x = (Inr r, s1) \<Longrightarrow> P r) \<Longrightarrow> case x of (Inr r, s1) \<Rightarrow> P r | (Inl e, s1) \<Rightarrow> True"
  by (auto split: prod.splits sum.splits)

text \<open>C30: A batch over IMAP that ends without an error reports every requested id exactly once, malformed and absent ones as failures of their own, whatever the server answers.\<close>

theorem imap_batches_report_every_id_once:
  "(case imap_MarkSeenMany L cx is s of (Inr r, s1) \<Rightarrow> mset (reported r) = mset is | _ \<Rightarrow> True) \<and>
   (case imap_MoveMany L lib cx is d s of (Inr r, s1) \<Rightarrow> mset (reported r) = mset is | _ \<Rightarrow> True) \<and>
   (case imap_ArchiveMany L lib cx is s of (Inr r, s1) \<Rightarrow> mset (reported r) = mset is | _ \<Rightarrow> True) \<and>
   (case imap_DeleteMany L lib cx is s of (Inr r, s1) \<Rightarrow> mset (reported r) = mset is | _ \<Rightarrow> True) \<and>
   (case imap_FetchMany L cx is s of (Inr r, s1) \<Rightarrow> mset (fetch_reported r) = mset is | _ \<Rightarrow> True)"
  by (intro conjI outcome_case)
    (auto simp: imap_ArchiveMany_def imap_DeleteMany_def asks_def
      dest: fileManyTo_accounts moveMany_accounts markSeenMany_accounts fetchMany_accounts)

subsection \<open>The budget comes before the bodies\<close>

text \<open>What is left of an operation once its connection has done its part.\<close>

definition wind_up ::
  "('n, 'c) imap_lib \<Rightarrow> 'n host ctx \<Rightarrow> 'c \<Rightarrow> ('n, 'c) session \<Rightarrow> (error + unit) \<times> ('n, 'c) session" where
  "wind_up L cx c s =
     (case restore L cx c s of
        (Inl e, s1) \<Rightarrow> (Inl e, s1)
      | (Inr _, s1) \<Rightarrow> (Inr (), cache L cx c s1))"

lemma conn_wind_up:
  "cx (snd s) = None \<Longrightarrow> acquire L cx s = (Inr c, s1) \<Longrightarrow> f c s1 = (Inr x, s2) \<Longrightarrow>
   conn L cx f s = (case wind_up L cx c s2 of (Inl e, s3) \<Rightarrow> (Inl e, s3) | (Inr _, s3) \<Rightarrow> (Inr x, s3))"
  by (auto simp: conn_def withConn_def wind_up_def split: prod.splits sum.splits)

text \<open>A batch measured over the budget is refused right after the measurement: the session only winds up, no body is asked for, and the connection is kept.\<close>

theorem imap_fetch_is_measured_first:
  assumes "CheckBulkIDsLimit is (imap_BulkLimit (fst s)) = None"
    and "parseRefs is = (refs, bad)" and "refs \<noteq> []"
    and "cx (snd s) = None" and "acquire L cx s = (Inr c, s1)"
    and "fetchSizes L cx c refs s1 = (Inr sizes, s2)"
    and "measure_refs sizes refs (fold (\<lambda>f r. fetch_Fail (ID f) (Err f) r) bad NewFetchResult, 0, []) =
           (res, tot, present)"
    and "present \<noteq> []" and "MaxFetchBytes < sint tot"
  shows "\<exists>e. errors_is e ErrFetchTooLarge \<and>
    imap_FetchMany L cx is s =
      (case wind_up L cx c s2 of (Inl e', s3) \<Rightarrow> (Inl e', s3) | (Inr _, s3) \<Rightarrow> (Inl e, s3))"
proof -
  let ?res = "fold (\<lambda>f r. fetch_Fail (ID f) (Err f) r) bad NewFetchResult"
  obtain e where e: "CheckFetchBudget tot (length present) = Some e" "errors_is e ErrFetchTooLarge"
    using assms(9) by (simp add: CheckFetchBudget_def)
  have "fetch_within_budget L cx refs ?res c s1 = (Inr (Inl e), s2)"
    using assms(6-8) e by (simp add: fetch_within_budget_def)
  from conn_wind_up [where f = "fetch_within_budget L cx refs ?res", OF assms(4,5) this] assms(1-3) e
  have "imap_FetchMany L cx is s =
      (case wind_up L cx c s2 of (Inl e', s3) \<Rightarrow> (Inl e', s3) | (Inr _, s3) \<Rightarrow> (Inl e, s3))"
    by (auto simp: imap_FetchMany_def asks_def Let_def andthen_def split: prod.splits sum.splits)
  with e show ?thesis by blast
qed

subsection \<open>Witnesses and the limits of the batches\<close>

text \<open>The server in memory, whose messages are 16 MiB each by their stored size.\<close>

definition big_imap :: "(mail_server, nat) imap_lib" where
  "big_imap =
     demo_imap\<lparr>il_Fetch := (\<lambda>c us it w.
       case il_Fetch demo_imap c us it w of
         (Inl e, w1) \<Rightarrow> (Inl e, w1)
       | (Inr ms, w1) \<Rightarrow> (Inr (map (\<lambda>m. m\<lparr>fb_Size := 2 ^ 24\<rparr>) ms), w1))\<rparr>"

abbreviation start :: "(mail_server, nat) session" where "start \<equiv> demo_session demo_server"

theorem imap_fetch_is_measured_first_witness:
  "\<exists>e. errors_is e ErrFetchTooLarge \<and> fst (imap_FetchMany big_imap live [''1'', ''x'', ''2''] start) = Inl e"
proof -
  let ?is = "[''1'', ''x'', ''2'']"
  obtain refs bad where p: "parseRefs ?is = (refs, bad)" by force
  have refs: "refs = [\<lparr>ref_id = ''1'', ref_uid = 1\<rparr>, \<lparr>ref_id = ''2'', ref_uid = 2\<rparr>]"
  proof -
    have "fst (parseRefs ?is) = [\<lparr>ref_id = ''1'', ref_uid = 1\<rparr>, \<lparr>ref_id = ''2'', ref_uid = 2\<rparr>]"
      by code_simp
    with p show ?thesis by simp
  qed
  let ?res = "fold (\<lambda>f r. fetch_Fail (ID f) (Err f) r) bad NewFetchResult"
  obtain q s1 where a: "acquire big_imap live start = (q, s1)" by (cases "acquire big_imap live start")
  have "fst (acquire big_imap live start) = Inr 0" by code_simp
  with a have a0: "acquire big_imap live start = (Inr 0, s1)" by simp
  obtain z s2 where f: "fetchSizes big_imap live 0 refs s1 = (z, s2)"
    by (cases "fetchSizes big_imap live 0 refs s1")
  have ev: "case fetchSizes big_imap live 0 [\<lparr>ref_id = ''1'', ref_uid = 1\<rparr>, \<lparr>ref_id = ''2'', ref_uid = 2\<rparr>]
             (snd (acquire big_imap live start)) of
          (Inl e, s2) \<Rightarrow> False
        | (Inr sizes, s2) \<Rightarrow>
            sizes 1 = Some (2 ^ 24) \<and> sizes 2 = Some (2 ^ 24) \<and> \<not> isl (fst (wind_up big_imap live 0 s2))"
    by code_simp
  then obtain sizes where z: "z = Inr sizes" and sz: "sizes 1 = Some (2 ^ 24)" "sizes 2 = Some (2 ^ 24)"
    and w: "\<not> isl (fst (wind_up big_imap live 0 s2))"
    using f a0 by (cases z) (simp_all add: refs)
  have m: "measure_refs sizes refs (?res, 0, []) = (?res, 2 ^ 25, refs)"
    using sz by (simp add: refs)
  have big: "MaxFetchBytes < sint (2 ^ 25 :: int64)" by code_simp
  have ok: "CheckBulkIDsLimit ?is (imap_BulkLimit (fst start)) = None" by code_simp
  obtain e where e: "errors_is e ErrFetchTooLarge"
    "imap_FetchMany big_imap live ?is start =
      (case wind_up big_imap live 0 s2 of (Inl e', s3) \<Rightarrow> (Inl e', s3) | (Inr _, s3) \<Rightarrow> (Inl e, s3))"
    using imap_fetch_is_measured_first [OF ok p _ _ a0 f [unfolded z] m _ big] refs by auto
  with w show ?thesis
    by (cases "wind_up big_imap live 0 s2"; cases "fst (wind_up big_imap live 0 s2)") auto
qed

text \<open>Two spellings of one UID: the first is neither read nor failed.\<close>

lemma respelt_ids_are_lost:
  "case imap_FetchHeadersMany demo_imap plain_mail live [''1'', ''01''] start of
     ((found, failures), s) \<Rightarrow> found ''01'' \<noteq> None \<and> found ''1'' = None \<and> failures ''1'' = None"
  by code_simp

end
