(* ===== verification/Imap_Safety.thy ===== *)
theory Imap_Safety
  imports Imap_Batches
begin

section \<open>What the IMAP backend never does to a mailbox\<close>

text \<open>
  The dangerous commands are DELETE, which destroys a folder with its mail, MOVE on a server that
  can only expunge the whole mailbox, and STORE on a message nobody saw.  That one of them is not
  sent is stated by exchanging it for any other command in the library: the outcome is the same.
\<close>

subsection \<open>Exchanging a command\<close>

lemmas deep_congs = option.case_cong sum.case_cong prod.case_cong arrival.case_cong list.case_cong if_cong

lemma session_without [simp]:
  "awaitValue (L\<lparr>il_Delete := d\<rparr>) = awaitValue L" "awaitValue (L\<lparr>il_Move := mv\<rparr>) = awaitValue L"
  "awaitValue (L\<lparr>il_StoreSeen := st\<rparr>) = awaitValue L"
  by (simp_all add: fun_eq_iff awaitValue_def cong: deep_congs)

lemma close_without [simp]:
  "closeClient (L\<lparr>il_Delete := d\<rparr>) = closeClient L" "closeClient (L\<lparr>il_Move := mv\<rparr>) = closeClient L"
  "closeClient (L\<lparr>il_StoreSeen := st\<rparr>) = closeClient L"
  by (simp_all add: fun_eq_iff closeClient_def cong: deep_congs)

lemma dial_without [simp]:
  "imap_dial (L\<lparr>il_Delete := d\<rparr>) = imap_dial L" "imap_dial (L\<lparr>il_Move := mv\<rparr>) = imap_dial L"
  "imap_dial (L\<lparr>il_StoreSeen := st\<rparr>) = imap_dial L"
  by (simp_all add: fun_eq_iff imap_dial_def imap_login_def cong: deep_congs)

lemma acquire_without [simp]:
  "acquire (L\<lparr>il_Delete := d\<rparr>) = acquire L" "acquire (L\<lparr>il_Move := mv\<rparr>) = acquire L"
  "acquire (L\<lparr>il_StoreSeen := st\<rparr>) = acquire L"
  by (simp_all add: fun_eq_iff acquire_def takeIdle_def cong: deep_congs)

lemma restore_without [simp]:
  "restore (L\<lparr>il_Delete := d\<rparr>) = restore L" "restore (L\<lparr>il_Move := mv\<rparr>) = restore L"
  "restore (L\<lparr>il_StoreSeen := st\<rparr>) = restore L"
  by (simp_all add: fun_eq_iff restore_def discard_def cong: deep_congs)

lemma cache_without [simp]:
  "cache (L\<lparr>il_Delete := d\<rparr>) = cache L" "cache (L\<lparr>il_Move := mv\<rparr>) = cache L"
  "cache (L\<lparr>il_StoreSeen := st\<rparr>) = cache L"
  by (simp_all add: fun_eq_iff cache_def cong: deep_congs)

lemma conn_without [simp]:
  "conn (L\<lparr>il_Delete := d\<rparr>) = conn L" "conn (L\<lparr>il_Move := mv\<rparr>) = conn L"
  "conn (L\<lparr>il_StoreSeen := st\<rparr>) = conn L"
  by (simp_all add: fun_eq_iff conn_def withConn_def discard_def cong: deep_congs)

text \<open>Two bodies that agree on the connection that is acquired give the same operation.\<close>

lemma conn_agrees:
  "(\<And>c s1. acquire L cx s = (Inr c, s1) \<Longrightarrow> f c s1 = g c s1) \<Longrightarrow> conn L cx f s = conn L cx g s"
  by (auto simp: conn_def withConn_def split: option.splits prod.splits sum.splits)

lemma blocks_without [simp]:
  "listAll (L\<lparr>il_Delete := d\<rparr>) = listAll L" "listAll (L\<lparr>il_Move := mv\<rparr>) = listAll L"
  "personalPrefix (L\<lparr>il_Delete := d\<rparr>) = personalPrefix L"
  "personalPrefix (L\<lparr>il_Move := mv\<rparr>) = personalPrefix L"
  "folderMessages (L\<lparr>il_Delete := d\<rparr>) = folderMessages L"
  "locate_one (L\<lparr>il_Move := mv\<rparr>) = locate_one L" "locate_one (L\<lparr>il_StoreSeen := st\<rparr>) = locate_one L"
  "locateMany (L\<lparr>il_Move := mv\<rparr>) = locateMany L"
  by (simp_all add: fun_eq_iff listAll_def personalPrefix_def folderMessages_def locate_one_def
      locateMany_def cong: deep_congs)

lemma folders_without [simp]:
  "source_folder (L\<lparr>il_Move := mv\<rparr>) = source_folder L"
  "existing_folder (L\<lparr>il_Move := mv\<rparr>) = existing_folder L"
  by (simp_all add: fun_eq_iff source_folder_def existing_folder_def)

lemma resolve_without [simp]:
  "resolveCurationFolder (L\<lparr>il_Move := mv\<rparr>) = resolveCurationFolder L"
  by (simp add: fun_eq_iff resolveCurationFolder_def planCurationFolder_def cong: deep_congs)

subsection \<open>Deleting folders\<close>

text \<open>What the server must have answered, on one connection, before DELETE is sent.\<close>

definition deletion_allowed ::
  "('n, 'c) imap_lib \<Rightarrow> 'n host ctx \<Rightarrow> 'a imap_mailbox_scheme \<Rightarrow> string \<Rightarrow> 'c \<Rightarrow> ('n, 'c) session \<Rightarrow> bool"
  where
  "deletion_allowed L cx m name c s \<longleftrightarrow>
     (\<exists>boxes s1 pre s2 n s3 delim.
        listAll L cx c s = (Inr boxes, s1) \<and> personalPrefix L cx c s1 = (Inr pre, s2) \<and>
        (let full = namespaceFolder pre name in
         findFolder boxes full = Some delim \<and> childrenOf boxes full delim = [] \<and>
         \<not> equal_fold full ''INBOX'' \<and>
         Folder (destinationFor (archiveTarget m) boxes pre) \<noteq> full \<and>
         Folder (destinationFor (trashTarget m) boxes pre) \<noteq> full \<and>
         folderMessages L cx c full s2 = (Inr n, s3) \<and> n \<le> 0))"

lemma name_not_empty: "imap_checkFolderName name = None \<Longrightarrow> namespaceFolder pre name \<noteq> []"
  by (auto simp: imap_checkFolderName_def namespaceFolder_def CheckFolderName_def trim_space_def
      trim_left_def trim_right_def split: option.splits if_splits)

lemma deletion_refused_None:
  "deletion_refused m boxes pre full = None \<Longrightarrow> full \<noteq> [] \<Longrightarrow>
   (\<exists>delim. findFolder boxes full = Some delim \<and> childrenOf boxes full delim = []) \<and>
   \<not> equal_fold full ''INBOX'' \<and> Folder (destinationFor (archiveTarget m) boxes pre) \<noteq> full \<and>
   Folder (destinationFor (trashTarget m) boxes pre) \<noteq> full"
  by (auto simp: deletion_refused_def check_simps split: option.splits)

lemma delete_folder_agrees:
  assumes ne: "\<And>pre. namespaceFolder pre name \<noteq> []"
  shows "delete_folder_on (L\<lparr>il_Delete := d\<rparr>) cx m name c s = delete_folder_on L cx m name c s \<or>
         deletion_allowed L cx m name c s"
proof (rule disjCI)
  assume no: "\<not> deletion_allowed L cx m name c s"
  obtain q s1 where q: "listAll L cx c s = (q, s1)" by (cases "listAll L cx c s")
  show "delete_folder_on (L\<lparr>il_Delete := d\<rparr>) cx m name c s = delete_folder_on L cx m name c s"
  proof (cases q)
    case (Inl e)
    with q show ?thesis by (simp add: delete_folder_on_def)
  next
    case boxes: (Inr boxes)
    obtain p s2 where p: "personalPrefix L cx c s1 = (p, s2)" by (cases "personalPrefix L cx c s1")
    show ?thesis
    proof (cases p)
      case (Inl e)
      with q boxes p show ?thesis by (simp add: delete_folder_on_def)
    next
      case pre: (Inr pre)
      let ?full = "namespaceFolder pre name"
      obtain f s3 where f: "folderMessages L cx c ?full s2 = (f, s3)"
        by (cases "folderMessages L cx c ?full s2")
      show ?thesis
      proof (cases "deletion_refused m boxes pre ?full = None \<and> (\<exists>n. f = Inr n \<and> n \<le> 0)")
        case True
        with deletion_refused_None [OF _ ne] q boxes p pre f no show ?thesis
          unfolding deletion_allowed_def Let_def by blast
      next
        case False
        with q boxes p pre f show ?thesis
          by (cases f) (auto simp: delete_folder_on_def Let_def check_simps split: option.splits)
      qed
    qed
  qed
qed


text \<open>The folder that archive or delete would file into, by the same answers of the server, is refused as protected.\<close>

theorem curation_destinations_are_protected:
  assumes "imap_checkFolderName name = None"
    and "listAll L cx c s = (Inr boxes, s1)" and "personalPrefix L cx c s1 = (Inr pre, s2)"
    and "planCurationFolder L cx c t s = (Inr d, s3)" and "t = archiveTarget m \<or> t = trashTarget m"
    and "Folder d = namespaceFolder pre name" and "findFolder boxes (Folder d) \<noteq> None"
  shows "\<exists>e. delete_folder_on L cx m name c s = (Inr (Some e), s2) \<and> errors_is e ErrFolderProtected"
proof -
  have d: "d = destinationFor t boxes pre"
  proof (cases "ct_override t = []")
    case True
    with assms(2-4) show ?thesis by (simp add: planCurationFolder_def)
  next
    case False
    with assms(4) show ?thesis by (simp add: planCurationFolder_def destinationFor_def)
  qed
  let ?plan = "\<lparr>Archive = destinationFor (archiveTarget m) boxes pre,
                Trash = destinationFor (trashTarget m) boxes pre\<rparr>"
  have "CheckFolderDeletable (Folder d) (Folder d) ?plan \<noteq> None"
    using d assms(5) name_not_empty [OF assms(1), of pre] assms(6)
    by (auto simp: deletable_None_iff)
  then obtain e where e: "CheckFolderDeletable (Folder d) (Folder d) ?plan = Some e" by auto
  then have "errors_is e ErrFolderProtected"
    by (auto simp: CheckFolderDeletable_def protected_error_def split: if_splits)
  moreover have "delete_folder_on L cx m name c s = (Inr (Some e), s2)"
    using assms(2,3,6,7) e by (auto simp: delete_folder_on_def deletion_refused_def Let_def)
  ultimately show ?thesis by blast
qed

subsection \<open>Moving\<close>

lemma move_agrees:
  assumes "\<And>w k. \<not> il_Caps L c w k"
  shows "moveUIDSet (L\<lparr>il_Move := mv\<rparr>) lib cx c src dest us s = moveUIDSet L lib cx c src dest us s"
  using assms by (auto simp: moveUIDSet_def already_there_def asks_def split: option.splits)

lemma present_agrees:
  assumes "\<And>w k. \<not> il_Caps L c w k"
  shows "move_present (L\<lparr>il_Move := mv\<rparr>) lib cx c full res present = move_present L lib cx c full res present"
  using move_agrees [OF assms] by (simp add: fun_eq_iff move_present_def andthen_def split: prod.splits sum.splits)

text \<open>C29: On a server that has neither MOVE nor IMAP4rev2 nor UIDPLUS no operation moves anything: whatever the library would do for a move, the outcome is the same.\<close>

theorem no_move_without_a_safe_one:
  assumes "\<And>c w k. \<not> il_Caps L c w k"
  shows "imap_Move (L\<lparr>il_Move := mv\<rparr>) lib cx i d = imap_Move L lib cx i d \<and>
         imap_MoveMany (L\<lparr>il_Move := mv\<rparr>) lib cx is d = imap_MoveMany L lib cx is d \<and>
         imap_Archive (L\<lparr>il_Move := mv\<rparr>) lib cx i = imap_Archive L lib cx i \<and>
         imap_Delete (L\<lparr>il_Move := mv\<rparr>) lib cx i = imap_Delete L lib cx i \<and>
         imap_ArchiveMany (L\<lparr>il_Move := mv\<rparr>) lib cx is = imap_ArchiveMany L lib cx is \<and>
         imap_DeleteMany (L\<lparr>il_Move := mv\<rparr>) lib cx is = imap_DeleteMany L lib cx is"
proof -
  have m: "moveUIDSet (L\<lparr>il_Move := mv\<rparr>) lib cx c = moveUIDSet L lib cx c" for c
    using move_agrees [OF assms] by (simp add: fun_eq_iff)
  have p: "move_present (L\<lparr>il_Move := mv\<rparr>) lib cx c = move_present L lib cx c" for c
    using present_agrees [OF assms] by (simp add: fun_eq_iff)
  show ?thesis
    by (simp add: imap_Move_def imap_MoveMany_def imap_Archive_def imap_Delete_def
        imap_ArchiveMany_def imap_DeleteMany_def fileTo_def fileManyTo_def m p cong: deep_congs)
qed

subsection \<open>A move that is reported is a move\<close>

text \<open>
  \<open>holds b w\<close> are the UIDs in the mailbox \<open>b\<close>.  A truthful server answers a FETCH by UID with the
  messages of the SELECTed mailbox, each once, stays on that mailbox until the next SELECT, and
  changes no mailbox by reading or selecting.
\<close>

type_synonym 'n holdings = "string \<Rightarrow> 'n host \<Rightarrow> uid set"

definition stays_on ::
  "('n, 'c) selection \<Rightarrow> 'n holdings \<Rightarrow> ('n host, 'a) effect \<Rightarrow> bool" where
  "stays_on on holds f \<longleftrightarrow>
     (\<forall>w r w1. f w = (r, w1) \<longrightarrow> (\<forall>c. on c w1 = on c w) \<and> (\<forall>b. holds b w1 = holds b w))"

definition truthful ::
  "('n, 'c) imap_lib \<Rightarrow> ('n, 'c) selection \<Rightarrow> 'n holdings \<Rightarrow> bool" where
  "truthful L on holds \<longleftrightarrow>
     (\<forall>c us it. stays_on on holds (il_Fetch L c us it)) \<and> (\<forall>c k. stays_on on holds (il_UIDSearch L c k)) \<and>
     (\<forall>c us it w ms w1 b. il_Fetch L c us it w = (Inr ms, w1) \<longrightarrow> on c w = Some b \<longrightarrow>
        distinct (map fb_UID ms) \<and> fb_UID ` set ms = set us \<inter> holds b w) \<and>
     (\<forall>c us d w r w1. il_Move L c us d w = (r, w1) \<longrightarrow> on c w1 = on c w) \<and>
     (\<forall>c x w w1. il_Select L c x w = (Inr (), w1) \<longrightarrow>
        on c w1 = Some x \<and> (\<forall>b. holds b w1 = holds b w))"

lemma stays_onD:
  "stays_on on holds f \<Longrightarrow> f w = (r, w1) \<Longrightarrow> on c w1 = on c w \<and> holds b w1 = holds b w"
  unfolding stays_on_def by blast

lemma truthful_stays:
  assumes "truthful L on holds"
  shows "stays_on on holds (il_Fetch L c us it)" and "stays_on on holds (il_UIDSearch L c k)"
  using assms by (simp_all add: truthful_def)

lemma truthful_fetch:
  assumes "truthful L on holds" "il_Fetch L c us it w = (Inr ms, w1)" "on c w = Some b"
  shows "distinct (map fb_UID ms) \<and> fb_UID ` set ms = set us \<inter> holds b w"
  using conjunct1 [OF conjunct2 [OF conjunct2 [OF assms(1) [unfolded truthful_def]]],
      rule_format, OF assms(2,3)] .

lemma truthful_move:
  assumes "truthful L on holds" "il_Move L c us d w = (r, w1)"
  shows "on c w1 = on c w"
  using assms unfolding truthful_def by blast

lemma truthful_select:
  assumes "truthful L on holds" "il_Select L c x w = (Inr (), w1)"
  shows "on c w1 = Some x \<and> (\<forall>b. holds b w1 = holds b w)"
  using assms unfolding truthful_def by blast

lemma command_Inr:
  "command L cx c f s = (Inr x, s1) \<longleftrightarrow>
     (\<exists>w1. awaitValue L cx c f cmdTimeout (snd s) = (Inr x, w1) \<and> s1 = (fst s, w1))"
  by (auto simp: beside_def split: prod.splits)

lemma fetch_command:
  assumes "truthful L on holds" "command L cx c (il_Fetch L c us it) s = (Inr ms, s1)"
    and "on c (snd s) = Some b"
  shows "on c (snd s1) = Some b \<and> (\<forall>x. holds x (snd s1) = holds x (snd s)) \<and>
         distinct (map fb_UID ms) \<and> fb_UID ` set ms = set us \<inter> holds b (snd s1)"
proof -
  obtain w1 where f: "il_Fetch L c us it (snd s) = (Inr ms, w1)" and s1: "s1 = (fst s, w1)"
    using assms(2) command_Inr awaited by (metis (no_types, lifting))
  from stays_onD [OF truthful_stays(1) [OF assms(1)] f] truthful_fetch [OF assms(1) f assms(3)] assms(3) s1
  show ?thesis by simp
qed

lemma search_command:
  assumes "truthful L on holds" "command L cx c (il_UIDSearch L c k) s = (Inr us, s1)"
  shows "on c (snd s1) = on c (snd s) \<and> (\<forall>x. holds x (snd s1) = holds x (snd s))"
proof -
  obtain w1 where f: "il_UIDSearch L c k (snd s) = (Inr us, w1)" and s1: "s1 = (fst s, w1)"
    using assms(2) command_Inr awaited by (metis (no_types, lifting))
  from stays_onD [OF truthful_stays(2) [OF assms(1)] f] s1 show ?thesis by simp
qed

lemma exact_stays:
  assumes "truthful L on holds"
  shows "exact_id L lib cx c mid us s = (Inr x, s1) \<Longrightarrow> on c (snd s) = Some b \<Longrightarrow>
    on c (snd s1) = Some b \<and> (\<forall>y. holds y (snd s1) = holds y (snd s)) \<and>
    (x \<longrightarrow> holds b (snd s1) \<noteq> {})"
proof (induction us arbitrary: s)
  case (Cons u us)
  then obtain found s2 where f: "command L cx c (il_Fetch L c [u] message_id_section) s = (Inr found, s2)"
    by (auto simp: andthen_Inr_iff)
  note fc = fetch_command [OF assms f Cons.prems(2)]
  show ?case
  proof (cases "exact_id L lib cx c mid us s2 = (Inr x, s1)")
    case True
    from Cons.IH [OF True] fc show ?thesis by metis
  next
    case False
    with Cons.prems(1) f obtain msg rest where "found = msg # rest" and e: "s1 = s2"
      by (auto split: list.splits option.splits if_splits)
    then have "fb_UID msg \<in> holds b (snd s2)" using fc by (metis Int_iff image_eqI list.set_intros(1))
    with fc e show ?thesis by auto
  qed
qed simp

lemma verify_stays:
  assumes "truthful L on holds"
  shows "verify_by_id L lib cx c mids us s = (Inr x, s1) \<Longrightarrow> on c (snd s) = Some b \<Longrightarrow>
    (\<forall>y. holds y (snd s1) = holds y (snd s)) \<and> (us \<noteq> [] \<longrightarrow> holds b (snd s1) \<noteq> {})"
proof (induction us arbitrary: s)
  case (Cons u us)
  then obtain found s2 s3 where
    f: "command L cx c (il_UIDSearch L c (no_criteria\<lparr>cr_Header := [(''Message-ID'', id_at mids u)]\<rparr>)) s
          = (Inr found, s2)"
    and e: "exact_id L lib cx c (id_at mids u) found s2 = (Inr True, s3)"
    and v: "verify_by_id L lib cx c mids us s3 = (Inr x, s1)"
    by (auto simp: andthen_Inr_iff split: if_splits)
  note sc = search_command [OF assms f]
  have "on c (snd s2) = Some b" using sc Cons.prems(2) by simp
  note ex = exact_stays [OF assms e this]
  from Cons.IH [OF v] ex sc show ?case by auto
qed simp

lemma known_ids_stays:
  assumes "truthful L on holds" "known_ids L lib cx c caps us nums s = (Inr mids, s1)"
    and "on c (snd s) = Some b"
  shows "on c (snd s1) = Some b"
proof (cases "\<not> caps CapUIDPlus \<and> \<not> caps CapIMAP4rev2")
  case True
  with assms(2) obtain ms where "command L cx c (il_Fetch L c us message_id_section) s = (Inr ms, s1)"
    by (auto simp: known_ids_def fetchMessageIDs_def andthen_Inr_iff split: if_splits)
  from fetch_command [OF assms(1) this assms(3)] show ?thesis by blast
next
  case False
  with assms(2,3) show ?thesis by (auto simp: known_ids_def)
qed


subsection \<open>Acknowledging\<close>

text \<open>STORE is sent for a message only when a FETCH on the same connection has just answered for it: otherwise any other command in its place gives the same outcome.\<close>

theorem only_present_messages_are_marked:
  "imap_MarkSeen (L\<lparr>il_StoreSeen := st\<rparr>) cx i s = imap_MarkSeen L cx i s \<or>
   (\<exists>u c s1 found s2. parseUID i = Inr u \<and> acquire L cx s = (Inr c, s1) \<and>
      command L cx c (il_Fetch L c [u] FetchUID) s1 = (Inr found, s2) \<and> found \<noteq> [])"
proof (cases "parseUID i")
  case (Inl e)
  then show ?thesis by (simp add: imap_MarkSeen_def)
next
  case (Inr u)
  let ?f = "\<lambda>L c. andthen (locate_one L cx c i u) (\<lambda>_. command L cx c (il_StoreSeen L c [u]))"
  show ?thesis
  proof (rule disjCI)
    assume no: "\<nexists>u c s1 found s2. parseUID i = Inr u \<and> acquire L cx s = (Inr c, s1) \<and>
      command L cx c (il_Fetch L c [u] FetchUID) s1 = (Inr found, s2) \<and> found \<noteq> []"
    have "conn L cx (?f (L\<lparr>il_StoreSeen := st\<rparr>)) s = conn L cx (?f L) s"
    proof (rule conn_agrees)
      fix c s1
      assume a: "acquire L cx s = (Inr c, s1)"
      obtain q s2 where q: "command L cx c (il_Fetch L c [u] FetchUID) s1 = (q, s2)"
        by (cases "command L cx c (il_Fetch L c [u] FetchUID) s1")
      show "?f (L\<lparr>il_StoreSeen := st\<rparr>) c s1 = ?f L c s1"
      proof (cases q)
        case (Inl e)
        with q show ?thesis by (simp add: locate_one_def)
      next
        case found: (Inr found)
        with no a q Inr have "found = []" by blast
        with q found show ?thesis by (simp add: locate_one_def andthen_def refuse_def)
      qed
    qed
    with Inr show "imap_MarkSeen (L\<lparr>il_StoreSeen := st\<rparr>) cx i s = imap_MarkSeen L cx i s"
      by (simp add: imap_MarkSeen_def)
  qed
qed

subsection \<open>Where curation files\<close>

lemma scan_boxes_Inl:
  "scan_boxes attr pre boxes ex = Inl full \<Longrightarrow> \<exists>b \<in> set boxes. ld_Mailbox b = full \<and> attr \<in> set (ld_Attrs b)"
  by (induction attr pre boxes ex rule: scan_boxes.induct) (auto split: if_splits)

text \<open>The names by leaf that a listing without a declared folder gives, a later one replacing an earlier.\<close>

definition by_leaf :: "string \<Rightarrow> list_data list \<Rightarrow> string \<rightharpoonup> string" where
  "by_leaf pre boxes = map_of (rev (map (\<lambda>b. (to_lower (leafOf (ld_Mailbox b) pre), ld_Mailbox b)) boxes))"

lemma scan_boxes_undeclared:
  "\<forall>b \<in> set boxes. attr \<notin> set (ld_Attrs b) \<Longrightarrow> scan_boxes attr pre boxes ex = Inr (ex ++ by_leaf pre boxes)"
  by (induction boxes arbitrary: ex) (simp_all add: by_leaf_def)

lemma scan_boxes_declared:
  "\<exists>b \<in> set boxes. attr \<in> set (ld_Attrs b) \<Longrightarrow> \<exists>full. scan_boxes attr pre boxes ex = Inl full"
  by (induction boxes arbitrary: ex) auto

lemma first_alias_in: "first_alias ex as = Some full \<Longrightarrow> \<exists>a \<in> set as. ex (to_lower a) = Some full"
  by (induction as) (auto split: option.splits)

lemma first_alias_None: "first_alias ex as = None \<longleftrightarrow> (\<forall>a \<in> set as. ex (to_lower a) = None)"
  by (induction as) (auto split: option.splits)

lemma by_leaf_Some:
  assumes "distinct boxes" "inj_on (\<lambda>b. to_lower (leafOf (ld_Mailbox b) pre)) (set boxes)"
  shows "by_leaf pre boxes k = Some f \<longleftrightarrow>
    (\<exists>b \<in> set boxes. ld_Mailbox b = f \<and> to_lower (leafOf f pre) = k)"
proof -
  have "distinct (map fst (rev (map (\<lambda>b. (to_lower (leafOf (ld_Mailbox b) pre), ld_Mailbox b)) boxes)))"
    using assms by (simp add: rev_map [symmetric] distinct_map comp_def)
  then show ?thesis unfolding by_leaf_def by (auto simp: map_of_eq_Some_iff)
qed

lemma by_leaf_order:
  assumes "mset boxes' = mset boxes" "distinct boxes"
    "inj_on (\<lambda>b. to_lower (leafOf (ld_Mailbox b) pre)) (set boxes)"
  shows "by_leaf pre boxes' = by_leaf pre boxes"
proof -
  have d: "distinct boxes'" "set boxes' = set boxes"
    using assms by (metis mset_eq_imp_distinct_iff, metis mset_eq_setD)
  have "by_leaf pre boxes' k = Some f \<longleftrightarrow> by_leaf pre boxes k = Some f" for k f
    using by_leaf_Some [OF assms(2,3)] by_leaf_Some [OF d(1), of pre] assms(3) d(2) by simp
  then show ?thesis by (metis ext not_None_eq)
qed

text \<open>Without a pinned folder, archive and delete file into a folder the server declares for it if there is one, else into the folder of the conventional name, else into one of another client's name, and a folder is created only when none of these is listed; beyond the declared ones, the order of the listing decides nothing.\<close>

theorem curation_follows_the_order_of_authority:
  assumes "ct_override t = []" and "destinationFor t boxes pre = \<lparr>Folder = full, Route = route\<rparr>"
    and "distinct boxes" and "inj_on (\<lambda>b. to_lower (leafOf (ld_Mailbox b) pre)) (set boxes)"
  shows "if \<exists>b \<in> set boxes. ct_attr t \<in> set (ld_Attrs b)
         then route = RouteDeclared \<and> (\<exists>b \<in> set boxes. ld_Mailbox b = full \<and> ct_attr t \<in> set (ld_Attrs b))
         else (\<forall>boxes'. mset boxes' = mset boxes \<longrightarrow> destinationFor t boxes' pre = destinationFor t boxes pre) \<and>
              (if \<exists>b \<in> set boxes. equal_fold (leafOf (ld_Mailbox b) pre) (ct_leaf t)
               then route = RouteConvention \<and>
                    (\<exists>b \<in> set boxes. ld_Mailbox b = full \<and> equal_fold (leafOf full pre) (ct_leaf t))
               else if \<exists>b \<in> set boxes. \<exists>a \<in> set (ct_aliases t). equal_fold (leafOf (ld_Mailbox b) pre) a
               then route = RouteAlias \<and>
                    (\<exists>b \<in> set boxes. ld_Mailbox b = full \<and> (\<exists>a \<in> set (ct_aliases t). equal_fold (leafOf full pre) a))
               else route = RouteCreate \<and> full = pre @ ct_leaf t)"
proof (cases "\<exists>b \<in> set boxes. ct_attr t \<in> set (ld_Attrs b)")
  case True
  from scan_boxes_declared [OF True, of pre Map.empty] obtain f where
    f: "scan_boxes (ct_attr t) pre boxes Map.empty = Inl f" by blast
  with assms(1,2) have "f = full" "route = RouteDeclared"
    by (simp_all add: destinationFor_def chooseCurationFolder_def)
  with True scan_boxes_Inl [OF f] show ?thesis by simp
next
  case False
  then have sc: "scan_boxes (ct_attr t) pre bs Map.empty = Inr (by_leaf pre bs)" if "set bs = set boxes" for bs
    using scan_boxes_undeclared [of bs "ct_attr t" pre Map.empty] that by simp
  note look = by_leaf_Some [OF assms(3,4)]
  have none: "by_leaf pre boxes k = None \<longleftrightarrow> (\<forall>b \<in> set boxes. to_lower (leafOf (ld_Mailbox b) pre) \<noteq> k)" for k
    using look by (metis not_None_eq)
  have order: "destinationFor t boxes' pre = destinationFor t boxes pre" if m: "mset boxes' = mset boxes" for boxes'
    using sc [OF mset_eq_setD [OF m]] sc [OF refl] by_leaf_order [OF m assms(3,4)] assms(1)
    by (simp add: destinationFor_def chooseCurationFolder_def)
  show ?thesis
    using assms(1,2) sc [OF refl] False order look none first_alias_None [of "by_leaf pre boxes" "ct_aliases t"]
      first_alias_in [of "by_leaf pre boxes" "ct_aliases t"]
    by (auto simp: destinationFor_def chooseCurationFolder_def equal_fold_def split: option.splits)
qed

subsection \<open>Witnesses\<close>

definition demo_holds :: "mail_server holdings" where
  "demo_holds b w = set (map st_uid (stored_in b (h_net w)))"

lemma see_uids: "map st_uid (see us ms) = map st_uid ms"
  by (simp add: see_def)

lemma found_uid: "find (\<lambda>m. st_uid m = u) ms = Some m \<Longrightarrow> st_uid m = u \<and> m \<in> set ms"
  by (auto simp: find_Some_iff)

lemma fetched_uids:
  "map fb_UID (map (buffer_of it) (List.map_filter (\<lambda>u. find (\<lambda>m. st_uid m = u) ms) us)) =
   filter (\<lambda>u. u \<in> st_uid ` set ms) us"
proof (induction us)
  case (Cons u us)
  show ?case
  proof (cases "find (\<lambda>m. st_uid m = u) ms")
    case None
    then have "u \<notin> st_uid ` set ms" by (auto simp: find_None_iff)
    with None Cons show ?thesis by (simp add: map_filter_simps)
  next
    case (Some m)
    from found_uid [OF Some] Cons Some show ?thesis by (auto simp: map_filter_simps buffer_of_def)
  qed
qed (simp add: map_filter_simps)

lemma fetch_keeps_uids:
  "sv_fetch c us it n = (r, n1) \<Longrightarrow> map st_uid (stored_in b n1) = map st_uid (stored_in b n)"
  by (auto simp: sv_fetch_def in_box_def refused_with_def set_box_def stored_in_def see_def
      update_conv' comp_def split: option.splits if_splits)

lemma fetch_replies:
  assumes "sv_fetch c us it n = (Inr ms, n1)" "box_of c n = Some b"
  shows "map fb_UID ms = filter (\<lambda>u. u \<in> st_uid ` set (stored_in b n)) (remdups us)"
proof -
  have "ms = map (buffer_of it)
      (List.map_filter (\<lambda>u. find (\<lambda>m. st_uid m = u) (stored_in b n)) (remdups us))"
    using assms by (simp add: sv_fetch_def in_box_def)
  then show ?thesis by (simp only: fetched_uids)
qed

lemma demo_truthful: "truthful demo_imap demo_on demo_holds"
  unfolding truthful_def
proof (intro conjI allI impI)
  fix c us it
  show "stays_on demo_on demo_holds (il_Fetch demo_imap c us it)"
    unfolding stays_on_def
  proof (intro allI impI conjI)
    fix w r w1 d b
    assume "il_Fetch demo_imap c us it w = (r, w1)"
    then obtain n1 where n1: "if_open c (sv_fetch c us it) (h_net w) = (r, n1)" "w1 = w\<lparr>h_net := n1\<rparr>"
      by (auto simp: demo_imap_def on_net_def split: prod.splits)
    then have "sv_conns n1 = sv_conns (h_net w)"
      using conns_if_open conns_kept(2) by metis
    with n1 show "demo_on d w1 = demo_on d w" by (simp add: demo_on_def box_of_def)
    have "map st_uid (stored_in b n1) = map st_uid (stored_in b (h_net w))"
      using n1 fetch_keeps_uids by (auto simp: if_open_def refused_with_def split: if_splits)
    then have "set (map st_uid (stored_in b n1)) = set (map st_uid (stored_in b (h_net w)))" by simp
    with n1 show "demo_holds b w1 = demo_holds b w" by (simp add: demo_holds_def)
  qed
next
  fix c k
  show "stays_on demo_on demo_holds (il_UIDSearch demo_imap c k)"
    by (auto simp: stays_on_def demo_imap_def on_net_def if_open_def sv_search_def in_box_def
        refused_with_def split: if_splits option.splits)
next
  fix c us it w ms w1 b
  assume "il_Fetch demo_imap c us it w = (Inr ms, w1)" and o1: "demo_on c w = Some b"
  then obtain n1 where n1: "sv_fetch c us it (h_net w) = (Inr ms, n1)"
    by (auto simp: demo_imap_def on_net_def if_open_def refused_with_def split: prod.splits if_splits)
  have m: "map fb_UID ms = filter (\<lambda>u. u \<in> st_uid ` set (stored_in b (h_net w))) (remdups us)"
    using fetch_replies [OF n1] o1 by (simp add: demo_on_def)
  then show "distinct (map fb_UID ms)" by simp
  have "set (map fb_UID ms) = set us \<inter> demo_holds b w" unfolding m by (auto simp: demo_holds_def)
  then show "fb_UID ` set ms = set us \<inter> demo_holds b w" by simp
next
  fix c us d w r w1
  assume "il_Move demo_imap c us d w = (r, w1)"
  then obtain n1 where n1: "if_open c (sv_move c us d) (h_net w) = (r, n1)" "w1 = w\<lparr>h_net := n1\<rparr>"
    by (auto simp: demo_imap_def on_net_def split: prod.splits)
  then have "sv_conns n1 = sv_conns (h_net w)"
    using conns_if_open conns_kept(8) by metis
  with n1 show "demo_on c w1 = demo_on c w" by (simp add: demo_on_def box_of_def)
next
  fix c x w w1
  assume "il_Select demo_imap c x w = (Inr (), w1)"
  then show "demo_on c w1 = Some x"
    by (auto simp: demo_imap_def on_net_def if_open_def sv_select_def refused_with_def demo_on_def
        box_of_def update_conv split: if_splits)
next
  fix c x w w1 b
  assume "il_Select demo_imap c x w = (Inr (), w1)"
  then have "sv_boxes (h_net w1) = sv_boxes (h_net w)"
    by (auto simp: demo_imap_def on_net_def if_open_def sv_select_def refused_with_def split: if_splits)
  then show "demo_holds b w1 = demo_holds b w" by (simp add: demo_holds_def stored_in_def)
qed

definition connected :: "(mail_server, nat) session" where
  "connected = snd (acquire demo_imap live start)"


theorem curation_destinations_are_protected_witness:
  "\<exists>e. fst (delete_folder_on demo_imap live demo_box ''Archive'' 0 connected) = Inr (Some e) \<and>
       errors_is e ErrFolderProtected"
proof -
  let ?t = "archiveTarget demo_box"
  obtain b s1 where b: "listAll demo_imap live 0 connected = (b, s1)"
    by (cases "listAll demo_imap live 0 connected")
  obtain p s2 where p: "personalPrefix demo_imap live 0 s1 = (p, s2)"
    by (cases "personalPrefix demo_imap live 0 s1")
  obtain d s3 where d: "planCurationFolder demo_imap live 0 ?t connected = (d, s3)"
    by (cases "planCurationFolder demo_imap live 0 ?t connected")
  have "map_sum id (map ld_Mailbox) (fst (listAll demo_imap live 0 connected)) =
      Inr [''INBOX'', ''Archive'', ''Work'']" by code_simp
  with b obtain boxes where b': "b = Inr boxes" "map ld_Mailbox boxes = [''INBOX'', ''Archive'', ''Work'']"
    by (cases b) auto
  have "fst (personalPrefix demo_imap live 0 (snd (listAll demo_imap live 0 connected))) = Inr []"
    by code_simp
  with b p have p': "p = Inr []" by simp
  have "fst (planCurationFolder demo_imap live 0 ?t connected) = Inr \<lparr>Folder = ''Archive'', Route = RouteConvention\<rparr>"
    by code_simp
  with d have d': "d = Inr \<lparr>Folder = ''Archive'', Route = RouteConvention\<rparr>" by simp
  have ok: "imap_checkFolderName ''Archive'' = None" by code_simp
  have f: "findFolder bs ''Archive'' \<noteq> None" if "''Archive'' \<in> set (map ld_Mailbox bs)" for bs
    using that by (induction bs) auto
  from curation_destinations_are_protected
    [OF ok b [unfolded b'(1)] p [unfolded p'] d [unfolded d'] disjI1 [OF refl]]
  show ?thesis using f [of boxes] b'(2) by (auto simp: namespaceFolder_def)
qed

definition capless_imap :: "(mail_server, nat) imap_lib" where
  "capless_imap = demo_imap\<lparr>il_Caps := (\<lambda>c w k. False)\<rparr>"

definition expunging :: "nat \<Rightarrow> uid list \<Rightarrow> string \<Rightarrow> (mail_server host, uid list option) effect" where
  "expunging c us d w = (Inr None, w\<lparr>h_net := set_box ''INBOX'' [] (h_net w)\<rparr>)"

theorem no_move_without_a_safe_one_witness:
  "imap_Archive (capless_imap\<lparr>il_Move := expunging\<rparr>) plain_mail live ''1'' =
     imap_Archive capless_imap plain_mail live ''1'' \<and>
   fst (imap_Archive capless_imap plain_mail live ''1'' start) =
     Inl (Failure ''safe move unsupported: server lacks MOVE and UIDPLUS'')"
proof
  have "\<not> il_Caps capless_imap c w k" for c w k by (simp add: capless_imap_def)
  from no_move_without_a_safe_one [OF this, of expunging plain_mail live "''1''"]
  show "imap_Archive (capless_imap\<lparr>il_Move := expunging\<rparr>) plain_mail live ''1'' =
    imap_Archive capless_imap plain_mail live ''1''" by blast
  show "fst (imap_Archive capless_imap plain_mail live ''1'' start) =
     Inl (Failure ''safe move unsupported: server lacks MOVE and UIDPLUS'')" by code_simp
qed

definition some_boxes :: "list_data list" where
  "some_boxes =
     [\<lparr>ld_Mailbox = ''INBOX'', ld_Attrs = [], ld_Delim = ''.''\<rparr>,
      \<lparr>ld_Mailbox = ''INBOX.Papierkorb'', ld_Attrs = [], ld_Delim = ''.''\<rparr>,
      \<lparr>ld_Mailbox = ''INBOX.Deleted Items'', ld_Attrs = [], ld_Delim = ''.''\<rparr>]"

theorem curation_follows_the_order_of_authority_witness:
  "destinationFor (trashTarget demo_box) some_boxes ''INBOX.'' =
     \<lparr>Folder = ''INBOX.Deleted Items'', Route = RouteAlias\<rparr> \<and>
   destinationFor (trashTarget demo_box) (rev some_boxes) ''INBOX.'' =
     destinationFor (trashTarget demo_box) some_boxes ''INBOX.''"
proof
  show d: "destinationFor (trashTarget demo_box) some_boxes ''INBOX.'' =
     \<lparr>Folder = ''INBOX.Deleted Items'', Route = RouteAlias\<rparr>" by code_simp
  have o: "ct_override (trashTarget demo_box) = []" by code_simp
  have i: "inj_on (\<lambda>b. to_lower (leafOf (ld_Mailbox b) ''INBOX.'')) (set some_boxes)"
    unfolding inj_on_def by code_simp
  have u: "distinct some_boxes" by code_simp
  have n: "\<not> (\<exists>b \<in> set some_boxes. ct_attr (trashTarget demo_box) \<in> set (ld_Attrs b))" by code_simp
  have m: "mset (rev some_boxes) = mset some_boxes" by simp
  from curation_follows_the_order_of_authority [OF o d u i, unfolded if_not_P [OF n]] m
  show "destinationFor (trashTarget demo_box) (rev some_boxes) ''INBOX.'' =
     destinationFor (trashTarget demo_box) some_boxes ''INBOX.''" by blast
qed

subsection \<open>Limits of the move\<close>

text \<open>A server with UIDPLUS may still announce no UIDs.  The ids to search for were then not fetched, so the search is for no id at all, and a move that was carried out is reported as failed.\<close>

definition laconic_server :: mail_server where
  "laconic_server = demo_server\<lparr>sv_copyuid := False,
     sv_boxes := [(''INBOX'', [demo_message 1 ''<1@x>'']), (''Archive'', [])]\<rparr>"

text \<open>A parser for messages that are nothing but their Message-ID.\<close>

definition id_mail :: mail_lib where
  "id_mail = plain_mail\<lparr>ReadMessage := (\<lambda>raw.
     Some \<lparr>HeaderGet = (\<lambda>k. if k = ''Message-Id'' then raw else []), RawBody = raw\<rparr>)\<rparr>"

lemma moves_without_copyuid_are_reported_failed:
  "case imap_Archive demo_imap id_mail live ''1'' (demo_session laconic_server) of
     (r, s) \<Rightarrow> isl r \<and> raws ''INBOX'' s = [] \<and> raws ''Archive'' s = [''<1@x>'']"
  by code_simp

text \<open>Folders whose names differ in case are folders of their own on such a server, but count as one here: nothing moves, and success is reported.\<close>

definition two_works :: mail_server where
  "two_works = demo_server\<lparr>sv_boxes := [(''WORK'', []), (''INBOX'', []), (''Work'', [demo_message 1 ''one''])]\<rparr>"

lemma moves_between_namesakes_do_nothing:
  "case imap_Move demo_imap plain_mail live ''1'' ''WORK''
          (fresh_pool \<lparr>im_cfg = demo_imap_config\<lparr>ic_Mailbox := ''Work''\<rparr>\<rparr>, imap_host two_works) of
     (r, s) \<Rightarrow> r = Inr () \<and> raws ''WORK'' s = [] \<and> raws ''Work'' s = [''one'']"
  by code_simp

subsection \<open>After a move\<close>

definition moved_and_listed :: "(mail_server, nat) session" where
  "moved_and_listed =
     fold (run_call demo_imap plain_mail) [(live, CallMove ''1'' ''Work''), (live, CallList ScopeAll)]
       (fresh_pool demo_box, imap_host demo_server)"


end
