(* ===== verification/Imap_Watch.thy ===== *)
theory Imap_Watch
  imports Imap_Demo
begin

section \<open>Watching a mailbox with IDLE (infrastructure/imap/watcher.go)\<close>

text \<open>
  A session stays in IDLE and refreshes it; a failed session is retried after a delay that doubles
  up to a bound, unless the failure is of a kind that will not pass.  Both loops may run for ever:
  they are partial functions, and not returning is \<open>None\<close>.  Durations are 64-bit nanoseconds.
\<close>

subsection \<open>The library\<close>

datatype response_code =
    CodeUnavailable | CodeInUse | CodeLimit | CodeOverQuota | CodeServerBug | OtherCode string

text \<open>
  \<open>wl_Sleep d\<close> passes the time until the duration is over or the context ends.  The next three
  tell what \<open>errors.As\<close> finds in an error: an untrusted certificate, a broken record header, or
  a status reply with whether it is a BYE and its code.
\<close>

record ('n, 'c) watch_lib =
  wl_Dial :: "bool \<Rightarrow> string \<Rightarrow> (int option \<Rightarrow> 'n host \<Rightarrow> 'n host) \<Rightarrow> ('n host, 'c) effect"
  wl_Idle :: "'c \<Rightarrow> ('n host, unit) effect"
  wl_IdleClose :: "'c \<Rightarrow> ('n host, unit) effect"
  wl_IdleWait :: "'c \<Rightarrow> ('n host, unit) effect"
  wl_Sleep :: "int64 \<Rightarrow> 'n host \<Rightarrow> 'n host"
  wl_CertError :: "error \<Rightarrow> bool"
  wl_RecordError :: "error \<Rightarrow> bool"
  wl_ImapError :: "error \<Rightarrow> (bool \<times> response_code) option"

definition idleRefresh :: int64 where "idleRefresh = 25 * 60 * 10 ^ 9"
definition reconnectMinDelay :: int64 where "reconnectMinDelay = 5 * 10 ^ 9"
definition reconnectMaxDelay :: int64 where "reconnectMaxDelay = 5 * 60 * 10 ^ 9"

definition transientResponseCode :: "response_code \<Rightarrow> bool" where
  "transientResponseCode k \<longleftrightarrow>
     k \<in> {CodeUnavailable, CodeInUse, CodeLimit, CodeOverQuota, CodeServerBug}"

subsection \<open>The watcher\<close>

record 'n imap_watcher =
  wa_cfg :: imap_config
  wa_minDelay :: int64
  wa_maxDelay :: int64
  wa_retryNotify :: "(int \<Rightarrow> int64 \<Rightarrow> error \<Rightarrow> 'n host \<Rightarrow> 'n host) option"

definition NewWatcher :: "imap_config \<Rightarrow> 'n imap_watcher" where
  "NewWatcher cfg =
     \<lparr>wa_cfg = (if ic_Mailbox cfg = [] then cfg\<lparr>ic_Mailbox := ''INBOX''\<rparr> else cfg),
      wa_minDelay = reconnectMinDelay, wa_maxDelay = reconnectMaxDelay, wa_retryNotify = None\<rparr>"

definition SetBackoff :: "int64 \<Rightarrow> int64 \<Rightarrow> 'n imap_watcher \<Rightarrow> 'n imap_watcher" where
  "SetBackoff lo hi w =
     (let w1 = (if sint lo > 0 then w\<lparr>wa_minDelay := lo\<rparr> else w);
          w2 = (if sint hi > 0 then w1\<lparr>wa_maxDelay := hi\<rparr> else w1) in
      if sint (wa_maxDelay w2) < sint (wa_minDelay w2) then w2\<lparr>wa_maxDelay := wa_minDelay w2\<rparr> else w2)"

definition SetRetryNotify ::
  "(int \<Rightarrow> int64 \<Rightarrow> error \<Rightarrow> 'n host \<Rightarrow> 'n host) \<Rightarrow> 'n imap_watcher \<Rightarrow> 'n imap_watcher" where
  "SetRetryNotify f w = w\<lparr>wa_retryNotify := Some f\<rparr>"

definition permanentFailure :: "('n, 'c) watch_lib \<Rightarrow> error \<Rightarrow> bool" where
  "permanentFailure W e \<longleftrightarrow>
     (if wl_CertError W e \<or> wl_RecordError W e then True
      else case wl_ImapError W e of
             Some (bye, code) \<Rightarrow> \<not> bye \<and> \<not> transientResponseCode code
           | None \<Rightarrow> False)"

subsection \<open>One session\<close>

text \<open>A report of the mailbox counts as new mail when it has a number of messages.\<close>

definition on_mailbox_data :: "('n host \<Rightarrow> 'n host) \<Rightarrow> int option \<Rightarrow> 'n host \<Rightarrow> 'n host" where
  "on_mailbox_data onChange numMessages w =
     (case numMessages of None \<Rightarrow> w | Some n \<Rightarrow> onChange w)"

definition watch_login ::
  "('n, 'c) imap_lib \<Rightarrow> imap_config \<Rightarrow> 'c \<Rightarrow> ('n host, unit) effect" where
  "watch_login L cfg c =
     (case ic_OAuth2 cfg of
        Some a \<Rightarrow>
          (let (hostname, port) = SplitHostPort (il_Split L) (ic_Addr cfg) 993 in
           andthen (SASLClient (il_Google L) a (ic_Username cfg) hostname port)
             (\<lambda>sasl. il_Authenticate L c sasl))
      | None \<Rightarrow> il_Login L c (ic_Username cfg) (ic_Password cfg))"

definition watch_connect ::
  "('n, 'c) watch_lib \<Rightarrow> ('n, 'c) imap_lib \<Rightarrow> imap_config \<Rightarrow> ('n host \<Rightarrow> 'n host) \<Rightarrow> ('n host, 'c) effect"
  where
  "watch_connect W L cfg onChange w =
     (case wl_Dial W (ic_Insecure cfg) (ic_Addr cfg) (on_mailbox_data onChange) w of
        (Inl e, w1) \<Rightarrow> (Inl e, w1)
      | (Inr c, w1) \<Rightarrow>
          (case andthen (watch_login L cfg c) (\<lambda>_. il_Select L c (ic_Mailbox cfg)) w1 of
             (Inl e, w2) \<Rightarrow> (Inl e, il_Close L c w2)
           | (Inr _, w2) \<Rightarrow> (Inr c, w2)))"

text \<open>The loop in IDLE: it waits for the refresh or the end of the context, and for nothing else.\<close>

partial_function (option) idle_loop ::
  "('n, 'c) watch_lib \<Rightarrow> 'n host ctx \<Rightarrow> 'c \<Rightarrow> bool \<Rightarrow> 'n host \<Rightarrow> ((bool \<times> error) \<times> 'n host) option" where
  "idle_loop W cx c connected w =
     (case wl_Idle W c w of
        (Inl e, w1) \<Rightarrow> Some ((connected, e), w1)
      | (Inr _, w1) \<Rightarrow>
          (let w2 = wl_Sleep W idleRefresh w1 in
           case cx w2 of
             Some e \<Rightarrow> Some ((True, e), snd (wl_IdleWait W c (snd (wl_IdleClose W c w2))))
           | None \<Rightarrow>
               (case andthen (wl_IdleClose W c) (\<lambda>_. wl_IdleWait W c) w2 of
                  (Inl e, w3) \<Rightarrow> Some ((True, e), w3)
                | (Inr _, w3) \<Rightarrow> idle_loop W cx c True w3)))"

definition idleSession ::
  "('n, 'c) watch_lib \<Rightarrow> ('n, 'c) imap_lib \<Rightarrow> imap_config \<Rightarrow> 'n host ctx \<Rightarrow> ('n host \<Rightarrow> 'n host) \<Rightarrow>
   'n host \<Rightarrow> ((bool \<times> error) \<times> 'n host) option" where
  "idleSession W L cfg cx onChange w =
     (case watch_connect W L cfg onChange w of
        (Inl e, w1) \<Rightarrow> Some ((False, e), w1)
      | (Inr c, w1) \<Rightarrow> map_option (\<lambda>(r, w2). (r, closeClient L cx c w2)) (idle_loop W cx c False w1))"

subsection \<open>Reconnecting\<close>

type_synonym 'n watch_state = "(int64 \<times> int) \<times> 'n host"

definition double_within :: "int64 \<Rightarrow> int64 \<Rightarrow> int64" where
  "double_within bound delay = (if sint (delay * 2) < sint bound then delay * 2 else bound)"

text \<open>What follows a session that ended with an error: the exit of the watcher, or the wait and the
  next turn.\<close>

definition after_session ::
  "('n, 'c) watch_lib \<Rightarrow> 'n imap_watcher \<Rightarrow> 'n host ctx \<Rightarrow> int64 \<times> int \<Rightarrow> bool \<Rightarrow> error \<Rightarrow> 'n host \<Rightarrow>
   (error \<times> 'n host) + 'n watch_state" where
  "after_session W wa cx st connected err w =
     (case cx w of
        Some e \<Rightarrow> Inl (e, w)
      | None \<Rightarrow>
          (if permanentFailure W err then Inl (err, w)
           else
             let delay = (if connected then wa_minDelay wa else fst st);
                 attempt = (if connected then 0 else snd st) + 1;
                 w1 = (case wa_retryNotify wa of None \<Rightarrow> w | Some f \<Rightarrow> f attempt delay err w);
                 w2 = wl_Sleep W delay w1 in
             case cx w2 of
               Some e \<Rightarrow> Inl (e, w2)
             | None \<Rightarrow> Inr ((double_within (wa_maxDelay wa) delay, attempt), w2)))"

partial_function (option) watch_loop ::
  "('n, 'c) watch_lib \<Rightarrow> ('n, 'c) imap_lib \<Rightarrow> 'n imap_watcher \<Rightarrow> 'n host ctx \<Rightarrow> ('n host \<Rightarrow> 'n host) \<Rightarrow>
   int64 \<times> int \<Rightarrow> 'n host \<Rightarrow> (error \<times> 'n host) option" where
  "watch_loop W L wa cx onChange st w =
     (case idleSession W L (wa_cfg wa) cx onChange w of
        None \<Rightarrow> None
      | Some ((connected, err), w1) \<Rightarrow>
          (case after_session W wa cx st connected err w1 of
             Inl out \<Rightarrow> Some out
           | Inr (st1, w2) \<Rightarrow> watch_loop W L wa cx onChange st1 w2))"

definition Watch ::
  "('n, 'c) watch_lib \<Rightarrow> ('n, 'c) imap_lib \<Rightarrow> 'n imap_watcher \<Rightarrow> 'n host ctx \<Rightarrow> ('n host \<Rightarrow> 'n host) \<Rightarrow>
   'n host \<Rightarrow> (error \<times> 'n host) option" where
  "Watch W L wa cx onChange w = watch_loop W L wa cx onChange (wa_minDelay wa, 0) w"

subsection \<open>The delays\<close>

inductive turns ::
  "('n, 'c) watch_lib \<Rightarrow> ('n, 'c) imap_lib \<Rightarrow> 'n imap_watcher \<Rightarrow> 'n host ctx \<Rightarrow> ('n host \<Rightarrow> 'n host) \<Rightarrow>
   nat \<Rightarrow> 'n watch_state \<Rightarrow> 'n watch_state \<Rightarrow> bool"
  for W L wa cx onChange where
  none: "turns W L wa cx onChange 0 s s"
| turn: "turns W L wa cx onChange n s (st, w) \<Longrightarrow>
         idleSession W L (wa_cfg wa) cx onChange w = Some ((connected, err), w1) \<Longrightarrow>
         after_session W wa cx st connected err w1 = Inr s1 \<Longrightarrow>
         turns W L wa cx onChange (Suc n) s s1"

text \<open>The bounds the constructor and the setter leave.\<close>

definition backoff_ok :: "'n imap_watcher \<Rightarrow> bool" where
  "backoff_ok wa \<longleftrightarrow> 0 < sint (wa_minDelay wa) \<and> sint (wa_minDelay wa) \<le> sint (wa_maxDelay wa)"

lemma new_backoff_ok: "backoff_ok (NewWatcher cfg)"
  unfolding backoff_ok_def NewWatcher_def by simp code_simp

lemma set_backoff_ok: "backoff_ok wa \<Longrightarrow> backoff_ok (SetBackoff lo hi wa)"
  by (auto simp: backoff_ok_def SetBackoff_def Let_def)

lemma sint_double:
  assumes "0 \<le> sint d" "sint d < 2 ^ 62"
  shows "sint (d * 2 :: int64) = 2 * sint d"
proof -
  have "sint (d * 2) = signed_take_bit 63 (sint d * sint (2 :: int64))"
    by (simp add: sint_word_ariths)
  also have "sint (2 :: int64) = 2" by simp
  also have "signed_take_bit 63 (sint d * 2) = sint d * 2"
    using assms by (intro signed_take_bit_int_eq_self) auto
  finally show ?thesis by simp
qed

lemma double_within_bound:
  assumes "0 < sint d" "sint d \<le> sint hi" "sint hi < 2 ^ 62"
  shows "sint (double_within hi d) = min (2 * sint d) (sint hi)"
  using assms sint_double [of d] by (auto simp: double_within_def)

text \<open>The delay before the attempt after \<open>a\<close> failures in a row.\<close>

definition backoff_delay :: "'n imap_watcher \<Rightarrow> nat \<Rightarrow> int" where
  "backoff_delay wa a = min (sint (wa_minDelay wa) * 2 ^ a) (sint (wa_maxDelay wa))"

lemma backoff_delay_bounds:
  assumes "backoff_ok wa"
  shows "sint (wa_minDelay wa) \<le> backoff_delay wa a \<and> backoff_delay wa a \<le> sint (wa_maxDelay wa)"
proof -
  have "sint (wa_minDelay wa) * 1 \<le> sint (wa_minDelay wa) * 2 ^ a"
    using assms by (intro mult_left_mono) (auto simp: backoff_ok_def)
  with assms show ?thesis by (simp add: backoff_delay_def backoff_ok_def)
qed

lemma backoff_delay_Suc:
  "backoff_ok wa \<Longrightarrow> backoff_delay wa (Suc a) = min (2 * backoff_delay wa a) (sint (wa_maxDelay wa))"
  using backoff_delay_bounds [of wa a] by (auto simp: backoff_delay_def backoff_ok_def min_def)

text \<open>After any turns the next delay is the smallest one doubled once for every failure since the last session that reached IDLE, cut off at the largest; it never leaves the bounds and never overflows.\<close>

theorem delays_double_up_to_the_bound:
  assumes "backoff_ok wa" "sint (wa_maxDelay wa) < 2 ^ 62"
    and "turns W L wa cx onChange n ((wa_minDelay wa, 0), w) ((d, a), w1)"
  shows "0 \<le> a \<and> a \<le> int n \<and> sint d = backoff_delay wa (nat a) \<and>
         sint (wa_minDelay wa) \<le> sint d \<and> sint d \<le> sint (wa_maxDelay wa)"
proof -
  have "0 \<le> snd (fst s1) \<and> snd (fst s1) \<le> int n \<and> sint (fst (fst s1)) = backoff_delay wa (nat (snd (fst s1)))"
    if "turns W L wa cx onChange n s s1" "s = ((wa_minDelay wa, 0), w)" for n s s1
    using that
  proof (induction rule: turns.induct)
    case (none s)
    with assms(1) show ?case by (simp add: backoff_delay_def backoff_ok_def)
  next
    case (turn n s st v connected err v1 s1)
    let ?d = "if connected then wa_minDelay wa else fst st"
    let ?a = "if connected then 0 else snd st"
    have IH: "0 \<le> snd st" "snd st \<le> int n" "sint (fst st) = backoff_delay wa (nat (snd st))"
      using turn by auto
    have a: "0 \<le> ?a" "?a \<le> int n" "sint ?d = backoff_delay wa (nat ?a)"
      using IH assms(1) by (auto simp: backoff_delay_def backoff_ok_def)
    have s1: "fst s1 = (double_within (wa_maxDelay wa) ?d, ?a + 1)"
      using turn(3) by (auto simp: after_session_def Let_def split: option.splits if_splits)
    have "sint (double_within (wa_maxDelay wa) ?d) = min (2 * sint ?d) (sint (wa_maxDelay wa))"
      using backoff_delay_bounds [OF assms(1), of "nat ?a"] a(3) assms(1,2)
      by (intro double_within_bound) (auto simp: backoff_ok_def)
    also have "\<dots> = backoff_delay wa (Suc (nat ?a))" using backoff_delay_Suc [OF assms(1)] a(3) by simp
    finally show ?case using s1 a(1,2) by (simp add: nat_add_distrib)
  qed
  from this [OF assms(3) refl] backoff_delay_bounds [OF assms(1), of "nat a"] show ?thesis by simp
qed

subsection \<open>How a watch ends\<close>

lemma after_session_exit:
  "after_session W wa cx st connected err w = Inl out \<Longrightarrow>
   cx (snd out) = Some (fst out) \<or> (cx (snd out) = None \<and> permanentFailure W (fst out) \<and> out = (err, w))"
  by (auto simp: after_session_def Let_def split: option.splits if_splits)

lemma watch_exits:
  assumes "watch_loop W L wa cx onChange st w = Some out"
  shows "cx (snd out) = Some (fst out) \<or>
   (cx (snd out) = None \<and> permanentFailure W (fst out) \<and>
    (\<exists>w0 connected. idleSession W L (wa_cfg wa) cx onChange w0 = Some ((connected, fst out), snd out)))"
  apply (rule watch_loop.raw_induct [where P = "\<lambda>W L wa cx onChange st w out. cx (snd out) = Some (fst out) \<or>
   (cx (snd out) = None \<and> permanentFailure W (fst out) \<and>
    (\<exists>w0 connected. idleSession W L (wa_cfg wa) cx onChange w0 = Some ((connected, fst out), snd out)))", OF _ assms])
  apply (auto split: option.splits prod.splits sum.splits dest!: after_session_exit)
  apply metis
  done

subsection \<open>Failures that may pass\<close>

lemma turn_or_end:
  assumes "\<And>w. cx w = None"
    and "\<And>v connected e v1. idleSession W L (wa_cfg wa) cx onChange v = Some ((connected, e), v1) \<Longrightarrow>
            \<not> permanentFailure W e"
    and "turns W L wa cx onChange n s s1"
    and "idleSession W L (wa_cfg wa) cx onChange (snd s1) \<noteq> None"
  shows "\<exists>s2. turns W L wa cx onChange (Suc n) s s2"
proof -
  from assms(4) obtain connected e v1
    where i: "idleSession W L (wa_cfg wa) cx onChange (snd s1) = Some ((connected, e), v1)" by auto
  obtain s2 where "after_session W wa cx (fst s1) connected e v1 = Inr s2"
    using assms(1) assms(2) [OF i] by (auto simp: after_session_def Let_def)
  with i assms(3) show ?thesis by (metis prod.collapse turns.turn)
qed


subsection \<open>The end of the context\<close>

abbreviation late :: "('n \<Rightarrow> int) \<Rightarrow> int \<Rightarrow> 'n host \<Rightarrow> bool" where
  "late clock t w \<equiv> t \<le> clock (h_net w)"

definition clock_runs :: "('n \<Rightarrow> int) \<Rightarrow> ('n, 'c) watch_lib \<Rightarrow> ('n, 'c) imap_lib \<Rightarrow> bool" where
  "clock_runs clock W L \<longleftrightarrow>
     (\<forall>t. (\<forall>i a h. keeps (late clock t) (wl_Dial W i a h)) \<and> (\<forall>c. keeps (late clock t) (wl_Idle W c)) \<and>
          (\<forall>c. keeps (late clock t) (wl_IdleClose W c)) \<and> (\<forall>c. keeps (late clock t) (wl_IdleWait W c)) \<and>
          (\<forall>c u p. keeps (late clock t) (il_Login L c u p)) \<and>
          (\<forall>c a. keeps (late clock t) (il_Authenticate L c a)) \<and>
          (\<forall>c b. keeps (late clock t) (il_Select L c b)) \<and> (\<forall>c. keeps (late clock t) (il_Logout L c)) \<and>
          (\<forall>c w. late clock t w \<longrightarrow> late clock t (il_Close L c w)) \<and>
          (\<forall>src. keeps (late clock t) (Mint (il_Google L) src)))"

text \<open>A sleep of a positive duration takes time, unless the context ends it.\<close>

definition sleeps :: "('n \<Rightarrow> int) \<Rightarrow> ('n, 'c) watch_lib \<Rightarrow> 'n host ctx \<Rightarrow> bool" where
  "sleeps clock W cx \<longleftrightarrow>
     (\<forall>d w. late clock (clock (h_net w)) (wl_Sleep W d w) \<and>
            (0 < sint d \<and> cx (wl_Sleep W d w) = None \<longrightarrow>
             clock (h_net w) < clock (h_net (wl_Sleep W d w))))"

definition notifies_in_time :: "('n \<Rightarrow> int) \<Rightarrow> 'n imap_watcher \<Rightarrow> bool" where
  "notifies_in_time clock wa \<longleftrightarrow>
     (case wa_retryNotify wa of
        None \<Rightarrow> True
      | Some f \<Rightarrow> (\<forall>n d e w. late clock (clock (h_net w)) (f n d e w)))"

lemma keeps_Token:
  "(\<And>src. keeps (late clock t) (Mint g src)) \<Longrightarrow> keeps (late clock t) (Token g a)"
  unfolding Token_def ends_def
  by (auto simp: Let_def set_obj_def split: option.splits)

lemma keeps_SASLClient:
  assumes "\<And>src. keeps (late clock t) (Mint g src)"
  shows "keeps (late clock t) (SASLClient g a u hostname port)"
proof (rule endsI)
  note tok = endsD [OF keeps_Token [OF assms]]
  fix w x w1 assume "late clock t w" "SASLClient g a u hostname port w = (Inr x, w1)"
  then show "late clock t w1"
    by (cases "Token g a w"; cases "fst (Token g a w)") (auto simp: SASLClient_def Let_def dest: tok split: if_splits)
next
  note tok = endsD [OF keeps_Token [OF assms]]
  fix w e w1 assume "late clock t w" "SASLClient g a u hostname port w = (Inl e, w1)"
  then show "late clock t w1"
    by (cases "Token g a w"; cases "fst (Token g a w)") (auto simp: SASLClient_def Let_def dest: tok split: if_splits)
qed

lemma clock_laws:
  assumes "clock_runs clock W L"
  shows "keeps (late clock t) (wl_Dial W i a h)" "keeps (late clock t) (wl_Idle W c)"
    "keeps (late clock t) (wl_IdleClose W c)" "keeps (late clock t) (wl_IdleWait W c)"
    "keeps (late clock t) (il_Login L c u p)" "keeps (late clock t) (il_Authenticate L c sc)"
    "keeps (late clock t) (il_Select L c b)" "keeps (late clock t) (il_Logout L c)"
    "keeps (late clock t) (Mint (il_Google L) src)"
    "late clock t w \<Longrightarrow> late clock t (il_Close L c w)"
  using assms unfolding clock_runs_def by simp_all

lemma keeps_watch_login:
  assumes "clock_runs clock W L"
  shows "keeps (late clock t) (watch_login L cfg c)"
  using clock_laws [OF assms]
  by (cases "ic_OAuth2 cfg")
    (auto simp: watch_login_def Let_def split: prod.splits intro!: keeps_SASLClient ends_andthen)

lemma keeps_outcome: "keeps I f \<Longrightarrow> I w \<Longrightarrow> I (snd (f w))"
  unfolding ends_def by (cases "f w"; cases "fst (f w)") auto

lemma keeps_watch_connect:
  assumes "clock_runs clock W L" "late clock t w"
  shows "late clock t (snd (watch_connect W L cfg onChange w))"
proof -
  note laws = clock_laws [OF assms(1)]
  define log where "log c = andthen (watch_login L cfg c) (\<lambda>_. il_Select L c (ic_Mailbox cfg))" for c
  have log: "keeps (late clock t) (log c)" for c
    unfolding log_def by (rule ends_andthen [OF keeps_watch_login [OF assms(1)] laws(7)])
  define d where "d = wl_Dial W (ic_Insecure cfg) (ic_Addr cfg) (on_mailbox_data onChange) w"
  have d: "late clock t (snd d)" unfolding d_def by (rule keeps_outcome [OF laws(1) assms(2)])
  have "late clock t (snd (log c (snd d)))" for c by (rule keeps_outcome [OF log d])
  then have "late clock t v" if "log c (snd d) = (r, v)" for c r v using that by (metis snd_conv)
  with d laws(10) show ?thesis
    by (cases d) (auto simp: watch_connect_def log_def [symmetric] d_def [symmetric] split: sum.split prod.split)
qed

lemma late_closeClient:
  assumes "clock_runs clock W L" "late clock t w"
  shows "late clock t (closeClient L cx c w)"
proof -
  note laws = clock_laws [OF assms(1)]
  obtain r w1 where r: "il_Logout L c w = (r, w1)" by (cases "il_Logout L c w")
  have "late clock t w1"
    using r endsD [OF laws(8) assms(2)] by (cases r) auto
  then show ?thesis
    by (auto simp: closeClient_def awaitValue_def r intro!: laws(10) split: arrival.splits option.splits)
qed

lemma idle_loop_ends:
  assumes runs: "clock_runs clock W L" and sleep: "sleeps clock W cx"
    and over: "\<And>w. T \<le> clock (h_net w) \<Longrightarrow> cx w \<noteq> None"
  shows "\<exists>r w1. idle_loop W cx c connected w = Some (r, w1) \<and> clock (h_net w) \<le> clock (h_net w1)"
proof (induction "nat (T - clock (h_net w))" arbitrary: connected w rule: less_induct)
  case less
  note laws = clock_laws [OF runs]
  have step: "clock (h_net v) \<le> clock (h_net (snd (wl_Idle W c v)))"
    "clock (h_net v) \<le> clock (h_net (snd (wl_IdleClose W c v)))"
    "clock (h_net v) \<le> clock (h_net (snd (wl_IdleWait W c v)))"
    "clock (h_net v) \<le> clock (h_net (snd (andthen (wl_IdleClose W c) (\<lambda>_. wl_IdleWait W c) v)))" for v
    by (rule keeps_outcome [where I = "late clock (clock (h_net v))"];
        auto intro!: laws ends_andthen [OF laws(3)])+
  obtain x w1 where idle: "wl_Idle W c w = (x, w1)" by fastforce
  define w2 where "w2 = wl_Sleep W idleRefresh w1"
  have w1: "clock (h_net w) \<le> clock (h_net w1)" using step(1) [of w] idle by simp
  have w2: "clock (h_net w1) \<le> clock (h_net w2)" "cx w2 = None \<Longrightarrow> clock (h_net w1) < clock (h_net w2)"
    using sleep by (simp_all add: sleeps_def w2_def idleRefresh_def)
  obtain y w3 where wind: "andthen (wl_IdleClose W c) (\<lambda>_. wl_IdleWait W c) w2 = (y, w3)" by fastforce
  have w3: "clock (h_net w2) \<le> clock (h_net w3)" using step(4) [of w2] wind by simp
  have stop: "clock (h_net w2) \<le> clock (h_net (snd (wl_IdleWait W c (snd (wl_IdleClose W c w2)))))"
    using step(2,3) order_trans by blast
  show ?case
  proof (cases "(\<exists>e. x = Inl e) \<or> cx w2 \<noteq> None \<or> (\<exists>e. y = Inl e)")
    case True
    then show ?thesis
      using idle wind w1 w2(1) w3 stop
      by (auto simp: idle_loop.simps [of W cx c connected w] Let_def w2_def [symmetric]
               split: sum.split option.split)
  next
    case False
    then have "idle_loop W cx c connected w = idle_loop W cx c True w3"
      using idle wind
      by (auto simp: idle_loop.simps [of W cx c connected w] Let_def w2_def [symmetric]
               split: sum.split option.split)
    moreover have "clock (h_net w) < T" "clock (h_net w) < clock (h_net w3)"
      using False over [of w2] w1 w2 w3 by (auto simp: not_le [symmetric])
    ultimately show ?thesis using less [of w3 True] by force
  qed
qed

lemma idleSession_ends:
  assumes runs: "clock_runs clock W L" and sleep: "sleeps clock W cx"
    and over: "\<And>w. T \<le> clock (h_net w) \<Longrightarrow> cx w \<noteq> None"
  obtains connected e w1 where "idleSession W L cfg cx onChange w = Some ((connected, e), w1)"
    "clock (h_net w) \<le> clock (h_net w1)"
proof (cases "watch_connect W L cfg onChange w")
  case (Pair x v)
  have v: "clock (h_net w) \<le> clock (h_net v)"
    using keeps_watch_connect [OF runs order_refl, of w cfg onChange] Pair by simp
  show thesis
  proof (cases x)
    case (Inl e)
    with Pair v that [of False] show thesis by (simp add: idleSession_def)
  next
    case (Inr c)
    obtain r w1 where r: "idle_loop W cx c False v = Some (r, w1)" "clock (h_net v) \<le> clock (h_net w1)"
      using idle_loop_ends [OF runs sleep over] by blast
    have "clock (h_net w1) \<le> clock (h_net (closeClient L cx c w1))"
      by (rule late_closeClient [OF runs order_refl])
    with Pair Inr r v that [of "fst r" "snd r"] show thesis by (simp add: idleSession_def)
  qed
qed

lemma after_session_takes_time:
  assumes "after_session W wa cx st connected e w = Inr (st1, w1)"
    and "sleeps clock W cx" "notifies_in_time clock wa" "backoff_ok wa" "sint (wa_maxDelay wa) < 2 ^ 62"
    and "0 < sint (fst st)" "sint (fst st) \<le> sint (wa_maxDelay wa)"
  shows "clock (h_net w) < clock (h_net w1)" "cx w1 = None"
    "0 < sint (fst st1)" "sint (fst st1) \<le> sint (wa_maxDelay wa)"
proof -
  let ?d = "if connected then wa_minDelay wa else fst st"
  let ?a = "(if connected then 0 else snd st) + 1"
  define v where "v = (case wa_retryNotify wa of None \<Rightarrow> w | Some f \<Rightarrow> f ?a ?d e w)"
  have d: "0 < sint ?d" "sint ?d \<le> sint (wa_maxDelay wa)"
    using assms(4,6,7) by (auto simp: backoff_ok_def)
  have v: "clock (h_net w) \<le> clock (h_net v)"
    using assms(3) by (auto simp: notifies_in_time_def v_def split: option.split)
  have w1: "w1 = wl_Sleep W ?d v" "cx w1 = None" "fst st1 = double_within (wa_maxDelay wa) ?d"
    using assms(1) by (auto simp: after_session_def Let_def v_def split: option.splits if_splits)
  have "clock (h_net v) < clock (h_net w1)"
    using assms(2) d(1) w1(1,2) by (auto simp: sleeps_def)
  with v show "clock (h_net w) < clock (h_net w1)" by simp
  show "cx w1 = None" by (rule w1(2))
  show "0 < sint (fst st1)" "sint (fst st1) \<le> sint (wa_maxDelay wa)"
    using double_within_bound [OF d assms(5)] d w1(3) by auto
qed

lemma watch_loop_ends:
  assumes runs: "clock_runs clock W L" and sleep: "sleeps clock W cx"
    and over: "\<And>w. T \<le> clock (h_net w) \<Longrightarrow> cx w \<noteq> None"
    and notify: "notifies_in_time clock wa"
    and ok: "backoff_ok wa" "sint (wa_maxDelay wa) < 2 ^ 62"
  shows "0 < sint (fst st) \<Longrightarrow> sint (fst st) \<le> sint (wa_maxDelay wa) \<Longrightarrow>
         \<exists>out. watch_loop W L wa cx onChange st w = Some out"
proof (induction "nat (T - clock (h_net w))" arbitrary: st w rule: less_induct)
  case less
  obtain connected e w1 where s: "idleSession W L (wa_cfg wa) cx onChange w = Some ((connected, e), w1)"
    "clock (h_net w) \<le> clock (h_net w1)"
    using idleSession_ends [OF runs sleep over] by metis
  show ?case
  proof (cases "after_session W wa cx st connected e w1")
    case (Inl out)
    with s show ?thesis by (simp add: watch_loop.simps [of W L wa cx onChange st w])
  next
    case (Inr s1)
    then obtain st1 w2 where a: "after_session W wa cx st connected e w1 = Inr (st1, w2)" by (cases s1) auto
    note t = after_session_takes_time [OF a sleep notify ok less.prems]
    have "clock (h_net w2) < T" using over [of w2] t(2) by (auto simp: not_le [symmetric])
    with s t less.hyps [of w2 st1] have "\<exists>out. watch_loop W L wa cx onChange st1 w2 = Some out" by auto
    with s a show ?thesis by (simp add: watch_loop.simps [of W L wa cx onChange st w])
  qed
qed


subsection \<open>Concrete watches\<close>

text \<open>A host whose server does not answer the dial, and one that does.\<close>

definition demo_sleep :: "int64 \<Rightarrow> mail_server host \<Rightarrow> mail_server host" where
  "demo_sleep d w = w\<lparr>h_net := (h_net w)\<lparr>sv_clock := sv_clock (h_net w) + max 0 (sint d)\<rparr>\<rparr>"

definition demo_watch :: "bool \<Rightarrow> (mail_server, nat) watch_lib" where
  "demo_watch up =
     \<lparr>wl_Dial = (\<lambda>i a h. if up then on_net sv_dial else refuse (Failure ''connection refused'')),
      wl_Idle = (\<lambda>c. on_net (if_open c (\<lambda>n. (Inr (), n)))),
      wl_IdleClose = (\<lambda>c. ret ()), wl_IdleWait = (\<lambda>c. ret ()),
      wl_Sleep = demo_sleep,
      wl_CertError = (\<lambda>e. False), wl_RecordError = (\<lambda>e. False), wl_ImapError = (\<lambda>e. None)\<rparr>"

definition demo_watcher :: "mail_server imap_watcher" where
  "demo_watcher = NewWatcher demo_imap_config"

definition until :: "int \<Rightarrow> mail_server host ctx" where
  "until t w = (if t \<le> sv_clock (h_net w) then Some (Failure ''context deadline exceeded'') else None)"

lemma demo_down:
  "idleSession (demo_watch False) L cfg cx onChange w = Some ((False, Failure ''connection refused''), w)"
  by (simp add: idleSession_def watch_connect_def demo_watch_def refuse_def)

lemma demo_watcher_ok: "backoff_ok demo_watcher" "sint (wa_maxDelay demo_watcher) < 2 ^ 62"
  "wa_retryNotify demo_watcher = None"
  unfolding demo_watcher_def by (rule new_backoff_ok) (simp_all add: NewWatcher_def reconnectMaxDelay_def)

theorem delays_double_up_to_the_bound_witness:
  "\<exists>w1. turns (demo_watch False) demo_imap demo_watcher live id 1
          ((wa_minDelay demo_watcher, 0), imap_host demo_server) ((10 ^ 10, 1), w1) \<and>
        sint (10 ^ 10 :: int64) = backoff_delay demo_watcher 1"
proof -
  let ?w = "imap_host demo_server"
  have "after_session (demo_watch False) demo_watcher live (wa_minDelay demo_watcher, 0) False
          (Failure ''connection refused'') ?w =
        Inr ((10 ^ 10, 1), demo_sleep (wa_minDelay demo_watcher) ?w)"
    by (simp add: after_session_def demo_watch_def permanentFailure_def demo_watcher_def NewWatcher_def
          double_within_def reconnectMinDelay_def reconnectMaxDelay_def)
  then have t: "turns (demo_watch False) demo_imap demo_watcher live id (Suc 0)
      ((wa_minDelay demo_watcher, 0), ?w) ((10 ^ 10, 1), demo_sleep (wa_minDelay demo_watcher) ?w)"
    using turns.turn [OF turns.none demo_down] by blast
  with delays_double_up_to_the_bound [OF demo_watcher_ok(1,2) t] show ?thesis by auto
qed


lemma demo_clock_runs: "clock_runs sv_clock (demo_watch up) demo_imap"
  by (simp add: clock_runs_def ends_def demo_watch_def demo_imap_def on_net_def if_open_def sv_dial_def
        sv_select_def sv_close_def refused_with_def refuse_def ret_def no_google_def)

lemma demo_sleeps: "sleeps sv_clock (demo_watch up) cx"
  by (simp add: sleeps_def demo_watch_def demo_sleep_def)


text \<open>A bound of more than half the range lets the doubled delay wrap around: the wait after it is none at all.\<close>

lemma delay_wraps_at_a_huge_bound:
  "sint (double_within (2 ^ 63 - 1) (2 ^ 62)) = - (2 ^ 63)"
  by code_simp

end
