(* ===== verification/Tools.thy ===== *)
theory Tools
  imports Compose Runtime
begin

section \<open>The tools (infrastructure/mcpserver/server.go)\<close>

text \<open>
  Every tool is a translation onto the use cases: it resolves its arguments, asks the human where
  it acts on mail, calls one use case and puts the outcome into a map for the wire.  The map is a
  \<open>json\<close> value with its keys in the order of the code; the text of an error in it is the error.
  \<open>enc\<close> is the base64 encoder, \<open>ask\<close> what the human answers to a question.
\<close>

datatype json =
    JStr string
  | JBool bool
  | JNum int
  | JErr error
  | JList "json list"
  | JObj "(string \<times> json) list"

definition JIds :: "ids \<Rightarrow> json" where "JIds is = JList (map JStr is)"

subsection \<open>Arguments\<close>

record target_input =
  in_ID :: string
  in_IDs :: ids
  in_Folder :: string
  in_Account :: string

record curate_input = target_input +
  in_Confirm :: bool

record move_input = curate_input +
  in_Destination :: string

record list_input =
  li_Scope :: string
  li_Folder :: string
  li_Account :: string
  li_Limit :: int
  li_Offset :: int
  li_IncludeHeaders :: bool

record search_input = list_input +
  si_Query :: string
  si_From :: string

record folder_input =
  fi_Name :: string
  fi_Account :: string
  fi_Confirm :: bool

record send_input =
  se_To :: ids
  se_Subject :: string
  se_Body :: string
  se_CC :: ids
  se_BCC :: ids
  se_HTMLBody :: string
  se_Attachments :: "attachment list"
  se_Confirm :: bool

definition batchIDsLimit :: "string \<Rightarrow> ids \<Rightarrow> int \<Rightarrow> error + ids \<times> bool" where
  "batchIDsLimit i is limit =
     (if i \<noteq> [] \<and> is \<noteq> [] then Inl (Failure ''pass either id or ids, not both'')
      else if i \<noteq> [] then Inr ([i], False)
      else if is \<noteq> [] then
        (case CheckBulkIDsLimit is limit of
           Some e \<Rightarrow> Inl e
         | None \<Rightarrow> Inr (is, True))
      else Inl (Failure ''no message named''))"

subsection \<open>Answers\<close>

definition failure_json :: "bulk_failure \<Rightarrow> json" where
  "failure_json f = JObj [(''id'', JStr (ID f)), (''error'', JErr (Err f))]"

definition failed_json :: "bulk_failure list \<Rightarrow> json" where
  "failed_json fs = JList (map failure_json fs)"

definition bulkResponse :: "string \<Rightarrow> bulk_result \<Rightarrow> json" where
  "bulkResponse verb res =
     JObj [(verb, JIds (Succeeded res)), (''failed'', failed_json (Failed res)),
           (''total'', JNum (int (length (Succeeded res) + length (Failed res))))]"

definition fetchResponse :: "(bytes \<Rightarrow> string) \<Rightarrow> fetch_result \<Rightarrow> json" where
  "fetchResponse enc res =
     JObj [(''fetched'', JList (map (\<lambda>m. JObj [(''id'', JStr (msg_id m)), (''raw'', JStr (enc (Raw m)))])
                            (Fetched res))),
           (''failed'', failed_json (fetch_failed res)),
           (''total'', JNum (int (length (Fetched res) + length (fetch_failed res))))]"

definition summary_json :: "message_summary \<Rightarrow> json" where
  "summary_json m =
     JObj [(''id'', JStr (sum_id m)), (''from'', JStr (From (sum_headers m))),
           (''to'', JStr (To (sum_headers m))), (''subject'', JStr (Subject (sum_headers m))),
           (''date'', JStr (Date (sum_headers m))), (''message_id'', JStr (MessageID (sum_headers m)))]"

text \<open>A page of the use cases always has its list of messages, an empty one when no headers were asked for.\<close>

definition messagePageResult :: "message_page \<Rightarrow> json" where
  "messagePageResult page =
     JObj [(''ids'', JIds (IDs page)), (''total'', JNum (int (Total page))),
           (''scope'', JStr (page_scope page)), (''offset'', JNum (Offset page)),
           (''messages'', JList (map summary_json (Messages page)))]"

definition ok_json :: json where "ok_json = JObj [(''ok'', JBool True)]"

text \<open>A batch that ended in an error is answered with the error alone.\<close>

definition answered :: "('a \<Rightarrow> json) \<Rightarrow> ('a \<times> error option) \<times> 'w \<Rightarrow> (error + json) \<times> 'w" where
  "answered render r =
     (case r of ((x, e), w) \<Rightarrow> (case e of Some e \<Rightarrow> (Inl e, w) | None \<Rightarrow> (Inr (render x), w)))"

definition acknowledged :: "json \<Rightarrow> (error + unit) \<times> 'w \<Rightarrow> (error + json) \<times> 'w" where
  "acknowledged j r = (case r of (Inl e, w) \<Rightarrow> (Inl e, w) | (Inr _, w) \<Rightarrow> (Inr j, w))"

subsection \<open>Questions\<close>

text \<open>
  A question is the list of its parts: texts, what is quoted or named in it, and numbers.  The long
  dash of the texts is given by its three bytes.
\<close>

definition dash :: string where "dash = [CHR 0xE2, CHR 0x80, CHR 0x94]"

definition plural :: "nat \<Rightarrow> string \<Rightarrow> string" where
  "plural n singular = (if n = 1 then singular else singular @ ''s'')"

definition plural_form :: "nat \<Rightarrow> string \<Rightarrow> string \<Rightarrow> string" where
  "plural_form n singular form = (if n = 1 then singular else form)"

definition promptIDLimit :: nat where "promptIDLimit = 10"
definition promptAddressSample :: nat where "promptAddressSample = 5"

definition first_of :: "nat \<Rightarrow> ids \<Rightarrow> detail list" where
  "first_of n xs =
     (if length xs \<le> n then [Str (join '', '' xs)]
      else [Str (join '', '' (take n xs)), Str '' and '', Num (int (length xs) - int n), Str '' more''])"

definition namesFor :: "ids \<Rightarrow> detail list" where "namesFor is = first_of promptIDLimit is"
definition sampleAddresses :: "ids \<Rightarrow> detail list" where
  "sampleAddresses addrs = first_of promptAddressSample addrs"

definition curation_prompt :: "string \<Rightarrow> ids \<Rightarrow> string \<Rightarrow> detail list" where
  "curation_prompt action is destination =
     (if length is = 1 then
        [Str ''Confirm '', Str action, Str '' of message '', Str (is ! 0), Str ''? ''] @
        (if destination \<noteq> [] then [Str ''It will be filed into '', Str destination, Str ('' '' @ dash @ '' moved, never destroyed.'')]
         else [Str ''The message is moved, never destroyed.''])
      else
        [Str ''Confirm '', Str action, Str '' of '', Num (int (length is)), Str '' messages? ''] @
        (if destination \<noteq> [] then [Str ''They will be filed into '', Str destination, Str ('' '' @ dash @ '' moved, never destroyed.'')]
         else [Str ''The messages are moved, never destroyed.'']) @
        [Str '' Messages: ''] @ namesFor is @ [Str ''.''])"

definition confirmCuration :: "asking \<Rightarrow> bool \<Rightarrow> string \<Rightarrow> ids \<Rightarrow> string \<Rightarrow> check" where
  "confirmCuration ask confirmed action is destination =
     ConfirmAction ask confirmed (curation_prompt action is destination)"

definition curationDestination ::
  "'w service \<Rightarrow> bool \<Rightarrow> string \<Rightarrow> string \<Rightarrow> curation_action \<Rightarrow> 'w \<Rightarrow> string \<times> 'w" where
  "curationDestination s confirmed account folder action w =
     (if confirmed then ([], w)
      else case service_CurationPlan s account folder w of
             (Inl _, w1) \<Rightarrow> ([], w1)
           | (Inr plan, w1) \<Rightarrow>
               (if action = actionArchive then Folder (Archive plan) else Folder (Trash plan), w1))"

fun breakdown_parts :: "(string \<times> ids) list \<Rightarrow> detail list list" where
  "breakdown_parts [] = []"
| "breakdown_parts ((name, addrs) # fs) =
     (if addrs \<noteq> [] then [[Num (int (length addrs)), Str '' '', Str name]] else []) @ breakdown_parts fs"

fun joined_parts :: "detail list list \<Rightarrow> detail list" where
  "joined_parts [] = []"
| "joined_parts [p] = p"
| "joined_parts (p # q # ps) = p @ Str '', '' # joined_parts (q # ps)"

definition recipientBreakdown :: "outbound_message \<Rightarrow> detail list" where
  "recipientBreakdown msg =
     (let parts = breakdown_parts [(''To'', om_To msg), (''Cc'', om_Cc msg), (''Bcc'', om_Bcc msg)] in
      if parts = [] then [Str ''no recipients''] else joined_parts parts)"

definition bccWarning :: "nat \<Rightarrow> detail list" where
  "bccWarning n =
     (if n = 0 then []
      else [Str '' '', Num (int n), Str '' of them '', Str (plural_form n ''is'' ''are''),
            Str ('' Bcc '' @ dash @ '' hidden from every other recipient and from each other,''),
            Str '' so that part of the audience cannot be checked by eye.''])"

definition send_prompt :: "mail_lib \<Rightarrow> string \<Rightarrow> outbound_message \<Rightarrow> detail list" where
  "send_prompt lib kind msg =
     (let recipients = Recipients lib msg; n = length recipients in
      [Str ''Send this '', Str kind, Str '' to '', Num (int n), Str '' '', Str (plural n ''recipient''),
       Str ''? (''] @ recipientBreakdown msg @ [Str ('') '' @ dash @ '' '')] @ sampleAddresses recipients @
      [Str ''. Subject: '', Str (om_Subject msg), Str ''.''] @ bccWarning (length (om_Bcc msg)) @
      [Str '' Sending cannot be undone.''])"

definition confirmSend :: "mail_lib \<Rightarrow> asking \<Rightarrow> bool \<Rightarrow> string \<Rightarrow> outbound_message \<Rightarrow> check" where
  "confirmSend lib ask confirmed kind msg = ConfirmAction ask confirmed (send_prompt lib kind msg)"

definition folder_prompt :: "string \<Rightarrow> string \<Rightarrow> detail list" where
  "folder_prompt action name =
     (if action = ''create''
      then [Str ''Create folder '', Str name, Str ''? No mail is moved, and a folder that already exists is left exactly as it is.'']
      else [Str ''Delete folder '', Str name, Str (''? Only an empty folder can be deleted '' @ dash @ '' one still holding messages is refused,''),
            Str '' naming the count, so no mail is destroyed either way.''])"

definition confirmFolder :: "asking \<Rightarrow> bool \<Rightarrow> string \<Rightarrow> string \<Rightarrow> check" where
  "confirmFolder ask confirmed action name = ConfirmAction ask confirmed (folder_prompt action name)"

subsection \<open>Handlers\<close>

definition h_list :: "'w service \<Rightarrow> 'a list_input_scheme \<Rightarrow> ('w, json) effect" where
  "h_list s inp w =
     (case ListMessages s (li_Account inp) (li_Folder inp) (li_Scope inp) (li_Offset inp) (li_Limit inp)
             (li_IncludeHeaders inp) w of
        (Inl e, w1) \<Rightarrow> (Inl e, w1)
      | (Inr page, w1) \<Rightarrow> (Inr (messagePageResult page), w1))"

definition h_list_unread :: "'w service \<Rightarrow> list_input \<Rightarrow> ('w, json) effect" where
  "h_list_unread s inp = h_list s (inp\<lparr>li_Scope := []\<rparr>)"

definition h_search :: "'w ctx \<Rightarrow> 'w service \<Rightarrow> search_input \<Rightarrow> ('w, json) effect" where
  "h_search cx s inp w =
     (case SearchMessagesFrom cx s (li_Account inp) (li_Folder inp) (si_Query inp) (si_From inp)
             (li_Scope inp) (li_Offset inp) (li_Limit inp) (li_IncludeHeaders inp) w of
        (Inl e, w1) \<Rightarrow> (Inl e, w1)
      | (Inr page, w1) \<Rightarrow> (Inr (messagePageResult page), w1))"

text \<open>The ids a request names are resolved first, and a request that names none is refused there.\<close>

definition named ::
  "'w service \<Rightarrow> 'a target_input_scheme \<Rightarrow> (ids \<Rightarrow> bool \<Rightarrow> ('w, json) effect) \<Rightarrow> ('w, json) effect" where
  "named s inp f w =
     (case batchIDsLimit (in_ID inp) (in_IDs inp) (service_BulkLimit s w) of
        Inl e \<Rightarrow> (Inl e, w)
      | Inr (is, bulk) \<Rightarrow> f is bulk w)"

definition h_fetch ::
  "(bytes \<Rightarrow> string) \<Rightarrow> 'w ctx \<Rightarrow> 'w service \<Rightarrow> target_input \<Rightarrow> ('w, json) effect" where
  "h_fetch enc cx s inp =
     named s inp (\<lambda>is bulk w.
       if \<not> bulk then
         (case service_Read s (in_Account inp) (in_Folder inp) (is ! 0) w of
            (Inl e, w1) \<Rightarrow> (Inl e, w1)
          | (Inr raw, w1) \<Rightarrow> (Inr (JObj [(''raw'', JStr (enc raw))]), w1))
       else answered (fetchResponse enc) (service_ReadMany cx s (in_Account inp) (in_Folder inp) is w))"

definition h_mark_seen :: "'w ctx \<Rightarrow> 'w service \<Rightarrow> target_input \<Rightarrow> ('w, json) effect" where
  "h_mark_seen cx s inp =
     named s inp (\<lambda>is bulk w.
       if \<not> bulk then acknowledged ok_json (service_MarkSeen s (in_Account inp) (in_Folder inp) (is ! 0) w)
       else answered (bulkResponse ''marked'')
              (service_MarkSeenMany cx s (in_Account inp) (in_Folder inp) is w))"

definition h_move :: "asking \<Rightarrow> 'w ctx \<Rightarrow> 'w service \<Rightarrow> move_input \<Rightarrow> ('w, json) effect" where
  "h_move ask cx s inp =
     named s inp (\<lambda>is bulk w.
       case confirmCuration ask (in_Confirm inp) ''move'' is (in_Destination inp) of
         Some e \<Rightarrow> (Inl e, w)
       | None \<Rightarrow>
           (if \<not> bulk then
              acknowledged ok_json
                (service_Move s (in_Account inp) (in_Folder inp) (is ! 0) (in_Destination inp) w)
            else answered (bulkResponse ''moved'')
                   (service_MoveMany cx s (in_Account inp) (in_Folder inp) is (in_Destination inp) w)))"

definition action_name :: "curation_action \<Rightarrow> string" where
  "action_name a = (if a = actionArchive then ''archive'' else ''delete'')"

definition curate ::
  "asking \<Rightarrow> 'w service \<Rightarrow> curate_input \<Rightarrow> curation_action \<Rightarrow> string \<Rightarrow>
   (string \<Rightarrow> string \<Rightarrow> string \<Rightarrow> ('w, unit) effect) \<Rightarrow>
   (string \<Rightarrow> string \<Rightarrow> ids \<Rightarrow> ('w, bulk_result) reporting) \<Rightarrow> ('w, json) effect" where
  "curate ask s inp action verb one many =
     named s inp (\<lambda>is bulk w.
       case curationDestination s (in_Confirm inp) (in_Account inp) (in_Folder inp) action w of
         (dest, w1) \<Rightarrow>
           (case confirmCuration ask (in_Confirm inp) (action_name action) is dest of
              Some e \<Rightarrow> (Inl e, w1)
            | None \<Rightarrow>
                (if \<not> bulk then acknowledged ok_json (one (in_Account inp) (in_Folder inp) (is ! 0) w1)
                 else answered (bulkResponse verb) (many (in_Account inp) (in_Folder inp) is w1))))"

definition h_archive :: "asking \<Rightarrow> 'w ctx \<Rightarrow> 'w service \<Rightarrow> curate_input \<Rightarrow> ('w, json) effect" where
  "h_archive ask cx s inp =
     curate ask s inp actionArchive ''archived'' (service_Archive s) (service_ArchiveMany cx s)"

definition h_delete :: "asking \<Rightarrow> 'w ctx \<Rightarrow> 'w service \<Rightarrow> curate_input \<Rightarrow> ('w, json) effect" where
  "h_delete ask cx s inp =
     curate ask s inp actionDelete ''deleted'' (service_Delete s) (service_DeleteMany cx s)"

definition h_folder_list :: "'w service \<Rightarrow> string \<Rightarrow> ('w, json) effect" where
  "h_folder_list s account w =
     (case service_Folders s account w of
        (Inl e, w1) \<Rightarrow> (Inl e, w1)
      | (Inr folders, w1) \<Rightarrow> (Inr (JObj [(''folders'', JIds folders)]), w1))"

definition h_folder_create :: "asking \<Rightarrow> 'w service \<Rightarrow> folder_input \<Rightarrow> ('w, json) effect" where
  "h_folder_create ask s inp w =
     (case confirmFolder ask (fi_Confirm inp) ''create'' (fi_Name inp) of
        Some e \<Rightarrow> (Inl e, w)
      | None \<Rightarrow>
          acknowledged (JObj [(''ok'', JBool True), (''folder'', JStr (fi_Name inp))])
            (service_CreateFolder s (fi_Account inp) (fi_Name inp) w))"

definition h_folder_delete :: "asking \<Rightarrow> 'w service \<Rightarrow> folder_input \<Rightarrow> ('w, json) effect" where
  "h_folder_delete ask s inp w =
     (case confirmFolder ask (fi_Confirm inp) ''delete'' (fi_Name inp) of
        Some e \<Rightarrow> (Inl e, w)
      | None \<Rightarrow>
          acknowledged (JObj [(''ok'', JBool True), (''folder'', JStr (fi_Name inp))])
            (service_DeleteFolder s (fi_Account inp) (fi_Name inp) w))"

text \<open>The one path of every outgoing message: the whole message is there, the human approves it, it
  is queued.\<close>

definition queue_message ::
  "mail_lib \<Rightarrow> error + string \<Rightarrow> asking \<Rightarrow> 'w composer \<Rightarrow> bool \<Rightarrow> string \<Rightarrow> outbound_message \<Rightarrow>
   ('w, json) effect" where
  "queue_message lib rnd ask c confirmed kind msg w =
     (case confirmSend lib ask confirmed kind msg of
        Some e \<Rightarrow> (Inl e, w)
      | None \<Rightarrow>
          (case composer_Send lib rnd c msg w of
             (Inl e, w1) \<Rightarrow> (Inl e, w1)
           | (Inr i, w1) \<Rightarrow> (Inr (JObj [(''id'', JStr i), (''state'', JStr ''queued'')]), w1)))"

definition message_of_input :: "send_input \<Rightarrow> outbound_message" where
  "message_of_input inp =
     empty_message\<lparr>om_To := se_To inp, om_Cc := se_CC inp, om_Bcc := se_BCC inp,
       om_Subject := se_Subject inp, om_Body := se_Body inp, om_HTMLBody := se_HTMLBody inp,
       om_Attachments := se_Attachments inp\<rparr>"

definition h_send ::
  "mail_lib \<Rightarrow> error + string \<Rightarrow> asking \<Rightarrow> 'w composer \<Rightarrow> send_input \<Rightarrow> ('w, json) effect" where
  "h_send lib rnd ask c inp = queue_message lib rnd ask c (se_Confirm inp) ''email'' (message_of_input inp)"

definition h_reply ::
  "mail_lib \<Rightarrow> error + string \<Rightarrow> asking \<Rightarrow> 'w composer \<Rightarrow> reply_request \<Rightarrow> bool \<Rightarrow> ('w, json) effect" where
  "h_reply lib rnd ask c req confirmed w =
     (case PlanReply lib c req w of
        (Inl e, w1) \<Rightarrow> (Inl e, w1)
      | (Inr msg, w1) \<Rightarrow> queue_message lib rnd ask c confirmed ''reply'' msg w1)"

definition h_forward ::
  "mail_lib \<Rightarrow> error + string \<Rightarrow> asking \<Rightarrow> 'w composer \<Rightarrow> forward_request \<Rightarrow> bool \<Rightarrow> ('w, json) effect" where
  "h_forward lib rnd ask c req confirmed w =
     (case PlanForward lib c req w of
        (Inl e, w1) \<Rightarrow> (Inl e, w1)
      | (Inr msg, w1) \<Rightarrow> queue_message lib rnd ask c confirmed ''forward'' msg w1)"

definition h_send_status :: "'w outbox \<Rightarrow> string \<Rightarrow> ('w, json) effect" where
  "h_send_status ob i w =
     (case Status ob i w of
        (Inl e, w1) \<Rightarrow> (Inl e, w1)
      | (Inr m, w1) \<Rightarrow>
          (Inr (JObj ([(''id'', JStr (om_ID m)), (''state'', JStr (om_State m)),
                       (''attempts'', JNum (om_Attempts m))] @
                      (if om_Error m \<noteq> [] then [(''error'', JStr (om_Error m))] else []))), w1))"

definition h_retry :: "statekit \<Rightarrow> 'w outbox \<Rightarrow> string \<Rightarrow> ('w, json) effect" where
  "h_retry sk ob i w =
     acknowledged (JObj [(''id'', JStr i), (''state'', JStr ''queued'')]) (Retry sk ob i w)"

subsection \<open>The server\<close>

text \<open>The sending tools are there only when there is an outbox.\<close>

record 'w server =
  srv_service :: "'w service"
  srv_outbox :: "'w outbox option"

definition NewServer ::
  "'w mailbox \<Rightarrow> (string \<times> 'w mailbox) list \<Rightarrow> 'w outbox option \<Rightarrow> 'w \<Rightarrow> 'w server" where
  "NewServer mb accs ob w = \<lparr>srv_service = NewService mb accs w, srv_outbox = ob\<rparr>"

datatype tool_call =
    ToolList list_input
  | ToolListUnread list_input
  | ToolFetch target_input
  | ToolMarkSeen target_input
  | ToolSearch search_input
  | ToolMove move_input
  | ToolArchive curate_input
  | ToolDelete curate_input
  | ToolFolderList string
  | ToolFolderCreate folder_input
  | ToolFolderDelete folder_input
  | ToolSend send_input
  | ToolReply reply_request bool
  | ToolForward forward_request bool
  | ToolSendStatus string
  | ToolRetry string

record tool_lib =
  tl_mail :: mail_lib
  tl_encode :: "bytes \<Rightarrow> string"
  tl_statekit :: statekit

definition with_outbox :: "'w server \<Rightarrow> ('w outbox \<Rightarrow> ('w, json) effect) \<Rightarrow> ('w, json) effect" where
  "with_outbox sv f w =
     (case srv_outbox sv of
        None \<Rightarrow> (Inl (Failure ''unknown tool''), w)
      | Some ob \<Rightarrow> f ob w)"

fun call_tool ::
  "tool_lib \<Rightarrow> error + string \<Rightarrow> asking \<Rightarrow> 'w ctx \<Rightarrow> 'w server \<Rightarrow> tool_call \<Rightarrow> ('w, json) effect" where
  "call_tool t rnd ask cx sv (ToolList inp) = h_list (srv_service sv) inp"
| "call_tool t rnd ask cx sv (ToolListUnread inp) = h_list_unread (srv_service sv) inp"
| "call_tool t rnd ask cx sv (ToolFetch inp) = h_fetch (tl_encode t) cx (srv_service sv) inp"
| "call_tool t rnd ask cx sv (ToolMarkSeen inp) = h_mark_seen cx (srv_service sv) inp"
| "call_tool t rnd ask cx sv (ToolSearch inp) = h_search cx (srv_service sv) inp"
| "call_tool t rnd ask cx sv (ToolMove inp) = h_move ask cx (srv_service sv) inp"
| "call_tool t rnd ask cx sv (ToolArchive inp) = h_archive ask cx (srv_service sv) inp"
| "call_tool t rnd ask cx sv (ToolDelete inp) = h_delete ask cx (srv_service sv) inp"
| "call_tool t rnd ask cx sv (ToolFolderList account) = h_folder_list (srv_service sv) account"
| "call_tool t rnd ask cx sv (ToolFolderCreate inp) = h_folder_create ask (srv_service sv) inp"
| "call_tool t rnd ask cx sv (ToolFolderDelete inp) = h_folder_delete ask (srv_service sv) inp"
| "call_tool t rnd ask cx sv (ToolSend inp) =
     with_outbox sv (\<lambda>ob. h_send (tl_mail t) rnd ask \<lparr>svc = srv_service sv, outbox_of = ob\<rparr> inp)"
| "call_tool t rnd ask cx sv (ToolReply req confirmed) =
     with_outbox sv (\<lambda>ob. h_reply (tl_mail t) rnd ask \<lparr>svc = srv_service sv, outbox_of = ob\<rparr> req confirmed)"
| "call_tool t rnd ask cx sv (ToolForward req confirmed) =
     with_outbox sv (\<lambda>ob. h_forward (tl_mail t) rnd ask \<lparr>svc = srv_service sv, outbox_of = ob\<rparr> req confirmed)"
| "call_tool t rnd ask cx sv (ToolSendStatus i) = with_outbox sv (\<lambda>ob. h_send_status ob i)"
| "call_tool t rnd ask cx sv (ToolRetry i) = with_outbox sv (\<lambda>ob. h_retry (tl_statekit t) ob i)"

end
