(* ===== verification/Resources.thy ===== *)
theory Resources
  imports Tools Decimal
begin

section \<open>Resources and prompts (infrastructure/mcpserver/resources.go, prompts.go)\<close>

text \<open>
  Resources show the state of the mailbox and of the outbox; prompts put mail into a text for a
  language model.  Both only read.  A resource is a \<open>json\<close> value or the raw message; the
  text of a prompt is written out.
\<close>

subsection \<open>Values of the domain on the wire\<close>

definition headers_json :: "message_headers \<Rightarrow> json" where
  "headers_json h =
     JObj [(''from'', JStr (From h)), (''to'', JStr (To h)), (''subject'', JStr (Subject h)),
           (''date'', JStr (Date h)), (''message_id'', JStr (MessageID h))]"

definition route_name :: "curation_route \<Rightarrow> string" where
  "route_name r =
     (case r of RouteOverride \<Rightarrow> ''override'' | RouteDeclared \<Rightarrow> ''declared''
      | RouteConvention \<Rightarrow> ''convention'' | RouteAlias \<Rightarrow> ''alias'' | RouteCreate \<Rightarrow> ''create''
      | RouteFixed \<Rightarrow> ''fixed'')"

definition destination_json :: "curation_destination \<Rightarrow> json" where
  "destination_json d = JObj [(''folder'', JStr (Folder d)), (''route'', JStr (route_name (Route d)))]"

definition plan_json :: "curation_plan \<Rightarrow> json" where
  "plan_json p =
     JObj [(''archive'', destination_json (Archive p)), (''trash'', destination_json (Trash p))]"

definition capabilities_json :: "curation_capabilities \<Rightarrow> json" where
  "capabilities_json c =
     JObj [(''move_mode'', JStr (MoveMode c)), (''permanent_delete'', JBool (PermanentDelete c)),
           (''source_removed_on_move'', JBool (SourceRemovedOnMove c))]"

definition parseHeaders :: "mail_lib \<Rightarrow> bytes \<Rightarrow> json" where
  "parseHeaders lib raw = headers_json (Parse lib raw)"

text \<open>\<open>omitempty\<close>: a field that is not there when its value is empty.\<close>

definition given_str :: "string \<Rightarrow> string \<Rightarrow> (string \<times> json) list" where
  "given_str k v = (if v = [] then [] else [(k, JStr v)])"

definition given_ids :: "string \<Rightarrow> ids \<Rightarrow> (string \<times> json) list" where
  "given_ids k v = (if v = [] then [] else [(k, JIds v)])"

definition attachment_json :: "(bytes \<Rightarrow> string) \<Rightarrow> attachment \<Rightarrow> json" where
  "attachment_json enc a =
     JObj [(''filename'', JStr (Filename a)), (''content_type'', JStr (ContentType a)),
           (''content'', JStr (enc (Content a)))]"

definition outbound_json :: "(bytes \<Rightarrow> string) \<Rightarrow> outbound_message \<Rightarrow> json" where
  "outbound_json enc m =
     JObj ([(''id'', JStr (om_ID m)), (''to'', JIds (om_To m)), (''subject'', JStr (om_Subject m)),
            (''body'', JStr (om_Body m))] @
           given_ids ''cc'' (om_Cc m) @ given_ids ''bcc'' (om_Bcc m) @
           given_str ''html_body'' (om_HTMLBody m) @ given_str ''in_reply_to'' (om_InReplyTo m) @
           given_ids ''references'' (om_References m) @
           (if om_Attachments m = [] then []
            else [(''attachments'', JList (map (attachment_json enc) (om_Attachments m)))]) @
           [(''state'', JStr (om_State m))] @ given_str ''error'' (om_Error m) @
           [(''attempts'', JNum (om_Attempts m))])"

definition summary_of_outbox :: "(string \<times> ids) list \<Rightarrow> json" where
  "summary_of_outbox out = JObj (map (\<lambda>(state, is). (state, JIds is)) out)"

subsection \<open>Resources\<close>

datatype resource_content = JsonContent string json | MailContent string bytes

definition read_capabilities ::
  "'w service \<Rightarrow> string \<Rightarrow> string \<Rightarrow> string \<Rightarrow> ('w, resource_content) effect" where
  "read_capabilities s uri account folder w =
     (let payload = [(''bulk_limit'', JNum (service_BulkLimit s w)),
                     (''search_filters'', JIds [''from''])] in
      case service_CurationCapabilities s account folder w of
        (Inl e, w1) \<Rightarrow> (Inr (JsonContent uri (JObj payload)), w1)
      | (Inr caps, w1) \<Rightarrow>
          (Inr (JsonContent uri (JObj (payload @ [(''curation'', capabilities_json caps)]))), w1))"

definition sending_tools :: ids where
  "sending_tools = [''email.send'', ''email.reply'', ''email.forward'', ''email.send_status'', ''email.retry'']"

definition outbound_setup :: "'w outbox option \<Rightarrow> json" where
  "outbound_setup ob =
     JObj ([(''enabled'', JBool (ob \<noteq> None)), (''tools'', JIds sending_tools)] @
           (case ob of
              None \<Rightarrow> [(''setup'', JStr ''how to add an outbox'')]
            | Some ob \<Rightarrow>
                (''status'', JStr ''outbound tools are enabled'') # given_str ''from'' (outbox_From ob)))"

definition read_inbox :: "'w service \<Rightarrow> string \<Rightarrow> ('w, resource_content) effect" where
  "read_inbox s uri w =
     (case service_ListUnread s [] [] w of
        (Inl e, w1) \<Rightarrow> (Inl e, w1)
      | (Inr is, w1) \<Rightarrow> (Inr (JsonContent uri (JObj [(''unread'', JIds is)])), w1))"

definition read_message :: "'w service \<Rightarrow> string \<Rightarrow> string \<Rightarrow> ('w, resource_content) effect" where
  "read_message s uri i w =
     (case service_Read s [] [] i w of
        (Inl e, w1) \<Rightarrow> (Inl e, w1)
      | (Inr raw, w1) \<Rightarrow> (Inr (MailContent uri raw), w1))"

definition read_headers :: "'w service \<Rightarrow> string \<Rightarrow> string \<Rightarrow> ('w, resource_content) effect" where
  "read_headers s uri i w =
     (case ReadHeaders s [] [] i w of
        (Inl e, w1) \<Rightarrow> (Inl e, w1)
      | (Inr h, w1) \<Rightarrow> (Inr (JsonContent uri (headers_json h)), w1))"

definition read_folders :: "'w service \<Rightarrow> string \<Rightarrow> ('w, resource_content) effect" where
  "read_folders s uri w =
     (case service_Folders s [] w of
        (Inl e, w1) \<Rightarrow> (Inl e, w1)
      | (Inr folders, w1) \<Rightarrow>
          (case service_CurationPlan s [] [] w1 of
             (Inl e, w2) \<Rightarrow> (Inr (JsonContent uri (JObj [(''folders'', JIds folders)])), w2)
           | (Inr plan, w2) \<Rightarrow>
               (Inr (JsonContent uri (JObj [(''folders'', JIds folders), (''curation'', plan_json plan)])),
                w2)))"

definition read_outbox :: "'w outbox option \<Rightarrow> string \<Rightarrow> ('w, resource_content) effect" where
  "read_outbox ob uri w =
     (case ob of
        None \<Rightarrow> (Inr (JsonContent uri (JObj [])), w)
      | Some ob \<Rightarrow>
          (case Summary ob w of
             (Inl e, w1) \<Rightarrow> (Inl e, w1)
           | (Inr out, w1) \<Rightarrow> (Inr (JsonContent uri (summary_of_outbox out)), w1)))"

definition read_queued ::
  "(bytes \<Rightarrow> string) \<Rightarrow> 'w outbox option \<Rightarrow> string \<Rightarrow> string \<Rightarrow> ('w, resource_content) effect" where
  "read_queued enc ob uri i w =
     (case ob of
        None \<Rightarrow> (Inl (Failure ''outbox not configured''), w)
      | Some ob \<Rightarrow>
          (case Status ob i w of
             (Inl e, w1) \<Rightarrow> (Inl e, w1)
           | (Inr m, w1) \<Rightarrow> (Inr (JsonContent uri (outbound_json enc m)), w1)))"

datatype resource =
    ResCapabilities string string
  | ResOutbound
  | ResInbox
  | ResMessage string
  | ResHeaders string
  | ResFolders
  | ResAccounts
  | ResOutbox
  | ResQueued string

fun read_resource ::
  "(bytes \<Rightarrow> string) \<Rightarrow> 'w server \<Rightarrow> string \<Rightarrow> resource \<Rightarrow> ('w, resource_content) effect" where
  "read_resource enc sv uri (ResCapabilities account folder) =
     read_capabilities (srv_service sv) uri account folder"
| "read_resource enc sv uri ResOutbound = (\<lambda>w. (Inr (JsonContent uri (outbound_setup (srv_outbox sv))), w))"
| "read_resource enc sv uri ResInbox = read_inbox (srv_service sv) uri"
| "read_resource enc sv uri (ResMessage i) = read_message (srv_service sv) uri i"
| "read_resource enc sv uri (ResHeaders i) = read_headers (srv_service sv) uri i"
| "read_resource enc sv uri ResFolders = read_folders (srv_service sv) uri"
| "read_resource enc sv uri ResAccounts =
     (\<lambda>w. (Inr (JsonContent uri (JObj [(''accounts'', JIds (service_Accounts (srv_service sv)))])), w))"
| "read_resource enc sv uri ResOutbox = read_outbox (srv_outbox sv) uri"
| "read_resource enc sv uri (ResQueued i) = read_queued enc (srv_outbox sv) uri i"

text \<open>Hints while an id is typed: every id of the mailbox, or the unread ones of a backend that knows no other.\<close>

definition completeMessageIDs :: "'w service \<Rightarrow> string \<Rightarrow> ('w, ids) effect" where
  "completeMessageIDs s typed w =
     (case (case service_List s [] [] ScopeAll w of
              (Inl e, w1) \<Rightarrow> service_ListUnread s [] [] w1
            | (Inr is, w1) \<Rightarrow> (Inr is, w1)) of
        (Inl e, w2) \<Rightarrow> (Inl e, w2)
      | (Inr is, w2) \<Rightarrow> (Inr (filter (\<lambda>i. has_prefix i typed) is), w2))"

subsection \<open>Prompts\<close>

definition defaultSummarizeCount :: int where "defaultSummarizeCount = 20"
definition maxEmbeddedMessageBytes :: nat where "maxEmbeddedMessageBytes = 2 ^ 14"

definition truncation_mark :: string where "truncation_mark = line_end @ ''[... truncated ...]''"

definition embedded :: "bytes \<Rightarrow> bytes" where
  "embedded raw =
     (if length raw > maxEmbeddedMessageBytes then take maxEmbeddedMessageBytes raw @ truncation_mark
      else raw)"

definition summary_count :: "string \<Rightarrow> error + int" where
  "summary_count arg =
     (if arg \<noteq> [] then
        (case atoi arg of
           None \<Rightarrow> Inl (Failure ''summarize_inbox: count must be a positive integer'')
         | Some n \<Rightarrow>
             if n < 1 then Inl (Failure ''summarize_inbox: count must be a positive integer'') else Inr n)
      else Inr defaultSummarizeCount)"

definition message_block :: "string \<Rightarrow> bytes \<Rightarrow> string" where
  "message_block i raw = line_end @ ''--- Message '' @ i @ '' ---'' @ line_end @ raw @ line_end"

fun embed_loop :: "'w ctx \<Rightarrow> 'w service \<Rightarrow> ids \<Rightarrow> ('w, (string \<times> bytes) list) effect" where
  "embed_loop cx s [] w = (Inr [], w)"
| "embed_loop cx s (i # is) w =
     (case service_Read s [] [] i w of
        (Inl e, w1) \<Rightarrow> if cx w1 \<noteq> None then (Inl e, w1) else embed_loop cx s is w1
      | (Inr raw, w1) \<Rightarrow>
          (case embed_loop cx s is w1 of
             (Inl e, w2) \<Rightarrow> (Inl e, w2)
           | (Inr out, w2) \<Rightarrow> (Inr ((i, embedded raw) # out), w2)))"

definition summary_intro :: string where
  "summary_intro =
     ''Summarize the following unread messages. For each: sender, subject, one-line gist, and whether it needs action.''
     @ line_end"

definition clamp_note :: "int \<Rightarrow> int \<Rightarrow> string" where
  "clamp_note asked amount =
     line_end @ ''('' @ [CHR 0x27] @ ''count'' @ [CHR 0x27] @ '' asked for '' @ decimal (nat asked) @
     '' messages and was clamped to '' @ decimal (nat amount) @ '' '' @ dash @
     '' a prompt quotes message bodies verbatim, so the cap bounds both its size and the untrusted content in it.)''
     @ line_end"

definition hidden_note :: "int \<Rightarrow> nat \<Rightarrow> string" where
  "hidden_note amount hidden =
     (if amount \<ge> MaxSummaryMessages
      then line_end @ ''('' @ decimal hidden @ '' more unread messages not shown '' @ dash @ '' '' @
           decimal (nat MaxSummaryMessages) @ '' is this prompt'' @ [CHR 0x27] @ ''s cap, so a higher '' @
           [CHR 0x27] @ ''count'' @ [CHR 0x27] @
           '' will not show more; list them with email.list_unread, or summarize the rest in further batches.)'' @ line_end
      else line_end @ ''('' @ decimal hidden @ '' more unread messages not shown '' @ dash @
           '' re-run with a higher '' @ [CHR 0x27] @ ''count'' @ [CHR 0x27] @
           '' or list them with email.list_unread.)'' @ line_end)"

definition summary_notes :: "int \<Rightarrow> int \<Rightarrow> nat \<Rightarrow> nat \<Rightarrow> string" where
  "summary_notes asked amount n shown =
     (if n = 0 then line_end @ ''(The inbox has no unread messages.)''
      else (if asked > amount then clamp_note asked amount else []) @
           (if n > shown then hidden_note amount (n - shown) else []))"

definition summarize_inbox :: "'w ctx \<Rightarrow> 'w service \<Rightarrow> string \<Rightarrow> ('w, string) effect" where
  "summarize_inbox cx s arg w =
     (case summary_count arg of
        Inl e \<Rightarrow> (Inl e, w)
      | Inr asked \<Rightarrow>
          (let amount = (if asked > MaxSummaryMessages then MaxSummaryMessages else asked) in
           case service_ListUnread s [] [] w of
             (Inl e, w1) \<Rightarrow> (Inl e, w1)
           | (Inr all, w1) \<Rightarrow>
               (let is = (if amount < int (length all) then take (nat amount) all else all) in
                case embed_loop cx s is w1 of
                  (Inl e, w2) \<Rightarrow> (Inl e, w2)
                | (Inr blocks, w2) \<Rightarrow>
                    (Inr (summary_intro @ concat (map (\<lambda>(i, raw). message_block i raw) blocks) @
                          summary_notes asked amount (length all) (length is)), w2))))"

definition draft_reply :: "'w service \<Rightarrow> string \<Rightarrow> ('w, string) effect" where
  "draft_reply s i w =
     (if i = [] then (Inl (Failure ''draft_reply: id argument required''), w)
      else case service_Read s [] [] i w of
             (Inl e, w1) \<Rightarrow> (Inl e, w1)
           | (Inr raw, w1) \<Rightarrow>
               (Inr (''Draft a courteous reply to the following message. Keep the original language. Return only the reply body.''
                     @ line_end @ line_end @ ''--- Original ('' @ i @ '') ---'' @ line_end @ embedded raw), w1))"

subsection \<open>How much mail a prompt quotes\<close>

lemma embedded_shape:
  "\<exists>rest. raw = take maxEmbeddedMessageBytes raw @ rest \<and>
     embedded raw = take maxEmbeddedMessageBytes raw @ (if rest = [] then [] else truncation_mark)"
  by (intro exI [of _ "drop maxEmbeddedMessageBytes raw"]) (auto simp: embedded_def)

lemma embedded_bound: "length (embedded raw) \<le> maxEmbeddedMessageBytes + length truncation_mark"
  by (auto simp: embedded_def)

text \<open>Each block quotes what reading its message returned, and nothing else is read.\<close>

lemma embed_loop_blocks:
  "embed_loop cx s is w = (Inr blocks, w') \<Longrightarrow>
   subseq (map fst blocks) is \<and>
   (\<forall>(i, raw) \<in> set blocks. \<exists>v v' whole. service_Read s [] [] i v = (Inr whole, v') \<and> raw = embedded whole)"
proof (induction "is" arbitrary: w blocks)
  case (Cons i "is")
  obtain r w1 where r: "service_Read s [] [] i w = (r, w1)" by (metis surj_pair)
  show ?case
  proof (cases r)
    case (Inl e)
    with Cons r show ?thesis by (auto split: if_splits)
  next
    case (Inr whole)
    obtain x w2 where x: "embed_loop cx s is w1 = (x, w2)" by (metis surj_pair)
    with Cons.prems r Inr obtain out where out: "x = Inr out" "blocks = (i, embedded whole) # out"
      by (cases x) auto
    from Cons.IH [of w1 out] x out Cons.prems r Inr show ?thesis by auto
  qed
qed simp

lemma summary_count_positive: "summary_count arg = Inr n \<Longrightarrow> 1 \<le> n"
  by (auto simp: summary_count_def defaultSummarizeCount_def split: if_splits option.splits)


end
