(* ===== verification/Tool_Safety.thy ===== *)
theory Tool_Safety
  imports Tools Maildir_Curation
begin

section \<open>What the tools may do\<close>

text \<open>
  A tool that acts on mail asks first; what follows says what that question is worth: nothing is
  done without an answer, the answer covers what is done, a request that names no message is
  refused before anybody is asked, and what only reads leaves everything as it was.
\<close>

subsection \<open>A server, for evaluation\<close>

definition silent :: asking where "silent p = NoSession"

definition agreeing :: asking where "agreeing p = Answered ''accept''"

definition toy_tools :: tool_lib where
  "toy_tools = \<lparr>tl_mail = plain_mail, tl_encode = id, tl_statekit = reference_statekit\<rparr>"

definition toy_server :: "ids server" where
  "toy_server = \<lparr>srv_service = svc toy_composer, srv_outbox = Some (outbox_of toy_composer)\<rparr>"

lemma succeeded: "(case x of (r, w) \<Rightarrow> \<not> isl r \<and> w = v) \<Longrightarrow> \<exists>out. x = (Inr out, v)"
  by (auto simp: isl_def split: sum.splits) (metis sum.exhaust)

definition toy_curation :: "string \<Rightarrow> ids \<Rightarrow> curate_input" where
  "toy_curation i is = \<lparr>in_ID = i, in_IDs = is, in_Folder = [], in_Account = [], in_Confirm = False\<rparr>"

subsection \<open>Consent\<close>

fun asks_first :: "tool_call \<Rightarrow> bool" where
  "asks_first (ToolMove inp) = True"
| "asks_first (ToolArchive inp) = True"
| "asks_first (ToolDelete inp) = True"
| "asks_first (ToolFolderCreate inp) = True"
| "asks_first (ToolFolderDelete inp) = True"
| "asks_first (ToolSend inp) = True"
| "asks_first (ToolReply req confirmed) = True"
| "asks_first (ToolForward req confirmed) = True"
| "asks_first call = False"

text \<open>The flag by which the caller vouches for the consent of the user.\<close>

fun vouched :: "tool_call \<Rightarrow> bool" where
  "vouched (ToolMove inp) = in_Confirm inp"
| "vouched (ToolArchive inp) = in_Confirm inp"
| "vouched (ToolDelete inp) = in_Confirm inp"
| "vouched (ToolFolderCreate inp) = fi_Confirm inp"
| "vouched (ToolFolderDelete inp) = fi_Confirm inp"
| "vouched (ToolSend inp) = se_Confirm inp"
| "vouched (ToolReply req confirmed) = confirmed"
| "vouched (ToolForward req confirmed) = confirmed"
| "vouched call = False"

definition refusal :: "asking \<Rightarrow> detail list \<Rightarrow> error" where
  "refusal ask p = (case ConfirmAction ask False p of Some e \<Rightarrow> e | None \<Rightarrow> Failure [])"

lemma refused_without_consent:
  "(\<And>p. ask p \<noteq> Answered ''accept'') \<Longrightarrow> ConfirmAction ask False p = Some (refusal ask p)"
  by (auto simp: refusal_def ConfirmAction_def split: elicitation.split)

lemma consent_given:
  "ConfirmAction ask confirmed p = None \<longleftrightarrow> confirmed \<or> ask p = Answered ''accept''"
  by (auto simp: ConfirmAction_def split: elicitation.split)

text \<open>What a call looks at before it asks: where the messages would go, or the message to answer.\<close>

definition glance_plan :: "'w service \<Rightarrow> 'a target_input_scheme \<Rightarrow> 'w \<Rightarrow> 'w" where
  "glance_plan s inp w =
     (case batchIDsLimit (in_ID inp) (in_IDs inp) (service_BulkLimit s w) of
        Inl e \<Rightarrow> w
      | Inr _ \<Rightarrow> snd (service_CurationPlan s (in_Account inp) (in_Folder inp) w))"

definition glance_original ::
  "mail_lib \<Rightarrow> 'w server \<Rightarrow> string \<Rightarrow> string \<Rightarrow> string \<Rightarrow> 'w \<Rightarrow> 'w" where
  "glance_original lib sv account folder i w =
     (case srv_outbox sv of
        None \<Rightarrow> w
      | Some ob \<Rightarrow> snd (service_Read (srv_service sv) account folder i w))"

fun glance :: "mail_lib \<Rightarrow> 'w server \<Rightarrow> tool_call \<Rightarrow> 'w \<Rightarrow> 'w" where
  "glance lib sv (ToolArchive inp) w = glance_plan (srv_service sv) inp w"
| "glance lib sv (ToolDelete inp) w = glance_plan (srv_service sv) inp w"
| "glance lib sv (ToolReply req confirmed) w =
     glance_original lib sv (rq_Account req) (rq_Folder req) (rq_ID req) w"
| "glance lib sv (ToolForward req confirmed) w =
     glance_original lib sv (fw_Account req) (fw_Folder req) (fw_ID req) w"
| "glance lib sv call w = w"

lemma PlanReply_world:
  "snd (PlanReply lib c req w) = snd (service_Read (svc c) (rq_Account req) (rq_Folder req) (rq_ID req) w)"
  by (auto simp: PlanReply_def original_of_def split: prod.split sum.split)

lemma PlanForward_world:
  "snd (PlanForward lib c req w) = snd (service_Read (svc c) (fw_Account req) (fw_Folder req) (fw_ID req) w)"
  by (auto simp: PlanForward_def original_of_def split: prod.split sum.split)

lemma curate_without_consent:
  assumes "\<And>p. ask p \<noteq> Answered ''accept''" "\<not> in_Confirm inp"
  shows "\<exists>e. curate ask s inp action verb one many w = (Inl e, glance_plan s inp w)"
proof -
  obtain d w1 where d: "curationDestination s False (in_Account inp) (in_Folder inp) action w = (d, w1)"
    by force
  have "w1 = snd (service_CurationPlan s (in_Account inp) (in_Folder inp) w)"
    using d by (auto simp: curationDestination_def split: prod.splits sum.splits)
  with d assms(2) refused_without_consent [OF assms(1)]
  show ?thesis
    by (auto simp: curate_def named_def glance_plan_def confirmCuration_def split: sum.split prod.split)
qed

lemma queue_without_consent:
  assumes "\<And>p. ask p \<noteq> Answered ''accept''"
  shows "\<exists>e. queue_message lib rnd ask c False kind msg w = (Inl e, w)"
  using refused_without_consent [OF assms]
  by (auto simp: queue_message_def confirmSend_def split: option.split)

lemma stopped_without_consent:
  assumes "asks_first call" "\<not> vouched call" "\<And>p. ask p \<noteq> Answered ''accept''"
  shows "\<exists>e. call_tool t rnd ask cx sv call w = (Inl e, glance (tl_mail t) sv call w)"
proof (cases call)
  case (ToolMove inp)
  with assms(2) refused_without_consent [OF assms(3)]
  show ?thesis
    by (auto simp: h_move_def named_def confirmCuration_def split: sum.split prod.split)
next
  case (ToolArchive inp)
  with assms(2) curate_without_consent [OF assms(3)] show ?thesis by (simp add: h_archive_def)
next
  case (ToolDelete inp)
  with assms(2) curate_without_consent [OF assms(3)] show ?thesis by (simp add: h_delete_def)
next
  case (ToolFolderCreate inp)
  with assms(2) refused_without_consent [OF assms(3)]
  show ?thesis by (auto simp: h_folder_create_def confirmFolder_def)
next
  case (ToolFolderDelete inp)
  with assms(2) refused_without_consent [OF assms(3)]
  show ?thesis by (auto simp: h_folder_delete_def confirmFolder_def)
next
  case (ToolSend inp)
  with assms(2) queue_without_consent [OF assms(3)] show ?thesis
    by (cases "srv_outbox sv") (auto simp: with_outbox_def h_send_def)
next
  case (ToolReply req confirmed)
  show ?thesis
  proof (cases "srv_outbox sv")
    case (Some ob)
    let ?c = "\<lparr>svc = srv_service sv, outbox_of = ob\<rparr>"
    obtain r w1 where r: "PlanReply (tl_mail t) ?c req w = (r, w1)" by force
    have "w1 = snd (service_Read (srv_service sv) (rq_Account req) (rq_Folder req) (rq_ID req) w)"
      using PlanReply_world [of "tl_mail t" ?c req w] r by simp
    with r ToolReply Some assms(2) queue_without_consent [OF assms(3)] show ?thesis
      by (cases r) (auto simp: with_outbox_def h_reply_def glance_original_def)
  qed (use ToolReply in \<open>simp add: with_outbox_def glance_original_def\<close>)
next
  case (ToolForward req confirmed)
  show ?thesis
  proof (cases "srv_outbox sv")
    case (Some ob)
    let ?c = "\<lparr>svc = srv_service sv, outbox_of = ob\<rparr>"
    obtain r w1 where r: "PlanForward (tl_mail t) ?c req w = (r, w1)" by force
    have "w1 = snd (service_Read (srv_service sv) (fw_Account req) (fw_Folder req) (fw_ID req) w)"
      using PlanForward_world [of "tl_mail t" ?c req w] r by simp
    with r ToolForward Some assms(2) queue_without_consent [OF assms(3)] show ?thesis
      by (cases r) (auto simp: with_outbox_def h_forward_def glance_original_def)
  qed (use ToolForward in \<open>simp add: with_outbox_def glance_original_def\<close>)
qed (use assms(1) in simp_all)

text \<open>C7: A call that asks first, for which the caller does not vouch and which the user does not accept, fails: nothing has happened beyond looking at the destinations or at the message to answer.\<close>

theorem nothing_happens_without_consent:
  assumes "asks_first call" "\<not> vouched call" "\<And>p. ask p \<noteq> Answered ''accept''"
  shows "\<exists>e. call_tool t rnd ask cx sv call w = (Inl e, glance (tl_mail t) sv call w)"
  using assms by (rule stopped_without_consent)

theorem nothing_happens_without_consent_witness:
  "\<exists>e. call_tool toy_tools (Inr ''id1'') silent (\<lambda>w. None) toy_server (ToolDelete (toy_curation ''m1'' []))
         [''m1''] = (Inl e, [''m1''])"
proof -
  have "asks_first (ToolDelete (toy_curation ''m1'' []))" "\<not> vouched (ToolDelete (toy_curation ''m1'' []))"
    "silent p \<noteq> Answered ''accept''" for p
    by (simp_all add: toy_curation_def silent_def)
  note nothing_happens_without_consent [OF this, where t = toy_tools and rnd = "Inr ''id1''" and
      cx = "\<lambda>w. None" and sv = toy_server and w = "[''m1'']"]
  moreover have "glance (tl_mail toy_tools) toy_server (ToolDelete (toy_curation ''m1'' [])) [''m1''] = [''m1'']"
    by code_simp
  ultimately show ?thesis by simp
qed

subsection \<open>What the consent covers\<close>

text \<open>The message a sending tool is about to queue, with the word the question uses for it.\<close>

fun about_to_send :: "mail_lib \<Rightarrow> 'w composer \<Rightarrow> tool_call \<Rightarrow> ('w, string \<times> outbound_message) effect" where
  "about_to_send lib c (ToolSend inp) w = (Inr (''email'', message_of_input inp), w)"
| "about_to_send lib c (ToolReply req confirmed) w =
     (case PlanReply lib c req w of (Inl e, w1) \<Rightarrow> (Inl e, w1) | (Inr m, w1) \<Rightarrow> (Inr (''reply'', m), w1))"
| "about_to_send lib c (ToolForward req confirmed) w =
     (case PlanForward lib c req w of (Inl e, w1) \<Rightarrow> (Inl e, w1) | (Inr m, w1) \<Rightarrow> (Inr (''forward'', m), w1))"
| "about_to_send lib c call w = (Inl (Failure ''not a message''), w)"

definition sends :: "tool_call \<Rightarrow> bool" where
  "sends call \<longleftrightarrow>
     (case call of ToolSend _ \<Rightarrow> True | ToolReply _ _ \<Rightarrow> True | ToolForward _ _ \<Rightarrow> True | _ \<Rightarrow> False)"

lemma sending_tool:
  assumes "sends call" "srv_outbox sv = Some ob"
  shows "call_tool t rnd ask cx sv call w =
    (case about_to_send (tl_mail t) \<lparr>svc = srv_service sv, outbox_of = ob\<rparr> call w of
       (Inl e, w1) \<Rightarrow> (Inl e, w1)
     | (Inr (kind, msg), w1) \<Rightarrow>
         queue_message (tl_mail t) rnd ask \<lparr>svc = srv_service sv, outbox_of = ob\<rparr> (vouched call) kind msg w1)"
  using assms
  by (cases call)
    (auto simp: sends_def with_outbox_def h_send_def h_reply_def h_forward_def
          split: sum.split prod.split)

text \<open>C8: A message that is queued without the caller vouching for it was shown to the user first, whole as it is queued: the question they accepted states the number of people it reaches, the number of hidden copies and the subject.\<close>

theorem consent_covers_what_is_queued:
  assumes "sends call" "srv_outbox sv = Some ob" "\<not> vouched call"
    and "call_tool t rnd ask cx sv call w = (Inr out, w2)"
  shows "\<exists>kind msg w1 i q.
    about_to_send (tl_mail t) \<lparr>svc = srv_service sv, outbox_of = ob\<rparr> call w = (Inr (kind, msg), w1) \<and>
    q = send_prompt (tl_mail t) kind msg \<and> ask q = Answered ''accept'' \<and>
    Num (int (length (Recipients (tl_mail t) msg))) \<in> set q \<and> Str (om_Subject msg) \<in> set q \<and>
    (om_Bcc msg \<noteq> [] \<longrightarrow> Num (int (length (om_Bcc msg))) \<in> set q) \<and>
    Enqueue (tl_mail t) rnd ob msg w1 = (Inr i, w2) \<and>
    out = JObj [(''id'', JStr i), (''state'', JStr ''queued'')]"
proof -
  let ?c = "\<lparr>svc = srv_service sv, outbox_of = ob\<rparr>"
  obtain r w1 where r: "about_to_send (tl_mail t) ?c call w = (r, w1)" by force
  note run = assms(4) [unfolded sending_tool [OF assms(1,2)] r]
  obtain kind msg where km: "r = Inr (kind, msg)" using run by (cases r) auto
  have q: "queue_message (tl_mail t) rnd ask ?c False kind msg w1 = (Inr out, w2)"
    using run assms(3) by (simp add: km)
  then have acc: "ask (send_prompt (tl_mail t) kind msg) = Answered ''accept''"
    by (auto simp: queue_message_def confirmSend_def consent_given split: option.splits)
  then obtain i where i: "Enqueue (tl_mail t) rnd ob msg w1 = (Inr i, w2)"
    "out = JObj [(''id'', JStr i), (''state'', JStr ''queued'')]"
    using q by (auto simp: queue_message_def confirmSend_def consent_given composer_Send_def
        split: option.splits prod.splits sum.splits)
  show ?thesis
    using r km acc i
    by (intro exI [of _ kind] exI [of _ msg] exI [of _ w1] exI [of _ i]
        exI [of _ "send_prompt (tl_mail t) kind msg"]) (simp add: send_prompt_def Let_def bccWarning_def)
qed

definition toy_note :: send_input where
  "toy_note = \<lparr>se_To = [''you@x''], se_Subject = ''hi'', se_Body = ''there'', se_CC = [], se_BCC = [''she@x''],
               se_HTMLBody = [], se_Attachments = [], se_Confirm = False\<rparr>"

theorem consent_covers_what_is_queued_witness:
  "\<exists>kind msg w1 i q out.
     about_to_send plain_mail toy_composer (ToolSend toy_note) [''m1''] = (Inr (kind, msg), w1) \<and>
     q = send_prompt plain_mail kind msg \<and> agreeing q = Answered ''accept'' \<and>
     Enqueue plain_mail (Inr ''id1'') (outbox_of toy_composer) msg w1 = (Inr i, [''m1'']) \<and>
     out = JObj [(''id'', JStr i), (''state'', JStr ''queued'')]"
proof -
  let ?call = "ToolSend toy_note"
  have "Validate plain_mail (message_of_input toy_note) = None"
    by (simp add: Validate_def message_of_input_def toy_note_def empty_message_def
        Recipients_def ValidateAddress_def contains_any_def line_breaks_def plain_mail_def MaxMessageBytes_def)
  then have "case call_tool toy_tools (Inr ''id1'') agreeing (\<lambda>w. None) toy_server ?call [''m1''] of
      (r, w) \<Rightarrow> \<not> isl r \<and> w = [''m1'']"
    by (simp add: with_outbox_def h_send_def queue_message_def confirmSend_def ConfirmAction_def agreeing_def
        composer_Send_def Enqueue_def toy_server_def toy_composer_def toy_tools_def NewOutbox_def)
  from succeeded [OF this] obtain out where run:
    "call_tool toy_tools (Inr ''id1'') agreeing (\<lambda>w. None) toy_server ?call [''m1''] = (Inr out, [''m1''])" ..
  have s: "sends ?call" "srv_outbox toy_server = Some (outbox_of toy_composer)" "\<not> vouched ?call"
    by (simp_all add: sends_def toy_note_def toy_server_def)
  have t: "tl_mail toy_tools = plain_mail" by (simp add: toy_tools_def)
  have c: "\<lparr>svc = srv_service toy_server, outbox_of = outbox_of toy_composer\<rparr> = toy_composer"
    by (simp add: toy_server_def)
  show ?thesis
    using consent_covers_what_is_queued [OF s run, unfolded t c]
    by (elim exE conjE) (intro exI conjI, assumption+)
qed

subsection \<open>Naming the messages\<close>

text \<open>What a call on messages names: one id, or a list of ids.\<close>

fun names :: "tool_call \<Rightarrow> (string \<times> ids) option" where
  "names (ToolFetch inp) = Some (in_ID inp, in_IDs inp)"
| "names (ToolMarkSeen inp) = Some (in_ID inp, in_IDs inp)"
| "names (ToolMove inp) = Some (in_ID inp, in_IDs inp)"
| "names (ToolArchive inp) = Some (in_ID inp, in_IDs inp)"
| "names (ToolDelete inp) = Some (in_ID inp, in_IDs inp)"
| "names call = None"

lemma named_refused:
  "batchIDsLimit (in_ID inp) (in_IDs inp) (service_BulkLimit s w) = Inl e \<Longrightarrow> named s inp f w = (Inl e, w)"
  by (simp add: named_def)

text \<open>C34: A call that names no message, names it both ways, or names a list that is too long or repeats an id is refused as it stands: nobody is asked and the mailbox is not touched.  Every other call goes on with exactly the ids it names.\<close>

theorem unclear_requests_ask_nobody:
  assumes "names call = Some (i, is)"
  shows "(\<exists>e. \<forall>ask. call_tool t rnd ask cx sv call w = (Inl e, w)) \<or>
         (i \<noteq> [] \<and> is = [] \<and> batchIDsLimit i is (service_BulkLimit (srv_service sv) w) = Inr ([i], False)) \<or>
         (i = [] \<and> is \<noteq> [] \<and> distinct is \<and>
          int (length is) \<le> effective_limit (service_BulkLimit (srv_service sv) w) \<and>
          batchIDsLimit i is (service_BulkLimit (srv_service sv) w) = Inr (is, True))"
proof (cases "batchIDsLimit i is (service_BulkLimit (srv_service sv) w)")
  case (Inl e)
  with assms have "call_tool t rnd ask cx sv call w = (Inl e, w)" for ask
    by (cases call) (auto simp: h_fetch_def h_mark_seen_def h_move_def h_archive_def h_delete_def
        curate_def named_refused)
  then show ?thesis by blast
next
  case (Inr r)
  then show ?thesis
    by (auto simp: batchIDsLimit_def check_simps split: if_splits option.splits)
qed

theorem unclear_requests_ask_nobody_witness:
  "\<exists>e. \<forall>ask. call_tool toy_tools (Inr ''id1'') ask (\<lambda>w. None) toy_server
     (ToolArchive (toy_curation ''m1'' [''m2''])) [''m1'', ''m2''] = (Inl e, [''m1'', ''m2''])"
  using unclear_requests_ask_nobody [of "ToolArchive (toy_curation ''m1'' [''m2''])" "''m1''" "[''m2'']"]
  by (auto simp: toy_curation_def)

subsection \<open>Reading\<close>

text \<open>
  What the reading tools rely on: resolving a mailbox and every reading operation of a resolved
  one leave the view of the world as it was.
\<close>

locale reading_service =
  fixes s :: "'w service" and view :: "'w \<Rightarrow> 'v"
  assumes resolve_reads: "keeps_view view (Resolve s account folder)"
    and reader: "Resolve s account folder w = (Inr box, w1) \<Longrightarrow> reading_ports (ops box) view"
    and sender_reads: "Resolve s account folder w = (Inr box, w1) \<Longrightarrow> SenderSearcher (ops box) = Some se \<Longrightarrow>
                       keeps_view view (se scope query author)"
    and lister_reads: "Resolve s account folder w = (Inr box, w1) \<Longrightarrow> FolderLister (ops box) = Some fl \<Longrightarrow>
                       keeps_view view fl"
    and inspector_reads: "Resolve s account folder w = (Inr box, w1) \<Longrightarrow>
                          CurationInspector (ops box) = Some ci \<Longrightarrow> keeps_view view ci"
begin

lemma through:
  assumes "\<And>box w1. Resolve s account folder w = (Inr box, w1) \<Longrightarrow> view (snd (g box w1)) = view w1"
  shows "view (snd (case Resolve s account folder w of
                      (Inl e, w1) \<Rightarrow> (Inl e, w1) | (Inr box, w1) \<Rightarrow> g box w1)) = view w"
proof -
  obtain r w1 where r: "Resolve s account folder w = (r, w1)" by force
  with keeps_viewD [OF resolve_reads r] assms show ?thesis by (cases r) auto
qed

lemma box_reads:
  assumes "Resolve s account folder w = (Inr box, w1)"
  shows "view (snd (listMailbox box scope v)) = view v"
    and "view (snd (searchMailbox cx box scope query v)) = view v"
    and "view (snd (searchFromFallback cx box scope query author v)) = view v"
    and "view (snd (fetchMany cx box is limit v)) = view v"
    and "view (snd (FetchOp (ops box) i v)) = view v"
    and "BatchHeaderFetcher (ops box) = Some hf \<Longrightarrow> view (snd (hf is v)) = view v"
  using reading_ports.listMailbox_reads [OF reader [OF assms], of "in_folder box" scope]
    reading_ports.searchMailbox_reads [OF reader [OF assms], of cx "in_folder box" scope query]
    reading_ports.searchFromFallback_reads [OF reader [OF assms], of cx "in_folder box" scope query author]
    reading_ports.fetchMany_reads [OF reader [OF assms], of cx "in_folder box" "is" limit]
    reading_ports.reads_fetch [OF reader [OF assms], of i]
    reading_ports.reads_headers [OF reader [OF assms], of hf "is"]
  by (simp_all add: keeps_view_def)

lemma list_reads: "view (snd (service_List s account folder scope w)) = view w"
  by (auto simp: service_List_def intro!: through box_reads split: sum.split)

lemma search_reads: "view (snd (service_SearchScope cx s account folder query scope w)) = view w"
  by (auto simp: service_SearchScope_def intro!: through box_reads split: sum.split)

lemma read_reads: "view (snd (service_Read s account folder i w)) = view w"
  unfolding service_Read_def by (intro through box_reads)

lemma read_many_reads: "view (snd (service_ReadMany cx s account folder is w)) = view w"
proof -
  obtain r w1 where r: "Resolve s account folder w = (r, w1)" by force
  with keeps_viewD [OF resolve_reads r] box_reads(4) show ?thesis
    by (cases r) (auto simp: service_ReadMany_def)
qed

lemma folders_reads: "view (snd (service_Folders s account w)) = view w"
  unfolding service_Folders_def
  by (rule through) (auto dest!: lister_reads simp: keeps_view_def split: option.split)

lemma plan_reads: "view (snd (service_CurationPlan s account folder w)) = view w"
  unfolding service_CurationPlan_def
  by (rule through) (auto dest!: inspector_reads simp: keeps_view_def split: option.split)

lemma page_reads: "view (snd (messagePage s account folder scope is offset limit hs w)) = view w"
proof -
  have h: "view (snd (case Resolve s account folder w of
      (Inl e, w1) \<Rightarrow> (Inl e, w1)
    | (Inr box, w1) \<Rightarrow>
        (case BatchHeaderFetcher (ops box) of
           None \<Rightarrow> (Inl (Failure ''backend cannot fetch message headers in a batch''), w1)
         | Some f \<Rightarrow>
             (case f ids w1 of
                (ans, w2) \<Rightarrow>
                  (case headers_in_order ans ids of
                     Inl e \<Rightarrow> (Inl e, w2)
                   | Inr ms \<Rightarrow> (Inr (p\<lparr>IDs := ids, Messages := ms\<rparr>), w2)))))) = view w" for ids and p :: message_page
  proof (rule through)
    fix box w1 assume r: "Resolve s account folder w = (Inr box, w1)"
    show "view (snd (case BatchHeaderFetcher (ops box) of
        None \<Rightarrow> (Inl (Failure ''backend cannot fetch message headers in a batch''), w1)
      | Some f \<Rightarrow>
          (case f ids w1 of
             (ans, w2) \<Rightarrow>
               (case headers_in_order ans ids of
                  Inl e \<Rightarrow> (Inl e, w2)
                | Inr ms \<Rightarrow> (Inr (p\<lparr>IDs := ids, Messages := ms\<rparr>), w2))))) = view w1"
    proof (cases "BatchHeaderFetcher (ops box)")
      case (Some f)
      obtain ans w2 where f: "f ids w1 = (ans, w2)" by (metis surj_pair)
      with box_reads(6) [OF r Some, of ids w1] Some show ?thesis by (simp split: sum.split)
    qed simp
  qed
  show ?thesis using h by (simp add: messagePage_def Let_def split: sum.split)
qed

lemma pages_read:
  "view (snd (ListMessages s account folder scope offset limit hs w)) = view w"
  "view (snd (SearchMessages cx s account folder query scope offset limit hs w)) = view w"
  using list_reads [of account folder scope w] search_reads [of cx account folder query scope w]
  by (auto simp: ListMessages_def SearchMessages_def page_reads split: prod.split sum.split)

lemma search_from_reads:
  "view (snd (SearchMessagesFrom cx s account folder query author scope offset limit hs w)) = view w"
proof (cases "trim_space author = []")
  case True
  then show ?thesis by (simp add: SearchMessagesFrom_def pages_read)
next
  case False
  have "view (snd (case (case SenderSearcher (ops box) of
            Some f \<Rightarrow> f scope query author w1
          | None \<Rightarrow> searchFromFallback cx box scope query author w1) of
       (Inl e, w2) \<Rightarrow> (Inl e, w2)
     | (Inr filtered, w2) \<Rightarrow> messagePage s account folder scope filtered offset limit hs w2)) = view w1"
    if r: "Resolve s account folder w = (Inr box, w1)" for box w1
  proof -
    obtain x w2 where x: "(case SenderSearcher (ops box) of
            Some f \<Rightarrow> f scope query author w1
          | None \<Rightarrow> searchFromFallback cx box scope query author w1) = (x, w2)" by (metis surj_pair)
    have "view w2 = view w1"
      using x sender_reads [OF r] box_reads(3) [OF r, of cx scope query author w1]
      by (auto simp: keeps_view_def split: option.splits) (metis snd_conv)
    with x show ?thesis by (cases x) (simp_all add: page_reads)
  qed
  with False show ?thesis unfolding SearchMessagesFrom_def by (simp only: if_False) (rule through)
qed

end

text \<open>The tools that only read, and do not look at the outbox.\<close>

definition only_reads :: "tool_call \<Rightarrow> bool" where
  "only_reads call \<longleftrightarrow>
     (case call of ToolList _ \<Rightarrow> True | ToolListUnread _ \<Rightarrow> True | ToolFetch _ \<Rightarrow> True
      | ToolSearch _ \<Rightarrow> True | ToolFolderList _ \<Rightarrow> True | _ \<Rightarrow> False)"

context reading_service
begin

lemma reading_tool_reads:
  assumes "only_reads call" "srv_service sv = s"
  shows "view (snd (call_tool t rnd ask cx sv call w)) = view w"
proof (cases call)
  case (ToolList inp)
  with assms pages_read(1) [of "li_Account inp" "li_Folder inp" "li_Scope inp" "li_Offset inp" "li_Limit inp"
      "li_IncludeHeaders inp" w] show ?thesis by (auto simp: h_list_def split: prod.split sum.split)
next
  case (ToolListUnread inp)
  with assms pages_read(1) [of "li_Account inp" "li_Folder inp" "[]" "li_Offset inp" "li_Limit inp"
      "li_IncludeHeaders inp" w] show ?thesis
    by (auto simp: h_list_unread_def h_list_def split: prod.split sum.split)
next
  case (ToolFetch inp)
  have "view (snd (answered f (service_ReadMany cx s a fo is w))) = view w" for f a fo "is"
    using read_many_reads [of cx a fo "is" w] by (auto simp: answered_def split: prod.split option.split)
  with ToolFetch assms read_reads [of "in_Account inp" "in_Folder inp" _ w] show ?thesis
    by (auto simp: h_fetch_def named_def split: prod.split sum.split) (metis snd_conv)+
next
  case (ToolSearch inp)
  with assms search_from_reads [of cx "li_Account inp" "li_Folder inp" "si_Query inp" "si_From inp"
      "li_Scope inp" "li_Offset inp" "li_Limit inp" "li_IncludeHeaders inp" w] show ?thesis
    by (auto simp: h_search_def split: prod.split sum.split)
next
  case (ToolFolderList a)
  with assms folders_reads [of a w] show ?thesis
    by (auto simp: h_folder_list_def split: prod.split sum.split)
qed (use assms(1) in \<open>simp_all add: only_reads_def\<close>)

lemma glance_reads: "srv_service sv = s \<Longrightarrow> view (glance lib sv call w) = view w"
  by (cases call) (auto simp: glance_plan_def glance_original_def plan_reads read_reads
      split: sum.split option.split)

end

subsection \<open>Over a Maildir\<close>

text \<open>The mail of a disk: its files with their contents, whatever directories there are.\<close>

definition files :: "disk \<Rightarrow> path \<Rightarrow> bytes option" where
  "files w p = (case look w p of Some (File c) \<Rightarrow> Some c | _ \<Rightarrow> None)"

lemma files_look: "look w' = look w \<Longrightarrow> files w' = files w"
  by (simp add: fun_eq_iff files_def)

lemma files_dirs_added:
  assumes "dirs_added w w'"
  shows "files w' = files w"
proof
  fix p
  from assms have "look w' p = look w p \<or> look w p = None \<and> look w' p = Some Dir"
    unfolding dirs_added_def by blast
  then show "files w' p = files w p" by (auto simp: files_def)
qed

lemma reads_files: "reads f \<Longrightarrow> keeps_view files f"
  unfolding keeps_view_def by (blast intro: files_look)

lemma folders_loop_reads: "look (snd (folders_loop root es w)) = look w"
proof (induction root es w rule: folders_loop.induct)
  case (2 root n d es w)
  show ?case
  proof (cases "folder_name n d")
    case None
    with 2(1) show ?thesis by simp
  next
    case (Some name)
    obtain st w1 where st: "Stat (root @ [n, ''new'']) w = (st, w1)" by force
    from 2(2) [OF Some st [symmetric]] call_reads(1) [OF st] Some st show ?thesis
      by (cases "folders_loop root es w1") (simp split: sum.split)
  qed
qed simp

lemma Folders_reads: "reads (Folders cx m)"
  unfolding Folders_def
  by (rule door_reads, rule readsI)
    (auto dest!: call_reads(3) split: sum.splits prod.splits, (metis folders_loop_reads snd_conv)+)

lemma CurationPlan_reads: "reads (CurationPlan cx m)"
  unfolding CurationPlan_def by (rule door_reads) (simp add: keeps_view_def)

lemma folder_box_files: "keeps_view files (folder_box m root)"
  unfolding keeps_view_def
proof
  fix w :: disk
  obtain r w1 where d: "make_dirs [root @ [''new''], root @ [''cur'']] w = (r, w1)" by (metis surj_pair)
  then have "files w1 = files w" using make_dirs_law files_dirs_added by blast
  with d show "files (snd (folder_box m root w)) = files w"
    by (simp add: folder_box_def NewWithBulkLimit_def del: make_dirs.simps split: sum.split)
qed

lemma InFolder_files: "keeps_view files (InFolder cx m name)"
  using folder_box_files
  by (auto simp: InFolder_def at_the_door_def keeps_view_def split: option.split)

text \<open>A service whose mailbox and accounts are all local.\<close>

definition maildir_service ::
  "mail_lib \<Rightarrow> int64 \<Rightarrow> disk ctx \<Rightarrow> maildir \<Rightarrow> (string \<times> maildir) list \<Rightarrow> disk \<Rightarrow> disk service" where
  "maildir_service lib ds cx m ms w =
     NewService (maildir_mailbox lib ds cx m) (map (\<lambda>(n, m). (n, maildir_mailbox lib ds cx m)) ms) w"

lemma maildir_service_simps:
  "mailbox (maildir_service lib ds cx m ms w) = maildir_mailbox lib ds cx m"
  "map_of (accounts (maildir_service lib ds cx m ms w)) a = map_option (maildir_mailbox lib ds cx) (map_of ms a)"
  by (simp_all add: maildir_service_def NewService_def map_of_map)

lemma maildir_resolves:
  assumes "Resolve (maildir_service lib ds cx m ms w0) account folder w = (r, w1)"
  shows "files w1 = files w" "r = Inr box \<Longrightarrow> \<exists>m'. ops box = maildir_ports lib ds cx m'"
proof -
  have "files w1 = files w \<and> (\<forall>box. r = Inr box \<longrightarrow> (\<exists>m'. ops box = maildir_ports lib ds cx m'))"
  proof (cases "if account \<noteq> [] then map_of ms account else Some m")
    case None
    with assms show ?thesis by (auto simp: Resolve_def maildir_service_simps split: if_splits)
  next
    case (Some m1)
    then have b: "(if account \<noteq> [] then map_of (accounts (maildir_service lib ds cx m ms w0)) account
        else Some (mailbox (maildir_service lib ds cx m ms w0))) = Some (maildir_mailbox lib ds cx m1)"
      by (auto simp: maildir_service_simps split: if_splits)
    show ?thesis
    proof (cases "folder = []")
      case True
      with assms b show ?thesis by (auto simp: Resolve_def maildir_mailbox_def)
    next
      case False
      obtain x w2 where x: "InFolder cx m1 folder w = (x, w2)" by force
      from keeps_viewD [OF InFolder_files x] assms b x False show ?thesis
        by (auto simp: Resolve_def maildir_mailbox_def split: sum.splits)
    qed
  qed
  then show "files w1 = files w" "r = Inr box \<Longrightarrow> \<exists>m'. ops box = maildir_ports lib ds cx m'" by auto
qed

lemma maildir_reader: "reading_ports (maildir_ports lib ds cx m) files"
  by unfold_locales (auto simp: maildir_ports_def ListUnread_def [abs_def] Search_def [abs_def]
    intro!: reads_files List_reads Fetch_reads SearchScope_reads Sizes_reads FetchHeadersMany_reads)

lemma maildir_looks:
  "SenderSearcher (maildir_ports lib ds cx m) = Some se \<Longrightarrow> keeps_view files (se scope query author)"
  "FolderLister (maildir_ports lib ds cx m) = Some fl \<Longrightarrow> keeps_view files fl"
  "CurationInspector (maildir_ports lib ds cx m) = Some ci \<Longrightarrow> keeps_view files ci"
  using reads_files [OF SearchFromScope_reads] reads_files [OF Folders_reads] reads_files [OF CurationPlan_reads]
  by (auto simp: maildir_ports_def)

interpretation local: reading_service "maildir_service lib ds cx m ms w0" files
  for lib ds cx m ms w0
proof (rule reading_service.intro)
  fix account folder w box w1
  let ?s = "maildir_service lib ds cx m ms w0"
  show "keeps_view files (Resolve ?s account folder)"
    unfolding keeps_view_def using maildir_resolves(1) by (metis prod.collapse)
  assume "Resolve ?s account folder w = (Inr box, w1)"
  from maildir_resolves(2) [OF this refl] obtain m' where m': "ops box = maildir_ports lib ds cx m'" by blast
  show "reading_ports (ops box) files" unfolding m' by (rule maildir_reader)
  show "SenderSearcher (ops box) = Some se \<Longrightarrow> keeps_view files (se scope query author)" for se scope query author
    unfolding m' by (rule maildir_looks)
  show "FolderLister (ops box) = Some fl \<Longrightarrow> keeps_view files fl" for fl
    unfolding m' by (rule maildir_looks)
  show "CurationInspector (ops box) = Some ci \<Longrightarrow> keeps_view files ci" for ci
    unfolding m' by (rule maildir_looks)
qed

text \<open>C35: Over local mailboxes, a call of a tool that only reads, and a call that the user neither approved nor the caller vouched for, leave every file of the disk as it was.\<close>

theorem unapproved_calls_leave_every_file:
  assumes "srv_service sv = maildir_service lib ds cx m ms w0"
    and "only_reads call \<or> asks_first call \<and> \<not> vouched call \<and> (\<forall>p. ask p \<noteq> Answered ''accept'')"
  shows "files (snd (call_tool t rnd ask cx sv call w)) = files w"
  using assms(2)
proof
  assume "only_reads call"
  with assms(1) show ?thesis by (intro local.reading_tool_reads) auto
next
  assume c: "asks_first call \<and> \<not> vouched call \<and> (\<forall>p. ask p \<noteq> Answered ''accept'')"
  show ?thesis
    using c stopped_without_consent [of call ask t rnd cx sv w] local.glance_reads [OF assms(1)] by force
qed

definition toy_local :: "disk server" where
  "toy_local = \<lparr>srv_service = maildir_service plain_mail 0 no_deadline toy_maildir [] (toy_disk []),
                srv_outbox = None\<rparr>"

theorem unapproved_calls_leave_every_file_witness:
  "files (snd (call_tool toy_tools (Inr ''id1'') silent no_deadline toy_local
     (ToolDelete (toy_curation ''b'' [])) (toy_disk []))) = files (toy_disk [])"
  using unapproved_calls_leave_every_file [of toy_local plain_mail 0 no_deadline toy_maildir "[]" "toy_disk []"
      "ToolDelete (toy_curation ''b'' [])" silent]
  by (simp add: toy_local_def toy_curation_def silent_def)

subsection \<open>A folder by the way\<close>

text \<open>Directories are another matter: a folder that a reading call names is created when it is not there, although creating one is a tool of its own that asks first.\<close>

definition look_into :: "string \<Rightarrow> list_input" where
  "look_into folder = \<lparr>li_Scope = [], li_Folder = folder, li_Account = [], li_Limit = 0, li_Offset = 0,
                       li_IncludeHeaders = False\<rparr>"

lemma listing_creates_the_folder:
  "case call_tool toy_tools (Inl (Failure [])) silent no_deadline toy_local (ToolList (look_into ''Elsewhere''))
          (toy_disk []) of
     (r, w) \<Rightarrow> \<not> isl r \<and> look (toy_disk []) [''r'', ''Elsewhere''] = None \<and>
              look w [''r'', ''Elsewhere'', ''new''] = Some Dir"
  by code_simp

end
