(* ===== verification/Resource_Safety.thy ===== *)
theory Resource_Safety
  imports Resources Tool_Safety
begin

section \<open>Resources and prompts only read\<close>

text \<open>
  Beyond what the reading tools rely on, the resources describe single messages and what the
  backend can do; those two operations leave the view of the world as it was as well.
\<close>

locale describing_service = reading_service +
  assumes describer_reads: "Resolve s account folder w = (Inr box, w1) \<Longrightarrow> HeaderFetcher (ops box) = Some hf \<Longrightarrow>
                            keeps_view view (hf i)"
    and provider_reads: "Resolve s account folder w = (Inr box, w1) \<Longrightarrow> CapabilityProvider (ops box) = Some cp \<Longrightarrow>
                         keeps_view view cp"
begin

lemma headers_reads: "view (snd (ReadHeaders s account folder i w)) = view w"
  unfolding ReadHeaders_def
  by (rule through) (auto dest!: describer_reads simp: keeps_view_def split: option.split)

lemma capabilities_reads: "view (snd (service_CurationCapabilities s account folder w)) = view w"
  unfolding service_CurationCapabilities_def
  by (rule through) (auto dest!: provider_reads simp: keeps_view_def split: option.split)

lemma unread_reads: "view (snd (service_ListUnread s account folder w)) = view w"
  by (simp add: service_ListUnread_def list_reads)

lemma passed_on:
  assumes "view (snd r) = view w"
  shows "view (snd (case r of (Inl e, w1) \<Rightarrow> (Inl e, w1) | (Inr x, w1) \<Rightarrow> (g x, w1))) = view w"
  using assms by (auto split: prod.split sum.split)

lemma folders_shown_reads: "view (snd (read_folders s uri w)) = view w"
proof -
  obtain r w1 where r: "service_Folders s [] w = (r, w1)" by (metis surj_pair)
  with folders_reads [of "[]" w] plan_reads [of "[]" "[]" w1] show ?thesis
    by (auto simp: read_folders_def split: sum.split prod.split)
qed

text \<open>The resources that show mail; the others show the outbox.\<close>

end

definition about_mail :: "resource \<Rightarrow> bool" where
  "about_mail r \<longleftrightarrow> (case r of ResOutbox \<Rightarrow> False | ResQueued i \<Rightarrow> False | _ \<Rightarrow> True)"

context describing_service
begin

lemma resource_reads:
  assumes "about_mail r" "srv_service sv = s"
  shows "view (snd (read_resource enc sv uri r w)) = view w"
proof (cases r)
  case (ResCapabilities account folder)
  with assms capabilities_reads [of account folder w] show ?thesis
    by (auto simp: read_capabilities_def Let_def split: sum.split prod.split)
qed (use assms in \<open>simp_all add: about_mail_def read_inbox_def read_message_def read_headers_def
       passed_on unread_reads read_reads headers_reads folders_shown_reads\<close>)

lemma completion_reads: "view (snd (completeMessageIDs s typed w)) = view w"
proof -
  obtain r w1 where r: "service_List s [] [] ScopeAll w = (r, w1)" by (metis surj_pair)
  with list_reads [of "[]" "[]" ScopeAll w] unread_reads [of "[]" "[]" w1] show ?thesis
    by (auto simp: completeMessageIDs_def split: sum.split prod.split)
qed

lemma embed_loop_reads: "view (snd (embed_loop cx s is w)) = view w"
proof (induction "is" arbitrary: w)
  case (Cons i "is")
  obtain r w1 where r: "service_Read s [] [] i w = (r, w1)" by (metis surj_pair)
  have "view w1 = view w" using read_reads [of "[]" "[]" i w] r by simp
  with r Cons.IH [of w1] show ?case by (auto split: sum.split prod.split)
qed simp

lemma summary_reads: "view (snd (summarize_inbox cx s arg w)) = view w"
proof (cases "summary_count arg")
  case (Inr asked)
  obtain r w1 where r: "service_ListUnread s [] [] w = (r, w1)" by (metis surj_pair)
  have "view w1 = view w" using unread_reads [of "[]" "[]" w] r by simp
  with r Inr embed_loop_reads [of cx _ w1] show ?thesis
    by (auto simp: summarize_inbox_def Let_def split: sum.split prod.split) (metis snd_conv)+
qed (simp add: summarize_inbox_def)

lemma draft_reads: "view (snd (draft_reply s i w)) = view w"
  by (simp add: draft_reply_def passed_on read_reads)

end

lemma maildir_describes:
  "HeaderFetcher (maildir_ports lib ds cx m) = Some hf \<Longrightarrow> keeps_view files (hf i)"
  "CapabilityProvider (maildir_ports lib ds cx m) = Some cp \<Longrightarrow> keeps_view files cp"
proof -
  have "look (snd (FetchHeaders lib cx m i w)) = look w" for w
    by (metis FetchHeaders_reads surj_pair snd_conv)
  then show "HeaderFetcher (maildir_ports lib ds cx m) = Some hf \<Longrightarrow> keeps_view files (hf i)"
    by (auto simp: maildir_ports_def keeps_view_def files_def)
  show "CapabilityProvider (maildir_ports lib ds cx m) = Some cp \<Longrightarrow> keeps_view files cp"
    by (auto simp: maildir_ports_def keeps_view_def CurationCapabilities_def at_the_door_def split: option.split)
qed

interpretation shown: describing_service "maildir_service lib ds cx m ms w0" files
  for lib ds cx m ms w0
proof (rule describing_service.intro, rule local.reading_service_axioms, rule describing_service_axioms.intro)
  fix account folder w box w1
  assume "Resolve (maildir_service lib ds cx m ms w0) account folder w = (Inr box, w1)"
  from maildir_resolves(2) [OF this refl] obtain m' where m': "ops box = maildir_ports lib ds cx m'" by blast
  show "HeaderFetcher (ops box) = Some hf \<Longrightarrow> keeps_view files (hf i)" for hf i
    unfolding m' by (rule maildir_describes)
  show "CapabilityProvider (ops box) = Some cp \<Longrightarrow> keeps_view files cp" for cp
    unfolding m' by (rule maildir_describes)
qed

text \<open>Over local mailboxes, showing mail - as a resource, as hints while an id is typed, or in a prompt - leaves every file of the disk as it was, and so marks no message read.\<close>

theorem showing_mail_changes_no_file:
  assumes "srv_service sv = maildir_service lib ds cx m ms w0"
  shows "(about_mail r \<longrightarrow> files (snd (read_resource enc sv uri r w)) = files w) \<and>
    files (snd (completeMessageIDs (srv_service sv) typed w)) = files w \<and>
    files (snd (summarize_inbox cx (srv_service sv) arg w)) = files w \<and>
    files (snd (draft_reply (srv_service sv) i w)) = files w"
  using shown.resource_reads [OF _ assms] unfolding assms
  by (simp add: shown.completion_reads shown.summary_reads shown.draft_reads)

theorem showing_mail_changes_no_file_witness:
  "files (snd (draft_reply (srv_service toy_local) ''b'' (toy_disk []))) = files (toy_disk [])"
proof -
  have "srv_service toy_local = maildir_service plain_mail 0 no_deadline toy_maildir [] (toy_disk [])"
    by (simp add: toy_local_def)
  from showing_mail_changes_no_file [OF this] show ?thesis by blast
qed


end
