(* ===== verification/Cli.thy ===== *)
theory Cli
  imports Resources
begin

section \<open>The command line (cmd/briefkasten/cli.go)\<close>

text \<open>
  Every command over the use cases the tools call: its flags, what it does, what it prints and the
  code it exits with.  Output is a list of chunks: a text, a question, a document, an error or a
  failed id.  The configuration file, the files to attach, the password hash and the build are
  those of a \<open>shell\<close>.
\<close>

subsection \<open>Flags (package flag)\<close>

record flags =
  fl_folder :: string
  fl_scope :: string
  fl_account :: string
  fl_json :: bool
  fl_curation :: bool
  fl_create :: string
  fl_delete :: string
  fl_yes :: bool
  fl_config :: string
  fl_to :: string
  fl_cc :: string
  fl_bcc :: string
  fl_subject :: string
  fl_body :: string
  fl_html :: string
  fl_all :: bool
  fl_attach :: ids

definition default_flags :: flags where
  "default_flags =
     \<lparr>fl_folder = [], fl_scope = ''unread'', fl_account = [], fl_json = False, fl_curation = False,
      fl_create = [], fl_delete = [], fl_yes = False, fl_config = [], fl_to = [], fl_cc = [], fl_bcc = [],
      fl_subject = [], fl_body = [], fl_html = [], fl_all = False, fl_attach = []\<rparr>"

definition switches :: ids where "switches = [''json'', ''curation'', ''yes'', ''all'']"

definition set_switch :: "string \<Rightarrow> bool \<Rightarrow> flags \<Rightarrow> flags" where
  "set_switch name b fl =
     (if name = ''json'' then fl\<lparr>fl_json := b\<rparr>
      else if name = ''curation'' then fl\<lparr>fl_curation := b\<rparr>
      else if name = ''yes'' then fl\<lparr>fl_yes := b\<rparr>
      else fl\<lparr>fl_all := b\<rparr>)"

definition settings :: ids where
  "settings = [''folder'', ''scope'', ''account'', ''create'', ''delete'', ''config'', ''to'', ''cc'',
               ''bcc'', ''subject'', ''body'', ''html'', ''attach'']"

text \<open>\<open>--attach\<close> is repeatable: \<open>stringList.Set\<close> appends.\<close>

definition set_text :: "string \<Rightarrow> string \<Rightarrow> flags \<Rightarrow> flags" where
  "set_text name v fl =
     (if name = ''folder'' then fl\<lparr>fl_folder := v\<rparr>
      else if name = ''scope'' then fl\<lparr>fl_scope := v\<rparr>
      else if name = ''account'' then fl\<lparr>fl_account := v\<rparr>
      else if name = ''create'' then fl\<lparr>fl_create := v\<rparr>
      else if name = ''delete'' then fl\<lparr>fl_delete := v\<rparr>
      else if name = ''config'' then fl\<lparr>fl_config := v\<rparr>
      else if name = ''to'' then fl\<lparr>fl_to := v\<rparr>
      else if name = ''cc'' then fl\<lparr>fl_cc := v\<rparr>
      else if name = ''bcc'' then fl\<lparr>fl_bcc := v\<rparr>
      else if name = ''subject'' then fl\<lparr>fl_subject := v\<rparr>
      else if name = ''body'' then fl\<lparr>fl_body := v\<rparr>
      else if name = ''html'' then fl\<lparr>fl_html := v\<rparr>
      else fl\<lparr>fl_attach := fl_attach fl @ [v]\<rparr>)"

definition parse_bool :: "string \<Rightarrow> bool option" where
  "parse_bool v =
     (if v \<in> set [''1'', ''t'', ''T'', ''true'', ''TRUE'', ''True''] then Some True
      else if v \<in> set [''0'', ''f'', ''F'', ''false'', ''FALSE'', ''False''] then Some False
      else None)"

text \<open>A name and, after an equals sign, its value.\<close>

definition split_flag :: "string \<Rightarrow> string \<times> string option" where
  "split_flag s =
     (let name = takeWhile (\<lambda>c. c \<noteq> CHR ''='') s in
      (name, if name = s then None else Some (drop (length name + 1) s)))"

text \<open>The first argument that is not a flag ends the flags: it and everything after it are arguments.\<close>

definition is_argument :: "string \<Rightarrow> bool" where
  "is_argument s \<longleftrightarrow> length s < 2 \<or> hd s \<noteq> CHR ''-''"

text \<open>The walk over the arguments, for any set of flags: the switches, the settings that take a value,
  and what each of them sets.\<close>

fun walk_flags ::
  "ids \<Rightarrow> ids \<Rightarrow> (string \<Rightarrow> bool \<Rightarrow> 'f \<Rightarrow> 'f) \<Rightarrow> (string \<Rightarrow> string \<Rightarrow> 'f \<Rightarrow> 'f) \<Rightarrow> 'f \<Rightarrow> ids \<Rightarrow>
   ('f \<times> ids) option" where
  "walk_flags sw st put_switch put_text fl [] = Some (fl, [])"
| "walk_flags sw st put_switch put_text fl (s # rest) =
     (if is_argument s then Some (fl, s # rest)
      else if s = ''--'' then Some (fl, rest)
      else (let name0 = (if s ! 1 = CHR ''-'' then drop 2 s else drop 1 s) in
            if name0 = [] \<or> hd name0 = CHR ''-'' \<or> hd name0 = CHR ''='' then None
            else (case split_flag name0 of
                    (name, val) \<Rightarrow>
                      if name \<in> set sw then
                        (case (case val of None \<Rightarrow> Some True | Some v \<Rightarrow> parse_bool v) of
                           None \<Rightarrow> None
                         | Some b \<Rightarrow> walk_flags sw st put_switch put_text (put_switch name b fl) rest)
                      else if name \<in> set st then
                        (case val of
                           Some v \<Rightarrow> walk_flags sw st put_switch put_text (put_text name v fl) rest
                         | None \<Rightarrow>
                             (case rest of
                                [] \<Rightarrow> None
                              | v # rest' \<Rightarrow> walk_flags sw st put_switch put_text (put_text name v fl) rest'))
                      else None)))"

definition parse_flags :: "flags \<Rightarrow> ids \<Rightarrow> (flags \<times> ids) option" where
  "parse_flags = walk_flags switches settings set_switch set_text"

subsection \<open>The console\<close>

datatype chunk =
    Text string
  | Question "detail list"
  | Doc json
  | Problem error
  | Lost bulk_failure

record outcome =
  exit_code :: nat
  stdout :: "chunk list"
  stderr :: "chunk list"

definition success :: "chunk list \<Rightarrow> 'w \<Rightarrow> outcome \<times> 'w" where
  "success out w = (\<lparr>exit_code = 0, stdout = out, stderr = []\<rparr>, w)"

definition fails :: "error \<Rightarrow> 'w \<Rightarrow> outcome \<times> 'w" where
  "fails e w = (\<lparr>exit_code = 1, stdout = [], stderr = [Problem e]\<rparr>, w)"

definition misuse :: "string \<Rightarrow> 'w \<Rightarrow> outcome \<times> 'w" where
  "misuse usage w = (\<lparr>exit_code = 2, stdout = [], stderr = [Text usage]\<rparr>, w)"

text \<open>What was already on the screen when a step began.\<close>

definition after_out :: "chunk list \<Rightarrow> outcome \<times> 'w \<Rightarrow> outcome \<times> 'w" where
  "after_out cs r = ((fst r)\<lparr>stdout := cs @ stdout (fst r)\<rparr>, snd r)"

definition after_err :: "chunk list \<Rightarrow> outcome \<times> 'w \<Rightarrow> outcome \<times> 'w" where
  "after_err cs r = ((fst r)\<lparr>stderr := cs @ stderr (fst r)\<rparr>, snd r)"

text \<open>\<open>emit\<close>: the text, or with \<open>--json\<close> the document.\<close>

definition emit :: "flags \<Rightarrow> string \<Rightarrow> json \<Rightarrow> chunk list" where
  "emit fl human machine = (if fl_json fl then [Doc machine] else [Text (human @ line_end)])"

definition arg0 :: "ids \<Rightarrow> string" where
  "arg0 args = (case args of [] \<Rightarrow> [] | a # as \<Rightarrow> a)"

text \<open>A command that answers with what its use case returned.\<close>

definition printing :: "('a \<Rightarrow> chunk list) \<Rightarrow> (error + 'a) \<times> 'w \<Rightarrow> outcome \<times> 'w" where
  "printing render r = (case r of (Inl e, w) \<Rightarrow> fails e w | (Inr x, w) \<Rightarrow> success (render x) w)"

text \<open>The input up to the end of its first line; the whole of it when no line ends.\<close>

definition read_line :: "string \<Rightarrow> string" where
  "read_line inp =
     (let l = takeWhile (\<lambda>c. c \<noteq> CHR 0x0A) inp in if l = inp then l else l @ line_end)"

definition askYesNo :: "string \<Rightarrow> bool" where
  "askYesNo inp \<longleftrightarrow> (let answer = to_lower (trim_space (read_line inp)) in answer = ''y'' \<or> answer = ''yes'')"

subsection \<open>Texts\<close>

definition movedWhere :: "string \<Rightarrow> bool \<Rightarrow> detail list" where
  "movedWhere destination many =
     (if destination = []
      then [Str (if many then ''The messages are'' else ''The message is''), Str '' moved, never destroyed.'']
      else [Str (if many then ''They will'' else ''It will''), Str '' be filed into '', Str destination,
            Str '' '', Str dash, Str '' moved, never destroyed.''])"

definition confirmPrompt :: "string \<Rightarrow> ids \<Rightarrow> string \<Rightarrow> detail list" where
  "confirmPrompt action is destination =
     (if length is = 1
      then [Str action, Str '' message '', Str (is ! 0), Str ''? ''] @ movedWhere destination False
      else [Str action, Str '' '', Num (int (length is)), Str '' messages ('', Str (join '', '' is), Str '')? ''] @
           movedWhere destination True)"

definition confirmFolderPrompt :: "string \<Rightarrow> detail list" where
  "confirmFolderPrompt name =
     [Str ''delete folder '', Str name,
      Str (''? Only an empty folder is deleted '' @ dash @ '' one still holding messages is refused with the count, so no mail is destroyed.'')]"

definition describeAudience :: "mail_lib \<Rightarrow> outbound_message \<Rightarrow> string" where
  "describeAudience lib msg =
     (let recipients = Recipients lib msg in
      ''to '' @ decimal (length recipients) @ '' recipient(s)'' @
      (if length (om_Cc msg) > 0 \<or> length (om_Bcc msg) > 0
       then '' ('' @ decimal (length (om_To msg)) @ '' To, '' @ decimal (length (om_Cc msg)) @ '' Cc, '' @
            decimal (length (om_Bcc msg)) @ '' Bcc)''
       else []) @
      '': '' @ join '', '' recipients)"

definition replyUsageTail :: "string \<Rightarrow> string" where
  "replyUsageTail cmd =
     (if cmd = ''reply'' then ''--body B [--all] [--html H] [--attach FILE ...]''
      else ''--to a@b.c [--body B] [--html H]'')"

definition isVersionRequest :: "string \<Rightarrow> bool" where
  "isVersionRequest a \<longleftrightarrow> a \<in> set [''version'', ''--version'', ''-version'']"

definition wantsJSON :: "ids \<Rightarrow> bool" where
  "wantsJSON args \<longleftrightarrow> list_ex (\<lambda>a. a = ''--json'' \<or> a = ''-json'') args"

record build_info =
  bi_version :: string
  bi_commit :: string
  bi_date :: string
  bi_go :: string
  bi_platform :: string

definition printVersion :: "build_info \<Rightarrow> bool \<Rightarrow> chunk list" where
  "printVersion b asJSON =
     (if asJSON
      then [Doc (JObj [(''version'', JStr (bi_version b)), (''commit'', JStr (bi_commit b)),
                       (''date'', JStr (bi_date b)), (''go'', JStr (bi_go b)),
                       (''platform'', JStr (bi_platform b))])]
      else [Text (''briefkasten '' @ bi_version b @ '' (commit: '' @ bi_commit b @ '', built: '' @
                  bi_date b @ '')'' @ line_end)])"

definition needsMailbox :: "string \<Rightarrow> bool" where
  "needsMailbox cmd \<longleftrightarrow> cmd \<notin> set [''send'', ''retry'', ''outbox'', ''hashpw'', ''profiles'']"

definition splitList :: "string \<Rightarrow> ids" where
  "splitList raw = filter (\<lambda>v. v \<noteq> []) (map trim_space (split_char (CHR '','') raw))"

subsection \<open>Reports\<close>

definition report_code :: "bulk_failure list \<Rightarrow> nat" where
  "report_code fs = (if length fs > 0 then 1 else 0)"

definition reportBulk :: "bool \<Rightarrow> string \<Rightarrow> bulk_result \<Rightarrow> outcome" where
  "reportBulk asJSON verb res =
     \<lparr>exit_code = report_code (Failed res),
      stdout = (if asJSON then [Doc (bulkResponse verb res)]
                else map (\<lambda>i. Text (verb @ '': '' @ i @ line_end)) (Succeeded res)),
      stderr = (if asJSON then [] else map Lost (Failed res))\<rparr>"

text \<open>A message on the way out: its id, its length in bytes, and the bytes as they are.\<close>

definition fetch_record :: "bulk_message \<Rightarrow> string" where
  "fetch_record m =
     ''id '' @ msg_id m @ '' '' @ decimal (length (Raw m)) @ line_end @ Raw m @ line_end"

definition reportFetch :: "(bytes \<Rightarrow> string) \<Rightarrow> bool \<Rightarrow> fetch_result \<Rightarrow> outcome" where
  "reportFetch enc asJSON res =
     \<lparr>exit_code = report_code (fetch_failed res),
      stdout = (if asJSON then [Doc (fetchResponse enc res)]
                else map (\<lambda>m. Text (fetch_record m)) (Fetched res)),
      stderr = (if asJSON then [] else map Lost (fetch_failed res))\<rparr>"

text \<open>A batch that could not run prints its error alone.\<close>

definition printing_batch :: "('a \<Rightarrow> outcome) \<Rightarrow> ('a \<times> error option) \<times> 'w \<Rightarrow> outcome \<times> 'w" where
  "printing_batch report r =
     (case r of ((x, e), w) \<Rightarrow> (case e of Some e \<Rightarrow> fails e w | None \<Rightarrow> (report x, w)))"

subsection \<open>What the commands run over\<close>

text \<open>What the configuration builds: the mailbox service, and the outbox of a client, if there is one.\<close>

record 'w wiring =
  wi_service :: "('w, 'w service) effect"
  wi_outbox :: "('w, 'w outbox option) effect"
  wi_profiles :: ids
  wi_backend :: string

record 'w shell =
  sh_config :: "string \<Rightarrow> ('w, 'w wiring) effect"
  sh_serve :: "ids \<Rightarrow> 'w \<Rightarrow> outcome \<times> 'w"
  sh_tools :: tool_lib
  sh_random :: "error + string"
  sh_order :: map_order
  sh_input :: string
  sh_file :: "string \<Rightarrow> ('w, bytes) effect"
  sh_type_of :: "string \<Rightarrow> string"
  sh_sniff :: "bytes \<Rightarrow> string"
  sh_hash :: "string \<Rightarrow> error + string"
  sh_build :: build_info

text \<open>The context of a command: a human at a terminal decides when they have waited long enough.\<close>

definition commandContext :: "'w ctx" where "commandContext w = None"

subsection \<open>Attachments\<close>

text \<open>\<open>filepath.Base\<close> and \<open>filepath.Ext\<close> on slash-separated paths.\<close>

definition path_base :: "string \<Rightarrow> string" where
  "path_base p =
     (if p = [] then ''.''
      else (let s = rev (dropWhile (\<lambda>c. c = CHR ''/'') (rev p)) in
            if s = [] then ''/'' else rev (takeWhile (\<lambda>c. c \<noteq> CHR ''/'') (rev s))))"

definition path_ext :: "string \<Rightarrow> string" where
  "path_ext p =
     (let last_part = rev (takeWhile (\<lambda>c. c \<noteq> CHR ''/'') (rev p));
          e = rev (takeWhile (\<lambda>c. c \<noteq> CHR ''.'') (rev last_part)) in
      if e = last_part then [] else CHR ''.'' # e)"

fun loadAttachments :: "'w shell \<Rightarrow> ids \<Rightarrow> ('w, attachment list) effect" where
  "loadAttachments sh [] w = (Inr [], w)"
| "loadAttachments sh (p # ps) w =
     (case sh_file sh p w of
        (Inl e, w1) \<Rightarrow> (Inl e, w1)
      | (Inr content, w1) \<Rightarrow>
          (let ctype = (if sh_type_of sh (path_ext p) = [] then sh_sniff sh content
                        else sh_type_of sh (path_ext p)) in
           case loadAttachments sh ps w1 of
             (Inl e, w2) \<Rightarrow> (Inl e, w2)
           | (Inr as, w2) \<Rightarrow>
               (Inr (\<lparr>Filename = path_base p, ContentType = ctype, Content = content\<rparr> # as), w2)))"

subsection \<open>Mailbox commands\<close>

definition ids_chunks :: "flags \<Rightarrow> string \<Rightarrow> ids \<Rightarrow> chunk list" where
  "ids_chunks fl name is = emit fl (join line_end is) (JObj [(name, JIds is)])"

definition cmd_list :: "'w service \<Rightarrow> flags \<Rightarrow> 'w \<Rightarrow> outcome \<times> 'w" where
  "cmd_list s fl w =
     printing (ids_chunks fl ''ids'') (service_List s (fl_account fl) (fl_folder fl) (fl_scope fl) w)"

definition cmd_read :: "(bytes \<Rightarrow> string) \<Rightarrow> 'w service \<Rightarrow> flags \<Rightarrow> ids \<Rightarrow> 'w \<Rightarrow> outcome \<times> 'w" where
  "cmd_read enc s fl is w =
     (if length is = 0 then misuse ''usage: briefkasten read <id> [id ...]'' w
      else if length is = 1 \<and> \<not> fl_json fl
      then printing (\<lambda>raw. [Text (raw @ line_end)])
             (service_Read s (fl_account fl) (fl_folder fl) (is ! 0) w)
      else printing_batch (reportFetch enc (fl_json fl))
             (service_ReadMany commandContext s (fl_account fl) (fl_folder fl) is w))"

definition done_chunks :: "flags \<Rightarrow> string \<Rightarrow> string \<Rightarrow> string \<Rightarrow> chunk list" where
  "done_chunks fl verb key i =
     emit fl (verb @ '': '' @ i) (JObj [(''ok'', JBool True), (key, JStr i)])"

definition cmd_seen :: "'w service \<Rightarrow> flags \<Rightarrow> ids \<Rightarrow> 'w \<Rightarrow> outcome \<times> 'w" where
  "cmd_seen s fl is w =
     (if length is = 0 then misuse ''usage: briefkasten seen <id> [id ...]'' w
      else if length is = 1
      then printing (\<lambda>_. done_chunks fl ''seen'' ''id'' (is ! 0))
             (service_MarkSeen s (fl_account fl) (fl_folder fl) (is ! 0) w)
      else printing_batch (reportBulk (fl_json fl) ''seen'')
             (service_MarkSeenMany commandContext s (fl_account fl) (fl_folder fl) is w))"

definition cmd_search :: "'w service \<Rightarrow> flags \<Rightarrow> ids \<Rightarrow> 'w \<Rightarrow> outcome \<times> 'w" where
  "cmd_search s fl args w =
     (if arg0 args = [] then misuse ''usage: briefkasten search <query>'' w
      else printing (ids_chunks fl ''ids'')
             (service_SearchScope commandContext s (fl_account fl) (fl_folder fl) (arg0 args) (fl_scope fl) w))"

definition aborted :: "flags \<Rightarrow> detail list \<Rightarrow> 'w \<Rightarrow> outcome \<times> 'w" where
  "aborted fl question w =
     (\<lparr>exit_code = 1,
       stdout = Question question # emit fl ''aborted'' (JObj [(''ok'', JBool False), (''aborted'', JBool True)]),
       stderr = []\<rparr>, w)"

definition plan_text :: "curation_plan \<Rightarrow> string" where
  "plan_text p =
     ''archive  '' @ Folder (Archive p) @ ''  ('' @ route_name (Route (Archive p)) @ '')'' @ line_end @
     ''delete   '' @ Folder (Trash p) @ ''  ('' @ route_name (Route (Trash p)) @ '')''"

text \<open>A question goes out before what its answer lets happen.\<close>

definition asked :: "flags \<Rightarrow> detail list \<Rightarrow> chunk list" where
  "asked fl question = (if fl_yes fl then [] else [Question question])"

definition cmd_folders :: "'w shell \<Rightarrow> 'w service \<Rightarrow> flags \<Rightarrow> 'w \<Rightarrow> outcome \<times> 'w" where
  "cmd_folders sh s fl w =
     (if fl_create fl \<noteq> [] \<and> fl_delete fl \<noteq> []
      then misuse ''folders: pass either --create or --delete, not both'' w
      else if fl_create fl \<noteq> []
      then printing (\<lambda>_. done_chunks fl ''created'' ''folder'' (fl_create fl))
             (service_CreateFolder s (fl_account fl) (fl_create fl) w)
      else if fl_delete fl \<noteq> []
      then (let question = confirmFolderPrompt (fl_delete fl) in
            if \<not> fl_yes fl \<and> \<not> askYesNo (sh_input sh) then aborted fl question w
            else after_out (asked fl question)
                   (printing (\<lambda>_. done_chunks fl ''deleted'' ''folder'' (fl_delete fl))
                      (service_DeleteFolder s (fl_account fl) (fl_delete fl) w)))
      else if fl_curation fl
      then printing (\<lambda>plan. emit fl (plan_text plan) (plan_json plan))
             (service_CurationPlan s (fl_account fl) (fl_folder fl) w)
      else printing (ids_chunks fl ''folders'') (service_Folders s (fl_account fl) w))"

definition curationDest :: "'w service \<Rightarrow> string \<Rightarrow> string \<Rightarrow> string \<Rightarrow> 'w \<Rightarrow> string \<times> 'w" where
  "curationDest s account folder action w =
     (case service_CurationPlan s account folder w of
        (Inl _, w1) \<Rightarrow> ([], w1)
      | (Inr plan, w1) \<Rightarrow>
          (if action = ''archive'' then Folder (Archive plan) else Folder (Trash plan), w1))"

definition curate_now :: "'w service \<Rightarrow> flags \<Rightarrow> string \<Rightarrow> ids \<Rightarrow> 'w \<Rightarrow> outcome \<times> 'w" where
  "curate_now s fl cmd is w =
     (let verb = cmd @ ''d'' in
      if length is = 1
      then printing (\<lambda>_. done_chunks fl verb ''id'' (is ! 0))
             ((if cmd = ''delete'' then service_Delete else service_Archive)
                s (fl_account fl) (fl_folder fl) (is ! 0) w)
      else printing_batch (reportBulk (fl_json fl) verb)
             ((if cmd = ''delete'' then service_DeleteMany else service_ArchiveMany)
                commandContext s (fl_account fl) (fl_folder fl) is w))"

definition cmd_curate :: "'w shell \<Rightarrow> 'w service \<Rightarrow> flags \<Rightarrow> string \<Rightarrow> ids \<Rightarrow> 'w \<Rightarrow> outcome \<times> 'w" where
  "cmd_curate sh s fl cmd is w =
     (if length is = 0 then misuse (''usage: briefkasten '' @ cmd @ '' <id> [id ...]'') w
      else if fl_yes fl then curate_now s fl cmd is w
      else case curationDest s (fl_account fl) (fl_folder fl) cmd w of
             (dest, w1) \<Rightarrow>
               (let question = confirmPrompt cmd is dest in
                if \<not> askYesNo (sh_input sh) then aborted fl question w1
                else after_out [Question question] (curate_now s fl cmd is w1)))"

subsection \<open>Outbox commands\<close>

definition with_client_outbox ::
  "'w wiring \<Rightarrow> string \<Rightarrow> ('w outbox \<Rightarrow> 'w \<Rightarrow> outcome \<times> 'w) \<Rightarrow> 'w \<Rightarrow> outcome \<times> 'w" where
  "with_client_outbox wi cmd f w =
     (case wi_outbox wi w of
        (Inl e, w1) \<Rightarrow> fails e w1
      | (Inr None, w1) \<Rightarrow> fails (Failure (cmd @ '': no outbox configured (set outbox.dir)'')) w1
      | (Inr (Some ob), w1) \<Rightarrow> f ob w1)"

text \<open>A record that is not found reads as the empty one.\<close>

definition status_or_empty :: "'w outbox \<Rightarrow> string \<Rightarrow> 'w \<Rightarrow> outbound_message \<times> 'w" where
  "status_or_empty ob i w =
     (case Status ob i w of (Inl _, w1) \<Rightarrow> (empty_message, w1) | (Inr m, w1) \<Rightarrow> (m, w1))"

definition deliverNow :: "statekit \<Rightarrow> 'w outbox \<Rightarrow> flags \<Rightarrow> string \<Rightarrow> 'w \<Rightarrow> outcome \<times> 'w" where
  "deliverNow sk ob fl i w =
     (case ProcessOnce sk ob w of
        ((_, Some e), w1) \<Rightarrow> fails e w1
      | ((_, None), w1) \<Rightarrow>
          (case status_or_empty ob i w1 of
             (m, w2) \<Rightarrow>
               success (emit fl (om_State m @ '': '' @ i)
                         (JObj [(''id'', JStr i), (''state'', JStr (om_State m))])) w2))"

definition message_of_flags :: "flags \<Rightarrow> attachment list \<Rightarrow> outbound_message" where
  "message_of_flags fl as =
     empty_message\<lparr>om_To := splitList (fl_to fl), om_Cc := splitList (fl_cc fl), om_Bcc := splitList (fl_bcc fl),
       om_Subject := fl_subject fl, om_Body := fl_body fl, om_HTMLBody := fl_html fl, om_Attachments := as\<rparr>"

definition cmd_send :: "'w shell \<Rightarrow> 'w wiring \<Rightarrow> flags \<Rightarrow> 'w \<Rightarrow> outcome \<times> 'w" where
  "cmd_send sh wi fl =
     with_client_outbox wi ''send'' (\<lambda>ob w.
       if length (splitList (fl_to fl)) = 0 \<or> fl_subject fl = [] \<or> fl_body fl = []
       then misuse ''usage: briefkasten send --to a@b.c --subject S --body B [--html H] [--attach FILE ...]'' w
       else case loadAttachments sh (fl_attach fl) w of
              (Inl e, w1) \<Rightarrow> fails e w1
            | (Inr as, w1) \<Rightarrow>
                (case Enqueue (tl_mail (sh_tools sh)) (sh_random sh) ob (message_of_flags fl as) w1 of
                   (Inl e, w2) \<Rightarrow> fails e w2
                 | (Inr i, w2) \<Rightarrow> deliverNow (tl_statekit (sh_tools sh)) ob fl i w2))"

text \<open>The message is planned, its audience is shown, it is queued and delivered.\<close>

definition send_planned ::
  "'w shell \<Rightarrow> 'w composer \<Rightarrow> flags \<Rightarrow> (error + outbound_message) \<times> 'w \<Rightarrow> outcome \<times> 'w" where
  "send_planned sh c fl r =
     (case r of
        (Inl e, w) \<Rightarrow> fails e w
      | (Inr msg, w) \<Rightarrow>
          after_out [Text (describeAudience (tl_mail (sh_tools sh)) msg @ line_end)]
            (case composer_Send (tl_mail (sh_tools sh)) (sh_random sh) c msg w of
               (Inl e, w1) \<Rightarrow> fails e w1
             | (Inr i, w1) \<Rightarrow> deliverNow (tl_statekit (sh_tools sh)) (outbox_of c) fl i w1))"

definition cmd_reply :: "'w shell \<Rightarrow> 'w composer \<Rightarrow> flags \<Rightarrow> string \<Rightarrow> 'w \<Rightarrow> outcome \<times> 'w" where
  "cmd_reply sh c fl i w =
     (if fl_body fl = []
      then misuse ''usage: briefkasten reply <id> --body B [--all] [--html H] [--attach FILE ...]'' w
      else case loadAttachments sh (fl_attach fl) w of
             (Inl e, w1) \<Rightarrow> fails e w1
           | (Inr as, w1) \<Rightarrow>
               send_planned sh c fl
                 (PlanReply (tl_mail (sh_tools sh)) c
                    \<lparr>rq_Account = fl_account fl, rq_Folder = fl_folder fl, rq_ID = i, rq_All = fl_all fl,
                     rq_Body = fl_body fl, rq_HTMLBody = fl_html fl, rq_Attachments = as\<rparr> w1))"

definition cmd_forward :: "'w shell \<Rightarrow> 'w composer \<Rightarrow> flags \<Rightarrow> string \<Rightarrow> 'w \<Rightarrow> outcome \<times> 'w" where
  "cmd_forward sh c fl i w =
     (if length (splitList (fl_to fl)) = 0
      then misuse ''usage: briefkasten forward <id> --to a@b.c [--body B] [--html H]'' w
      else send_planned sh c fl
             (PlanForward (tl_mail (sh_tools sh)) c
                \<lparr>fw_Account = fl_account fl, fw_Folder = fl_folder fl, fw_ID = i,
                 fw_To = splitList (fl_to fl), fw_Body = fl_body fl, fw_HTMLBody = fl_html fl\<rparr> w))"

definition cmd_answer ::
  "'w shell \<Rightarrow> 'w wiring \<Rightarrow> 'w service \<Rightarrow> flags \<Rightarrow> string \<Rightarrow> ids \<Rightarrow> 'w \<Rightarrow> outcome \<times> 'w" where
  "cmd_answer sh wi s fl cmd args w =
     (if arg0 args = []
      then misuse (''usage: briefkasten '' @ cmd @ '' <id> '' @ replyUsageTail cmd) w
      else with_client_outbox wi cmd (\<lambda>ob.
             (if cmd = ''reply'' then cmd_reply else cmd_forward)
               sh \<lparr>svc = s, outbox_of = ob\<rparr> fl (arg0 args)) w)"

text \<open>Repair before a report; an owner at work is left alone, and damage is told but stops nothing.\<close>

definition repairOutbox :: "'w shell \<Rightarrow> 'w outbox \<Rightarrow> 'w \<Rightarrow> chunk list \<times> 'w" where
  "repairOutbox sh ob w =
     (case Recover (sh_order sh) (tl_statekit (sh_tools sh)) ob w of
        (None, w1) \<Rightarrow> ([], w1)
      | (Some e, w1) \<Rightarrow> (if errors_is e ErrOutboxBusy then [] else [Problem e], w1))"

definition cmd_retry :: "'w shell \<Rightarrow> 'w wiring \<Rightarrow> flags \<Rightarrow> ids \<Rightarrow> 'w \<Rightarrow> outcome \<times> 'w" where
  "cmd_retry sh wi fl args w =
     (if arg0 args = [] then misuse ''usage: briefkasten retry <id>'' w
      else with_client_outbox wi ''retry'' (\<lambda>ob w.
        case repairOutbox sh ob w of
          (told, w1) \<Rightarrow>
            after_err told
              (case Retry (tl_statekit (sh_tools sh)) ob (arg0 args) w1 of
                 (Inl e, w2) \<Rightarrow> fails e w2
               | (Inr _, w2) \<Rightarrow>
                   (case ProcessOnce (tl_statekit (sh_tools sh)) ob w2 of
                      ((_, Some e), w3) \<Rightarrow> fails e w3
                    | ((_, None), w3) \<Rightarrow>
                        (case status_or_empty ob (arg0 args) w3 of
                           (m, w4) \<Rightarrow>
                             success (emit fl
                               (om_State m @ '': '' @ arg0 args @
                                (if om_Error m \<noteq> [] then '' ('' @ om_Error m @ '')'' else []))
                               (JObj ([(''id'', JStr (arg0 args)), (''state'', JStr (om_State m))] @
                                      given_str ''error'' (om_Error m)))) w4)))) w)"

definition outbox_lines :: "(string \<times> ids) list \<Rightarrow> ids" where
  "outbox_lines summary =
     concat (map (\<lambda>state. map (\<lambda>i. state @ '': '' @ i)
                           (case map_of summary state of Some is \<Rightarrow> is | None \<Rightarrow> []))
                 [''queued'', ''sending'', ''sent'', ''failed''])"

definition cmd_outbox :: "'w shell \<Rightarrow> 'w wiring \<Rightarrow> flags \<Rightarrow> 'w \<Rightarrow> outcome \<times> 'w" where
  "cmd_outbox sh wi fl =
     with_client_outbox wi ''outbox'' (\<lambda>ob w.
       case repairOutbox sh ob w of
         (told, w1) \<Rightarrow>
           after_err told
             (printing (\<lambda>summary. emit fl (join line_end (outbox_lines summary)) (summary_of_outbox summary))
                (Summary ob w1)))"

subsection \<open>The other commands\<close>

definition cmd_profiles :: "'w wiring \<Rightarrow> flags \<Rightarrow> 'w \<Rightarrow> outcome \<times> 'w" where
  "cmd_profiles wi fl w =
     (if length (wi_profiles wi) = 0 then fails (Failure ''profiles: none declared'') w
      else success (emit fl (join line_end (wi_profiles wi))
                     (JObj [(''profiles'', JIds (wi_profiles wi)), (''active_backend'', JStr (wi_backend wi))])) w)"

definition cmd_hashpw :: "'w shell \<Rightarrow> flags \<Rightarrow> 'w \<Rightarrow> outcome \<times> 'w" where
  "cmd_hashpw sh fl w =
     after_out [Text ''password: '']
       (let pw = rev (dropWhile (\<lambda>c. c = CHR 0x0D \<or> c = CHR 0x0A) (rev (read_line (sh_input sh)))) in
        if pw = [] then fails (Failure ''hashpw: empty password'') w
        else case sh_hash sh pw of
               Inl e \<Rightarrow> fails e w
             | Inr h \<Rightarrow> success (emit fl h (JObj [(''password_hash'', JStr h)])) w)"

subsection \<open>Dispatch\<close>

definition mailbox_command ::
  "'w shell \<Rightarrow> 'w wiring \<Rightarrow> 'w service \<Rightarrow> flags \<Rightarrow> string \<Rightarrow> ids \<Rightarrow> 'w \<Rightarrow> outcome \<times> 'w" where
  "mailbox_command sh wi s fl cmd args =
     (if cmd = ''list'' then cmd_list s fl
      else if cmd = ''read'' then cmd_read (tl_encode (sh_tools sh)) s fl args
      else if cmd = ''seen'' then cmd_seen s fl args
      else if cmd = ''search'' then cmd_search s fl args
      else if cmd = ''folders'' then cmd_folders sh s fl
      else if cmd = ''reply'' \<or> cmd = ''forward'' then cmd_answer sh wi s fl cmd args
      else if cmd = ''archive'' \<or> cmd = ''delete'' then cmd_curate sh s fl cmd args
      else misuse ''unknown command'')"

definition other_command :: "'w shell \<Rightarrow> 'w wiring \<Rightarrow> flags \<Rightarrow> string \<Rightarrow> ids \<Rightarrow> 'w \<Rightarrow> outcome \<times> 'w" where
  "other_command sh wi fl cmd args =
     (if cmd = ''profiles'' then cmd_profiles wi fl
      else if cmd = ''send'' then cmd_send sh wi fl
      else if cmd = ''retry'' then cmd_retry sh wi fl args
      else if cmd = ''outbox'' then cmd_outbox sh wi fl
      else cmd_hashpw sh fl)"

text \<open>The mailbox is built for every command; its error matters to those that use it.\<close>

definition run_command :: "'w shell \<Rightarrow> flags \<Rightarrow> string \<Rightarrow> ids \<Rightarrow> 'w \<Rightarrow> outcome \<times> 'w" where
  "run_command sh fl cmd args w =
     (case sh_config sh (fl_config fl) w of
        (Inl e, w1) \<Rightarrow> fails e w1
      | (Inr wi, w1) \<Rightarrow>
          (case wi_service wi w1 of
             (Inl e, w2) \<Rightarrow>
               if needsMailbox cmd then fails e w2 else other_command sh wi fl cmd args w2
           | (Inr s, w2) \<Rightarrow>
               if needsMailbox cmd then mailbox_command sh wi s fl cmd args w2
               else other_command sh wi fl cmd args w2))"

definition run :: "'w shell \<Rightarrow> ids \<Rightarrow> 'w \<Rightarrow> outcome \<times> 'w" where
  "run sh args w =
     (case args of
        [] \<Rightarrow> sh_serve sh [] w
      | cmd # rest \<Rightarrow>
          (if isVersionRequest cmd then success (printVersion (sh_build sh) (wantsJSON rest)) w
           else if cmd = ''serve'' then sh_serve sh rest w
           else case parse_flags default_flags rest of
                  None \<Rightarrow> misuse ''usage of the command'' w
                | Some (fl, args) \<Rightarrow> run_command sh fl cmd args w))"

end
