(* ===== verification/Startup.thy ===== *)
theory Startup
  imports Cli Runtime_Safety
begin

section \<open>Starting the program (cmd/briefkasten/main.go, cli.go)\<close>

text \<open>
  From the arguments and the environment to a configuration, from the configuration to the
  service and the outbox the commands run over, and the choice of the transport the server is
  reached by.  How a backend looks as a mailbox, and an outbox as one of this host, are parameters.
\<close>

subsection \<open>The configuration a command finds\<close>

definition loadConfigPath ::
  "yaml \<Rightarrow> path \<Rightarrow> environment \<Rightarrow> string \<Rightarrow> ('n host, addr server_config) effect" where
  "loadConfigPath y cwd env explicit w =
     (let named = (if explicit = [] then env ''BRIEFKASTEN_CONFIG'' else explicit) in
      case (if named = [] then
              (case on_disk (Stat (path_of cwd ''briefkasten.yaml'')) w of
                 (Inl _, w1) \<Rightarrow> ([], w1)
               | (Inr _, w1) \<Rightarrow> (''briefkasten.yaml'', w1))
            else (named, w)) of
        (p, w1) \<Rightarrow>
          (case LoadConfig y cwd p w1 of
             (Inl e, w2) \<Rightarrow> (Inl e, w2)
           | (Inr c, w2) \<Rightarrow>
               (case ApplyEnv env c (h_heap w2) of
                  (d, h) \<Rightarrow> (Inr d, w2\<lparr>h_heap := h\<rparr>))))"

subsection \<open>What a command runs over\<close>

definition buildService ::
  "'n toolbox \<Rightarrow> account_walk \<Rightarrow> (backend \<Rightarrow> 'n host mailbox) \<Rightarrow> addr server_config \<Rightarrow>
   ('n host, 'n host service) effect" where
  "buildService tb ord as_mailbox c w =
     (case BuildMailbox tb c w of
        (Inl e, w1) \<Rightarrow> (Inl e, w1)
      | (Inr (mb, _), w1) \<Rightarrow>
          (case BuildAccounts tb ord c w1 of
             (Inl e, w2) \<Rightarrow> (Inl e, w2)
           | (Inr accs, w2) \<Rightarrow>
               (Inr (NewService (as_mailbox mb) (map (\<lambda>(n, b). (n, as_mailbox b)) accs) w2), w2)))"

definition BuildClientOutbox ::
  "'n toolbox \<Rightarrow> (transport \<Rightarrow> outbox_world sender) \<Rightarrow> addr server_config \<Rightarrow>
   ('n host, (outbox_world outbox \<times> string) option) effect" where
  "BuildClientOutbox tb carrier = BuildOutbox tb carrier NewClientOutbox"

definition wiring_of ::
  "'n toolbox \<Rightarrow> account_walk \<Rightarrow> (backend \<Rightarrow> 'n host mailbox) \<Rightarrow> (transport \<Rightarrow> outbox_world sender) \<Rightarrow>
   (outbox_world outbox \<Rightarrow> 'n host outbox) \<Rightarrow> addr server_config \<Rightarrow> 'n host wiring" where
  "wiring_of tb ord as_mailbox carrier as_outbox c =
     \<lparr>wi_service = buildService tb ord as_mailbox c,
      wi_outbox = (\<lambda>w. case BuildClientOutbox tb carrier c w of
                         (Inl e, w1) \<Rightarrow> (Inl e, w1)
                       | (Inr x, w1) \<Rightarrow> (Inr (map_option (\<lambda>(ob, d). as_outbox ob) x), w1)),
      wi_profiles = ProfileNames c,
      wi_backend = ResolvedBackend c\<rparr>"

definition command_config ::
  "'n toolbox \<Rightarrow> account_walk \<Rightarrow> (backend \<Rightarrow> 'n host mailbox) \<Rightarrow> (transport \<Rightarrow> outbox_world sender) \<Rightarrow>
   (outbox_world outbox \<Rightarrow> 'n host outbox) \<Rightarrow> environment \<Rightarrow> string \<Rightarrow> ('n host, 'n host wiring) effect" where
  "command_config tb ord as_mailbox carrier as_outbox env explicit w =
     (case loadConfigPath (tb_yaml tb) (tb_cwd tb) env explicit w of
        (Inl e, w1) \<Rightarrow> (Inl e, w1)
      | (Inr c, w1) \<Rightarrow> (Inr (wiring_of tb ord as_mailbox carrier as_outbox c), w1))"

subsection \<open>Serving\<close>

record serve_options =
  so_config :: string
  so_stdio :: bool

definition parseServeFlags :: "ids \<Rightarrow> serve_options option" where
  "parseServeFlags args =
     map_option fst (walk_flags [''stdio''] [''config''] (\<lambda>name b so. so\<lparr>so_stdio := b\<rparr>)
       (\<lambda>name v so. so\<lparr>so_config := v\<rparr>) \<lparr>so_config = [], so_stdio = False\<rparr> args)"

text \<open>How the server is reached: not at all, with the code the program exits with, or by a transport.\<close>

datatype serving =
    Exits nat
  | OverStdio
  | OverGRPC string
  | OverHTTP string "authenticator option"

record hashing =
  ha_read :: "string \<Rightarrow> error + (string \<Rightarrow> error option)"
  ha_make :: "string \<Rightarrow> error + (string \<Rightarrow> error option)"
  ha_basic :: "string \<Rightarrow> string option"

definition choose_transport :: "addr server_config \<Rightarrow> authenticator option \<Rightarrow> serving" where
  "choose_transport c auth =
     (if ResolvedTransport c = ''stdio'' then OverStdio
      else if ResolvedTransport c = ''grpc'' then
        (if auth \<noteq> None then Exits 1 else OverGRPC (c_Addr c))
      else OverHTTP (c_Addr c) auth)"

definition serve ::
  "'n toolbox \<Rightarrow> account_walk \<Rightarrow> map_order \<Rightarrow> statekit \<Rightarrow> (transport \<Rightarrow> outbox_world sender) \<Rightarrow>
   hashing \<Rightarrow> environment \<Rightarrow> ids \<Rightarrow> 'n host \<Rightarrow> serving \<times> 'n host" where
  "serve tb ord mo sk carrier ha env args w =
     (case parseServeFlags args of
        None \<Rightarrow> (Exits 2, w)
      | Some so \<Rightarrow>
          (case loadConfigPath (tb_yaml tb) (tb_cwd tb) env (so_config so) w of
             (Inl e, w1) \<Rightarrow> (Exits 1, w1)
           | (Inr c0, w1) \<Rightarrow>
               (let c = (if so_stdio so then c0\<lparr>c_Transport := ''stdio''\<rparr> else c0) in
                case ValidateTransport c of
                  Some e \<Rightarrow> (Exits 1, w1)
                | None \<Rightarrow>
                    (case NewConfigServer tb ord mo sk carrier c w1 of
                       (Inl e, w2) \<Rightarrow> (Exits 1, w2)
                     | (Inr lv, w2) \<Rightarrow>
                         (case BuildAuthMiddleware (ha_read ha) (ha_make ha) (\<lambda>h. h) (ha_basic ha) c of
                            Inl e \<Rightarrow> (Exits 1, w2)
                          | Inr auth \<Rightarrow> (choose_transport c auth, w2))))))"

text \<open>The worker of a running server: the backlog is delivered at every tick until the server stops; what it logs.\<close>

datatype worker_input = Tick | ServerDone

datatype worker_log = ProcessFailed error | Delivered nat

fun outbox_worker :: "statekit \<Rightarrow> 'w outbox \<Rightarrow> worker_input list \<Rightarrow> 'w \<Rightarrow> worker_log list \<times> 'w" where
  "outbox_worker sk ob [] w = ([], w)"
| "outbox_worker sk ob (ServerDone # is) w = ([], w)"
| "outbox_worker sk ob (Tick # is) w =
     (case ProcessOnce sk ob w of
        ((n, e), w1) \<Rightarrow>
          (case outbox_worker sk ob is w1 of
             (logged, w2) \<Rightarrow>
               ((case e of Some e \<Rightarrow> [ProcessFailed e] | None \<Rightarrow> if n > 0 then [Delivered n] else []) @ logged,
                w2)))"

lemma worker_stops_with_the_server: "outbox_worker sk ob (is @ ServerDone # js) w = outbox_worker sk ob is w"
  by (induction sk ob "is" w rule: outbox_worker.induct) (simp_all split: prod.split)

lemma auth_when_enabled:
  "BuildAuthMiddleware f g v d c = Inr a \<Longrightarrow> a = None \<longleftrightarrow> \<not> Enabled (c_Auth c)"
  by (auto simp: BuildAuthMiddleware_def Let_def split: if_splits sum.splits)


text \<open>A machine whose environment names a user and a password.\<close>

definition guarded_env :: environment where
  "guarded_env k =
     (if k = ''BRIEFKASTEN_AUTH_USER'' then ''me'' else if k = ''BRIEFKASTEN_AUTH_PASSWORD'' then ''pw'' else [])"

definition demo_hashing :: hashing where
  "demo_hashing =
     \<lparr>ha_read = (\<lambda>h. Inl (Failure ''no hash'')), ha_make = (\<lambda>p. Inr (\<lambda>q. if q = p then None else Some (Failure ''no''))),
      ha_basic = (\<lambda>h. None)\<rparr>"

definition demo_serving :: "serving \<times> unit host" where
  "demo_serving =
     serve demo_tools id identity_order reference_statekit (\<lambda>t. \<lparr>Send = (\<lambda>m w. (Inr (), w)), SelfAddress = None\<rparr>)
       demo_hashing guarded_env [] demo_machine"


end
