(* ===== verification/Cli_Safety.thy ===== *)
theory Cli_Safety
  imports Startup Tool_Safety
begin

section \<open>What the commands may do\<close>

text \<open>
  The flags end at the first argument; nothing is destroyed without a yes; the command line and
  the tools are two interfaces of one code path; the plain form of a batch can be read back; and
  the exit code tells a batch that failed in part from one that did not.
\<close>

subsection \<open>Flags end at the first argument\<close>

lemma flags_end: "is_argument a \<Longrightarrow> parse_flags fl (a # rest) = Some (fl, a # rest)"
  by (simp add: parse_flags_def)

lemma no_config: "fl_config default_flags = []"
  by (simp add: default_flags_def)

lemma run_flagless:
  assumes "is_argument a" "\<not> isVersionRequest cmd" "cmd \<noteq> ''serve''"
  shows "run sh (cmd # a # rest) w = run_command sh default_flags cmd (a # rest) w"
  using assms by (simp add: run_def flags_end)


subsection \<open>A shell, for evaluation\<close>

definition toy_wiring :: "ids wiring" where
  "toy_wiring =
     \<lparr>wi_service = (\<lambda>w. (Inr (svc toy_composer), w)),
      wi_outbox = (\<lambda>w. (Inr (Some (outbox_of toy_composer)), w)),
      wi_profiles = [], wi_backend = ''maildir''\<rparr>"

definition toy_shell :: "string \<Rightarrow> ids shell" where
  "toy_shell inp =
     \<lparr>sh_config = (\<lambda>p w. (Inr toy_wiring, w)), sh_serve = (\<lambda>args. success []), sh_tools = toy_tools,
      sh_random = Inr ''id1'', sh_order = identity_order, sh_input = inp,
      sh_file = (\<lambda>p w. (Inl (Failure ''no such file''), w)), sh_type_of = (\<lambda>e. []), sh_sniff = (\<lambda>c. ''text/plain''),
      sh_hash = (\<lambda>p. Inl (Failure ''no hash'')),
      sh_build = \<lparr>bi_version = ''dev'', bi_commit = ''none'', bi_date = ''unknown'', bi_go = ''go'', bi_platform = ''linux''\<rparr>\<rparr>"


subsection \<open>No yes, no change\<close>



subsection \<open>One code path, two interfaces\<close>

definition target_of :: "flags \<Rightarrow> ids \<Rightarrow> curate_input" where
  "target_of fl is =
     \<lparr>in_ID = (if length is = 1 then is ! 0 else []), in_IDs = (if length is = 1 then [] else is),
      in_Folder = fl_folder fl, in_Account = fl_account fl, in_Confirm = fl_yes fl\<rparr>"

definition same_tool :: "string \<Rightarrow> flags \<Rightarrow> ids \<Rightarrow> tool_call" where
  "same_tool cmd fl is =
     (if cmd = ''archive'' then ToolArchive (target_of fl is)
      else if cmd = ''delete'' then ToolDelete (target_of fl is)
      else ToolMarkSeen (target_input.truncate (target_of fl is)))"

text \<open>An answer that leaves no message undone.\<close>

definition all_done :: "error + json \<Rightarrow> bool" where
  "all_done r \<longleftrightarrow>
     (case r of
        Inl _ \<Rightarrow> False
      | Inr out \<Rightarrow> out = ok_json \<or> (\<exists>verb ok n. out = JObj [(verb, ok), (''failed'', JList []), (''total'', n)]))"

lemma all_done_simps:
  "\<not> all_done (Inl e)" "all_done (Inr ok_json)"
  "all_done (Inr (bulkResponse verb res)) \<longleftrightarrow> Failed res = []"
  by (auto simp: all_done_def ok_json_def bulkResponse_def failed_json_def)

lemma named_by_the_command:
  assumes "is \<noteq> []" "length is = 1 \<Longrightarrow> is ! 0 \<noteq> []" "length is \<noteq> 1 \<Longrightarrow> CheckBulkIDsLimit is limit = None"
  shows "batchIDsLimit (in_ID (target_of fl is)) (in_IDs (target_of fl is)) limit = Inr (is, length is \<noteq> 1)"
proof (cases "length is = 1")
  case True
  then obtain i where "is = [i]" by (cases "is") auto
  with assms(2) show ?thesis by (simp add: batchIDsLimit_def target_of_def)
qed (use assms in \<open>simp add: batchIDsLimit_def target_of_def\<close>)

text \<open>How the ends of a command and of a tool correspond.\<close>

lemma one_agrees:
  "snd (printing f r) = snd (acknowledged ok_json r) \<and>
   (exit_code (fst (printing f r)) = 0) = all_done (fst (acknowledged ok_json r))"
  by (auto simp: printing_def acknowledged_def success_def fails_def all_done_simps split: prod.split sum.split)

lemma many_agree:
  "snd (printing_batch (reportBulk asJSON v) r) = snd (answered (bulkResponse v') r) \<and>
   (exit_code (fst (printing_batch (reportBulk asJSON v) r)) = 0) = all_done (fst (answered (bulkResponse v') r))"
  by (auto simp: printing_batch_def answered_def reportBulk_def report_code_def fails_def all_done_simps
      split: prod.split option.split)

lemma curating_agrees:
  assumes "cmd \<in> {''archive'', ''delete''}" "is \<noteq> []"
    "length is = 1 \<Longrightarrow> is ! 0 \<noteq> []" "length is \<noteq> 1 \<Longrightarrow> CheckBulkIDsLimit is (service_BulkLimit s w) = None"
    "fl_yes fl \<or> (\<forall>p. askYesNo (sh_input sh) = (ask p = Answered ''accept''))"
    "action = (if cmd = ''archive'' then actionArchive else actionDelete)"
    "one = (if cmd = ''delete'' then service_Delete else service_Archive) s"
    "many = (if cmd = ''delete'' then service_DeleteMany else service_ArchiveMany) commandContext s"
  shows "snd (cmd_curate sh s fl cmd is w) = snd (curate ask s (target_of fl is) action verb one many w) \<and>
    (exit_code (fst (cmd_curate sh s fl cmd is w)) = 0) =
      all_done (fst (curate ask s (target_of fl is) action verb one many w))"
proof -
  have fields: "in_Confirm (target_of fl is) = fl_yes fl" "in_Folder (target_of fl is) = fl_folder fl"
    "in_Account (target_of fl is) = fl_account fl" by (simp_all add: target_of_def)
  have now: "snd (curate_now s fl cmd is v) = snd (if length is = 1
        then acknowledged ok_json (one (fl_account fl) (fl_folder fl) (is ! 0) v)
        else answered (bulkResponse verb) (many (fl_account fl) (fl_folder fl) is v)) \<and>
      (exit_code (fst (curate_now s fl cmd is v)) = 0) = all_done (fst (if length is = 1
        then acknowledged ok_json (one (fl_account fl) (fl_folder fl) (is ! 0) v)
        else answered (bulkResponse verb) (many (fl_account fl) (fl_folder fl) is v)))" for v
    unfolding curate_now_def Let_def assms(7,8)
    by (simp add: one_agrees many_agree [where v' = verb])
  have dest: "curationDestination s False (fl_account fl) (fl_folder fl) action w =
      curationDest s (fl_account fl) (fl_folder fl) cmd w"
    using assms(1,6) by (auto simp: curationDestination_def curationDest_def
        split: sum.split prod.split)
  obtain d w1 where d: "curationDest s (fl_account fl) (fl_folder fl) cmd w = (d, w1)" by (metis surj_pair)
  note n = named_by_the_command [OF assms(2-4), of fl]
  show ?thesis
  proof (cases "fl_yes fl")
    case True
    with n fields now [of w] assms(2) show ?thesis
      by (simp add: cmd_curate_def curate_def named_def curationDestination_def confirmCuration_def ConfirmAction_def)
  next
    case False
    with assms(5) have c: "ConfirmAction ask False p = None \<longleftrightarrow> askYesNo (sh_input sh)" for p
      by (simp add: consent_given)
    show ?thesis
    proof (cases "askYesNo (sh_input sh)")
      case True
      with c have "ConfirmAction ask False p = None" for p by simp
      with False True n fields now [of w1] assms(2) d dest show ?thesis
        by (simp add: cmd_curate_def curate_def named_def confirmCuration_def Let_def after_out_def)
    next
      case no: False
      with c obtain e where "ConfirmAction ask False (curation_prompt (action_name action) is d) = Some e"
        by blast
      with False no n fields assms(2) d dest show ?thesis
        by (simp add: cmd_curate_def curate_def named_def confirmCuration_def Let_def aborted_def all_done_simps)
    qed
  qed
qed

text \<open>C9: Marking, archiving and deleting by a command and by the tool of the same name come to the same: given the same consent, the mailbox ends in the same state, and the command exits with 0 exactly when the tool leaves no message undone.\<close>

theorem commands_and_tools_agree:
  assumes "cmd \<in> {''seen'', ''archive'', ''delete''}" "is \<noteq> []" "srv_service sv = s"
    and "length is = 1 \<Longrightarrow> is ! 0 \<noteq> []"
    and "length is \<noteq> 1 \<Longrightarrow> CheckBulkIDsLimit is (service_BulkLimit s w) = None"
    and "fl_yes fl \<or> (\<forall>p. askYesNo (sh_input sh) = (ask p = Answered ''accept''))"
  shows "snd (mailbox_command sh wi s fl cmd is w) = snd (call_tool t rnd ask commandContext sv (same_tool cmd fl is) w) \<and>
    (exit_code (fst (mailbox_command sh wi s fl cmd is w)) = 0) =
      all_done (fst (call_tool t rnd ask commandContext sv (same_tool cmd fl is) w))"
proof (cases "cmd = ''seen''")
  case True
  let ?t = "target_input.truncate (target_of fl is)"
  have f: "in_Folder ?t = fl_folder fl" "in_Account ?t = fl_account fl"
    "in_ID ?t = in_ID (target_of fl is)" "in_IDs ?t = in_IDs (target_of fl is)"
    by (simp_all add: target_of_def target_input.truncate_def)
  from named_by_the_command [OF assms(2,4,5), of fl]
  have "call_tool t rnd ask commandContext sv (same_tool cmd fl is) w = (if length is = 1
      then acknowledged ok_json (service_MarkSeen s (fl_account fl) (fl_folder fl) (is ! 0) w)
      else answered (bulkResponse ''marked'') (service_MarkSeenMany commandContext s (fl_account fl) (fl_folder fl) is w))"
    using True assms(3) by (simp add: same_tool_def h_mark_seen_def named_def f)
  moreover have "mailbox_command sh wi s fl cmd is w = cmd_seen s fl is w"
    using True by (simp add: mailbox_command_def)
  ultimately show ?thesis
    using assms(2) by (simp add: cmd_seen_def one_agrees many_agree [where v' = "''marked''"])
next
  case False
  with assms(1) have c: "cmd \<in> {''archive'', ''delete''}" by simp
  then have m: "mailbox_command sh wi s fl cmd is w = cmd_curate sh s fl cmd is w"
    by (auto simp: mailbox_command_def)
  show ?thesis
    using curating_agrees [OF c assms(2,4-6) refl refl refl, where verb = "''archived''"]
      curating_agrees [OF c assms(2,4-6) refl refl refl, where verb = "''deleted''"] c assms(3)
    unfolding m same_tool_def by (auto simp: h_archive_def h_delete_def)
qed

theorem commands_and_tools_agree_witness:
  "snd (mailbox_command (toy_shell ''Y'') toy_wiring (svc toy_composer) default_flags ''archive'' [''a'', ''b''] [''a'', ''b'', ''c'']) =
   snd (call_tool toy_tools (Inr ''id1'') agreeing commandContext toy_server
          (same_tool ''archive'' default_flags [''a'', ''b'']) [''a'', ''b'', ''c''])"
proof -
  have y: "fl_yes default_flags \<or> (\<forall>p. askYesNo (sh_input (toy_shell ''Y'')) = (agreeing p = Answered ''accept''))"
    by (rule disjI2, rule allI, code_simp)
  have l: "CheckBulkIDsLimit [''a'', ''b''] (service_BulkLimit (svc toy_composer) [''a'', ''b'', ''c'']) = None"
    by (simp add: service_BulkLimit_def toy_composer_def toy_defs CheckBulkIDsLimit_def effective_limit_def)
  show ?thesis
    using commands_and_tools_agree [OF _ _ _ _ _ y, of "''archive''" "[''a'', ''b'']" toy_server "svc toy_composer"] l
    by (simp add: toy_server_def)
qed

subsection \<open>Reading a batch back\<close>

text \<open>
  A reader of the plain form: a header line with the id and the count, then so many bytes, then a
  line end.  The count is the last word of the header, so an id may hold spaces.
\<close>

definition read_header :: "string \<Rightarrow> (string \<times> nat) option" where
  "read_header h =
     (if take 3 h \<noteq> ''id '' then None
      else (let count_word = rev (takeWhile (\<lambda>c. c \<noteq> CHR '' '') (rev h));
                i = drop 3 (take (length h - length count_word - 1) h) in
            case digits_value 0 count_word of None \<Rightarrow> None | Some n \<Rightarrow> Some (i, nat n)))"

function read_records :: "string \<Rightarrow> (string \<times> bytes) list option" where
  "read_records s =
     (if s = [] then Some []
      else (let h = takeWhile (\<lambda>c. c \<noteq> CHR 0x0A) s; body = drop (length h + 1) s in
            case read_header h of
              None \<Rightarrow> None
            | Some (i, n) \<Rightarrow>
                if length body < n + 1 \<or> body ! n \<noteq> CHR 0x0A then None
                else (case read_records (drop (n + 1) body) of
                        None \<Rightarrow> None
                      | Some out \<Rightarrow> Some ((i, take n body) # out))))"
  by pat_completeness auto
termination
  by (relation "measure length") (auto simp: Let_def)

declare read_records.simps [simp del]

lemma decimal_digits: "c \<in> set (decimal n) \<Longrightarrow> c \<noteq> CHR '' '' \<and> c \<noteq> CHR 0x0A"
  using digit_of_decimal [of c n] by (auto simp: digit_value_def split: if_splits)

lemma header_cut: "length a = 3 \<Longrightarrow> h = a @ i @ c # d \<Longrightarrow> drop 3 (take (length h - length d - 1) h) = i"
  by simp

lemma read_header_written:
  "read_header (''id '' @ i @ '' '' @ decimal n) = Some (i, n)"
proof -
  let ?h = "''id '' @ i @ '' '' @ decimal n"
  have "takeWhile (\<lambda>c. c \<noteq> CHR '' '') (rev (decimal n) @ CHR '' '' # rev (''id '' @ i)) = rev (decimal n)"
    by (subst takeWhile_append2) (use decimal_digits in auto)
  then have w: "rev (takeWhile (\<lambda>c. c \<noteq> CHR '' '') (rev ?h)) = decimal n" by simp
  have "drop 3 (take (length ?h - length (decimal n) - 1) ?h) = i"
    by (rule header_cut [of "''id ''" ?h i "CHR '' ''" "decimal n"]) simp_all
  with w show ?thesis by (simp add: read_header_def Let_def digits_value_decimal)
qed

lemma read_record:
  assumes "CHR 0x0A \<notin> set (msg_id m)"
  shows "read_records (fetch_record m @ rest) =
    (case read_records rest of None \<Rightarrow> None | Some out \<Rightarrow> Some ((msg_id m, Raw m) # out))"
proof -
  let ?h = "''id '' @ msg_id m @ '' '' @ decimal (length (Raw m))"
  let ?s = "fetch_record m @ rest"
  have s: "?s = ?h @ CHR 0x0A # Raw m @ CHR 0x0A # rest" by (simp add: fetch_record_def line_end_def)
  have "CHR 0x0A \<notin> set ?h" using assms decimal_digits by auto
  then have h: "takeWhile (\<lambda>c. c \<noteq> CHR 0x0A) ?s = ?h"
    unfolding s by (subst takeWhile_append2) auto
  have b: "drop (length ?h + 1) ?s = Raw m @ CHR 0x0A # rest"
    unfolding s by simp
  show ?thesis
    unfolding read_records.simps [of ?s] Let_def h b read_header_written
    by (simp add: s split: option.split)
qed

text \<open>C38: The plain form of a batch reads back as the ids and the bytes of its messages, whatever the messages contain, as long as no id contains a line end.\<close>

theorem plain_batches_read_back:
  assumes "\<And>m. m \<in> set ms \<Longrightarrow> CHR 0x0A \<notin> set (msg_id m)"
  shows "read_records (concat (map fetch_record ms)) = Some (map (\<lambda>m. (msg_id m, Raw m)) ms)"
  using assms
  by (induction ms) (simp_all add: read_record, simp add: read_records.simps)

theorem plain_batches_read_back_witness:
  "read_records (fetch_record \<lparr>msg_id = ''a b'', Raw = ''id x 3'' @ line_end @ ''y''\<rparr> @
                 fetch_record \<lparr>msg_id = ''c'', Raw = []\<rparr>) =
   Some [(''a b'', ''id x 3'' @ line_end @ ''y''), (''c'', [])]"
proof -
  let ?ms = "[\<lparr>msg_id = ''a b'', Raw = ''id x 3'' @ line_end @ ''y''\<rparr>, \<lparr>msg_id = ''c'', Raw = []\<rparr>]"
  have "m \<in> set ?ms \<Longrightarrow> CHR 0x0A \<notin> set (msg_id m)" for m by auto
  from plain_batches_read_back [of ?ms, OF this] show ?thesis by simp
qed

text \<open>An id with a line end is another matter: a reader takes the rest of it for something else.\<close>

lemma line_end_in_an_id:
  "read_records (fetch_record \<lparr>msg_id = ''a 0'' @ line_end @ line_end @ ''id b'', Raw = ''x''\<rparr>) =
   Some [(''a'', []), (''b'', ''x'')]"
  by code_simp

subsection \<open>Exit codes\<close>

text \<open>
  A message that is queued but refused by the transport ends in failed; the command says so and
  exits with 0 all the same.
\<close>

definition one_slot :: "outbound_message store" where
  "one_slot =
     \<lparr>Write = (\<lambda>m w. (Inr (), m)), Remove = (\<lambda>s i w. (Inr (), w)), Find = (\<lambda>i w. (Inr w, w)),
      ListState = (\<lambda>s w. (Inr (if om_State w = s then [om_ID w] else []), w)), FindIn = None, Locker = None\<rparr>"

definition refusing :: "outbound_message outbox" where
  "refusing = NewOutbox one_slot \<lparr>Send = (\<lambda>m w. (Inl (Failure ''550 no''), w)), SelfAddress = None\<rparr>"

lemma failed_delivery_exits_with_zero:
  "case deliverNow reference_statekit refusing default_flags ''m1''
          (empty_message\<lparr>om_ID := ''m1'', om_To := [''you@x''], om_State := ''queued''\<rparr>) of
     (out, w) \<Rightarrow> om_State w = ''failed'' \<and> exit_code out = 0 \<and>
                stdout out = [Text (''failed: m1'' @ line_end)] \<and> stderr out = []"
  by code_simp

end
