(* ===== verification/Platform.thy ===== *)
theory Platform
  imports Outbox_Store
begin

section \<open>Watching a Maildir, and the outbox lock on Windows\<close>

text \<open>
  Two loops over what the operating system answers (infrastructure/maildir/watcher.go and
  outboxlock_windows.go).  The answers are a list, taken one by one; each loop says how many of them
  it takes and with what it ends.
\<close>

subsection \<open>Watching\<close>

text \<open>One turn of the select: the caller is done, an event with its operations, an error, or a closed channel.\<close>

datatype file_op = OpCreate | OpWrite | OpRemove | OpRename | OpChmod

datatype watch_answer =
    CallerDone error
  | FileEvent "file_op list"
  | EventsClosed
  | WatchError error
  | ErrorsClosed

definition arrived :: "file_op list \<Rightarrow> bool" where
  "arrived op \<longleftrightarrow> OpCreate \<in> set op \<or> OpRename \<in> set op"

text \<open>How often \<open>onChange\<close> was called, and what \<open>Watch\<close> returned; nothing while it still waits.\<close>

fun local_watch_loop :: "watch_answer list \<Rightarrow> nat \<times> error option option" where
  "local_watch_loop [] = (0, None)"
| "local_watch_loop (CallerDone e # as) = (0, Some (Some e))"
| "local_watch_loop (FileEvent op # as) =
     (case local_watch_loop as of (n, r) \<Rightarrow> (if arrived op then Suc n else n, r))"
| "local_watch_loop (EventsClosed # as) = (0, Some None)"
| "local_watch_loop (WatchError e # as) = (0, Some (Some e))"
| "local_watch_loop (ErrorsClosed # as) = (0, Some None)"

definition maildir_Watch ::
  "error option \<Rightarrow> error option \<Rightarrow> watch_answer list \<Rightarrow> nat \<times> error option option" where
  "maildir_Watch new_watcher add_dir as =
     (case new_watcher of
        Some e \<Rightarrow> (0, Some (Some e))
      | None \<Rightarrow> (case add_dir of Some e \<Rightarrow> (0, Some (Some e)) | None \<Rightarrow> local_watch_loop as))"

fun file_event :: "watch_answer \<Rightarrow> file_op list option" where
  "file_event (FileEvent op) = Some op"
| "file_event a = None"

text \<open>The caller hears of exactly the arrivals before the watch ended.\<close>

lemma watch_counts_arrivals:
  "fst (local_watch_loop as) =
   length (filter (\<lambda>a. case file_event a of Some op \<Rightarrow> arrived op | None \<Rightarrow> False)
             (takeWhile (\<lambda>a. file_event a \<noteq> None) as))"
  by (induction as rule: local_watch_loop.induct) (auto split: prod.split)

text \<open>A file moved out of the directory, as marking a message seen does, is announced like one that arrived.\<close>

lemma departures_are_announced: "fst (maildir_Watch None None [FileEvent [OpRename]]) = 1"
  by (simp add: maildir_Watch_def arrived_def)

subsection \<open>The lock on Windows\<close>

text \<open>What opening the file without sharing answers; an exhausted list opens.\<close>

datatype open_answer = Opened | SharingViolation | AccessDenied | OpenFailed

fun windows_loop :: "bool \<Rightarrow> open_answer list \<Rightarrow> (error + bool) \<times> open_answer list" where
  "windows_loop block [] = (Inr True, [])"
| "windows_loop block (a # as) =
     (if a = Opened then (Inr True, as)
      else if a \<noteq> SharingViolation \<and> a \<noteq> AccessDenied then (Inl (Failure ''open lock''), as)
      else if \<not> block then (Inr False, as)
      else windows_loop block as)"

text \<open>It waits as the Unix lock does where the file is held: a wait never ends in being told it is held.\<close>

lemma windows_wait_is_granted_or_fails:
  "fst (windows_loop True as) \<noteq> Inr False"
  by (induction as) auto

text \<open>A file that may not be opened at all is taken for one that is held: a probe reports it held, a wait goes on for as long as that lasts.\<close>

lemma denied_is_taken_for_held:
  "windows_loop False (AccessDenied # as) = (Inr False, as)"
  "windows_loop True (replicate n AccessDenied @ as) = windows_loop True as"
  by simp (induction n, simp_all)

end
