(* ===== verification/Spec2Isabelle.thy ===== *)
theory Spec2Isabelle
  imports Compose Outbox_Histories Maildir_Folders Switchable Resilience_Facts Basic_Auth
    Config_Restart Runtime_Safety Imap_Interleaving Imap_Safety Imap_Watch
    Resource_Safety Cli_Safety Platform
begin

text \<open>
  A verification library for briefkasten, a mail server for language models: it exposes a mailbox
  (a local Maildir or an IMAP server) as tools, and sends mail through an outbox on disk.

  \<^bold>\<open>The program and how its parts meet.\<close>  A tool call reaches a use case of
  \<open>application/service.go\<close> (or \<open>compose.go\<close> for replies and forwards), which resolves an account and
  a folder to a mailbox: the Maildir backend, or the IMAP backend behind the resilience decorator,
  either of them behind a switchable slot when the configuration may change at run time.  Optional
  interfaces of a backend decide whether the use case delegates or falls back to a loop of its own.
  Outbound mail is validated (\<open>domain/outbound.go\<close>), written as a record of the outbox store, moved
  along a statechart by a worker (\<open>application/outbox.go\<close>), rendered (\<open>domain/render.go\<close>) and handed
  to a transport (\<open>smtp/smtp.go\<close> or a local Maildir).  A configuration (\<open>config.go\<close>) says what is
  built; two tools inspect and change it while the server runs (\<open>runtime.go\<close>).  Calls over HTTP
  pass the basic-authentication middleware first.

  \<^bold>\<open>Conventions.\<close>  Operations are state-passing functions into \<open>error + 'a\<close> and the next world; an
  error keeps what \<open>errors.Is\<close> can see of it (\<open>Wraps\<close> a sentinel) and otherwise a short text, so
  that messages are not reproduced word for word.  Go strings are byte lists.  A Go \<open>int\<close> that is
  only compared is an \<open>int\<close>; byte totals, which are added up, and the delays of the watcher, which
  are doubled, are 64-bit words, and the UIDs of IMAP 32-bit words.  A context is a function from
  the world to the error \<open>ctx.Err()\<close> gives there.  Go's map iteration order is an argument wherever
  it can be observed.  Optional interfaces are fields of type \<open>option\<close>.

  \<^bold>\<open>Theories and sources.\<close>
  \<^item> Prelude: byte-string functions of the standard library, errors and \<open>errors.Is\<close>, effects, lists.
    Effects: sequences of effects that may fail, and rules for what a sequence keeps.
  \<^item> Mail_Domain (\<open>domain/mailbox.go\<close>): scopes, folder rules, batch and byte limits, results.
  \<^item> Outbound (\<open>domain/outbound.go\<close>, \<open>outbox.go\<close>): messages, their validation, the lifecycle.
  \<^item> Reply (\<open>domain/reply.go\<close>, \<open>plaintext.go\<close>), Render (\<open>domain/render.go\<close>), Compose
    (\<open>application/compose.go\<close>): what a reply or forward is, its text on the wire, its planning.
  \<^item> Service (\<open>application/service.go\<close>): every use case over a record of backend operations.
  \<^item> Outbox (\<open>application/outbox.go\<close>): every operation of the outbox over a store and a sender.
    Outbox_Laws states what it promises over any store with the laws of the locale
    \<open>outbox_ports\<close>, in terms of an abstract ledger; Outbox_Recovery extends the locale by a working
    disk and proves what a recovery leaves.
  \<^item> Filesystem: Go's \<open>os\<close> calls on a tree of directories and files, each call consulting a script
    that lets it work, fail, or cuts the process off in it.  Outbox_Store
    (\<open>maildir/outboxstore.go\<close>, \<open>outboxlock_unix.go\<close>) is the store on it, and interprets the
    locales; Outbox_Histories runs any sequence of calls, crashes and restarts on one directory.
  \<^item> Maildir (\<open>maildir/maildir.go\<close>, \<open>sender.go\<close>, \<open>mailheaders/parse.go\<close>): the local backend on the
    same file system; Maildir_Facts, Maildir_Curation and Maildir_Folders hold its lemmas and the
    interpretations of the contracts the use cases rely on.
  \<^item> Switchable (\<open>application/switchable.go\<close>, \<open>switchable_sender.go\<close>), Resilience with
    Resilience_Facts (\<open>resilience/resilience.go\<close>): the two decorators.
  \<^item> Basic_Auth (\<open>mcpserver/basicauth.go\<close>): the attempt limiter and the middleware.
  \<^item> Oauth (\<open>auth/oauth.go\<close>): settings shared by pointer on a heap, credentials files, tokens.
    Smtp (\<open>smtp/smtp.go\<close>): one attempt and the retried send.
  \<^item> Config (\<open>config.go\<close>) with Config_Restart: defaults, file, environment, saving, and what is
    built from a configuration.  Runtime (\<open>runtime.go\<close>) with Runtime_Facts and Runtime_Safety: the
    two tools, the commit into the slots of the running server, profiles, accounts, start-up.
  \<^item> Imap, Imap_Session, Imap_Reading, Imap_Folders, Imap_Moving (\<open>imap/imap.go\<close>): the mailbox over
    IMAP.  A session is the mailbox with its pool of one connection, and the host; an operation
    takes a connection, runs its commands on it and gives it back (\<open>withConn\<close>).  Imap_Pool holds
    what every operation keeps of the pool, Imap_Interleaving the steps of concurrent callers,
    Imap_Batches and Imap_Safety the properties of the operations, and Imap_Demo a server in memory
    that obeys the laws asked for, on which the concrete runs take place.
  \<^item> Imap_Watch (\<open>imap/watcher.go\<close>): the session in IDLE and the reconnect loop.
  \<^item> Tools (\<open>mcpserver/server.go\<close>, \<open>NewServer\<close> of \<open>briefkasten.go\<close>): the tools of the server, each
    with its arguments, the question it asks and the answer it gives.  Tool_Safety says what that
    question is worth, and interprets the locale of the services whose reading operations only read
    on the services over local mailboxes.  Resources (\<open>resources.go\<close>, \<open>prompts.go\<close>): what the
    server shows; Resource_Safety extends that locale and shows that showing changes nothing.
  \<^item> Cli (\<open>cmd/briefkasten/cli.go\<close>): the flags, every command, its output and its exit code.  Startup
    (\<open>main.go\<close>, \<open>cli.go\<close>): the configuration a command finds and what it runs over, the choice of
    the transport, the outbox worker.  Cli_Safety: the commands beside the tools.
  \<^item> Platform (\<open>maildir/watcher.go\<close>, \<open>outboxlock_windows.go\<close>): the loops over what the file notifier
    and Windows answer.  Decimal: numbers as they are printed and read back.

  \<^bold>\<open>What is proved.\<close>  For the outbox, over every history with faults and crashes: no accepted letter
  is lost, no letter is delivered more often than it was requested, a record is never torn, and a
  recovery on a working disk leaves exactly one settled copy per letter.  For the use cases: batches
  account for every id, refused ones do nothing, pages tile a listing, and the fetch budget is
  measured first (and can be wrapped around by the sizes of a backend).  For the Maildir: no name
  leads outside its root, reading changes nothing, filing and moving keep the bytes, folder deletion
  keeps every file, delivery is atomic; and the limits of that, such as two messages of one id filed
  after another.  For IMAP: who owns a connection and where it is SELECTed, moves that are refused
  without a safe command and reported only when they happened, deletions of empty folders alone,
  batches that account for every id.  For the watcher: its delays, that it retries what may pass,
  and that it ends with its context.  For replies: audience, threading, subject marks, quoting.  For
  rendering: no header injection, wrapped base64.  For the decorators: that they are transparent,
  and where they are not.  For the limiter: bounded memory and delays, and gated calls.  For the
  configuration: credentials stay with their address, requests stay within what was declared, the
  slots follow the configuration, saving and loading restore it.  For the tools and the command
  line: nothing is done without consent, the consent covers what is queued, unclear requests ask
  nobody, the two interfaces agree, batches read back, and configured credentials are enforced.

  \<^bold>\<open>Bounds and recursion.\<close>  Every loop of the modelled code runs over a list and is structural
  recursion, except \<open>readTextBody\<close>, which recurses on the nesting depth up to the constant of the
  code, the string walks of the prelude, which shorten their argument, and the two loops of the
  watcher, which may run for ever: they are partial functions whose value \<open>None\<close> is that they do
  not return.  A mailbox resolves folders one level deep, as the code does: the folder of a folder
  is not offered.  No fuel is used.

  \<^bold>\<open>Parameters.\<close>  Code outside the repository is an argument: the mail and media-type parsers
  (\<open>mail_lib\<close>), quoted-printable and word encoding (\<open>render_lib\<close>), the statechart library
  (\<open>statekit\<close>), the three resilience executors (\<open>fortify\<close>), the clients of SMTP and IMAP
  (\<open>smtp_lib\<close>, \<open>imap_lib\<close>, \<open>watch_lib\<close>: each command an effect on the host that may fail), the
  OAuth2 library (\<open>google_lib\<close>), YAML, base64, password hashing and address splitting, the question
  put to the human, the JSON of a record (a file holds a record or damage), random ids, the clock.
  What a theorem asks of such an argument is a hypothesis of it, such as that only SELECT changes
  the mailbox of a connection.

  \<^bold>\<open>Not modelled.\<close>  What is handed to the server library and carries no behaviour (names, descriptions, schemas, the
  page of the user interface, version and instructions); logging, signals and the goroutines that
  start the watcher of a running server; the wording of help texts; and the parts of the TLS and
  dialer options the libraries read.
\<close>

section \<open>Facts across components\<close>

text \<open>The search by sender hands the scope of the request to the backend as it is, where the plain
  search parses it first: over the local mailbox a request without a scope is answered by the one
  and refused by the other.\<close>

lemma List_of_no_scope:
  "cx w = None \<Longrightarrow> List cx m [] w = (Inl (Wraps ErrBadScope [Str []]), w)"
  by (simp add: List_def at_the_door_def scope_subs_def ScopeUnread_def ScopeRead_def ScopeAll_def)

lemma searching_by_sender_needs_a_scope:
  assumes "cx w = None" "trim_space who \<noteq> []"
  shows "SearchMessagesFrom cx (NewService (maildir_mailbox lib ds cx m) accs w) [] [] query who []
           offset limit includeHeaders w =
         (Inl (Wraps ErrBadScope [Str []]), w)"
    and "service_SearchScope cx (NewService (maildir_mailbox lib ds cx m) accs w) [] [] query [] w =
         SearchScope cx m ScopeUnread query w"
  using assms
  by (simp_all add: SearchMessagesFrom_def Resolve_def NewService_def maildir_mailbox_def
      maildir_ports_def SearchFromScope_def SearchScope_def List_of_no_scope
      service_SearchScope_def searchMailbox_def ParseScope_def)

end
